(* ===== verification/Prelude.thy ===== *)
theory Prelude
  imports Main "HOL-Library.Char_ord" "HOL-Library.List_Lexorder" "HOL-Library.Code_Target_Nat"
begin

text \<open>
  Shared vocabulary of the development: Go errors as values, the error monad in which the
  fallible functions are written, and the generic facts on lists, sorted lists and finite
  maps that several components use.  Strings are byte strings (\<open>char list\<close>), compared
  byte by byte as Go compares strings and as bbolt compares keys.
\<close>

named_theorems result_simps \<open>equations that evaluate the error monad\<close>
named_theorems lex_simps \<open>comparison of byte strings built from parts of fixed length\<close>

section \<open>Errors\<close>

text \<open>
  The errors the program returns: \<open>ConfigError\<close> is the string type of the same name in
  internal/config; \<open>Wrapped p e\<close> is \<open>fmt.Errorf(p + "%w", e)\<close>; \<open>Errorf\<close> is
  \<open>fmt.Errorf\<close> without a wrapped error; \<open>External\<close> is an error value handed over
  by code outside the repository; \<open>Panic\<close> is a run-time panic (a nil dereference).
\<close>

datatype go_error =
    ConfigError string
  | Wrapped string go_error
  | Errorf string
  | External string
  | Panic string

fun Error :: "go_error \<Rightarrow> string" where
  "Error (ConfigError m) = m"
| "Error (Wrapped p e) = p @ Error e"
| "Error (Errorf m) = m"
| "Error (External m) = m"
| "Error (Panic m) = m"

type_synonym 'a result = "go_error + 'a"

definition bindE :: "'a result \<Rightarrow> ('a \<Rightarrow> 'b result) \<Rightarrow> 'b result" where
  "bindE m f = (case m of Inl e \<Rightarrow> Inl e | Inr x \<Rightarrow> f x)"

declare bindE_def [code_unfold]

lemma bindE_Inl [simp, result_simps]: "bindE (Inl e) f = Inl e"
  by (simp add: bindE_def)

lemma bindE_Inr [simp, result_simps]: "bindE (Inr x) f = f x"
  by (simp add: bindE_def)

lemma bindE_eq_Inr [result_simps]: "bindE m f = Inr y \<longleftrightarrow> (\<exists>x. m = Inr x \<and> f x = Inr y)"
  by (cases m) auto

lemma bindE_eq_Inl [result_simps]:
  "bindE m f = Inl e \<longleftrightarrow> m = Inl e \<or> (\<exists>x. m = Inr x \<and> f x = Inl e)"
  by (cases m) auto

text \<open>A guard: \<open>if c { return err }\<close>, otherwise the rest of the function.\<close>

definition failIf :: "bool \<Rightarrow> go_error \<Rightarrow> unit result" where
  "failIf c e = (if c then Inl e else Inr ())"

lemma failIf_simps [simp, result_simps]:
  "failIf True e = Inl e" "failIf False e = Inr ()"
  by (simp_all add: failIf_def)

lemma failIf_eq_Inr [result_simps]: "failIf c e = Inr u \<longleftrightarrow> \<not> c"
  by (simp add: failIf_def)

lemma failIf_eq_Inl [result_simps]: "failIf c e = Inl e' \<longleftrightarrow> c \<and> e' = e"
  by (auto simp: failIf_def)

definition isOk :: "'a result \<Rightarrow> bool" where
  "isOk r = (case r of Inl _ \<Rightarrow> False | Inr _ \<Rightarrow> True)"

lemma isOk_simps [simp, result_simps]: "isOk (Inl e) = False" "isOk (Inr x) = True"
  by (simp_all add: isOk_def)

lemma isOk_iff: "isOk r \<longleftrightarrow> (\<exists>x. r = Inr x)"
  by (cases r) auto

section \<open>Byte strings built from fixed-length parts\<close>

lemma append_less_append [lex_simps]:
  fixes xs ys :: "'a::linorder list"
  assumes "length xs = length ys"
  shows "xs @ us < ys @ vs \<longleftrightarrow> xs < ys \<or> xs = ys \<and> us < vs"
  using assms by (induction xs ys rule: list_induct2) auto

lemma append_eq_append_len [lex_simps]:
  "length xs = length ys \<Longrightarrow> xs @ us = ys @ vs \<longleftrightarrow> xs = ys \<and> us = vs"
  by simp

lemma less_append_same [simp]:
  fixes xs :: "'a::linorder list"
  shows "xs @ us < xs @ vs \<longleftrightarrow> us < vs"
  by (induction xs) auto

text \<open>Between a string and an extension of it there are only extensions of it.\<close>

lemma le_append [simp]: "(p :: 'a::linorder list) \<le> p @ r"
  by (induction p) auto

lemma between_extensions:
  fixes p :: "'a::linorder list"
  shows "p \<le> k \<Longrightarrow> k < p @ r \<Longrightarrow> \<exists>s. k = p @ s"
proof (induction p arbitrary: k)
  case (Cons c p)
  then obtain k' where "k = c # k'" by (cases k) auto
  with Cons show ?case by auto
qed simp

section \<open>Lists sorted by a strict order\<close>

text \<open>The entries a cursor visits: strictly increasing keys, hence no key twice.\<close>

abbreviation sorted_keys :: "('k::linorder \<times> 'v) list \<Rightarrow> bool" where
  "sorted_keys ps \<equiv> sorted_wrt (<) (map fst ps)"

lemma sorted_keys_distinct: "sorted_keys ps \<Longrightarrow> distinct (map fst ps)"
  using strict_sorted_iff by blast

lemma sorted_keys_map_of_mem:
  "sorted_keys ps \<Longrightarrow> (k, v) \<in> set ps \<longleftrightarrow> map_of ps k = Some v"
  by (simp add: sorted_keys_distinct)

lemma find_eq_None_iff: "find P xs = None \<longleftrightarrow> (\<forall>x \<in> set xs. \<not> P x)"
  by (induction xs) auto

lemma find_SomeD: "find P xs = Some x \<Longrightarrow> P x \<and> x \<in> set xs"
  by (induction xs) (auto split: if_splits)

lemma in_take_or_drop: "x \<in> set xs \<Longrightarrow> x \<in> set (take n xs) \<or> x \<in> set (drop n xs)"
  by (metis Un_iff append_take_drop_id set_append)

lemma sorted_wrt_take_drop:
  "sorted_wrt rel xs \<Longrightarrow> x \<in> set (take n xs) \<Longrightarrow> y \<in> set (drop n xs) \<Longrightarrow> rel x y"
  by (metis append_take_drop_id sorted_wrt_append)

section \<open>Finite maps\<close>

text \<open>
  Go maps are modelled as \<open>'k \<rightharpoonup> 'v\<close>.  The order in which \<open>range\<close> visits a map is not
  specified by the language, so the functions that range over a map take the order of the visit as
  an argument, and their properties hold for every enumeration of the keys.
\<close>

definition iterates :: "('k \<rightharpoonup> 'v) \<Rightarrow> 'k list \<Rightarrow> bool" where
  "iterates m ord \<longleftrightarrow> distinct ord \<and> set ord = dom m"

definition visit :: "('k \<rightharpoonup> 'v) \<Rightarrow> 'k list \<Rightarrow> ('k \<times> 'v) list" where
  "visit m ord = List.map_filter (\<lambda>k. map_option (Pair k) (m k)) ord"

lemma visit_Nil [simp]: "visit m [] = []"
  by (simp add: visit_def map_filter_simps)

lemma visit_Cons [simp]:
  "visit m (k # ks) = (case m k of None \<Rightarrow> visit m ks | Some v \<Rightarrow> (k, v) # visit m ks)"
  by (simp add: visit_def map_filter_simps split: option.splits)

lemma set_visit: "set (visit m ord) = {(k, v). k \<in> set ord \<and> m k = Some v}"
  by (induction ord) (auto split: option.splits)

lemma set_visit_iterates: "iterates m ord \<Longrightarrow> set (visit m ord) = {(k, v). m k = Some v}"
  by (auto simp: set_visit iterates_def)

lemma fst_visit: "set ord \<subseteq> dom m \<Longrightarrow> map fst (visit m ord) = ord"
  by (induction ord) (auto split: option.splits)

lemma fst_visit_iterates: "iterates m ord \<Longrightarrow> map fst (visit m ord) = ord"
  by (simp add: fst_visit iterates_def)

lemma distinct_visit: "iterates m ord \<Longrightarrow> distinct (visit m ord)"
  by (metis distinct_map fst_visit_iterates iterates_def)

lemma length_visit: "iterates m ord \<Longrightarrow> length (visit m ord) = card (dom m)"
  by (metis distinct_card fst_visit_iterates iterates_def length_map)

lemma iterates_finite: "iterates m ord \<Longrightarrow> finite (dom m)"
  by (metis List.finite_set iterates_def)

lemma map_of_visit: "iterates m ord \<Longrightarrow> map_of (visit m ord) = m"
proof
  fix k
  assume it: "iterates m ord"
  have d: "distinct (map fst (visit m ord))"
    using it by (simp add: fst_visit_iterates) (simp add: iterates_def)
  show "map_of (visit m ord) k = m k"
  proof (cases "m k")
    case None
    then have "k \<notin> fst ` set (visit m ord)" by (auto simp: set_visit)
    with None show ?thesis by (simp add: map_of_eq_None_iff)
  next
    case (Some v)
    then have "(k, v) \<in> set (visit m ord)" using it by (simp add: set_visit_iterates)
    with Some d show ?thesis by simp
  qed
qed

end
