(* ===== verification/GoStrings.thy ===== *)
theory GoStrings
  imports Prelude
begin

text \<open>
  The functions of Go's strings and strconv packages that the program calls, on byte strings:
  prefixes and suffixes, trimming, cutting, splitting, decimal conversion.  They are library code,
  so no definition of this theory stands for a line under src/; each one is the documented
  behaviour of the function it is named after.
\<close>

section \<open>Characters\<close>

definition byte :: "char \<Rightarrow> nat" where
  "byte c = of_char c"

definition isDigit :: "char \<Rightarrow> bool" where
  "isDigit c \<longleftrightarrow> 48 \<le> byte c \<and> byte c \<le> 57"

definition digitChar :: "nat \<Rightarrow> char" where
  "digitChar n = char_of (48 + n)"

definition digitVal :: "char \<Rightarrow> nat" where
  "digitVal c = byte c - 48"

lemma byte_digitChar: "n < 10 \<Longrightarrow> byte (digitChar n) = 48 + n"
  by (simp add: byte_def digitChar_def)

lemma isDigit_digitChar [simp]: "n < 10 \<Longrightarrow> isDigit (digitChar n)"
  by (simp add: isDigit_def byte_digitChar)

lemma digitVal_digitChar [simp]: "n < 10 \<Longrightarrow> digitVal (digitChar n) = n"
  by (simp add: digitVal_def byte_digitChar)

lemma digitChar_less: "m < 10 \<Longrightarrow> n < 10 \<Longrightarrow> digitChar m < digitChar n \<longleftrightarrow> m < n"
  by (simp add: less_char_def digitChar_def)

lemma digitChar_inj: "m < 10 \<Longrightarrow> n < 10 \<Longrightarrow> digitChar m = digitChar n \<longleftrightarrow> m = n"
  by (metis digitVal_digitChar)

lemma byte_inject [simp]: "byte c = byte d \<longleftrightarrow> c = d"
  by (simp add: byte_def)

section \<open>Decimal numbers\<close>

fun utoa :: "nat \<Rightarrow> string" where
  "utoa n = (if n < 10 then [digitChar n] else utoa (n div 10) @ [digitChar (n mod 10)])"

declare utoa.simps [simp del]

definition Itoa :: "int \<Rightarrow> string" where
  "Itoa i = (if i < 0 then CHR ''-'' # utoa (nat (- i)) else utoa (nat i))"

text \<open>Decimal number of exactly \<open>w\<close> digits, and the zero padding of package time.\<close>

primrec fixedDigits :: "nat \<Rightarrow> nat \<Rightarrow> string" where
  "fixedDigits 0 n = []"
| "fixedDigits (Suc w) n = fixedDigits w (n div 10) @ [digitChar (n mod 10)]"

definition padded :: "nat \<Rightarrow> nat \<Rightarrow> string" where
  "padded w n = replicate (w - length (utoa n)) CHR ''0'' @ utoa n"

definition digitsVal :: "string \<Rightarrow> nat" where
  "digitsVal s = foldl (\<lambda>a c. 10 * a + digitVal c) 0 s"

lemma length_fixedDigits [simp]: "length (fixedDigits w n) = w"
  by (induction w arbitrary: n) simp_all

lemma fixedDigits_all_digits: "list_all isDigit (fixedDigits w n)"
  by (induction w arbitrary: n) simp_all

lemma digitsVal_fixedDigits: "n < 10 ^ w \<Longrightarrow> digitsVal (fixedDigits w n) = n"
proof (induction w arbitrary: n)
  case 0
  then show ?case by (simp add: digitsVal_def)
next
  case (Suc w)
  then have "digitsVal (fixedDigits w (n div 10)) = n div 10"
    by (simp add: less_mult_imp_div_less)
  then show ?case by (simp add: digitsVal_def)
qed

lemma append1_less: "length xs = length ys \<Longrightarrow>
    xs @ [a] < ys @ [b] \<longleftrightarrow> xs < ys \<or> xs = ys \<and> a < (b :: 'a::linorder)"
  by (simp add: lex_simps)

lemma fixedDigits_eq:
  "m < 10 ^ w \<Longrightarrow> n < 10 ^ w \<Longrightarrow> fixedDigits w m = fixedDigits w n \<longleftrightarrow> m = n"
  by (metis digitsVal_fixedDigits)

lemma less_iff_div_mod:
  fixes m n k :: nat
  assumes "0 < k"
  shows "m < n \<longleftrightarrow> m div k < n div k \<or> m div k = n div k \<and> m mod k < n mod k"
proof
  assume "m < n"
  then have "m div k \<le> n div k" by (simp add: div_le_mono)
  moreover have "m mod k < n mod k" if "m div k = n div k"
    using \<open>m < n\<close> that by (metis add_less_cancel_left div_mult_mod_eq)
  ultimately show "m div k < n div k \<or> m div k = n div k \<and> m mod k < n mod k"
    by auto
next
  assume "m div k < n div k \<or> m div k = n div k \<and> m mod k < n mod k"
  then show "m < n"
    by (metis add_less_cancel_left div_le_mono div_mult_mod_eq linorder_not_le)
qed

lemma fixedDigits_less:
  "m < 10 ^ w \<Longrightarrow> n < 10 ^ w \<Longrightarrow> fixedDigits w m < fixedDigits w n \<longleftrightarrow> m < n"
proof (induction w arbitrary: m n)
  case 0
  then show ?case by simp
next
  case (Suc w)
  have m: "m div 10 < 10 ^ w" and n: "n div 10 < 10 ^ w"
    using Suc.prems by (simp_all add: less_mult_imp_div_less)
  have "fixedDigits (Suc w) m < fixedDigits (Suc w) n \<longleftrightarrow>
      m div 10 < n div 10 \<or> m div 10 = n div 10 \<and> m mod 10 < n mod 10"
    using Suc.IH [OF m n] fixedDigits_eq [OF m n] by (simp add: append1_less digitChar_less)
  also have "\<dots> \<longleftrightarrow> m < n" by (simp add: less_iff_div_mod [of 10 m n])
  finally show ?case .
qed

lemma utoa_bound: "n < 10 ^ length (utoa n)"
proof (induction n rule: utoa.induct)
  case (1 n)
  show ?case
  proof (cases "n < 10")
    case True
    then show ?thesis by (simp add: utoa.simps [of n])
  next
    case False
    then have "n div 10 < 10 ^ length (utoa (n div 10))" by (rule 1)
    with False show ?thesis by (simp add: utoa.simps [of n])
  qed
qed

lemma utoa_all_digits: "list_all isDigit (utoa n)"
proof (induction n rule: utoa.induct)
  case (1 n)
  then show ?case by (cases "n < 10") (simp_all add: utoa.simps [of n])
qed

lemma utoa_nonempty [simp]: "utoa n \<noteq> []"
  by (simp add: utoa.simps)

lemma digitsVal_utoa [simp]: "digitsVal (utoa n) = n"
proof (induction n rule: utoa.induct)
  case (1 n)
  then show ?case by (cases "n < 10") (simp_all add: utoa.simps [of n] digitsVal_def)
qed

lemma length_utoa_le: "0 < w \<Longrightarrow> n < 10 ^ w \<Longrightarrow> length (utoa n) \<le> w"
proof (induction w arbitrary: n)
  case 0
  then show ?case by simp
next
  case (Suc w)
  show ?case
  proof (cases "n < 10")
    case True
    then show ?thesis by (simp add: utoa.simps [of n])
  next
    case False
    then have "w \<noteq> 0" using Suc.prems by (cases w) auto
    then have "length (utoa (n div 10)) \<le> w"
      using Suc by (simp add: less_mult_imp_div_less)
    with False show ?thesis by (simp add: utoa.simps [of n])
  qed
qed

lemma fixedDigits_zero: "fixedDigits w 0 = replicate w CHR ''0''"
proof (induction w)
  case (Suc w)
  have "digitChar 0 = CHR ''0''" by code_simp
  with Suc show ?case by (simp add: replicate_append_same)
qed simp

lemma fixedDigits_eq_padding:
  "length (utoa n) \<le> w \<Longrightarrow>
   fixedDigits w n = replicate (w - length (utoa n)) CHR ''0'' @ utoa n"
proof (induction n arbitrary: w rule: utoa.induct)
  case (1 n)
  then obtain v where w: "w = Suc v" by (cases w) auto
  show ?case
  proof (cases "n < 10")
    case True
    then show ?thesis using w by (simp add: utoa.simps [of n] fixedDigits_zero)
  next
    case False
    with 1 w show ?thesis by (simp add: utoa.simps [of n])
  qed
qed

lemma padded_fixed: "0 < w \<Longrightarrow> n < 10 ^ w \<Longrightarrow> padded w n = fixedDigits w n"
  by (simp add: padded_def fixedDigits_eq_padding length_utoa_le)

text \<open>\<open>strconv.Atoi\<close> on a 64-bit platform: an optional sign, at least one digit, in range.\<close>

definition Atoi :: "string \<Rightarrow> int result" where
  "Atoi s =
     (let (neg, ds) = (case s of [] \<Rightarrow> (False, [])
                       | c # cs \<Rightarrow> if c = CHR ''-'' then (True, cs)
                                   else if c = CHR ''+'' then (False, cs) else (False, s));
          v = (if neg then - int (digitsVal ds) else int (digitsVal ds))
      in if ds = [] \<or> \<not> list_all isDigit ds
         then Inl (External (''strconv.Atoi: invalid syntax''))
         else if v < - (2 ^ 63) \<or> 2 ^ 63 \<le> v
         then Inl (External (''strconv.Atoi: value out of range''))
         else Inr v)"

lemma minus_not_digit: "\<not> isDigit (CHR ''-'')" "\<not> isDigit (CHR ''+'')"
  by (simp_all add: isDigit_def byte_def)

lemma Atoi_Itoa: "- (2 ^ 63) \<le> i \<Longrightarrow> i < 2 ^ 63 \<Longrightarrow> Atoi (Itoa i) = Inr i"
proof (cases "i < 0")
  case True
  then show "- (2 ^ 63) \<le> i \<Longrightarrow> i < 2 ^ 63 \<Longrightarrow> ?thesis"
    by (simp add: Atoi_def Itoa_def utoa_all_digits)
next
  case False
  obtain c cs where u: "utoa (nat i) = c # cs" by (cases "utoa (nat i)") auto
  then have "isDigit c" using utoa_all_digits [of "nat i"] by simp
  then have "c \<noteq> CHR ''-''" "c \<noteq> CHR ''+''" using minus_not_digit by auto
  with False show "- (2 ^ 63) \<le> i \<Longrightarrow> i < 2 ^ 63 \<Longrightarrow> ?thesis"
    using utoa_all_digits [of "nat i"] digitsVal_utoa [of "nat i"]
    by (simp add: Atoi_def Itoa_def u)
qed

section \<open>Prefixes, suffixes, search\<close>

definition HasPrefix :: "string \<Rightarrow> string \<Rightarrow> bool" where
  "HasPrefix s p \<longleftrightarrow> take (length p) s = p"

definition HasSuffix :: "string \<Rightarrow> string \<Rightarrow> bool" where
  "HasSuffix s p \<longleftrightarrow> length p \<le> length s \<and> drop (length s - length p) s = p"

definition TrimPrefix :: "string \<Rightarrow> string \<Rightarrow> string" where
  "TrimPrefix s p = (if HasPrefix s p then drop (length p) s else s)"

definition TrimSuffix :: "string \<Rightarrow> string \<Rightarrow> string" where
  "TrimSuffix s p = (if HasSuffix s p then take (length s - length p) s else s)"

fun Contains :: "string \<Rightarrow> string \<Rightarrow> bool" where
  "Contains [] p = (p = [])"
| "Contains (c # cs) p = (HasPrefix (c # cs) p \<or> Contains cs p)"

text \<open>\<open>strings.Cut\<close> with a one-byte separator: before, after, found.\<close>

fun Cut :: "string \<Rightarrow> char \<Rightarrow> string \<times> string \<times> bool" where
  "Cut [] d = ([], [], False)"
| "Cut (c # cs) d = (if c = d then ([], cs, True)
     else (let (b, a, ok) = Cut cs d in (c # b, a, ok)))"

text \<open>\<open>strings.Split\<close> with a one-byte separator.\<close>

fun Split :: "string \<Rightarrow> char \<Rightarrow> string list" where
  "Split [] d = [[]]"
| "Split (c # cs) d = (if c = d then [] # Split cs d
     else (case Split cs d of [] \<Rightarrow> [[c]] | x # xs \<Rightarrow> (c # x) # xs))"

fun Join :: "string list \<Rightarrow> string \<Rightarrow> string" where
  "Join [] sep = []"
| "Join [x] sep = x"
| "Join (x # y # ys) sep = x @ sep @ Join (y # ys) sep"

lemma HasPrefix_append [simp]: "HasPrefix (p @ s) p"
  by (simp add: HasPrefix_def)

lemma HasPrefix_iff: "HasPrefix s p \<longleftrightarrow> (\<exists>r. s = p @ r)"
  by (metis HasPrefix_append HasPrefix_def append_take_drop_id)

lemma HasSuffix_iff: "HasSuffix s p \<longleftrightarrow> (\<exists>r. s = r @ p)"
  unfolding HasSuffix_def by (metis append_eq_conv_conj append_take_drop_id diff_add_inverse2 le_add2 length_append)

lemma TrimPrefix_append [simp]: "TrimPrefix (p @ s) p = s"
  by (simp add: TrimPrefix_def)

lemma TrimSuffix_append [simp]: "TrimSuffix (s @ p) p = s"
  by (simp add: TrimSuffix_def HasSuffix_iff)

lemma Cut_absent: "d \<notin> set s \<Longrightarrow> Cut s d = (s, [], False)"
  by (induction s) auto

lemma Cut_first: "d \<notin> set b \<Longrightarrow> Cut (b @ d # a) d = (b, a, True)"
  by (induction b) auto

lemma Split_nonempty [simp]: "Split s d \<noteq> []"
  by (cases s) (auto split: list.splits)

lemma Split_absent: "d \<notin> set s \<Longrightarrow> Split s d = [s]"
  by (induction s) auto

lemma Split_append: "d \<notin> set b \<Longrightarrow> Split (b @ d # s) d = b # Split s d"
  by (induction b) auto

lemma Split_Join: "xs \<noteq> [] \<Longrightarrow> \<forall>x \<in> set xs. d \<notin> set x \<Longrightarrow> Split (Join xs [d]) d = xs"
proof (induction xs "[d]" rule: Join.induct)
  case (2 x)
  then show ?case by (simp add: Split_absent)
next
  case (3 x y ys)
  then show ?case by (simp add: Split_append)
qed simp

section \<open>White space\<close>

text \<open>
  \<open>strings.TrimSpace\<close> removes the runes of Unicode's White_Space property; their UTF-8
  encodings are listed here, the ASCII ones first.
\<close>

definition spaceRunes :: "string list" where
  "spaceRunes = map (map char_of)
     ([[9], [10], [11], [12], [13], [32], [0xC2, 0x85], [0xC2, 0xA0], [0xE1, 0x9A, 0x80]]
      @ map (\<lambda>k. [0xE2, 0x80, 0x80 + k]) [0, 1, 2, 3, 4, 5, 6, 7, 8, 9, 10]
      @ [[0xE2, 0x80, 0xA8], [0xE2, 0x80, 0xA9], [0xE2, 0x80, 0xAF], [0xE2, 0x81, 0x9F],
         [0xE3, 0x80, 0x80]] :: nat list list)"

function trimWith :: "string list \<Rightarrow> string \<Rightarrow> string" where
  "trimWith ps s =
     (case find (\<lambda>p. p \<noteq> [] \<and> HasPrefix s p) ps of
        None \<Rightarrow> s | Some p \<Rightarrow> trimWith ps (drop (length p) s))"
  by pat_completeness auto
termination
  by (relation "measure (\<lambda>(ps, s). length s)")
     (auto dest!: find_SomeD simp: HasPrefix_def, metis diff_less length_greater_0_conv take_eq_Nil2)

declare trimWith.simps [simp del]

definition TrimLeftSpace :: "string \<Rightarrow> string" where
  "TrimLeftSpace s = trimWith spaceRunes s"

definition TrimRightSpace :: "string \<Rightarrow> string" where
  "TrimRightSpace s = rev (trimWith (map rev spaceRunes) (rev s))"

definition TrimSpace :: "string \<Rightarrow> string" where
  "TrimSpace s = TrimRightSpace (TrimLeftSpace s)"

text \<open>\<open>strings.Trim\<close> with a one-byte cutset.\<close>

definition TrimChar :: "string \<Rightarrow> char \<Rightarrow> string" where
  "TrimChar s c = rev (dropWhile (\<lambda>x. x = c) (rev (dropWhile (\<lambda>x. x = c) s)))"

definition printable :: "char \<Rightarrow> bool" where
  "printable c \<longleftrightarrow> 32 < byte c \<and> byte c < 128"

lemma trimWith_stop:
  "(\<And>p. p \<in> set ps \<Longrightarrow> p \<noteq> [] \<Longrightarrow> \<not> HasPrefix s p) \<Longrightarrow> trimWith ps s = s"
  by (subst trimWith.simps) (auto simp: find_eq_None_iff split: option.splits dest: find_SomeD)

lemma trimWith_length: "length (trimWith ws s) \<le> length s"
proof (induction ws s rule: trimWith.induct)
  case (1 ws s)
  then show ?case by (subst trimWith.simps) (auto split: option.splits intro: le_trans)
qed

lemma spaceRunes_not_printable:
  "p \<in> set spaceRunes \<Longrightarrow> \<not> printable (hd p) \<and> \<not> printable (last p) \<and> p \<noteq> []"
  by (auto simp: spaceRunes_def printable_def byte_def)

lemma TrimLeftSpace_id:
  assumes "s = [] \<or> printable (hd s)"
  shows "TrimLeftSpace s = s"
  unfolding TrimLeftSpace_def
proof (rule trimWith_stop)
  fix p
  assume p: "p \<in> set spaceRunes" "p \<noteq> []"
  show "\<not> HasPrefix s p"
  proof
    assume "HasPrefix s p"
    then obtain r where "s = p @ r" by (auto simp: HasPrefix_iff)
    with p assms spaceRunes_not_printable [of p] show False by auto
  qed
qed

lemma TrimRightSpace_id:
  assumes "s = [] \<or> printable (last s)"
  shows "TrimRightSpace s = s"
proof -
  have "trimWith (map rev spaceRunes) (rev s) = rev s"
  proof (rule trimWith_stop)
    fix p
    assume p: "p \<in> set (map rev spaceRunes)" "p \<noteq> []"
    show "\<not> HasPrefix (rev s) p"
    proof
      assume "HasPrefix (rev s) p"
      then obtain r where "rev s = p @ r" by (auto simp: HasPrefix_iff)
      then have "s = rev r @ rev p" by (metis rev_append rev_rev_ident)
      moreover obtain q where q: "q \<in> set spaceRunes" "p = rev q" using p by auto
      ultimately have "s = rev r @ q" by simp
      then show False using q assms spaceRunes_not_printable [of q] by auto
    qed
  qed
  then show ?thesis by (simp add: TrimRightSpace_def)
qed

lemma TrimSpace_id:
  "s = [] \<or> printable (hd s) \<and> printable (last s) \<Longrightarrow> TrimSpace s = s"
  by (auto simp: TrimSpace_def TrimLeftSpace_id TrimRightSpace_id)

end
