(* ===== verification/GoTime.thy ===== *)
theory GoTime
  imports GoStrings "HOL-Library.Word" "HOL-Library.Signed_Division" "HOL-Library.Monad_Syntax"
begin

text \<open>
  The part of Go's package time that the program uses.  An instant (\<open>time.Time\<close>) is the
  number of nanoseconds since 0001-01-01T00:00:00Z, Go's zero time, so \<open>IsZero\<close> is equality
  with 0; a \<open>time.Duration\<close> is an int64, kept as \<open>64 word\<close> with its wrap-around.
  The proleptic Gregorian calendar is computed as the package computes it, by cycles of 400, 100,
  4 and 1 years.  The main results: \<open>civil_dayNumber\<close> and \<open>dayNumber_civil\<close> (the calendar
  is a bijection) and \<open>formatStamp_less\<close> (the 26-byte stamp orders instants).
\<close>

section \<open>Instants and durations\<close>

type_synonym go_time = int
type_synonym duration = "64 word"

definition zeroTime :: go_time where "zeroTime = 0"

definition Second :: duration where "Second = 1000000000"
definition Minute :: duration where "Minute = 60000000000"
definition Hour :: duration where "Hour = 3600000000000"

definition nsPerDay :: int where "nsPerDay = 86400000000000"

definition timeAdd :: "go_time \<Rightarrow> duration \<Rightarrow> go_time" where
  "timeAdd t d = t + sint d"

text \<open>\<open>t.Sub(u)\<close> saturates at the largest and smallest duration.\<close>

definition timeSub :: "go_time \<Rightarrow> go_time \<Rightarrow> duration" where
  "timeSub t u = word_of_int (max (- (2 ^ 63)) (min (2 ^ 63 - 1) (t - u)))"

text \<open>\<open>t.Truncate(time.Minute)\<close> and \<open>t.AddDate(0, 0, n)\<close>, both for a \<open>t\<close> in UTC.\<close>

definition truncateMinute :: "go_time \<Rightarrow> go_time" where
  "truncateMinute t = t - t mod 60000000000"

definition addDays :: "go_time \<Rightarrow> int \<Rightarrow> go_time" where
  "addDays t n = t + n * nsPerDay"

lemma sint_word_of_int64:
  "- (2 ^ 63) \<le> i \<Longrightarrow> i < 2 ^ 63 \<Longrightarrow> sint (word_of_int i :: 64 word) = i"
  by (simp add: sint_sbintrunc' signed_take_bit_int_eq_self)

lemma sint_timeSub:
  "- (2 ^ 63) \<le> t - u \<Longrightarrow> t - u < 2 ^ 63 \<Longrightarrow> sint (timeSub t u) = t - u"
  unfolding timeSub_def by (subst sint_word_of_int64) auto

lemma sint64_bounds: "- (2 ^ 63) \<le> sint (d :: 64 word)" "sint (d :: 64 word) < 2 ^ 63"
  using sint_ge [of d] sint_lt [of d] by simp_all

section \<open>The calendar\<close>

definition leapYear :: "int \<Rightarrow> bool" where
  "leapYear y \<longleftrightarrow> y mod 4 = 0 \<and> (y mod 100 \<noteq> 0 \<or> y mod 400 = 0)"

definition daysBeforeYear :: "int \<Rightarrow> int" where
  "daysBeforeYear y = 365 * (y - 1) + (y - 1) div 4 - (y - 1) div 100 + (y - 1) div 400"

definition monthStart :: "bool \<Rightarrow> int \<Rightarrow> int" where
  "monthStart lp m =
     (if m \<le> 1 then 0 else if m = 2 then 31
      else (if lp then 1 else 0) +
        (if m = 3 then 59 else if m = 4 then 90 else if m = 5 then 120 else if m = 6 then 151
         else if m = 7 then 181 else if m = 8 then 212 else if m = 9 then 243
         else if m = 10 then 273 else if m = 11 then 304 else if m = 12 then 334 else 365))"

definition monthOf :: "bool \<Rightarrow> int \<Rightarrow> int" where
  "monthOf lp yd =
     (if yd < 31 then 1 else
      let yd = yd - (if lp then 1 else 0) in
      if yd < 59 then 2 else if yd < 90 then 3 else if yd < 120 then 4 else if yd < 151 then 5
      else if yd < 181 then 6 else if yd < 212 then 7 else if yd < 243 then 8
      else if yd < 273 then 9 else if yd < 304 then 10 else if yd < 334 then 11 else 12)"

definition yearDay :: "int \<Rightarrow> int \<times> int" where
  "yearDay D =
     (let n400 = D div 146097; r400 = D mod 146097;
          n100 = min 3 (r400 div 36524); r100 = r400 - 36524 * n100;
          n4 = r100 div 1461; r4 = r100 mod 1461;
          n1 = min 3 (r4 div 365)
      in (400 * n400 + 100 * n100 + 4 * n4 + n1 + 1, r4 - 365 * n1))"

definition dayNumber :: "int \<Rightarrow> int \<Rightarrow> int \<Rightarrow> int" where
  "dayNumber y m d = daysBeforeYear y + monthStart (leapYear y) m + d - 1"

definition civil :: "int \<Rightarrow> int \<times> int \<times> int" where
  "civil D = (let (y, yd) = yearDay D; m = monthOf (leapYear y) yd
              in (y, m, yd - monthStart (leapYear y) m + 1))"

definition yearLength :: "int \<Rightarrow> int" where
  "yearLength y = (if leapYear y then 366 else 365)"

definition daysIn :: "int \<Rightarrow> int \<Rightarrow> int" where
  "daysIn y m = monthStart (leapYear y) (m + 1) - monthStart (leapYear y) m"

definition validDate :: "int \<Rightarrow> int \<Rightarrow> int \<Rightarrow> bool" where
  "validDate y m d \<longleftrightarrow> 1 \<le> m \<and> m \<le> 12 \<and> 1 \<le> d \<and> d \<le> daysIn y m"

lemma cycle_decomposition:
  fixes a b c e :: int
  assumes "0 \<le> b" "b \<le> 3" "0 \<le> c" "c \<le> 24" "0 \<le> e" "e \<le> 3"
  defines "p \<equiv> 400 * a + 100 * b + 4 * c + e"
  shows "p div 4 = 100 * a + 25 * b + c" "p div 100 = 4 * a + b" "p div 400 = a"
    "(p + 1) mod 4 = 0 \<longleftrightarrow> e = 3" "(p + 1) mod 100 = 0 \<longleftrightarrow> e = 3 \<and> c = 24"
    "(p + 1) mod 400 = 0 \<longleftrightarrow> e = 3 \<and> c = 24 \<and> b = 3"
proof -
  show "p div 4 = 100 * a + 25 * b + c"
    by (rule int_div_pos_eq [of _ _ _ e]) (use assms in \<open>simp_all add: p_def\<close>)
  show "p div 100 = 4 * a + b"
    by (rule int_div_pos_eq [of _ _ _ "4 * c + e"]) (use assms in \<open>simp_all add: p_def\<close>)
  show "p div 400 = a"
    by (rule int_div_pos_eq [of _ _ _ "100 * b + 4 * c + e"]) (use assms in \<open>simp_all add: p_def\<close>)
  have e4: "(e + 1) mod 4 = 0 \<longleftrightarrow> e = 3" using assms by presburger
  have "(p + 1) mod 4 = (e + 1) mod 4"
    using mod_mult_self2 [of "e + 1" 4 "100 * a + 25 * b + c"]
    by (simp add: p_def algebra_simps)
  then show "(p + 1) mod 4 = 0 \<longleftrightarrow> e = 3" using e4 by simp
  have "(p + 1) mod 100 = (4 * c + e + 1) mod 100"
    using mod_mult_self2 [of "4 * c + e + 1" 100 "4 * a + b"] by (simp add: p_def algebra_simps)
  moreover have "(4 * c + e + 1) mod 100 = (if e = 3 \<and> c = 24 then 0 else 4 * c + e + 1)"
    using assms by (auto intro: mod_pos_pos_trivial)
  ultimately show "(p + 1) mod 100 = 0 \<longleftrightarrow> e = 3 \<and> c = 24" using assms by auto
  have "(p + 1) mod 400 = (100 * b + 4 * c + e + 1) mod 400"
    using mod_mult_self2 [of "100 * b + 4 * c + e + 1" 400 a] by (simp add: p_def algebra_simps)
  moreover have "(100 * b + 4 * c + e + 1) mod 400
      = (if e = 3 \<and> c = 24 \<and> b = 3 then 0 else 100 * b + 4 * c + e + 1)"
    using assms by (auto intro: mod_pos_pos_trivial)
  ultimately show "(p + 1) mod 400 = 0 \<longleftrightarrow> e = 3 \<and> c = 24 \<and> b = 3" using assms by auto
qed

lemma yearDay_spec:
  assumes yd: "yearDay D = (y, n)"
  shows "D = daysBeforeYear y + n" "0 \<le> n" "n < yearLength y"
proof -
  define a where "a = D div 146097"
  define r where "r = D mod 146097"
  define b where "b = min 3 (r div 36524)"
  define s where "s = r - 36524 * b"
  define c where "c = s div 1461"
  define q where "q = s mod 1461"
  define e where "e = min 3 (q div 365)"
  have D: "D = 146097 * a + r" and r: "0 \<le> r" "r < 146097" by (simp_all add: a_def r_def)
  have b: "0 \<le> b" "b \<le> 3" using r by (auto simp: b_def)
  have rb: "r = 36524 * (r div 36524) + r mod 36524" "0 \<le> r mod 36524" "r mod 36524 < 36524"
    by simp_all
  have s: "0 \<le> s" "s \<le> 36524" "s = 36524 \<Longrightarrow> b = 3"
    using r rb unfolding s_def b_def by linarith+
  have sq: "s = 1461 * c + q" "0 \<le> q" "q < 1461" by (simp_all add: c_def q_def)
  have c: "0 \<le> c" "c \<le> 24" using s sq by linarith+
  have e: "0 \<le> e" "e \<le> 3" using sq by (auto simp: e_def)
  have n: "n = q - 365 * e" and y: "y = 400 * a + 100 * b + 4 * c + e + 1"
    using yd unfolding yearDay_def Let_def
    by (auto simp: a_def r_def b_def s_def c_def q_def e_def)
  have qe: "q = 365 * (q div 365) + q mod 365" "0 \<le> q mod 365" "q mod 365 < 365"
    by simp_all
  have ne: "0 \<le> n" "n \<le> 365" "n = 365 \<Longrightarrow> e = 3" using sq qe unfolding n e_def by linarith+
  note cyc = cycle_decomposition [OF b c e, of a]
  have "daysBeforeYear y = 146097 * a + 36524 * b + 1461 * c + 365 * e"
    unfolding daysBeforeYear_def y using cyc(1-3) by simp
  then show "D = daysBeforeYear y + n" using D sq n by (simp add: s_def)
  show "0 \<le> n" by (rule ne)
  have "c = 24 \<Longrightarrow> b \<noteq> 3 \<Longrightarrow> q \<noteq> 1460" using s sq by auto
  then have "n = 365 \<Longrightarrow> e = 3 \<and> (c \<noteq> 24 \<or> b = 3)" using ne n by auto
  then have "n = 365 \<Longrightarrow> leapYear y"
    unfolding leapYear_def y using cyc(4-6) by simp
  then show "n < yearLength y" using ne by (cases "n = 365") (auto simp: yearLength_def)
qed

lemma div_pred:
  fixes y k :: int
  assumes "0 < k"
  shows "y div k = (y - 1) div k + (if y mod k = 0 then 1 else 0)"
proof (cases "y mod k = 0")
  case True
  then have "y = k * (y div k)" by (metis add.right_neutral mult_div_mod_eq)
  then have "y - 1 = k * (y div k - 1) + (k - 1)" by (simp add: algebra_simps)
  then have "(y - 1) div k = y div k - 1" by (rule int_div_pos_eq) (use assms in auto)
  with True show ?thesis by simp
next
  case False
  have "y - 1 = k * (y div k) + (y mod k - 1)" by simp
  moreover have "0 \<le> y mod k - 1" "y mod k - 1 < k"
    using False assms pos_mod_bound [of k y] pos_mod_sign [of k y] by linarith+
  ultimately have "(y - 1) div k = y div k" by (intro int_div_pos_eq)
  with False show ?thesis by simp
qed

lemma daysBeforeYear_Suc: "daysBeforeYear (y + 1) = daysBeforeYear y + yearLength y"
proof -
  have "y mod 4 = y mod 100 mod 4" "y mod 100 = y mod 400 mod 100"
    by (simp_all add: mod_mod_cancel)
  then have "y mod 100 = 0 \<Longrightarrow> y mod 4 = 0" "y mod 400 = 0 \<Longrightarrow> y mod 100 = 0"
    by simp_all
  then have imp: "y mod 100 = 0 \<longrightarrow> y mod 4 = 0" "y mod 400 = 0 \<longrightarrow> y mod 100 = 0" by blast+
  have step: "daysBeforeYear (y + 1) - daysBeforeYear y
      = 365 + (y div 4 - (y - 1) div 4) - (y div 100 - (y - 1) div 100)
        + (y div 400 - (y - 1) div 400)"
  proof -
    have alg: "(365 * y + a - b + c) - (365 * (y - 1) + a' - b' + c')
        = 365 + (a - a') - (b - b') + (c - c')" for a b c a' b' c' :: int
      by (simp add: algebra_simps)
    show ?thesis unfolding daysBeforeYear_def add_diff_cancel_right' by (rule alg)
  qed
  have diffs: "y div 4 - (y - 1) div 4 = (if y mod 4 = 0 then 1 else 0)"
    "y div 100 - (y - 1) div 100 = (if y mod 100 = 0 then 1 else 0)"
    "y div 400 - (y - 1) div 400 = (if y mod 400 = 0 then 1 else 0)"
    by (simp_all only: div_pred [of 4 y] div_pred [of 100 y] div_pred [of 400 y]
        add_diff_cancel_left' zero_less_numeral)
  have "365 + (if y mod 4 = 0 then 1 else 0) - (if y mod 100 = 0 then 1 else 0)
      + (if y mod 400 = 0 then 1 else 0) = yearLength y"
    unfolding yearLength_def leapYear_def using imp
    by (cases "y mod 4 = 0"; cases "y mod 100 = 0"; cases "y mod 400 = 0") simp_all
  then show ?thesis using step unfolding diffs by (simp only: algebra_simps)
qed

lemma yearLength_pos: "365 \<le> yearLength y"
  by (simp add: yearLength_def)

lemma daysBeforeYear_mono: "y < z \<Longrightarrow> daysBeforeYear y + yearLength y \<le> daysBeforeYear z"
proof (induction "nat (z - y)" arbitrary: z)
  case 0
  then show ?case by simp
next
  case (Suc k)
  show ?case
  proof (cases "z = y + 1")
    case True
    then show ?thesis by (simp add: daysBeforeYear_Suc)
  next
    case False
    with Suc have "daysBeforeYear y + yearLength y \<le> daysBeforeYear (z - 1)" by simp
    also have "\<dots> \<le> daysBeforeYear z"
      using daysBeforeYear_Suc [of "z - 1"] yearLength_pos [of "z - 1"] by simp
    finally show ?thesis .
  qed
qed

lemma monthOf_spec:
  assumes "0 \<le> n" "n < (if lp then 366 else 365)"
  shows "1 \<le> monthOf lp n" "monthOf lp n \<le> 12" "monthStart lp (monthOf lp n) \<le> n"
    "n < monthStart lp (monthOf lp n + 1)"
  using assms by (auto simp: monthOf_def monthStart_def Let_def split: if_splits)

lemma month_cases:
  assumes "1 \<le> (m::int)" "m \<le> 12"
  shows "m = 1 \<or> m = 2 \<or> m = 3 \<or> m = 4 \<or> m = 5 \<or> m = 6 \<or> m = 7 \<or> m = 8 \<or> m = 9
    \<or> m = 10 \<or> m = 11 \<or> m = 12"
  using assms by presburger

lemma monthStart_step: "1 \<le> m \<Longrightarrow> m \<le> 12 \<Longrightarrow> monthStart lp m + 28 \<le> monthStart lp (m + 1)"
  using month_cases [of m] by (auto simp: monthStart_def)

lemma monthStart_mono:
  assumes "1 \<le> m" "m < k" "k \<le> 13"
  shows "monthStart lp (m + 1) \<le> monthStart lp k"
  using month_cases [of m] month_cases [of "k - 1"] assms
  by (auto simp: monthStart_def algebra_simps)

lemma civil_valid:
  assumes "civil D = (y, m, d)"
  shows "validDate y m d" "dayNumber y m d = D"
proof -
  obtain n where yd: "yearDay D = (y, n)" and m: "m = monthOf (leapYear y) n"
    and d: "d = n - monthStart (leapYear y) m + 1"
    using assms by (auto simp: civil_def Let_def split: prod.splits)
  note sp = yearDay_spec [OF yd]
  have "n < (if leapYear y then 366 else 365)" using sp(3) by (simp add: yearLength_def)
  note mo = monthOf_spec [OF sp(2) this, folded m]
  show "validDate y m d" using mo d by (auto simp: validDate_def daysIn_def)
  show "dayNumber y m d = D" using sp(1) d by (simp add: dayNumber_def)
qed

lemma dayNumber_civil: "civil D = (y, m, d) \<Longrightarrow> dayNumber y m d = D"
  by (rule civil_valid)

lemma dayNumber_in_year:
  assumes "validDate y m d"
  shows "daysBeforeYear y \<le> dayNumber y m d" "dayNumber y m d < daysBeforeYear y + yearLength y"
proof -
  have m: "1 \<le> m" "m \<le> 12" and d: "1 \<le> d" "d \<le> daysIn y m" using assms by (auto simp: validDate_def)
  have "monthStart (leapYear y) (m + 1) \<le> yearLength y" "0 \<le> monthStart (leapYear y) m"
    using month_cases [OF m] by (auto simp: monthStart_def yearLength_def)
  then show "daysBeforeYear y \<le> dayNumber y m d" "dayNumber y m d < daysBeforeYear y + yearLength y"
    using d by (auto simp: dayNumber_def daysIn_def)
qed

lemma dayNumber_less:
  assumes v: "validDate y m d" "validDate y' m' d'"
    and lt: "y < y' \<or> y = y' \<and> (m < m' \<or> m = m' \<and> d < d')"
  shows "dayNumber y m d < dayNumber y' m' d'"
proof -
  consider "y < y'" | "y = y'" "m < m'" | "y = y'" "m = m'" "d < d'" using lt by blast
  then show ?thesis
  proof cases
    case 1
    then show ?thesis
      using dayNumber_in_year [OF v(1)] dayNumber_in_year [OF v(2)] daysBeforeYear_mono [OF 1]
      by linarith
  next
    case 2
    then have "monthStart (leapYear y) (m + 1) \<le> monthStart (leapYear y) m'"
      using v by (intro monthStart_mono) (auto simp: validDate_def)
    with 2 v show ?thesis by (auto simp: dayNumber_def validDate_def daysIn_def)
  next
    case 3
    then show ?thesis by (simp add: dayNumber_def)
  qed
qed

lemma civil_less:
  assumes "civil D = (y, m, d)" "civil D' = (y', m', d')"
  shows "D < D' \<longleftrightarrow> y < y' \<or> y = y' \<and> (m < m' \<or> m = m' \<and> d < d')"
  using dayNumber_less [of y m d y' m' d'] dayNumber_less [of y' m' d' y m d]
    civil_valid [OF assms(1)] civil_valid [OF assms(2)]
  by (metis less_irrefl linorder_less_linear order_less_asym)

lemma civil_dayNumber:
  assumes v: "validDate y m d"
  shows "civil (dayNumber y m d) = (y, m, d)"
proof -
  obtain y' m' d' where c: "civil (dayNumber y m d) = (y', m', d')" by (metis prod_cases3)
  note cv = civil_valid [OF c]
  show ?thesis
    using dayNumber_less [OF v cv(1)] dayNumber_less [OF cv(1) v] cv(2) c
    by (metis less_irrefl linorder_less_linear)
qed

section \<open>The fields of an instant\<close>

text \<open>Day number, hour, minute, second and nanosecond, all in UTC.\<close>

definition dayOf :: "go_time \<Rightarrow> int" where "dayOf t = t div nsPerDay"
definition clockOf :: "go_time \<Rightarrow> int" where "clockOf t = t mod nsPerDay"
definition hourOf :: "go_time \<Rightarrow> int" where "hourOf t = clockOf t div 1000000000 div 60 div 60"
definition minuteOf :: "go_time \<Rightarrow> int" where "minuteOf t = clockOf t div 1000000000 div 60 mod 60"
definition secondOf :: "go_time \<Rightarrow> int" where "secondOf t = clockOf t div 1000000000 mod 60"
definition nanoOf :: "go_time \<Rightarrow> int" where "nanoOf t = clockOf t mod 1000000000"

definition yearOf :: "go_time \<Rightarrow> int" where "yearOf t = fst (civil (dayOf t))"
definition monthNoOf :: "go_time \<Rightarrow> int" where "monthNoOf t = fst (snd (civil (dayOf t)))"
definition mdayOf :: "go_time \<Rightarrow> int" where "mdayOf t = snd (snd (civil (dayOf t)))"

text \<open>The years that \<open>time.Time.MarshalJSON\<close> and a four-digit stamp can represent.\<close>

definition yearOk :: "go_time \<Rightarrow> bool" where
  "yearOk t \<longleftrightarrow> 0 \<le> yearOf t \<and> yearOf t \<le> 9999"

definition instant :: "int \<Rightarrow> int \<Rightarrow> int \<Rightarrow> int \<Rightarrow> go_time" where
  "instant D h mi sns = D * nsPerDay + h * 3600000000000 + mi * 60000000000 + sns"

lemma civil_fields: "civil (dayOf t) = (yearOf t, monthNoOf t, mdayOf t)"
  by (simp add: yearOf_def monthNoOf_def mdayOf_def)

lemma daysIn_le: "1 \<le> m \<Longrightarrow> m \<le> 12 \<Longrightarrow> daysIn y m \<le> 31"
  using month_cases [of m] by (auto simp: daysIn_def monthStart_def)

lemma clockOf_bounds: "0 \<le> clockOf t" "clockOf t < nsPerDay"
  by (simp_all add: clockOf_def nsPerDay_def)

lemma div_bounds: "0 \<le> x \<Longrightarrow> x < a * k \<Longrightarrow> 0 < k \<Longrightarrow> 0 \<le> x div k \<and> x div k < (a :: int)"
proof -
  assume x: "0 \<le> x" "x < a * k" and k: "0 < k"
  have "k * (x div k) \<le> x"
    using mult_div_mod_eq [of k x] pos_mod_sign [OF k, of x] by linarith
  then have "k * (x div k) < k * a" using x by (simp add: mult.commute)
  then show ?thesis using x k by (simp add: pos_imp_zdiv_nonneg_iff)
qed

lemma field_bounds:
  "0 \<le> hourOf t" "hourOf t < 24" "0 \<le> minuteOf t" "minuteOf t < 60"
  "0 \<le> secondOf t" "secondOf t < 60" "0 \<le> nanoOf t" "nanoOf t < 1000000000"
  "1 \<le> monthNoOf t" "monthNoOf t \<le> 12" "1 \<le> mdayOf t" "mdayOf t \<le> 31"
proof -
  have s: "0 \<le> clockOf t div 1000000000 \<and> clockOf t div 1000000000 < 86400"
    using clockOf_bounds [of t] by (intro div_bounds) (simp_all add: nsPerDay_def)
  have m: "0 \<le> clockOf t div 1000000000 div 60 \<and> clockOf t div 1000000000 div 60 < 1440"
    using s by (intro div_bounds) simp_all
  have h: "0 \<le> clockOf t div 1000000000 div 60 div 60 \<and> clockOf t div 1000000000 div 60 div 60 < 24"
    using m by (intro div_bounds) simp_all
  then show "0 \<le> hourOf t" "hourOf t < 24" by (simp_all add: hourOf_def)
  show "0 \<le> minuteOf t" "minuteOf t < 60" "0 \<le> secondOf t" "secondOf t < 60"
    "0 \<le> nanoOf t" "nanoOf t < 1000000000"
    by (simp_all add: minuteOf_def secondOf_def nanoOf_def)
  have "validDate (yearOf t) (monthNoOf t) (mdayOf t)" by (rule civil_valid [OF civil_fields])
  then show "1 \<le> monthNoOf t" "monthNoOf t \<le> 12" "1 \<le> mdayOf t" "mdayOf t \<le> 31"
    using daysIn_le [of "monthNoOf t" "yearOf t"] by (auto simp: validDate_def)
qed

lemma instant_fields:
  "instant (dayOf t) (hourOf t) (minuteOf t) (secondOf t * 1000000000 + nanoOf t) = t"
proof -
  define X where "X = clockOf t div 1000000000"
  define Y where "Y = X div 60"
  have c: "clockOf t = 1000000000 * X + nanoOf t" by (simp add: nanoOf_def X_def)
  have s: "X = 60 * Y + secondOf t" by (simp add: secondOf_def X_def Y_def)
  have m: "Y = 60 * hourOf t + minuteOf t" by (simp add: minuteOf_def hourOf_def X_def Y_def)
  have t: "t = dayOf t * nsPerDay + clockOf t" by (simp add: dayOf_def clockOf_def)
  show ?thesis using c s m t unfolding instant_def by linarith
qed

lemma eq_iff_div_mod_int: "x = y \<longleftrightarrow> x div k = y div k \<and> x mod k = y mod (k :: int)"
  by (metis mult_div_mod_eq)

lemma less_iff_div_mod_int:
  fixes x y k :: int
  assumes "0 < k"
  shows "x < y \<longleftrightarrow> x div k < y div k \<or> x div k = y div k \<and> x mod k < y mod k"
proof
  assume "x < y"
  then have "x div k \<le> y div k" using assms by (simp add: zdiv_mono1)
  moreover have "x mod k < y mod k" if "x div k = y div k"
    using \<open>x < y\<close> that by (metis add_less_cancel_left mult_div_mod_eq)
  ultimately show "x div k < y div k \<or> x div k = y div k \<and> x mod k < y mod k" by auto
next
  assume "x div k < y div k \<or> x div k = y div k \<and> x mod k < y mod k"
  then show "x < y"
  proof
    assume "x div k < y div k"
    then show ?thesis using assms by (meson linorder_not_le zdiv_mono1)
  next
    assume "x div k = y div k \<and> x mod k < y mod k"
    then show ?thesis by (metis add_less_cancel_left mult_div_mod_eq)
  qed
qed

text \<open>Instants are ordered as their fields are, most significant first.\<close>

lemma time_less_fields:
  "t < u \<longleftrightarrow>
     yearOf t < yearOf u \<or> yearOf t = yearOf u \<and>
    (monthNoOf t < monthNoOf u \<or> monthNoOf t = monthNoOf u \<and>
    (mdayOf t < mdayOf u \<or> mdayOf t = mdayOf u \<and>
    (hourOf t < hourOf u \<or> hourOf t = hourOf u \<and>
    (minuteOf t < minuteOf u \<or> minuteOf t = minuteOf u \<and>
    (secondOf t < secondOf u \<or> secondOf t = secondOf u \<and> nanoOf t < nanoOf u)))))"
proof -
  have day: "dayOf t < dayOf u \<longleftrightarrow> yearOf t < yearOf u \<or> yearOf t = yearOf u \<and>
      (monthNoOf t < monthNoOf u \<or> monthNoOf t = monthNoOf u \<and> mdayOf t < mdayOf u)"
    by (rule civil_less [OF civil_fields civil_fields])
  have same: "dayOf t = dayOf u \<longleftrightarrow>
      yearOf t = yearOf u \<and> monthNoOf t = monthNoOf u \<and> mdayOf t = mdayOf u"
  proof
    assume "dayOf t = dayOf u"
    then show "yearOf t = yearOf u \<and> monthNoOf t = monthNoOf u \<and> mdayOf t = mdayOf u"
      by (simp only: yearOf_def monthNoOf_def mdayOf_def simp_thms)
  next
    assume "yearOf t = yearOf u \<and> monthNoOf t = monthNoOf u \<and> mdayOf t = mdayOf u"
    then show "dayOf t = dayOf u"
      using dayNumber_civil [OF civil_fields [of t]] dayNumber_civil [OF civil_fields [of u]]
      by (simp only: simp_thms)
  qed
  have clock: "clockOf t < clockOf u \<longleftrightarrow> hourOf t < hourOf u \<or> hourOf t = hourOf u \<and>
      (minuteOf t < minuteOf u \<or> minuteOf t = minuteOf u \<and>
      (secondOf t < secondOf u \<or> secondOf t = secondOf u \<and> nanoOf t < nanoOf u))"
    (is "_ \<longleftrightarrow> ?R")
  proof -
    let ?s = "\<lambda>x. clockOf x div 1000000000"
    have mi: "?s t div 60 < ?s u div 60 \<longleftrightarrow>
        hourOf t < hourOf u \<or> hourOf t = hourOf u \<and> minuteOf t < minuteOf u"
      unfolding hourOf_def minuteOf_def by (rule less_iff_div_mod_int) simp
    have mi_eq: "?s t div 60 = ?s u div 60 \<longleftrightarrow> hourOf t = hourOf u \<and> minuteOf t = minuteOf u"
      unfolding hourOf_def minuteOf_def by (rule eq_iff_div_mod_int)
    have se: "?s t < ?s u \<longleftrightarrow> ?s t div 60 < ?s u div 60 \<or>
        ?s t div 60 = ?s u div 60 \<and> secondOf t < secondOf u"
      unfolding secondOf_def by (rule less_iff_div_mod_int) simp
    have se_eq: "?s t = ?s u \<longleftrightarrow> ?s t div 60 = ?s u div 60 \<and> secondOf t = secondOf u"
      unfolding secondOf_def by (rule eq_iff_div_mod_int)
    have na: "clockOf t < clockOf u \<longleftrightarrow> ?s t < ?s u \<or> ?s t = ?s u \<and> nanoOf t < nanoOf u"
      unfolding nanoOf_def by (rule less_iff_div_mod_int) simp
    show ?thesis unfolding na se se_eq mi mi_eq by blast
  qed
  have "t < u \<longleftrightarrow> dayOf t < dayOf u \<or> dayOf t = dayOf u \<and> clockOf t < clockOf u"
    unfolding dayOf_def clockOf_def by (rule less_iff_div_mod_int) (simp add: nsPerDay_def)
  then show ?thesis unfolding day same clock by blast
qed

end
