(* ===== verification/TimeFormat.thy ===== *)
theory TimeFormat
  imports GoTime
begin

text \<open>
  \<open>time.Format\<close> and \<open>time.Parse\<close> for the layouts the program uses: the fixed-width
  stamp of the run index, RFC 3339, and the two local date-time layouts of the forms.  Main results:
  a stamp has 26 bytes, stamps are ordered as their instants are, and parsing a stamp gives the
  instant back, all for the years 0 to 9999.
\<close>

section \<open>The stamp 20060102T150405.000000000Z\<close>

definition padInt :: "nat \<Rightarrow> int \<Rightarrow> string" where
  "padInt w i = (if i < 0 then CHR ''-'' # padded w (nat (- i)) else padded w (nat i))"

definition formatStamp :: "go_time \<Rightarrow> string" where
  "formatStamp t =
     padInt 4 (yearOf t) @ padInt 2 (monthNoOf t) @ padInt 2 (mdayOf t) @ ''T'' @
     padInt 2 (hourOf t) @ padInt 2 (minuteOf t) @ padInt 2 (secondOf t) @ ''.'' @
     padInt 9 (nanoOf t) @ ''Z''"

definition takeNum :: "nat \<Rightarrow> string \<Rightarrow> (int \<times> string) option" where
  "takeNum n s =
     (if n \<le> length s \<and> list_all isDigit (take n s)
      then Some (int (digitsVal (take n s)), drop n s) else None)"

definition takeLit :: "char \<Rightarrow> string \<Rightarrow> string option" where
  "takeLit c s = (case s of [] \<Rightarrow> None | x # xs \<Rightarrow> if x = c then Some xs else None)"

text \<open>Layout element 15 accepts one digit or two.\<close>

definition takeHour :: "string \<Rightarrow> (int \<times> string) option" where
  "takeHour s = (case takeNum 2 s of Some r \<Rightarrow> Some r | None \<Rightarrow> takeNum 1 s)"

definition keepIf :: "bool \<Rightarrow> unit option" where
  "keepIf c = (if c then Some () else None)"

definition parseStamp :: "string \<Rightarrow> go_time option" where
  "parseStamp s = do {
     (y, s) \<leftarrow> takeNum 4 s; (m, s) \<leftarrow> takeNum 2 s; _ \<leftarrow> keepIf (1 \<le> m \<and> m \<le> 12);
     (d, s) \<leftarrow> takeNum 2 s; s \<leftarrow> takeLit CHR ''T'' s;
     (h, s) \<leftarrow> takeHour s; _ \<leftarrow> keepIf (h < 24);
     (mi, s) \<leftarrow> takeNum 2 s; _ \<leftarrow> keepIf (mi < 60);
     (sec, s) \<leftarrow> takeNum 2 s; _ \<leftarrow> keepIf (sec < 60);
     s \<leftarrow> takeLit CHR ''.'' s; (ns, s) \<leftarrow> takeNum 9 s; s \<leftarrow> takeLit CHR ''Z'' s;
     _ \<leftarrow> keepIf (s = [] \<and> validDate y m d);
     Some (instant (dayNumber y m d) h mi (sec * 1000000000 + ns)) }"

lemma padInt_fixed: "0 \<le> i \<Longrightarrow> i < 10 ^ w \<Longrightarrow> 0 < w \<Longrightarrow> padInt w i = fixedDigits w (nat i)"
  by (simp add: padInt_def) (metis padded_fixed nat_less_numeral_power_cancel_iff)

definition stampDigits :: "go_time \<Rightarrow> string" where
  "stampDigits t =
     fixedDigits 4 (nat (yearOf t)) @ fixedDigits 2 (nat (monthNoOf t)) @
     fixedDigits 2 (nat (mdayOf t)) @ ''T'' @ fixedDigits 2 (nat (hourOf t)) @
     fixedDigits 2 (nat (minuteOf t)) @ fixedDigits 2 (nat (secondOf t)) @ ''.'' @
     fixedDigits 9 (nat (nanoOf t)) @ ''Z''"

lemma formatStamp_digits: "yearOk t \<Longrightarrow> formatStamp t = stampDigits t"
  using field_bounds [of t]
  by (simp add: formatStamp_def stampDigits_def yearOk_def padInt_fixed)

lemma length_formatStamp: "yearOk t \<Longrightarrow> length (formatStamp t) = 26"
  by (simp add: formatStamp_digits stampDigits_def)

lemma formatStamp_ascii: "yearOk t \<Longrightarrow> list_all (\<lambda>c. byte c < 128 \<and> byte c \<noteq> 0) (formatStamp t)"
proof -
  have "list_all (\<lambda>c. byte c < 128 \<and> byte c \<noteq> 0) (fixedDigits w n)" for w n
    using fixedDigits_all_digits [of w n] by (rule list.pred_mono_strong) (auto simp: isDigit_def)
  then show "yearOk t \<Longrightarrow> ?thesis"
    by (simp add: formatStamp_digits stampDigits_def) (simp add: byte_def)
qed

lemma fixed_pair_less:
  assumes "0 \<le> i" "i < 10 ^ w" "0 \<le> j" "j < 10 ^ w"
  shows "fixedDigits w (nat i) @ us < fixedDigits w (nat j) @ vs \<longleftrightarrow> i < j \<or> i = j \<and> us < vs"
proof -
  have "nat i < 10 ^ w" "nat j < 10 ^ w" using assms by (simp_all add: nat_less_iff)
  then show ?thesis
    using assms by (simp add: lex_simps fixedDigits_less fixedDigits_eq) (auto simp: nat_less_eq_zless)
qed

lemma stampDigits_less:
  assumes "yearOk t" "yearOk u"
  shows "stampDigits t < stampDigits u \<longleftrightarrow> t < u"
proof -
  note bs = field_bounds [of t] field_bounds [of u] assms [unfolded yearOk_def]
  show ?thesis
    unfolding stampDigits_def time_less_fields [of t u]
    using bs by (simp add: fixed_pair_less)
qed

lemma formatStamp_less:
  "yearOk t \<Longrightarrow> yearOk u \<Longrightarrow> formatStamp t < formatStamp u \<longleftrightarrow> t < u"
  by (simp add: formatStamp_digits stampDigits_less)

lemma formatStamp_inj: "yearOk t \<Longrightarrow> yearOk u \<Longrightarrow> formatStamp t = formatStamp u \<longleftrightarrow> t = u"
  using formatStamp_less [of t u] formatStamp_less [of u t] by (metis linorder_neq_iff)

lemma takeNum_fixed [simp]:
  "n < 10 ^ w \<Longrightarrow> takeNum w (fixedDigits w n @ s) = Some (int n, s)"
  by (simp add: takeNum_def fixedDigits_all_digits digitsVal_fixedDigits)

lemma takeNum_field:
  "0 \<le> i \<Longrightarrow> i < 10 ^ w \<Longrightarrow> takeNum w (fixedDigits w (nat i) @ s) = Some (i, s)"
  by (simp add: nat_less_iff)

lemma takeLit_Cons [simp]: "takeLit c (c # s) = Some s"
  by (simp add: takeLit_def)

lemma keepIf_True [simp]: "keepIf True = Some ()"
  by (simp add: keepIf_def)

lemma parseStamp_format:
  assumes "yearOk t"
  shows "parseStamp (formatStamp t) = Some t"
proof -
  note bs = field_bounds [of t] assms [unfolded yearOk_def]
  have valid: "validDate (yearOf t) (monthNoOf t) (mdayOf t)"
    and day: "dayNumber (yearOf t) (monthNoOf t) (mdayOf t) = dayOf t"
    using civil_valid [OF civil_fields] by auto
  have hour: "takeHour (fixedDigits 2 (nat (hourOf t)) @ s) = Some (hourOf t, s)" for s
    using bs by (simp add: takeHour_def takeNum_field)
  show ?thesis
    unfolding formatStamp_digits [OF assms] stampDigits_def parseStamp_def
    using bs valid instant_fields [of t]
    by (simp add: takeNum_field hour day)
qed

section \<open>RFC 3339 with nanoseconds\<close>

text \<open>Layout 2006-01-02T15:04:05.999999999Z07:00 in UTC: trailing zeros of the fraction are cut.\<close>

definition formatRFC3339Nano :: "go_time \<Rightarrow> string" where
  "formatRFC3339Nano t =
     (let f = rev (dropWhile (\<lambda>c. c = CHR ''0'') (rev (padInt 9 (nanoOf t))))
      in padInt 4 (yearOf t) @ ''-'' @ padInt 2 (monthNoOf t) @ ''-'' @ padInt 2 (mdayOf t) @ ''T'' @
         padInt 2 (hourOf t) @ '':'' @ padInt 2 (minuteOf t) @ '':'' @ padInt 2 (secondOf t) @
         (if f = [] then [] else ''.'' @ f) @ ''Z'')"

section \<open>Local date-times and RFC 3339\<close>

text \<open>
  A location gives for a wall clock reading (nanoseconds, as if read in UTC) the instant that
  \<open>time.Date\<close> chooses for it; UTC is the identity.
\<close>

type_synonym location = "go_time \<Rightarrow> go_time"

definition UTC :: location where "UTC wall = wall"

text \<open>
  After a seconds element \<open>time.Parse\<close> accepts a fraction that the layout does not mention:
  digits after a period or comma, of which nine count.
\<close>

definition takeFraction :: "string \<Rightarrow> int \<times> string" where
  "takeFraction s = (case s of
     c # d # r \<Rightarrow>
       if (c = CHR ''.'' \<or> c = CHR '','') \<and> isDigit d
       then (let ds = takeWhile isDigit (d # r); us = take 9 ds
             in (int (digitsVal us * 10 ^ (9 - length us)), dropWhile isDigit (d # r)))
       else (0, s)
   | _ \<Rightarrow> (0, s))"

text \<open>Date and time of day to the minute: 2006-01-02T15:04.\<close>

definition takeDateMinute :: "string \<Rightarrow> ((int \<times> int \<times> int \<times> int \<times> int) \<times> string) option" where
  "takeDateMinute s = do {
     (y, s) \<leftarrow> takeNum 4 s; s \<leftarrow> takeLit CHR ''-'' s;
     (m, s) \<leftarrow> takeNum 2 s; _ \<leftarrow> keepIf (1 \<le> m \<and> m \<le> 12); s \<leftarrow> takeLit CHR ''-'' s;
     (d, s) \<leftarrow> takeNum 2 s; s \<leftarrow> takeLit CHR ''T'' s;
     (h, s) \<leftarrow> takeHour s; _ \<leftarrow> keepIf (h < 24); s \<leftarrow> takeLit CHR '':'' s;
     (mi, s) \<leftarrow> takeNum 2 s; _ \<leftarrow> keepIf (mi < 60);
     Some ((y, m, d, h, mi), s) }"

definition takeSeconds :: "string \<Rightarrow> (int \<times> string) option" where
  "takeSeconds s = do {
     s \<leftarrow> takeLit CHR '':'' s; (sec, s) \<leftarrow> takeNum 2 s; _ \<leftarrow> keepIf (sec < 60);
     (let (ns, s) = takeFraction s in Some (sec * 1000000000 + ns, s)) }"

definition parseMinuteLayout :: "string \<Rightarrow> location \<Rightarrow> go_time option" where
  "parseMinuteLayout s loc = do {
     ((y, m, d, h, mi), s) \<leftarrow> takeDateMinute s;
     _ \<leftarrow> keepIf (s = [] \<and> validDate y m d);
     Some (loc (instant (dayNumber y m d) h mi 0)) }"

definition parseSecondLayout :: "string \<Rightarrow> location \<Rightarrow> go_time option" where
  "parseSecondLayout s loc = do {
     ((y, m, d, h, mi), s) \<leftarrow> takeDateMinute s; (sns, s) \<leftarrow> takeSeconds s;
     _ \<leftarrow> keepIf (s = [] \<and> validDate y m d);
     Some (loc (instant (dayNumber y m d) h mi sns)) }"

text \<open>The zone of RFC 3339: Z, or a signed offset (up to 24 hours and 60 minutes are accepted).\<close>

definition takeZone :: "string \<Rightarrow> (int \<times> string) option" where
  "takeZone s = (case s of [] \<Rightarrow> None | c # r \<Rightarrow>
     if c = CHR ''Z'' then Some (0, r)
     else do {
       _ \<leftarrow> keepIf (c = CHR ''+'' \<or> c = CHR ''-'');
       (h, r) \<leftarrow> takeNum 2 r; r \<leftarrow> takeLit CHR '':'' r; (mi, r) \<leftarrow> takeNum 2 r;
       _ \<leftarrow> keepIf (h \<le> 24 \<and> mi \<le> 60);
       Some ((if c = CHR ''-'' then - 1 else 1) * (h * 60 + mi) * 60000000000, r) })"

definition parseRFC3339 :: "string \<Rightarrow> go_time option" where
  "parseRFC3339 s = do {
     ((y, m, d, h, mi), s) \<leftarrow> takeDateMinute s; (sns, s) \<leftarrow> takeSeconds s;
     (off, s) \<leftarrow> takeZone s;
     _ \<leftarrow> keepIf (s = [] \<and> validDate y m d);
     Some (instant (dayNumber y m d) h mi sns - off) }"

end
