(* ===== verification/GoDuration.thy ===== *)
theory GoDuration
  imports GoTime
begin

text \<open>
  \<open>time.ParseDuration\<close> and \<open>Duration.String\<close>.  The fraction of a unit goes through a float64, so rounding
  to 53 bits is written out, on numbers as fractions; the range of the exponent is left out, because a scale
  out of range makes the fraction less than a nanosecond, with or without it.  The main result:
  \<open>ParseDuration_String\<close>, every duration is parsed back from its text.
\<close>

section \<open>Rounding to a float64\<close>

function bitLen :: "int \<Rightarrow> nat" where
  "bitLen n = (if n \<le> 0 then 0 else Suc (bitLen (n div 2)))"
  by pat_completeness auto
termination by (relation "measure nat") auto

declare bitLen.simps [simp del]

type_synonym float = "int \<times> int"

definition roundEven :: "int \<Rightarrow> int \<Rightarrow> int" where
  "roundEven p q =
     (let m = p div q; r = p mod q in if q < 2 * r \<or> 2 * r = q \<and> m mod 2 = 1 then m + 1 else m)"

text \<open>The float64 next to \<open>p / q\<close>: \<open>a\<close> and \<open>b\<close> shift the quotient to 53 or 54 bits.\<close>

definition roundFloat :: "int \<Rightarrow> int \<Rightarrow> float" where
  "roundFloat p q =
     (let k = bitLen p; l = bitLen q + 53;
          b = k - l; a = l - k
      in if 9007199254740992 * (q * 2 ^ b) \<le> p * 2 ^ a
         then (if a = 0 then (roundEven p (q * 2 ^ (b + 1)) * 2 ^ (b + 1), 1)
               else (roundEven (p * 2 ^ (a - 1)) q, 2 ^ (a - 1)))
         else (roundEven (p * 2 ^ a) (q * 2 ^ b) * 2 ^ b, 2 ^ a))"

definition floatMul :: "float \<Rightarrow> float \<Rightarrow> float" where
  "floatMul x y = roundFloat (fst x * fst y) (snd x * snd y)"

definition floatDiv :: "float \<Rightarrow> float \<Rightarrow> float" where
  "floatDiv x y = roundFloat (fst x * snd y) (snd x * fst y)"

definition truncFloat :: "float \<Rightarrow> int" where
  "truncFloat x = fst x div snd x"

section \<open>Parsing\<close>

text \<open>\<open>1 << 63\<close> and \<open>1 << 64\<close>.\<close>

abbreviation bit63 :: int where "bit63 \<equiv> 9223372036854775808"
abbreviation bit64 :: int where "bit64 \<equiv> 18446744073709551616"

definition micro :: string where "micro = map char_of [0xC2, 0xB5 :: nat]"
definition mu :: string where "mu = map char_of [0xCE, 0xBC :: nat]"

definition unitMap :: "string \<rightharpoonup> int" where
  "unitMap = map_of [(''ns'', 1), (''us'', 1000), (micro @ ''s'', 1000), (mu @ ''s'', 1000), (''ms'', 1000000),
     (''s'', 1000000000), (''m'', 60000000000), (''h'', 3600000000000)]"

definition lowerHex :: "nat \<Rightarrow> char" where
  "lowerHex n = (if n < 10 then char_of (48 + n) else char_of (87 + n))"

text \<open>The package's own \<open>quote\<close>.\<close>

definition quoteChar :: "char \<Rightarrow> string" where
  "quoteChar c =
     (if byte c < 32 \<or> 128 \<le> byte c then CHR 0x5C # CHR ''x'' # [lowerHex (byte c div 16), lowerHex (byte c mod 16)]
      else if c = CHR 0x22 \<or> c = CHR 0x5C then [CHR 0x5C, c] else [c])"

definition quoteText :: "string \<Rightarrow> string" where
  "quoteText s = CHR 0x22 # concat (map quoteChar s) @ [CHR 0x22]"

definition durationError :: "string \<Rightarrow> go_error" where
  "durationError orig = External (''time: invalid duration '' @ quoteText orig)"

text \<open>\<open>leadingInt\<close>: \<open>None\<close> for an overflow.\<close>

fun leadingInt :: "int \<Rightarrow> string \<Rightarrow> (int \<times> string) option" where
  "leadingInt x [] = Some (x, [])"
| "leadingInt x (c # s) =
     (if \<not> isDigit c then Some (x, c # s)
      else if bit63 div 10 < x then None
      else if bit63 < 10 * x + int (digitVal c) then None
      else leadingInt (10 * x + int (digitVal c)) s)"

fun leadingFraction :: "int \<Rightarrow> float \<Rightarrow> bool \<Rightarrow> string \<Rightarrow> int \<times> float \<times> string" where
  "leadingFraction x scale overflow [] = (x, scale, [])"
| "leadingFraction x scale overflow (c # s) =
     (if \<not> isDigit c then (x, scale, c # s)
      else if overflow \<or> (bit63 - 1) div 10 < x \<or> bit63 < 10 * x + int (digitVal c) then leadingFraction x scale True s
      else leadingFraction (10 * x + int (digitVal c)) (floatMul scale (10, 1)) overflow s)"

definition unitChar :: "char \<Rightarrow> bool" where
  "unitChar c \<longleftrightarrow> c \<noteq> CHR ''.'' \<and> \<not> isDigit c"

text \<open>One number with its unit: its nanoseconds and the rest.\<close>

definition durationPiece :: "string \<Rightarrow> string \<Rightarrow> (int \<times> string) result" where
  "durationPiece orig s =
     (if \<not> (hd s = CHR ''.'' \<or> isDigit (hd s)) then Inl (durationError orig)
      else (case leadingInt 0 s of
          None \<Rightarrow> Inl (durationError orig)
        | Some (v, s1) \<Rightarrow>
            (let pre = (length s1 \<noteq> length s);
                 dot = (s1 \<noteq> [] \<and> hd s1 = CHR ''.'');
                 (f, scale, s2) = (if dot then leadingFraction 0 (1, 1) False (tl s1) else (0, (1, 1), s1));
                 post = (dot \<and> length s2 \<noteq> length (tl s1));
                 u = takeWhile unitChar s2; rest = dropWhile unitChar s2
             in if \<not> pre \<and> \<not> post then Inl (durationError orig)
                else if u = [] then Inl (External (''time: missing unit in duration '' @ quoteText orig))
                else (case unitMap u of
                    None \<Rightarrow> Inl (External (''time: unknown unit '' @ quoteText u @ '' in duration '' @ quoteText orig))
                  | Some unit \<Rightarrow>
                      if bit63 div unit < v then Inl (durationError orig)
                      else (let w = v * unit +
                                (if 0 < f then truncFloat (floatMul (roundFloat f 1) (floatDiv (unit, 1) scale)) else 0)
                            in if 0 < f \<and> bit63 < w then Inl (durationError orig) else Inr (w, rest))))))"

text \<open>The sum is kept in a uint64, so two pieces of \<open>1 << 63\<close> make zero.\<close>

function durationLoop :: "string \<Rightarrow> int \<Rightarrow> string \<Rightarrow> int result" where
  "durationLoop orig d [] = Inr d"
| "durationLoop orig d (c # s) =
     (case durationPiece orig (c # s) of
        Inl err \<Rightarrow> Inl err
      | Inr (w, rest) \<Rightarrow>
          if bit63 < (d + w) mod bit64 then Inl (durationError orig) else durationLoop orig ((d + w) mod bit64) rest)"
  by pat_completeness auto

lemma leadingInt_length: "leadingInt x s = Some (v, r) \<Longrightarrow> length r \<le> length s"
  by (induction x s rule: leadingInt.induct) (force split: if_splits)+

lemma leadingFraction_length: "length (snd (snd (leadingFraction x scale overflow s))) \<le> length s"
  by (induction x scale overflow s rule: leadingFraction.induct) auto

lemma durationPiece_length:
  assumes "durationPiece orig s = Inr (w, r)" "s \<noteq> []"
  shows "length r < length s"
proof -
  obtain v s1 where i: "leadingInt 0 s = Some (v, s1)"
    using assms by (auto simp: durationPiece_def split: if_splits option.splits)
  obtain f scale s2 where f: "(if s1 \<noteq> [] \<and> hd s1 = CHR ''.'' then leadingFraction 0 (1, 1) False (tl s1) else (0, (1, 1), s1)) = (f, scale, s2)"
    by (metis prod_cases3)
  have "length s2 \<le> length s1"
    using f leadingFraction_length [of 0 "(1, 1)" False "tl s1"] by (auto split: if_splits)
  moreover have "takeWhile unitChar s2 \<noteq> []" "r = dropWhile unitChar s2"
    using assms by (auto simp: durationPiece_def i f Let_def split: if_splits option.splits)
  then have "length r < length s2"
    by (metis append_Nil2 length_append length_dropWhile_le length_greater_0_conv less_add_same_cancel2 takeWhile_dropWhile_id)
  ultimately show ?thesis using leadingInt_length [OF i] by linarith
qed

termination durationLoop
  by (relation "measure (\<lambda>(orig, d, s). length s)") (use durationPiece_length in fastforce)+

declare durationLoop.simps(2) [simp del]

definition ParseDuration :: "string \<Rightarrow> duration result" where
  "ParseDuration orig =
     (let neg = (orig \<noteq> [] \<and> hd orig = CHR ''-'');
          s = (if orig \<noteq> [] \<and> hd orig \<in> {CHR ''-'', CHR ''+''} then tl orig else orig)
      in if s = ''0'' then Inr 0
         else if s = [] then Inl (durationError orig)
         else (case durationLoop orig 0 s of
             Inl err \<Rightarrow> Inl err
           | Inr d \<Rightarrow> if neg then Inr (word_of_int (- d)) else if bit63 - 1 < d then Inl (durationError orig) else Inr (word_of_int d)))"

section \<open>Printing\<close>

text \<open>\<open>fmtFrac\<close>: \<open>n\<close> digits from the right, without trailing zeros, and what is left of the number.\<close>

fun fmtFracLoop :: "nat \<Rightarrow> int \<Rightarrow> bool \<Rightarrow> string \<Rightarrow> int \<times> string" where
  "fmtFracLoop 0 v shown buf = (v, if shown then CHR ''.'' # buf else buf)"
| "fmtFracLoop (Suc n) v shown buf =
     (let digit = v mod 10; shown = (shown \<or> digit \<noteq> 0)
      in fmtFracLoop n (v div 10) shown (if shown then digitChar (nat digit) # buf else buf))"

definition fmtFrac :: "int \<Rightarrow> nat \<Rightarrow> int \<times> string" where
  "fmtFrac v prec = fmtFracLoop prec v False []"

definition formatUnits :: "int \<Rightarrow> string" where
  "formatUnits u =
     (if u = 0 then ''0s''
      else if u < 1000 then utoa (nat u) @ ''ns''
      else if u < 1000000 then (let (w, f) = fmtFrac u 3 in utoa (nat w) @ f @ micro @ ''s'')
      else if u < 1000000000 then (let (w, f) = fmtFrac u 6 in utoa (nat w) @ f @ ''ms'')
      else (let (w, f) = fmtFrac u 9; s = utoa (nat (w mod 60)) @ f @ ''s''; m = w div 60; h = m div 60
            in if m = 0 then s
               else (if h = 0 then [] else utoa (nat h) @ ''h'') @ utoa (nat (m mod 60)) @ ''m'' @ s))"

definition durationString :: "duration \<Rightarrow> string" where
  "durationString d = (if sint d < 0 then CHR ''-'' # formatUnits (- sint d) else formatUnits (sint d))"

section \<open>Numbers that a float64 holds\<close>

lemma bitLen_upper: "n < 2 ^ bitLen n"
proof (induction n rule: bitLen.induct)
  case (1 n)
  show ?case
  proof (cases "n \<le> 0")
    case True
    then show ?thesis by (simp add: bitLen.simps [of n])
  next
    case False
    then have "n div 2 < 2 ^ bitLen (n div 2)" by (rule 1)
    then show ?thesis using False by (simp add: bitLen.simps [of n])
  qed
qed

lemma bitLen_lower: "0 < n \<Longrightarrow> 2 ^ bitLen n \<le> 2 * n"
proof (induction n rule: bitLen.induct)
  case (1 n)
  show ?case
  proof (cases "n div 2 = 0")
    case True
    then have "n = 1" using "1.prems" by linarith
    then show ?thesis by (simp add: bitLen.simps)
  next
    case False
    then have "2 ^ bitLen (n div 2) \<le> 2 * (n div 2)" using 1 by simp
    then show ?thesis using "1.prems" by (simp add: bitLen.simps [of n])
  qed
qed

text \<open>\<open>x\<close> is a float64 with the value \<open>n\<close>.\<close>

definition exactly :: "int \<Rightarrow> float \<Rightarrow> bool" where
  "exactly n x \<longleftrightarrow> 0 < snd x \<and> fst x = n * snd x"

lemma roundEven_exact: "0 < q \<Longrightarrow> roundEven (m * q) q = m"
  by (simp add: roundEven_def Let_def)

lemma roundFloat_exact:
  assumes "0 < q" "0 \<le> n" "n < 2 ^ 53"
  shows "exactly n (roundFloat (n * q) q)"
proof -
  define k l a where "k = bitLen (n * q)" and "l = bitLen q + 53" and "a = l - k"
  have "k \<le> l"
  proof (cases "n = 0")
    case False
    then have "(2::int) ^ k \<le> 2 * (n * q)" unfolding k_def using assms by (intro bitLen_lower) simp
    also have "\<dots> < 2 * (2 ^ 53 * 2 ^ bitLen q)"
      using assms bitLen_upper [of q] by (intro mult_strict_left_mono mult_strict_mono) auto
    also have "\<dots> = 2 ^ Suc l" by (simp add: l_def power_add)
    finally have "k < Suc l" by (rule power_less_imp_less_exp [rotated]) simp
    then show ?thesis by simp
  qed (simp add: k_def bitLen.simps)
  then have b: "k - l = 0" by simp
  have r: "roundEven (n * q * 2 ^ i) q = n * 2 ^ i" for i using roundEven_exact [OF assms(1), of "n * 2 ^ i"] by (simp add: ac_simps)
  have "a \<noteq> 0 \<or> \<not> 9007199254740992 * q \<le> n * q" using assms by simp
  then show ?thesis
    unfolding roundFloat_def Let_def k_def [symmetric] l_def [symmetric] a_def [symmetric] b
    by (cases "a = 0") (auto simp: r exactly_def roundEven_exact [OF assms(1)])
qed

lemma floatMul_exact:
  assumes "exactly m x" "exactly n y" "0 \<le> m * n" "m * n < 2 ^ 53"
  shows "exactly (m * n) (floatMul x y)"
proof -
  have "floatMul x y = roundFloat (m * n * (snd x * snd y)) (snd x * snd y)"
    using assms by (simp add: floatMul_def exactly_def ac_simps)
  then show ?thesis using assms by (simp add: roundFloat_exact exactly_def [of m] exactly_def [of n])
qed

lemma floatDiv_exact:
  assumes "exactly (m * n) x" "exactly n y" "0 < n" "0 \<le> m" "m < 2 ^ 53"
  shows "exactly m (floatDiv x y)"
proof -
  have "floatDiv x y = roundFloat (m * (snd x * (n * snd y))) (snd x * (n * snd y))"
    using assms by (simp add: floatDiv_def exactly_def ac_simps)
  then show ?thesis using assms by (simp add: roundFloat_exact exactly_def [of _ x] exactly_def [of n])
qed

lemma truncFloat_exact: "exactly n x \<Longrightarrow> truncFloat x = n"
  by (auto simp: exactly_def truncFloat_def)

lemma exactly_int: "exactly n (n, 1)"
  by (simp add: exactly_def)

section \<open>Reading digits\<close>

lemma digitsVal_foldl: "foldl (\<lambda>a c. 10 * a + digitVal c) x ds = x * 10 ^ length ds + digitsVal ds"
proof (induction ds arbitrary: x)
  case (Cons c ds)
  show ?case using Cons [of "10 * x + digitVal c"] Cons [of "digitVal c"] by (simp add: digitsVal_def algebra_simps)
qed (simp add: digitsVal_def)

lemma digitsVal_Cons: "digitsVal (c # ds) = digitVal c * 10 ^ length ds + digitsVal ds"
  using digitsVal_foldl [of "digitVal c" ds] by (simp add: digitsVal_def)

definition stops :: "string \<Rightarrow> bool" where
  "stops r \<longleftrightarrow> r = [] \<or> \<not> isDigit (hd r)"

lemma times_power_le: "(0::int) \<le> y \<Longrightarrow> y * 10 ^ n \<le> b \<Longrightarrow> y \<le> b"
  using mult_left_mono [of 1 "10 ^ n" y] by simp

lemma leadingInt_digits:
  "list_all isDigit ds \<Longrightarrow> stops r \<Longrightarrow> 0 \<le> x \<Longrightarrow> x * 10 ^ length ds + int (digitsVal ds) \<le> bit63 \<Longrightarrow>
   leadingInt x (ds @ r) = Some (x * 10 ^ length ds + int (digitsVal ds), r)"
proof (induction ds arbitrary: x)
  case Nil
  then show ?case by (cases r) (simp_all add: stops_def digitsVal_def)
next
  case (Cons c ds)
  let ?y = "10 * x + int (digitVal c)"
  have y: "?y * 10 ^ length ds + int (digitsVal ds) = x * 10 ^ length (c # ds) + int (digitsVal (c # ds))"
    by (simp add: digitsVal_Cons algebra_simps)
  have "?y * 10 ^ length ds \<le> bit63" using Cons.prems(4) unfolding y [symmetric] by linarith
  then have "?y \<le> bit63" by (rule times_power_le [rotated]) (use Cons.prems in simp)
  then have "\<not> bit63 div 10 < x" "\<not> bit63 < ?y" by linarith+
  moreover have "leadingInt ?y (ds @ r) = Some (?y * 10 ^ length ds + int (digitsVal ds), r)"
    using Cons.prems y by (intro Cons.IH) simp_all
  ultimately show ?case using Cons.prems(1) y by simp
qed

lemma leadingFraction_digits:
  "list_all isDigit ds \<Longrightarrow> stops r \<Longrightarrow> 0 \<le> x \<Longrightarrow> (x + 1) * 10 ^ length ds \<le> 10 ^ 9 \<Longrightarrow>
   exactly s scale \<Longrightarrow> 0 < s \<Longrightarrow> s * 10 ^ length ds \<le> 10 ^ 9 \<Longrightarrow>
   \<exists>scale'. leadingFraction x scale False (ds @ r) = (x * 10 ^ length ds + int (digitsVal ds), scale', r) \<and>
     exactly (s * 10 ^ length ds) scale'"
proof (induction ds arbitrary: x s scale)
  case Nil
  then show ?case by (cases r) (simp_all add: stops_def digitsVal_def)
next
  case (Cons c ds)
  let ?y = "10 * x + int (digitVal c)"
  have c: "digitVal c < 10" using Cons.prems(1) by (auto simp: isDigit_def digitVal_def)
  have y: "?y * 10 ^ length ds + int (digitsVal ds) = x * 10 ^ length (c # ds) + int (digitsVal (c # ds))"
    by (simp add: digitsVal_Cons algebra_simps)
  have "(?y + 1) * 10 ^ length ds \<le> (10 * x + 10) * 10 ^ length ds" using c by (intro mult_right_mono) auto
  also have "\<dots> = (x + 1) * 10 ^ length (c # ds)" by (simp add: algebra_simps)
  finally have b: "(?y + 1) * 10 ^ length ds \<le> 10 ^ 9" using Cons.prems(4) by linarith
  have "?y + 1 \<le> 10 ^ 9" by (rule times_power_le [OF _ b]) (use Cons.prems(3) in simp)
  then have small: "?y < 10 ^ 9" by linarith
  have s: "s * 10 \<le> 10 ^ 9" by (rule times_power_le [of _ "length ds"]) (use Cons.prems(6,7) in \<open>simp_all add: ac_simps\<close>)
  have "exactly (s * 10) (floatMul scale (10, 1))"
    using Cons.prems(5,6) s by (intro floatMul_exact exactly_int) auto
  from Cons.IH [OF _ Cons.prems(2) _ b this] Cons.prems s
  obtain scale' where "leadingFraction ?y (floatMul scale (10, 1)) False (ds @ r) = (?y * 10 ^ length ds + int (digitsVal ds), scale', r)"
    "exactly (s * 10 * 10 ^ length ds) scale'" by (auto simp: ac_simps)
  moreover have "\<not> (bit63 - 1) div 10 < x" "\<not> bit63 < ?y" using small Cons.prems(3) by auto
  ultimately show ?case using Cons.prems(1) y by (auto simp: ac_simps)
qed

section \<open>Printing digits\<close>

lemma fixedDigits_Cons:
  "d < 10 \<Longrightarrow> g < 10 ^ k \<Longrightarrow> fixedDigits (Suc k) (d * 10 ^ k + g) = digitChar d # fixedDigits k g"
proof (induction k arbitrary: g)
  case (Suc k)
  have "d * 10 ^ Suc k + g = 10 * (d * 10 ^ k) + g" by simp
  then have "(d * 10 ^ Suc k + g) div 10 = d * 10 ^ k + g div 10" "(d * 10 ^ Suc k + g) mod 10 = g mod 10"
    by (simp_all only: div_mult_self4 mod_mult_self4)
  then show ?case using Suc.IH [of "g div 10"] Suc.prems
    by (simp only: fixedDigits.simps(2) [of "Suc k"] fixedDigits.simps(2) [of k g]) (simp add: less_mult_imp_div_less)
qed simp

text \<open>What stands after the point for the last \<open>i\<close> digits of \<open>u\<close>: they without trailing zeros.\<close>

definition fracDigits :: "int \<Rightarrow> nat \<Rightarrow> bool \<Rightarrow> string \<Rightarrow> bool" where
  "fracDigits u i shown buf \<longleftrightarrow>
     (if shown then \<exists>k g. 1 \<le> k \<and> k \<le> i \<and> 0 < g \<and> g < 10 ^ k \<and> buf = fixedDigits k g \<and> int g * 10 ^ (i - k) = u mod 10 ^ i
      else buf = [] \<and> u mod 10 ^ i = 0)"

lemma fracDigitsI:
  "1 \<le> k \<Longrightarrow> k \<le> i \<Longrightarrow> 0 < g \<Longrightarrow> g < 10 ^ k \<Longrightarrow> int g * 10 ^ (i - k) = u mod 10 ^ i \<Longrightarrow>
   fracDigits u i True (fixedDigits k g)"
  by (auto simp: fracDigits_def)

lemma mod_power_Suc: "(u::int) mod 10 ^ Suc i = (u div 10 ^ i mod 10) * 10 ^ i + u mod 10 ^ i"
  using zmod_zmult2_eq [of 10 u "10 ^ i"] by (simp only: power_Suc2) (simp add: mult.commute)

lemma fracDigits_step:
  assumes "fracDigits u i shown buf" "digit = u div 10 ^ i mod 10" "shown' = (shown \<or> digit \<noteq> 0)"
  shows "fracDigits u (Suc i) shown' (if shown' then digitChar (nat digit) # buf else buf)"
proof -
  have d: "0 \<le> digit" "digit < 10" using assms(2) by simp_all
  note m = mod_power_Suc [of u i, folded assms(2)]
  consider (old) "shown" | (new) "\<not> shown" "digit \<noteq> 0" | (none) "\<not> shown" "digit = 0" by blast
  then show ?thesis
  proof cases
    case old
    then obtain k g where k: "1 \<le> k" "k \<le> i" "0 < g" "g < 10 ^ k" "buf = fixedDigits k g" "int g * 10 ^ (i - k) = u mod 10 ^ i"
      using assms(1) by (auto simp: fracDigits_def)
    let ?g = "nat digit * 10 ^ k + g"
    have "10 ^ k * 10 ^ (i - k) = (10::int) ^ i" using k(2) by (simp flip: power_add)
    then have e: "int ?g * 10 ^ (i - k) = digit * 10 ^ i + int g * 10 ^ (i - k)" using d by (simp add: algebra_simps)
    have b: "?g < 10 ^ Suc k"
    proof -
      have "nat digit * 10 ^ k \<le> 9 * 10 ^ k" using d by (intro mult_right_mono) auto
      then show ?thesis using k(4) unfolding power_Suc by linarith
    qed
    have "fracDigits u (Suc i) True (fixedDigits (Suc k) ?g)"
      by (rule fracDigitsI [OF _ _ _ b]) (use k(2,3) in simp, use k(2) in simp, use k(3) in simp, simp only: diff_Suc_Suc e k(6) m)
    moreover have "fixedDigits (Suc k) ?g = digitChar (nat digit) # buf" unfolding k(5) by (rule fixedDigits_Cons) (use d k(4) in auto)
    ultimately show ?thesis using old by (simp add: assms(3))
  next
    case new
    then have "u mod 10 ^ i = 0" "buf = []" using assms(1) by (simp_all add: fracDigits_def)
    moreover have "fracDigits u (Suc i) True (fixedDigits (Suc 0) (nat digit))"
      by (rule fracDigitsI) (use new d m calculation(1) in auto)
    ultimately show ?thesis using new d by (simp add: assms(3))
  next
    case none
    then show ?thesis using assms(1) m by (simp add: fracDigits_def assms(3))
  qed
qed

lemma fmtFracLoop_digits:
  "fracDigits u i shown buf \<Longrightarrow> \<exists>shown' buf'. fracDigits u (i + n) shown' buf' \<and>
     fmtFracLoop n (u div 10 ^ i) shown buf = (u div 10 ^ (i + n), if shown' then CHR ''.'' # buf' else buf')"
proof (induction n arbitrary: i shown buf)
  case (Suc n)
  have "u div 10 ^ i div 10 = u div 10 ^ Suc i" using zdiv_zmult2_eq [of 10 u "10 ^ i"] by (simp only: power_Suc2)
  then show ?case using Suc.IH [OF fracDigits_step [OF Suc.prems refl refl]] by (simp add: Let_def)
next
  case 0
  then show ?case by (intro exI [of _ shown] exI [of _ buf]) simp
qed

lemma fmtFrac_digits:
  "\<exists>shown buf. fracDigits u prec shown buf \<and> fmtFrac u prec = (u div 10 ^ prec, if shown then CHR ''.'' # buf else [])"
  using fmtFracLoop_digits [of u 0 False "[]" prec] by (auto simp: fracDigits_def fmtFrac_def split: if_splits)

section \<open>The round trip\<close>

lemma unitChar_stops: "unitChar c \<Longrightarrow> stops (c # r)"
  by (simp add: stops_def unitChar_def)

lemma takeWhile_unit:
  assumes "list_all unitChar un" "r = [] \<or> \<not> unitChar (hd r)"
  shows "takeWhile unitChar (un @ r) = un" "dropWhile unitChar (un @ r) = r"
  using assms by (cases r; induction un; simp)+

text \<open>The text of \<open>F\<close>, less than a unit of \<open>10 ^ prec\<close>.\<close>

definition fracText :: "nat \<Rightarrow> int \<Rightarrow> string \<Rightarrow> bool" where
  "fracText prec F fr \<longleftrightarrow> F = 0 \<and> fr = [] \<or>
     (\<exists>k g. 1 \<le> k \<and> k \<le> prec \<and> prec \<le> 9 \<and> 0 < g \<and> g < 10 ^ k \<and> fr = CHR ''.'' # fixedDigits k g \<and>
        F = int g * 10 ^ (prec - k))"

text \<open>A number, its fraction, and the unit.\<close>

lemma durationPiece_text:
  assumes un: "unitMap un = Some unit" "list_all unitChar un" "un \<noteq> []" and r: "r = [] \<or> \<not> unitChar (hd r)"
    and w: "0 \<le> w" "0 < unit" "w * unit + F \<le> bit63" "0 \<le> F"
    and f: "fracText prec F fr" "fr \<noteq> [] \<Longrightarrow> unit = 10 ^ prec"
  shows "durationPiece orig (utoa (nat w) @ fr @ un @ r) = Inr (w * unit + F, r)"
proof -
  obtain c cs where c: "utoa (nat w) = c # cs" "isDigit c" using utoa_nonempty utoa_all_digits [of "nat w"] by (cases "utoa (nat w)") auto
  obtain x xs where x: "un = x # xs" "unitChar x" using un(2,3) by (cases un) auto
  note tw = takeWhile_unit [OF un(2) r]
  have small: "w \<le> bit63 div unit"
    using zdiv_mono1 [of "w * unit" bit63 unit] w by simp
  have le: "w \<le> bit63" using mult_left_mono [of 1 unit w] w by simp
  have "stops (fr @ un @ r)" using f x unitChar_stops by (auto simp: fracText_def stops_def isDigit_def byte_def)
  then have i: "leadingInt 0 (utoa (nat w) @ fr @ un @ r) = Some (w, fr @ un @ r)"
    using leadingInt_digits [OF utoa_all_digits [of "nat w"], of "fr @ un @ r" 0] le w(1) by simp
  have pre: "length (fr @ un @ r) \<noteq> length (utoa (nat w) @ fr @ un @ r)" by (simp add: c)
  show ?thesis
  proof (cases "fr = []")
    case True
    then have "F = 0" using f(1) by (auto simp: fracText_def)
    moreover have "x \<noteq> CHR ''.''" using x(2) by (simp add: unitChar_def)
    ultimately show ?thesis using True i pre small tw un(1,3) c x
      by (simp add: durationPiece_def Let_def)
  next
    case False
    then obtain k g where k: "1 \<le> k" "k \<le> prec" "prec \<le> 9" "0 < g" "g < 10 ^ k" "fr = CHR ''.'' # fixedDigits k g"
      "unit = 10 ^ prec" "F = int g * 10 ^ (prec - k)" using f by (auto simp: fracText_def)
    have p: "(10::int) ^ k \<le> 10 ^ 9" "(10::int) ^ prec \<le> 10 ^ 9" using k(2,3) by (intro power_increasing; simp)+
    have "list_all isDigit (fixedDigits k g)" by (induction k arbitrary: g) simp_all
    moreover have "stops (un @ r)" using x unitChar_stops by simp
    ultimately obtain scale where l: "leadingFraction 0 (1, 1) False (fixedDigits k g @ un @ r) = (int g, scale, un @ r)" "exactly (10 ^ k) scale"
      using leadingFraction_digits [of "fixedDigits k g" "un @ r" 0 1 "(1, 1)"] p(1) k(5) by (auto simp: exactly_int digitsVal_fixedDigits)
    have e: "(10::int) ^ (prec - k) * 10 ^ k = 10 ^ prec" using k(2) by (simp flip: power_add)
    have q: "(10::int) ^ (prec - k) \<le> 10 ^ 9" using k(3) by (intro power_increasing) auto
    have g: "int g < 10 ^ k" using k(5) by (metis of_nat_less_iff of_nat_numeral of_nat_power)
    have "int g * 10 ^ (prec - k) < 10 ^ k * 10 ^ (prec - k)" using g by (intro mult_strict_right_mono) auto
    also have "\<dots> = 10 ^ prec" using e by (simp add: mult.commute)
    finally have F: "F < 10 ^ 9" using p(2) k(8) by linarith
    have "exactly (10 ^ (prec - k)) (floatDiv (unit, 1) scale)"
      using l(2) exactly_int [of unit] q unfolding k(7) e [symmetric] by (intro floatDiv_exact) auto
    moreover have "exactly (int g) (roundFloat (int g) 1)"
      using roundFloat_exact [of 1 "int g"] order_less_le_trans [OF g p(1)] by simp
    ultimately have "exactly F (floatMul (roundFloat (int g) 1) (floatDiv (unit, 1) scale))"
      unfolding k(8) using F k(8) by (intro floatMul_exact) auto
    then show ?thesis using i pre small tw un(1,3) c l(1) k(4) w(3)
      by (simp add: durationPiece_def Let_def k(6) truncFloat_exact)
  qed
qed

lemma durationLoop_piece:
  assumes "unitMap un = Some unit" "list_all unitChar un" "un \<noteq> []" "r = [] \<or> \<not> unitChar (hd r)"
    and "0 \<le> w" "0 < unit" "0 \<le> F" "0 \<le> d" "d + w * unit + F \<le> bit63"
    and "fracText prec F fr" "fr \<noteq> [] \<Longrightarrow> unit = 10 ^ prec"
  shows "durationLoop orig d (utoa (nat w) @ fr @ un @ r) = durationLoop orig (d + w * unit + F) r"
proof -
  have "durationPiece orig (utoa (nat w) @ fr @ un @ r) = Inr (w * unit + F, r)"
    by (rule durationPiece_text [OF assms(1-6) _ assms(7,10,11)]) (use assms(8,9) in linarith)
  moreover obtain c cs where "utoa (nat w) = c # cs" by (cases "utoa (nat w)") auto
  moreover have "0 \<le> w * unit" using assms(5,6) by simp
  then have "(d + (w * unit + F)) mod bit64 = d + w * unit + F" using assms(7-9) by (subst mod_pos_pos_trivial) auto
  ultimately show ?thesis using assms(9) by (simp add: durationLoop.simps(2))
qed

lemma units_text:
  "unitMap ''ns'' = Some 1" "unitMap (micro @ ''s'') = Some 1000" "unitMap ''ms'' = Some 1000000"
  "unitMap ''s'' = Some 1000000000" "unitMap ''m'' = Some 60000000000" "unitMap ''h'' = Some 3600000000000"
  "list_all unitChar ''ns''" "list_all unitChar (micro @ ''s'')" "list_all unitChar ''ms''" "list_all unitChar ''s''"
  "list_all unitChar ''m''" "list_all unitChar ''h''"
  by code_simp+

lemma fmtFrac_text:
  assumes "prec \<le> 9"
  obtains fr where "fmtFrac u prec = (u div 10 ^ prec, fr)" "fracText prec (u mod 10 ^ prec) fr"
proof -
  obtain shown buf where b: "fracDigits u prec shown buf" "fmtFrac u prec = (u div 10 ^ prec, if shown then CHR ''.'' # buf else [])"
    using fmtFrac_digits by blast
  have "fracText prec (u mod 10 ^ prec) (if shown then CHR ''.'' # buf else [])"
    using b(1) assms by (cases shown) (force simp: fracDigits_def fracText_def)+
  then show thesis using that b(2) by blast
qed

lemma utoa_no_unit: "\<not> unitChar (hd (utoa n @ r))"
proof -
  obtain c cs where "utoa n = c # cs" by (cases "utoa n") auto
  then show ?thesis using utoa_all_digits [of n] by (simp add: unitChar_def)
qed

lemma parse_formatUnits:
  assumes "0 < u" "u \<le> bit63"
  shows "durationLoop orig 0 (formatUnits u) = Inr u"
proof -
  consider "u < 1000" | "1000 \<le> u" "u < 1000000" | "1000000 \<le> u" "u < 1000000000" | "1000000000 \<le> u" by linarith
  then show ?thesis
  proof cases
    case 1
    then show ?thesis
      using durationLoop_piece [of "''ns''" 1 "[]" u 0 0 0 "[]" orig] units_text assms by (simp add: formatUnits_def fracText_def)
  next
    case 2
    obtain fr where f: "fmtFrac u 3 = (u div 10 ^ 3, fr)" and g: "fracText 3 (u mod 10 ^ 3) fr"
      by (rule fmtFrac_text [of 3 u]) simp
    have "durationLoop orig 0 (utoa (nat (u div 10 ^ 3)) @ fr @ (micro @ ''s'') @ []) = durationLoop orig (0 + u div 10 ^ 3 * 10 ^ 3 + u mod 10 ^ 3) []"
      by (rule durationLoop_piece [OF _ _ _ _ _ _ _ _ _ g]) (use units_text assms in simp_all)
    then show ?thesis using 2 f by (simp add: formatUnits_def)
  next
    case 3
    obtain fr where f: "fmtFrac u 6 = (u div 10 ^ 6, fr)" and g: "fracText 6 (u mod 10 ^ 6) fr"
      by (rule fmtFrac_text [of 6 u]) simp
    have "durationLoop orig 0 (utoa (nat (u div 10 ^ 6)) @ fr @ ''ms'' @ []) = durationLoop orig (0 + u div 10 ^ 6 * 10 ^ 6 + u mod 10 ^ 6) []"
      by (rule durationLoop_piece [OF _ _ _ _ _ _ _ _ _ g]) (use units_text assms in simp_all)
    then show ?thesis using 3 f by (simp add: formatUnits_def)
  next
    case 4
    define w m h where "w = u div 10 ^ 9" and "m = w div 60" and "h = m div 60"
    obtain fr where f: "fmtFrac u 9 = (w, fr)" and g: "fracText 9 (u mod 10 ^ 9) fr"
      unfolding w_def by (rule fmtFrac_text [of 9 u]) simp
    have u: "u = h * 3600000000000 + (m mod 60) * 60000000000 + (w mod 60) * 1000000000 + u mod 10 ^ 9"
      by (simp add: w_def m_def h_def) presburger
    have n: "0 \<le> h" "0 \<le> m" "0 \<le> w" using assms(1) by (simp_all add: w_def m_def h_def)
    have zero: "fracText 0 0 []" by (simp add: fracText_def)
    let ?s = "utoa (nat (w mod 60)) @ fr @ ''s'' @ []"
    let ?m = "utoa (nat (m mod 60)) @ [] @ ''m'' @ ?s"
    have s: "durationLoop orig d ?s = durationLoop orig (d + w mod 60 * 10 ^ 9 + u mod 10 ^ 9) []"
      if "0 \<le> d" "d + w mod 60 * 10 ^ 9 + u mod 10 ^ 9 \<le> bit63" for d
      by (rule durationLoop_piece [OF _ _ _ _ _ _ _ _ _ g]) (use units_text that in simp_all)
    have ms: "durationLoop orig d ?m = durationLoop orig (d + m mod 60 * 60000000000 + 0) ?s"
      if "0 \<le> d" "d + m mod 60 * 60000000000 \<le> bit63" for d
      by (rule durationLoop_piece [where prec = 0]) (use zero units_text that utoa_no_unit in simp_all)
    have hs: "durationLoop orig 0 (utoa (nat h) @ [] @ ''h'' @ ?m) = durationLoop orig (0 + h * 3600000000000 + 0) ?m"
      if "h * 3600000000000 \<le> bit63"
      by (rule durationLoop_piece [where prec = 0]) (use zero units_text that n utoa_no_unit in simp_all)
    have "0 \<le> u mod 10 ^ 9" "0 \<le> w mod 60" "0 \<le> m mod 60" by simp_all
    note bounds = this u assms(2) n
    have shape: "formatUnits u = (if m = 0 then ?s else (if h = 0 then [] else utoa (nat h) @ ''h'') @ ?m)"
      using 4 by (simp add: formatUnits_def f Let_def m_def h_def)
    show ?thesis
    proof (cases "m = 0")
      case True
      then have "h = 0" by (simp add: h_def)
      then show ?thesis using s [of 0] bounds True shape by simp
    next
      case False
      have "durationLoop orig (h * 3600000000000) ?m = Inr u"
        using ms [of "h * 3600000000000"] s [of "h * 3600000000000 + m mod 60 * 60000000000"] bounds by simp
      then show ?thesis using hs bounds False shape by (cases "h = 0") simp_all
    qed
  qed
qed

lemma utoa_hd: "isDigit (hd (utoa n @ r))"
proof -
  obtain c cs where "utoa n = c # cs" by (cases "utoa n") auto
  then show ?thesis using utoa_all_digits [of n] by simp
qed

lemma formatUnits_ends: "formatUnits u \<noteq> []" "isDigit (hd (formatUnits u))" "last (formatUnits u) = CHR ''s''"
proof -
  have "isDigit CHR ''0''" by (simp add: isDigit_def byte_def)
  then show "isDigit (hd (formatUnits u))" using utoa_hd by (simp add: formatUnits_def Let_def split: prod.split)
  show "formatUnits u \<noteq> []" "last (formatUnits u) = CHR ''s''" by (auto simp: formatUnits_def Let_def split: prod.split)
qed

theorem ParseDuration_String: "ParseDuration (durationString d) = Inr d"
proof (cases "sint d = 0")
  case True
  then have "d = 0" by (simp only: signed_eq_0_iff)
  moreover have "ParseDuration (durationString 0) = Inr 0" by code_simp
  ultimately show ?thesis by simp
next
  case False
  let ?u = "\<bar>sint d\<bar>"
  have u: "0 < ?u" "?u \<le> bit63" using False sint64_bounds [of d] by auto
  obtain c s where c: "formatUnits ?u = c # s" "isDigit c" using formatUnits_ends(1,2) [of ?u] by (cases "formatUnits ?u") auto
  have sign: "c \<notin> {CHR ''-'', CHR ''+''}" using c(2) minus_not_digit by auto
  have zero: "c # s \<noteq> ''0''" using formatUnits_ends(3) [of ?u] c by auto
  note loop = parse_formatUnits [OF u, unfolded c(1)]
  show ?thesis
  proof (cases "sint d < 0")
    case True
    then have "durationString d = CHR ''-'' # c # s" using c by (simp add: durationString_def)
    then show ?thesis using True loop zero by (auto simp: ParseDuration_def Let_def)
  next
    case False
    then have "durationString d = c # s" using c by (simp add: durationString_def)
    then show ?thesis using False loop zero sign sint64_bounds(2) [of d] by (auto simp: ParseDuration_def Let_def)
  qed
qed

text \<open>The characters of a printed duration, which no quoting changes.\<close>

lemma fracText_chars: "fracText prec F fr \<Longrightarrow> list_all (\<lambda>c. c = CHR ''.'' \<or> isDigit c) fr"
proof -
  have "list_all isDigit (fixedDigits k g)" for k g by (induction k arbitrary: g) simp_all
  then show "fracText prec F fr \<Longrightarrow> ?thesis" by (auto simp: fracText_def list_all_iff)
qed

definition durationChar :: "char \<Rightarrow> bool" where
  "durationChar c \<longleftrightarrow> c = CHR ''.'' \<or> isDigit c \<or> c \<in> set ''-nmsh'' \<or> c \<in> set micro"

lemma durationString_chars: "list_all durationChar (durationString d)"
proof -
  have d: "list_all durationChar (utoa n)" for n using utoa_all_digits [of n] by (auto simp: list_all_iff durationChar_def)
  have f: "list_all durationChar (snd (fmtFrac u prec))" if "prec \<le> 9" for u prec
    by (rule fmtFrac_text [OF that, of u]) (use fracText_chars in \<open>fastforce simp: list_all_iff durationChar_def\<close>)
  note f3 = f [of 3] and f6 = f [of 6] and f9 = f [of 9]
  have w: "list_all durationChar (''0s'' @ ''-ns'' @ ''mh'' @ micro)" by code_simp
  have "list_all durationChar (formatUnits u)" for u
    using d f3 [of u] f6 [of u] f9 [of u] w
    by (cases "fmtFrac u 3"; cases "fmtFrac u 6"; cases "fmtFrac u 9") (simp add: formatUnits_def Let_def)
  then show ?thesis using w by (simp add: durationString_def)
qed

end
