(* ===== verification/Config.thy ===== *)
theory Config
  imports TimeFormat GoDuration
begin

text \<open>
  internal/config/config.go: the configuration structs, the defaults, the normalisation of a
  schedule and the validation of a configuration.  The time zone database and the YAML decoder are
  outside the repository: \<open>loadLocation\<close>, \<open>readFile\<close> and \<open>unmarshalYAML\<close> are arguments of
  the functions that call them.
\<close>

named_theorems config_defs \<open>definitions unfolded together when a configuration is validated\<close>

section \<open>The structs\<close>

text \<open>
  A value of Go's type \<open>any\<close> as YAML, JSON and the program build them.  \<open>AnyFloat\<close> and
  \<open>AnyNumber\<close> carry the decimal literal of a float64 and of a \<open>json.Number\<close>.  A map that is
  only read by key is an association list with distinct keys.
\<close>

datatype any =
    AnyNil
  | AnyBool bool
  | AnyInt int
  | AnyFloat string
  | AnyNumber string
  | AnyString string
  | AnyTime go_time
  | AnyList "any list"
  | AnyMap "(string \<times> any) list"

record TargetConfig =
  tc_Type :: string
  tc_URL :: string
  tc_Method :: string
  tc_Headers :: "(string \<times> string) list option"
  tc_Body :: "(string \<times> any) list option"
  tc_Args :: "any list option"
  tc_Queue :: string
  tc_JobType :: string
  tc_Instance :: string

record ScheduleConfig =
  sc_Name :: string
  sc_Description :: string
  sc_ScheduleType :: string
  sc_Cron :: string
  sc_Timezone :: string
  sc_RunAt :: string
  sc_StartsAt :: string
  sc_RateInterval :: "64 word"
  sc_RateUnit :: string
  sc_CompletedAt :: "go_time option"
  sc_Paused :: bool
  sc_Timeout :: duration
  sc_AllowConcurrent :: bool
  sc_Target :: TargetConfig
  sc_NextRun :: go_time
  sc_PreviousRun :: go_time

record FaktoryInstance =
  fi_Name :: string
  fi_URL :: string
  fi_PasswordEnv :: string

record ServerConfig =
  sv_Addr :: string

record StoreConfig =
  st_Type :: string
  st_Path :: string

record RunRetentionConfig =
  rr_MaxRecords :: int
  rr_MaxAgeDays :: int

record RunLoggingConfig =
  rl_Stdout :: string

record Config =
  cfg_Server :: ServerConfig
  cfg_Store :: StoreConfig
  cfg_RunRetention :: RunRetentionConfig
  cfg_RunLogging :: RunLoggingConfig
  cfg_Faktory :: "FaktoryInstance list"
  cfg_Schedules :: "ScheduleConfig list"

text \<open>The zero values of the structs.\<close>

definition zeroTarget :: TargetConfig where
  "zeroTarget = \<lparr>tc_Type = [], tc_URL = [], tc_Method = [], tc_Headers = None, tc_Body = None,
     tc_Args = None, tc_Queue = [], tc_JobType = [], tc_Instance = []\<rparr>"

definition zeroSchedule :: ScheduleConfig where
  "zeroSchedule = \<lparr>sc_Name = [], sc_Description = [], sc_ScheduleType = [], sc_Cron = [],
     sc_Timezone = [], sc_RunAt = [], sc_StartsAt = [], sc_RateInterval = 0, sc_RateUnit = [],
     sc_CompletedAt = None, sc_Paused = False, sc_Timeout = 0, sc_AllowConcurrent = False,
     sc_Target = zeroTarget, sc_NextRun = zeroTime, sc_PreviousRun = zeroTime\<rparr>"

definition zeroInstance :: FaktoryInstance where
  "zeroInstance = \<lparr>fi_Name = [], fi_URL = [], fi_PasswordEnv = []\<rparr>"

definition zeroConfig :: Config where
  "zeroConfig = \<lparr>cfg_Server = \<lparr>sv_Addr = []\<rparr>, cfg_Store = \<lparr>st_Type = [], st_Path = []\<rparr>,
     cfg_RunRetention = \<lparr>rr_MaxRecords = 0, rr_MaxAgeDays = 0\<rparr>,
     cfg_RunLogging = \<lparr>rl_Stdout = []\<rparr>, cfg_Faktory = [], cfg_Schedules = []\<rparr>"

section \<open>Defaults\<close>

definition NormalizeSchedule :: "ScheduleConfig \<Rightarrow> ScheduleConfig" where
  "NormalizeSchedule s0 =
     (let s1 = (if sc_ScheduleType s0 = [] then s0\<lparr>sc_ScheduleType := ''cron''\<rparr> else s0);
          s2 = (if sc_Timezone s1 = [] then s1\<lparr>sc_Timezone := ''UTC''\<rparr> else s1);
          s3 = (if sc_Timeout s2 = 0 then s2\<lparr>sc_Timeout := 30 * Second\<rparr> else s2);
          s4 = (if tc_Method (sc_Target s3) = []
                then s3\<lparr>sc_Target := (sc_Target s3)\<lparr>tc_Method := ''POST''\<rparr>\<rparr> else s3);
          s5 = (if tc_Type (sc_Target s4) = ''faktory'' \<and> tc_Queue (sc_Target s4) = []
                then s4\<lparr>sc_Target := (sc_Target s4)\<lparr>tc_Queue := ''default''\<rparr>\<rparr> else s4)
      in s5\<lparr>sc_NextRun := zeroTime, sc_PreviousRun := zeroTime\<rparr>)"

definition ApplyDefaults :: "Config \<Rightarrow> Config" where
  "ApplyDefaults c0 =
     (let c1 = (if sv_Addr (cfg_Server c0) = []
                then c0\<lparr>cfg_Server := (cfg_Server c0)\<lparr>sv_Addr := '':9808''\<rparr>\<rparr> else c0);
          c2 = (if st_Type (cfg_Store c1) = []
                then c1\<lparr>cfg_Store := (cfg_Store c1)\<lparr>st_Type := ''bbolt''\<rparr>\<rparr> else c1);
          c3 = (if st_Path (cfg_Store c2) = []
                then c2\<lparr>cfg_Store := (cfg_Store c2)\<lparr>st_Path := ''./data/clock-relay.db''\<rparr>\<rparr> else c2);
          c4 = (if rr_MaxRecords (cfg_RunRetention c3) = 0
                then c3\<lparr>cfg_RunRetention := (cfg_RunRetention c3)\<lparr>rr_MaxRecords := 10000\<rparr>\<rparr> else c3);
          c5 = (if rr_MaxAgeDays (cfg_RunRetention c4) = 0
                then c4\<lparr>cfg_RunRetention := (cfg_RunRetention c4)\<lparr>rr_MaxAgeDays := 30\<rparr>\<rparr> else c4);
          c6 = (if rl_Stdout (cfg_RunLogging c5) = []
                then c5\<lparr>cfg_RunLogging := (cfg_RunLogging c5)\<lparr>rl_Stdout := ''summary''\<rparr>\<rparr> else c5)
      in c6\<lparr>cfg_Schedules := map NormalizeSchedule (cfg_Schedules c6)\<rparr>)"

section \<open>Local date-times\<close>

fun firstSome :: "'a option list \<Rightarrow> 'a option" where
  "firstSome [] = None"
| "firstSome (None # xs) = firstSome xs"
| "firstSome (Some x # xs) = Some x"

text \<open>
  The two layouts are tried in the order of the source, then RFC 3339; \<open>parsed.In(location)\<close>
  does not change the instant.
\<close>

definition ParseLocalDateTime ::
    "(string \<Rightarrow> location result) \<Rightarrow> string \<Rightarrow> string \<Rightarrow> go_time result" where
  "ParseLocalDateTime loadLocation raw timezone =
     bindE (loadLocation timezone) (\<lambda>loc.
       let raw = TrimSpace raw in
       case firstSome [parseMinuteLayout raw loc, parseSecondLayout raw loc] of
         Some t \<Rightarrow> Inr t
       | None \<Rightarrow> (case parseRFC3339 raw of
           Some t \<Rightarrow> Inr t
         | None \<Rightarrow> Inl (Errorf ''expected local datetime like 2026-05-10T09:00'')))"

section \<open>Validation\<close>

definition nameChar :: "char \<Rightarrow> bool" where
  "nameChar c \<longleftrightarrow> 65 \<le> byte c \<and> byte c \<le> 90 \<or> 97 \<le> byte c \<and> byte c \<le> 122 \<or> isDigit c
     \<or> c = CHR ''.'' \<or> c = CHR ''_'' \<or> c = CHR ''-''"

text \<open>The regular expression \<open>^[A-Za-z0-9._-]+$\<close>.\<close>

definition validScheduleName :: "string \<Rightarrow> bool" where
  "validScheduleName s \<longleftrightarrow> s \<noteq> [] \<and> list_all nameChar s"

definition ValidateRunRetention :: "RunRetentionConfig \<Rightarrow> unit result" where
  "ValidateRunRetention r =
     (if rr_MaxRecords r < 0 then Inl (ConfigError ''run_retention.max_records must be non-negative'')
      else if rr_MaxAgeDays r < 0 then Inl (ConfigError ''run_retention.max_age_days must be non-negative'')
      else Inr ())"

definition ValidateRunLogging :: "RunLoggingConfig \<Rightarrow> unit result" where
  "ValidateRunLogging l =
     (if rl_Stdout l \<in> {[], ''off'', ''summary'', ''full''} then Inr ()
      else Inl (ConfigError ''run_logging.stdout must be off, summary, or full''))"

definition validateScheduleTiming ::
    "(string \<Rightarrow> location result) \<Rightarrow> ScheduleConfig \<Rightarrow> unit result" where
  "validateScheduleTiming loadLocation s =
     (if sc_ScheduleType s = ''once'' then
        if sc_RunAt s = [] then Inl (ConfigError (''run_at is required for once schedule: '' @ sc_Name s))
        else (case ParseLocalDateTime loadLocation (sc_RunAt s) (sc_Timezone s) of
            Inl e \<Rightarrow> Inl (Wrapped (''invalid run_at for schedule '' @ sc_Name s @ '': '') e)
          | Inr _ \<Rightarrow> Inr ())
      else if sc_ScheduleType s = ''rate'' then
        if sc_StartsAt s = [] then Inl (ConfigError (''starts_at is required for rate schedule: '' @ sc_Name s))
        else (case ParseLocalDateTime loadLocation (sc_StartsAt s) (sc_Timezone s) of
            Inl e \<Rightarrow> Inl (Wrapped (''invalid starts_at for schedule '' @ sc_Name s @ '': '') e)
          | Inr _ \<Rightarrow>
              if sint (sc_RateInterval s) \<le> 0
              then Inl (ConfigError (''rate_interval must be positive for schedule: '' @ sc_Name s))
              else if sc_RateUnit s \<in> {''minutes'', ''hours'', ''days''} then Inr ()
              else Inl (ConfigError (''rate_unit must be minutes, hours, or days for schedule: '' @ sc_Name s)))
      else if sc_ScheduleType s = ''cron'' then
        if sc_Cron s = [] then Inl (ConfigError (''cron is required for schedule: '' @ sc_Name s)) else Inr ()
      else Inl (ConfigError (''unsupported schedule_type for schedule '' @ sc_Name s @ '': '' @ sc_ScheduleType s)))"

definition TargetValidate :: "TargetConfig \<Rightarrow> string \<Rightarrow> unit result" where
  "TargetValidate t scheduleName =
     (if tc_Type t = ''http'' then
        if tc_URL t = [] then Inl (ConfigError (''http target url is required for schedule: '' @ scheduleName))
        else Inr ()
      else if tc_Type t = ''faktory'' then
        if tc_Instance t = [] then Inl (ConfigError (''faktory target instance is required for schedule: '' @ scheduleName))
        else if tc_JobType t = [] then Inl (ConfigError (''faktory target job_type is required for schedule: '' @ scheduleName))
        else Inr ()
      else Inl (ConfigError (''unsupported target type for schedule '' @ scheduleName @ '': '' @ tc_Type t)))"

text \<open>The loop over the Faktory instances; its result is the set \<open>seenInstances\<close>.\<close>

fun validateInstances :: "FaktoryInstance list \<Rightarrow> string set \<Rightarrow> string set result" where
  "validateInstances [] seen = Inr seen"
| "validateInstances (i # is) seen =
     (if fi_Name i = [] then Inl (ConfigError ''faktory instance name is required'')
      else if fi_Name i \<in> seen then Inl (ConfigError (''duplicate faktory instance: '' @ fi_Name i))
      else if fi_URL i = [] then Inl (ConfigError (''faktory instance url is required for: '' @ fi_Name i))
      else validateInstances is (insert (fi_Name i) seen))"

text \<open>The loop over the schedules.\<close>

fun validateSchedules ::
    "(string \<Rightarrow> location result) \<Rightarrow> string set \<Rightarrow> ScheduleConfig list \<Rightarrow> string set \<Rightarrow> unit result" where
  "validateSchedules loadLocation insts [] seen = Inr ()"
| "validateSchedules loadLocation insts (s0 # ss) seen =
     (let s = NormalizeSchedule s0 in
      if sc_Name s = [] then Inl (ConfigError ''schedule name is required'')
      else if \<not> validScheduleName (sc_Name s) \<or> Contains (sc_Name s) ''..''
      then Inl (ConfigError (''schedule name may only contain letters, numbers, dots, underscores, and dashes: '' @ sc_Name s))
      else if sc_Name s \<in> seen then Inl (ConfigError (''duplicate schedule name: '' @ sc_Name s))
      else (case loadLocation (sc_Timezone s) of
          Inl e \<Rightarrow> Inl (Wrapped (''invalid timezone for schedule '' @ sc_Name s @ '': '') e)
        | Inr _ \<Rightarrow>
            bindE (validateScheduleTiming loadLocation s) (\<lambda>_.
            bindE (TargetValidate (sc_Target s) (sc_Name s)) (\<lambda>_.
              if tc_Type (sc_Target s) = ''faktory'' \<and> tc_Instance (sc_Target s) \<noteq> []
                 \<and> tc_Instance (sc_Target s) \<notin> insts
              then Inl (ConfigError (''unknown faktory instance for schedule '' @ sc_Name s @ '': '' @ tc_Instance (sc_Target s)))
              else validateSchedules loadLocation insts ss (insert (sc_Name s) seen)))))"

definition Validate :: "(string \<Rightarrow> location result) \<Rightarrow> Config \<Rightarrow> unit result" where
  "Validate loadLocation c =
     bindE (ValidateRunRetention (cfg_RunRetention c)) (\<lambda>_.
     bindE (ValidateRunLogging (cfg_RunLogging c)) (\<lambda>_.
     bindE (validateInstances (cfg_Faktory c) {}) (\<lambda>insts.
     validateSchedules loadLocation insts (cfg_Schedules c) {})))"

text \<open>\<open>LoadConfig\<close> returns the configuration together with the error of its validation.\<close>

definition LoadConfig ::
    "(string \<Rightarrow> string result) \<Rightarrow> (string \<Rightarrow> Config result) \<Rightarrow> (string \<Rightarrow> location result) \<Rightarrow>
     string \<Rightarrow> Config \<times> go_error option" where
  "LoadConfig readFile unmarshalYAML loadLocation path =
     (case readFile path of
        Inl e \<Rightarrow> (zeroConfig, Some e)
      | Inr raw \<Rightarrow>
          (case unmarshalYAML raw of
             Inl e \<Rightarrow> (zeroConfig, Some e)
           | Inr cfg0 \<Rightarrow>
               (let cfg = ApplyDefaults cfg0 in
                (cfg, case Validate loadLocation cfg of Inl e \<Rightarrow> Some e | Inr _ \<Rightarrow> None))))"

definition AllowsConcurrentRuns :: "ScheduleConfig \<Rightarrow> bool" where
  "AllowsConcurrentRuns s = sc_AllowConcurrent s"

definition FaktoryInstanceNames :: "Config \<Rightarrow> string list" where
  "FaktoryInstanceNames c = map fi_Name (cfg_Faktory c)"

definition FindFaktoryInstance :: "Config \<Rightarrow> string \<Rightarrow> FaktoryInstance \<times> bool" where
  "FindFaktoryInstance c name =
     (case find (\<lambda>i. fi_Name i = name) (cfg_Faktory c) of
        Some i \<Rightarrow> (i, True) | None \<Rightarrow> (zeroInstance, False))"

section \<open>Durations in files\<close>

text \<open>
  \<open>decoded\<close> is the scalar that the YAML library decodes, \<open>decodeString\<close> reads a JSON string.  \<open>%q\<close> only
  puts quotes around what \<open>String\<close> prints (\<open>durationString_chars\<close>), for the sign micro is printable.
\<close>

definition DurationString :: "duration \<Rightarrow> string" where
  "DurationString d = (if d = 0 then [] else durationString d)"

definition UnmarshalYAML :: "string result \<Rightarrow> duration result" where
  "UnmarshalYAML decoded = bindE decoded ParseDuration"

definition MarshalJSON :: "duration \<Rightarrow> string" where
  "MarshalJSON d = CHR 0x22 # DurationString d @ [CHR 0x22]"

definition UnmarshalJSON :: "(string \<Rightarrow> string result) \<Rightarrow> string \<Rightarrow> duration result" where
  "UnmarshalJSON decodeString raw =
     bindE (decodeString raw) (\<lambda>value. if value = [] then Inr 0 else ParseDuration value)"

lemma durationString_nonempty: "durationString d \<noteq> []"
  using formatUnits_ends(1) by (simp add: durationString_def)

lemma Duration_roundtrip:
  assumes "\<And>s. list_all durationChar s \<Longrightarrow> decodeString (CHR 0x22 # s @ [CHR 0x22]) = Inr s"
  shows "UnmarshalJSON decodeString (MarshalJSON d) = Inr d"
proof -
  have "list_all durationChar (DurationString d)" using durationString_chars by (simp add: DurationString_def)
  then have "decodeString (MarshalJSON d) = Inr (DurationString d)" by (simp add: MarshalJSON_def assms)
  then show ?thesis by (simp add: UnmarshalJSON_def DurationString_def durationString_nonempty ParseDuration_String)
qed

section \<open>Facts about the defaults\<close>

lemma seconds_nonzero [simp]: "(30 * Second) \<noteq> 0"
  by (simp add: Second_def)

lemma NormalizeSchedule_fields [simp]:
  "sc_Name (NormalizeSchedule s) = sc_Name s"
  "sc_Description (NormalizeSchedule s) = sc_Description s"
  "sc_Cron (NormalizeSchedule s) = sc_Cron s"
  "sc_RunAt (NormalizeSchedule s) = sc_RunAt s"
  "sc_StartsAt (NormalizeSchedule s) = sc_StartsAt s"
  "sc_RateInterval (NormalizeSchedule s) = sc_RateInterval s"
  "sc_RateUnit (NormalizeSchedule s) = sc_RateUnit s"
  "sc_CompletedAt (NormalizeSchedule s) = sc_CompletedAt s"
  "sc_Paused (NormalizeSchedule s) = sc_Paused s"
  "sc_AllowConcurrent (NormalizeSchedule s) = sc_AllowConcurrent s"
  "tc_Type (sc_Target (NormalizeSchedule s)) = tc_Type (sc_Target s)"
  "tc_URL (sc_Target (NormalizeSchedule s)) = tc_URL (sc_Target s)"
  "tc_Instance (sc_Target (NormalizeSchedule s)) = tc_Instance (sc_Target s)"
  "tc_JobType (sc_Target (NormalizeSchedule s)) = tc_JobType (sc_Target s)"
  "sc_NextRun (NormalizeSchedule s) = zeroTime"
  "sc_PreviousRun (NormalizeSchedule s) = zeroTime"
  by (simp_all add: NormalizeSchedule_def Let_def)

lemma NormalizeSchedule_defaulted:
  "sc_ScheduleType (NormalizeSchedule s) = (if sc_ScheduleType s = [] then ''cron'' else sc_ScheduleType s)"
  "sc_Timezone (NormalizeSchedule s) = (if sc_Timezone s = [] then ''UTC'' else sc_Timezone s)"
  "sc_Timeout (NormalizeSchedule s) = (if sc_Timeout s = 0 then 30 * Second else sc_Timeout s)"
  "tc_Method (sc_Target (NormalizeSchedule s)) =
     (if tc_Method (sc_Target s) = [] then ''POST'' else tc_Method (sc_Target s))"
  "tc_Queue (sc_Target (NormalizeSchedule s)) =
     (if tc_Type (sc_Target s) = ''faktory'' \<and> tc_Queue (sc_Target s) = []
      then ''default'' else tc_Queue (sc_Target s))"
  by (simp_all add: NormalizeSchedule_def Let_def)

text \<open>A schedule that normalisation leaves alone.\<close>

definition normalised :: "ScheduleConfig \<Rightarrow> bool" where
  "normalised s \<longleftrightarrow> sc_ScheduleType s \<noteq> [] \<and> sc_Timezone s \<noteq> [] \<and> sc_Timeout s \<noteq> 0 \<and>
     tc_Method (sc_Target s) \<noteq> [] \<and>
     (tc_Type (sc_Target s) = ''faktory'' \<longrightarrow> tc_Queue (sc_Target s) \<noteq> []) \<and>
     sc_NextRun s = zeroTime \<and> sc_PreviousRun s = zeroTime"

lemma normalised_NormalizeSchedule: "normalised (NormalizeSchedule s)"
  by (simp add: normalised_def NormalizeSchedule_defaulted)

lemma NormalizeSchedule_id: "normalised s \<Longrightarrow> NormalizeSchedule s = s"
  by (auto simp: normalised_def NormalizeSchedule_def Let_def)

lemma NormalizeSchedule_idem [simp]: "NormalizeSchedule (NormalizeSchedule s) = NormalizeSchedule s"
  by (rule NormalizeSchedule_id [OF normalised_NormalizeSchedule])

lemma normalised_updates [simp]:
  "normalised (s\<lparr>sc_Paused := p\<rparr>) = normalised s"
  "normalised (s\<lparr>sc_CompletedAt := c\<rparr>) = normalised s"
  by (simp_all add: normalised_def)

lemma ApplyDefaults_fields [simp]:
  "cfg_Faktory (ApplyDefaults c) = cfg_Faktory c"
  "cfg_Schedules (ApplyDefaults c) = map NormalizeSchedule (cfg_Schedules c)"
  "rr_MaxRecords (cfg_RunRetention (ApplyDefaults c)) =
     (if rr_MaxRecords (cfg_RunRetention c) = 0 then 10000 else rr_MaxRecords (cfg_RunRetention c))"
  "rr_MaxAgeDays (cfg_RunRetention (ApplyDefaults c)) =
     (if rr_MaxAgeDays (cfg_RunRetention c) = 0 then 30 else rr_MaxAgeDays (cfg_RunRetention c))"
  "rl_Stdout (cfg_RunLogging (ApplyDefaults c)) =
     (if rl_Stdout (cfg_RunLogging c) = [] then ''summary'' else rl_Stdout (cfg_RunLogging c))"
  "sv_Addr (cfg_Server (ApplyDefaults c)) =
     (if sv_Addr (cfg_Server c) = [] then '':9808'' else sv_Addr (cfg_Server c))"
  "st_Type (cfg_Store (ApplyDefaults c)) =
     (if st_Type (cfg_Store c) = [] then ''bbolt'' else st_Type (cfg_Store c))"
  "st_Path (cfg_Store (ApplyDefaults c)) =
     (if st_Path (cfg_Store c) = [] then ''./data/clock-relay.db'' else st_Path (cfg_Store c))"
  by (simp_all add: ApplyDefaults_def Let_def)

section \<open>Facts about the validation\<close>

text \<open>What a valid schedule is, stated without the loop and without the error messages.\<close>

definition timingOk :: "(string \<Rightarrow> location result) \<Rightarrow> ScheduleConfig \<Rightarrow> bool" where
  "timingOk loadLocation s \<longleftrightarrow>
     sc_ScheduleType s = ''once'' \<and> sc_RunAt s \<noteq> [] \<and>
       isOk (ParseLocalDateTime loadLocation (sc_RunAt s) (sc_Timezone s)) \<or>
     sc_ScheduleType s = ''rate'' \<and> sc_StartsAt s \<noteq> [] \<and>
       isOk (ParseLocalDateTime loadLocation (sc_StartsAt s) (sc_Timezone s)) \<and>
       0 < sint (sc_RateInterval s) \<and> sc_RateUnit s \<in> {''minutes'', ''hours'', ''days''} \<or>
     sc_ScheduleType s = ''cron'' \<and> sc_Cron s \<noteq> []"

definition targetOk :: "TargetConfig \<Rightarrow> bool" where
  "targetOk t \<longleftrightarrow> tc_Type t = ''http'' \<and> tc_URL t \<noteq> [] \<or>
     tc_Type t = ''faktory'' \<and> tc_Instance t \<noteq> [] \<and> tc_JobType t \<noteq> []"

definition nameOk :: "string \<Rightarrow> bool" where
  "nameOk n \<longleftrightarrow> n \<noteq> [] \<and> list_all nameChar n \<and> \<not> Contains n ''..''"

definition scheduleOk :: "(string \<Rightarrow> location result) \<Rightarrow> string set \<Rightarrow> ScheduleConfig \<Rightarrow> bool" where
  "scheduleOk loadLocation insts s \<longleftrightarrow>
     nameOk (sc_Name s) \<and> isOk (loadLocation (sc_Timezone s)) \<and> timingOk loadLocation s \<and>
     targetOk (sc_Target s) \<and>
     (tc_Type (sc_Target s) = ''faktory'' \<longrightarrow> tc_Instance (sc_Target s) \<in> insts)"

definition instancesOk :: "FaktoryInstance list \<Rightarrow> bool" where
  "instancesOk is \<longleftrightarrow> distinct (map fi_Name is) \<and> (\<forall>i \<in> set is. fi_Name i \<noteq> [] \<and> fi_URL i \<noteq> [])"

lemma validateScheduleTiming_iff:
  "isOk (validateScheduleTiming loadLocation s) \<longleftrightarrow> timingOk loadLocation s"
  by (auto simp: validateScheduleTiming_def timingOk_def split: sum.splits)

lemma TargetValidate_iff: "isOk (TargetValidate t n) \<longleftrightarrow> targetOk t"
  by (auto simp: TargetValidate_def targetOk_def)

lemma unit_result_ok: "m = Inr u \<longleftrightarrow> isOk (m :: unit result)"
  by (cases m) simp_all

lemma validateInstances_iff:
  "validateInstances is seen = Inr out \<longleftrightarrow>
     instancesOk is \<and> fi_Name ` set is \<inter> seen = {} \<and> out = seen \<union> fi_Name ` set is"
  by (induction "is" arbitrary: seen) (auto simp: instancesOk_def)

lemma validateSchedules_iff:
  "isOk (validateSchedules loadLocation insts ss seen) \<longleftrightarrow>
     (\<forall>s \<in> set ss. scheduleOk loadLocation insts (NormalizeSchedule s)) \<and>
     distinct (map sc_Name ss) \<and> sc_Name ` set ss \<inter> seen = {}"
proof (induction ss arbitrary: seen)
  case Nil
  then show ?case by simp
next
  case (Cons s ss)
  let ?n = "NormalizeSchedule s"
  have step: "isOk (validateSchedules loadLocation insts (s # ss) seen) \<longleftrightarrow>
      nameOk (sc_Name s) \<and> sc_Name s \<notin> seen \<and> isOk (loadLocation (sc_Timezone ?n)) \<and>
      timingOk loadLocation ?n \<and> targetOk (sc_Target ?n) \<and>
      (tc_Type (sc_Target ?n) = ''faktory'' \<longrightarrow> tc_Instance (sc_Target ?n) \<in> insts) \<and>
      isOk (validateSchedules loadLocation insts ss (insert (sc_Name s) seen))"
    using validateScheduleTiming_iff [of loadLocation ?n]
      TargetValidate_iff [of "sc_Target ?n" "sc_Name s"]
    by (cases "loadLocation (sc_Timezone ?n)"; cases "validateScheduleTiming loadLocation ?n";
        cases "TargetValidate (sc_Target ?n) (sc_Name s)")
       (auto simp: nameOk_def validScheduleName_def targetOk_def Let_def)
  show ?case unfolding step Cons.IH by (auto simp: scheduleOk_def)
qed

lemma Validate_iff:
  "isOk (Validate loadLocation c) \<longleftrightarrow>
     0 \<le> rr_MaxRecords (cfg_RunRetention c) \<and> 0 \<le> rr_MaxAgeDays (cfg_RunRetention c) \<and>
     rl_Stdout (cfg_RunLogging c) \<in> {[], ''off'', ''summary'', ''full''} \<and>
     instancesOk (cfg_Faktory c) \<and> distinct (map sc_Name (cfg_Schedules c)) \<and>
     (\<forall>s \<in> set (cfg_Schedules c).
        scheduleOk loadLocation (fi_Name ` set (cfg_Faktory c)) (NormalizeSchedule s))"
proof -
  have r: "isOk (ValidateRunRetention r) \<longleftrightarrow> 0 \<le> rr_MaxRecords r \<and> 0 \<le> rr_MaxAgeDays r" for r
    by (auto simp: ValidateRunRetention_def)
  have l: "isOk (ValidateRunLogging l) \<longleftrightarrow> rl_Stdout l \<in> {[], ''off'', ''summary'', ''full''}" for l
    by (auto simp: ValidateRunLogging_def)
  have b: "isOk (bindE m f) \<longleftrightarrow> (\<exists>x. m = Inr x \<and> isOk (f x))" for m :: "'x result" and f :: "'x \<Rightarrow> 'y result"
    by (cases m) auto
  have b1: "isOk (bindE m f) \<longleftrightarrow> isOk m \<and> isOk (f ())" for m and f :: "unit \<Rightarrow> 'y result"
    by (cases m) auto
  show ?thesis
    unfolding Validate_def b1 r l b validateInstances_iff
    by (auto simp: validateSchedules_iff)
qed

lemma Validate_ApplyDefaults: "Validate loadLocation (ApplyDefaults c) = Validate loadLocation c"
proof -
  have s: "validateSchedules loadLocation insts (map NormalizeSchedule ss) seen =
      validateSchedules loadLocation insts ss seen" for insts ss seen
  proof (induction ss arbitrary: seen)
    case (Cons a ss)
    show ?case unfolding list.map validateSchedules.simps NormalizeSchedule_idem Cons.IH ..
  qed simp
  have r: "ValidateRunRetention (cfg_RunRetention (ApplyDefaults c)) = ValidateRunRetention (cfg_RunRetention c)"
    by (simp add: ValidateRunRetention_def)
  have l: "ValidateRunLogging (cfg_RunLogging (ApplyDefaults c)) = ValidateRunLogging (cfg_RunLogging c)"
    by (simp add: ValidateRunLogging_def)
  show ?thesis by (simp add: Validate_def r l s)
qed

text \<open>The bytes of a valid name are printable ASCII, so a name holds no NUL, slash or space.\<close>

lemma nameChar_byte: "nameChar c \<Longrightarrow> 32 < byte c \<and> byte c < 128 \<and> c \<noteq> CHR ''/'' \<and> c \<noteq> CHR ''%''"
  by (auto simp: nameChar_def isDigit_def byte_def)

end
