(* ===== verification/RunModel.thy ===== *)
theory RunModel
  imports Config
begin

text \<open>
  internal/model/model.go: a run record and its status, and the retention specification that both
  stores implement.  The status is a string type in the source and stays one here, because a status
  read back from the database may be any string.
\<close>

section \<open>Runs\<close>

type_synonym RunStatus = string

definition RunRunning :: RunStatus where "RunRunning = ''running''"
definition RunSucceeded :: RunStatus where "RunSucceeded = ''succeeded''"
definition RunFailed :: RunStatus where "RunFailed = ''failed''"
definition RunSkipped :: RunStatus where "RunSkipped = ''skipped''"

lemmas run_status_defs = RunRunning_def RunSucceeded_def RunFailed_def RunSkipped_def

lemma run_status_distinct [simp]:
  "RunSucceeded \<noteq> RunRunning" "RunFailed \<noteq> RunRunning" "RunSkipped \<noteq> RunRunning"
  "RunRunning \<noteq> RunSucceeded" "RunRunning \<noteq> RunFailed" "RunRunning \<noteq> RunSkipped"
  "RunSucceeded \<noteq> RunFailed" "RunSucceeded \<noteq> RunSkipped" "RunFailed \<noteq> RunSkipped"
  by (simp_all add: run_status_defs)

record Run =
  r_ID :: string
  r_ScheduleName :: string
  r_TargetType :: string
  r_TriggeredBy :: string
  r_Status :: RunStatus
  r_ScheduledAt :: go_time
  r_StartedAt :: go_time
  r_FinishedAt :: "go_time option"
  r_StructuredOutput :: "(string \<times> any) list option"
  r_Error :: string

definition zeroRun :: Run where
  "zeroRun = \<lparr>r_ID = [], r_ScheduleName = [], r_TargetType = [], r_TriggeredBy = [], r_Status = [],
     r_ScheduledAt = zeroTime, r_StartedAt = zeroTime, r_FinishedAt = None,
     r_StructuredOutput = None, r_Error = []\<rparr>"

text \<open>\<open>isCompletedRun\<close> of internal/store/store.go: everything that is not running.\<close>

definition isCompletedRun :: "Run \<Rightarrow> bool" where
  "isCompletedRun r \<longleftrightarrow> r_Status r \<noteq> RunRunning"

record RunRetentionResult =
  rt_Deleted :: int
  rt_Kept :: int

section \<open>What retention promises\<close>

definition completedPairs :: "(string \<rightharpoonup> Run) \<Rightarrow> (string \<times> Run) set" where
  "completedPairs m = {(id, r). m id = Some r \<and> isCompletedRun r}"

definition tooOld :: "RunRetentionConfig \<Rightarrow> go_time \<Rightarrow> Run \<Rightarrow> bool" where
  "tooOld ret now r \<longleftrightarrow> 0 < rr_MaxAgeDays ret \<and> r_StartedAt r < addDays now (- rr_MaxAgeDays ret)"

definition freshPairs :: "RunRetentionConfig \<Rightarrow> go_time \<Rightarrow> (string \<rightharpoonup> Run) \<Rightarrow> (string \<times> Run) set" where
  "freshPairs ret now m = {(id, r). m id = Some r \<and> isCompletedRun r \<and> \<not> tooOld ret now r}"

text \<open>
  From \<open>m\<close> to \<open>m'\<close>: only deletions; running runs stay; no completed run past the age limit
  stays; as many completed runs stay as the count limit allows; and what was deleted for the count
  is not newer than anything that stayed.
\<close>

definition retained ::
    "RunRetentionConfig \<Rightarrow> go_time \<Rightarrow> (string \<rightharpoonup> Run) \<Rightarrow> (string \<rightharpoonup> Run) \<Rightarrow> bool" where
  "retained ret now m m' \<longleftrightarrow>
     m' \<subseteq>\<^sub>m m \<and>
     (\<forall>id r. m id = Some r \<and> \<not> isCompletedRun r \<longrightarrow> m' id = Some r) \<and>
     completedPairs m' \<subseteq> freshPairs ret now m \<and>
     card (completedPairs m') =
       (if 0 < rr_MaxRecords ret
        then min (nat (rr_MaxRecords ret)) (card (freshPairs ret now m))
        else card (freshPairs ret now m)) \<and>
     (\<forall>id r id' r'. (id, r) \<in> freshPairs ret now m \<and> (id, r) \<notin> completedPairs m' \<and>
        (id', r') \<in> completedPairs m' \<longrightarrow> r_StartedAt r \<le> r_StartedAt r')"

definition retentionResult :: "(string \<rightharpoonup> Run) \<Rightarrow> (string \<rightharpoonup> Run) \<Rightarrow> RunRetentionResult" where
  "retentionResult m m' =
     \<lparr>rt_Deleted = int (card (dom m - dom m')), rt_Kept = int (card (completedPairs m'))\<rparr>"

text \<open>
  How both stores meet it.  \<open>C\<close> lists the fresh completed runs, oldest first; the victims are the
  runs past the age limit and a prefix of \<open>C\<close>.
\<close>

definition oldestFirst :: "(string \<times> Run) list \<Rightarrow> bool" where
  "oldestFirst C \<longleftrightarrow> sorted_wrt (\<lambda>p q. r_StartedAt (snd p) \<le> r_StartedAt (snd q)) C"

definition excess :: "RunRetentionConfig \<Rightarrow> nat \<Rightarrow> nat" where
  "excess ret n = (if 0 < rr_MaxRecords ret then n - nat (rr_MaxRecords ret) else 0)"

definition expiredIds :: "RunRetentionConfig \<Rightarrow> go_time \<Rightarrow> (string \<rightharpoonup> Run) \<Rightarrow> string set" where
  "expiredIds ret now m = {id. \<exists>r. m id = Some r \<and> isCompletedRun r \<and> tooOld ret now r}"

lemma oldestFirst_filter: "oldestFirst P \<Longrightarrow> oldestFirst (filter f P)"
  by (simp add: oldestFirst_def sorted_wrt_filter)

lemma completedPairs_restrict:
  "completedPairs (m |` A) = {p \<in> completedPairs m. fst p \<in> A}"
  by (auto simp: completedPairs_def restrict_map_def split: if_splits)

lemma freshPairs_subset: "freshPairs ret now m \<subseteq> completedPairs m"
  by (auto simp: freshPairs_def completedPairs_def)

lemma completedPairs_unique:
  "(k, r) \<in> completedPairs m \<Longrightarrow> (k, r') \<in> completedPairs m \<Longrightarrow> r = r'"
  by (auto simp: completedPairs_def)

lemma finite_completedPairs: "finite (dom m) \<Longrightarrow> finite (completedPairs m)"
  by (rule finite_subset [of _ "(\<lambda>id. (id, the (m id))) ` dom m"]) (auto simp: completedPairs_def)

lemma survivors:
  assumes C: "set C = freshPairs ret now m" and d: "distinct (map fst C)"
    and V: "V = expiredIds ret now m \<union> fst ` set (take n C)"
  shows "completedPairs (m |` (- V)) = set (drop n C)"
proof -
  have inj: "p \<in> set (take n C) \<Longrightarrow> q \<in> set (drop n C) \<Longrightarrow> fst p \<noteq> fst q" for p q
    using d append_take_drop_id [of n C]
    by (metis IntI distinct_append empty_iff image_eqI list.set_map map_append)
  have "p \<in> set (drop n C)" if "p \<in> completedPairs m" "fst p \<notin> V" for p
  proof -
    have "p \<in> freshPairs ret now m"
      using that V by (auto simp: completedPairs_def freshPairs_def expiredIds_def)
    then have "p \<in> set C" using C by simp
    then have "p \<in> set (take n C) \<or> p \<in> set (drop n C)"
      by (metis Un_iff append_take_drop_id set_append)
    with that V show ?thesis by auto
  qed
  moreover have "p \<in> completedPairs m \<and> fst p \<notin> V" if p: "p \<in> set (drop n C)" for p
  proof -
    have "p \<in> freshPairs ret now m" using p C in_set_dropD by fastforce
    then have "p \<in> completedPairs m" "fst p \<notin> expiredIds ret now m"
      by (auto simp: completedPairs_def freshPairs_def expiredIds_def)
    moreover have "fst p \<notin> fst ` set (take n C)"
    proof
      assume "fst p \<in> fst ` set (take n C)"
      then obtain q where "q \<in> set (take n C)" "fst q = fst p" by force
      with inj [OF _ p] show False by blast
    qed
    ultimately show ?thesis using V by simp
  qed
  ultimately show ?thesis unfolding completedPairs_restrict by auto
qed

lemma retained_by_order:
  assumes C: "set C = freshPairs ret now m" and d: "distinct (map fst C)" and o: "oldestFirst C"
    and V: "V = expiredIds ret now m \<union> fst ` set (take (excess ret (length C)) C)"
  shows "retained ret now m (m |` (- V))"
proof -
  define n where "n = excess ret (length C)"
  have sv: "completedPairs (m |` (- V)) = set (drop n C)"
    using survivors [OF C d V] by (simp add: n_def)
  have card_fresh: "card (freshPairs ret now m) = length C"
    using C d by (metis distinct_card distinct_map)
  have "card (set (drop n C)) = length C - n"
    by (metis d distinct_card distinct_drop distinct_map length_drop)
  then have card: "card (set (drop n C)) =
      (if 0 < rr_MaxRecords ret then min (nat (rr_MaxRecords ret)) (length C) else length C)"
  proof -
    have "a - (a - b) = min b a" for a b :: nat by arith
    then show ?thesis using \<open>card (set (drop n C)) = length C - n\<close>
      by (simp add: n_def excess_def)
  qed
  have le: "r_StartedAt (snd p) \<le> r_StartedAt (snd q)"
    if "p \<in> set (take n C)" "q \<in> set (drop n C)" for p q
    using o that unfolding oldestFirst_def
    by (metis append_take_drop_id sorted_wrt_append)
  have run: "m id = Some r \<Longrightarrow> \<not> isCompletedRun r \<Longrightarrow> id \<notin> V" for id r
    using V C set_take_subset [of "excess ret (length C)" C]
    by (fastforce simp: expiredIds_def freshPairs_def)
  have "(id, r) \<in> set (take n C)"
    if "(id, r) \<in> freshPairs ret now m" "(id, r) \<notin> set (drop n C)" for id r
    using that C by (metis Un_iff append_take_drop_id set_append)
  then have ord: "r_StartedAt r \<le> r_StartedAt r'"
    if "(id, r) \<in> freshPairs ret now m" "(id, r) \<notin> set (drop n C)" "(id', r') \<in> set (drop n C)"
    for id r id' r'
    using le [of "(id, r)" "(id', r')"] that by simp
  show ?thesis
    unfolding retained_def sv card card_fresh
    using run ord C set_drop_subset [of n C]
    by (auto simp: map_le_def restrict_map_def split: if_splits)
qed

lemma retained_keeps_running:
  "retained ret now m m' \<Longrightarrow> m k = Some r \<Longrightarrow> \<not> isCompletedRun r \<Longrightarrow> m' k = Some r"
  by (auto simp: retained_def)

lemma retained_subset: "retained ret now m m' \<Longrightarrow> m' k = Some r \<Longrightarrow> m k = Some r"
  unfolding retained_def map_le_def by (metis domI)

lemma retained_bound:
  "retained ret now m m' \<Longrightarrow> 0 < rr_MaxRecords ret \<Longrightarrow>
   int (card (completedPairs m')) \<le> rr_MaxRecords ret"
  by (simp add: retained_def)

end
