(* ===== verification/StoreContract.thy ===== *)
theory StoreContract
  imports RunModel
begin

text \<open>
  The interface \<open>store.Store\<close> (internal/store/store.go) as a record of functions over the state
  of an implementation, and the contract the engine relies on as a locale: what each operation does
  to the stored runs and schedules when it succeeds, and that a failed operation changes nothing.
  The in-memory store and the bbolt store interpret it in their own theories.
\<close>

named_theorems store_laws \<open>the laws of the store contract, for the engine's proofs\<close>

section \<open>The interface\<close>

record 's Store =
  so_SaveSchedule :: "ScheduleConfig \<Rightarrow> 's \<Rightarrow> unit result \<times> 's"
  so_DeleteSchedule :: "string \<Rightarrow> 's \<Rightarrow> unit result \<times> 's"
  so_ListSchedules :: "'s \<Rightarrow> ScheduleConfig list result"
  so_SaveRun :: "Run \<Rightarrow> 's \<Rightarrow> unit result \<times> 's"
  so_UpdateRun :: "Run \<Rightarrow> 's \<Rightarrow> unit result \<times> 's"
  so_ListRuns :: "int \<Rightarrow> 's \<Rightarrow> Run list result"
  so_ClearRuns :: "'s \<Rightarrow> unit result \<times> 's"
  so_PruneRuns :: "RunRetentionConfig \<Rightarrow> go_time \<Rightarrow> 's \<Rightarrow> RunRetentionResult result \<times> 's"
  so_HasRunningRun :: "string \<Rightarrow> 's \<Rightarrow> bool result"
  so_Close :: "'s \<Rightarrow> unit result"

section \<open>What the listings promise\<close>

text \<open>Newest first, no run twice, no more than the limit, and nothing newer left out.\<close>

definition listsRuns :: "(string \<rightharpoonup> Run) \<Rightarrow> int \<Rightarrow> Run list \<Rightarrow> bool" where
  "listsRuns m limit out \<longleftrightarrow>
     distinct (map r_ID out) \<and> (\<forall>r \<in> set out. m (r_ID r) = Some r) \<and>
     sorted_wrt (\<lambda>a b. r_StartedAt b \<le> r_StartedAt a) out \<and>
     length out = (if limit \<le> 0 then card (dom m) else min (nat limit) (card (dom m))) \<and>
     (\<forall>k r. m k = Some r \<and> r \<notin> set out \<longrightarrow> (\<forall>q \<in> set out. r_StartedAt r \<le> r_StartedAt q))"

definition listsSchedules :: "(string \<rightharpoonup> ScheduleConfig) \<Rightarrow> ScheduleConfig list \<Rightarrow> bool" where
  "listsSchedules m out \<longleftrightarrow> sorted_wrt (<) (map sc_Name out) \<and> set out = ran m"

definition hasRunning :: "(string \<rightharpoonup> Run) \<Rightarrow> string \<Rightarrow> bool" where
  "hasRunning m name \<longleftrightarrow> (\<exists>k r. m k = Some r \<and> r_ScheduleName r = name \<and> r_Status r = RunRunning)"

definition keyedRuns :: "(string \<rightharpoonup> Run) \<Rightarrow> bool" where
  "keyedRuns m \<longleftrightarrow> finite (dom m) \<and> (\<forall>k r. m k = Some r \<longrightarrow> r_ID r = k)"

definition keyedSchedules :: "(string \<rightharpoonup> ScheduleConfig) \<Rightarrow> bool" where
  "keyedSchedules m \<longleftrightarrow> finite (dom m) \<and> (\<forall>k s. m k = Some s \<longrightarrow> sc_Name s = k)"

lemma keyedRuns_empty [simp]: "keyedRuns Map.empty"
  by (simp add: keyedRuns_def)

lemma keyedRuns_upd [simp]: "keyedRuns m \<Longrightarrow> r_ID r = k \<Longrightarrow> keyedRuns (m(k \<mapsto> r))"
  by (simp add: keyedRuns_def)

lemma keyedRuns_restrict [simp]: "keyedRuns m \<Longrightarrow> keyedRuns (m |` A)"
  by (simp add: keyedRuns_def) (simp add: restrict_map_def)

lemma keyedSchedules_upd [simp]:
  "keyedSchedules m \<Longrightarrow> sc_Name x = k \<Longrightarrow> keyedSchedules (m(k \<mapsto> x))"
  by (simp add: keyedSchedules_def)

lemma keyedSchedules_del [simp]: "keyedSchedules m \<Longrightarrow> keyedSchedules (m(k := None))"
  by (simp add: keyedSchedules_def)

text \<open>
  Identifiers and schedule names are ASCII without NUL: \<open>Validate\<close> accepts no other name, and
  \<open>runID\<close> appends hexadecimal digits to one.
\<close>

definition plainKey :: "string \<Rightarrow> bool" where
  "plainKey s \<longleftrightarrow> s \<noteq> [] \<and> list_all (\<lambda>c. 0 < byte c \<and> byte c < 128) s"

definition storableRun :: "Run \<Rightarrow> bool" where
  "storableRun r \<longleftrightarrow> plainKey (r_ID r) \<and> plainKey (r_ScheduleName r)"

lemma nameOk_plainKey: "nameOk n \<Longrightarrow> plainKey n"
  by (auto simp: nameOk_def plainKey_def list_all_iff dest!: nameChar_byte bspec)

text \<open>
  What a store may change in a run it keeps: at most the structured output and the error text (the
  bbolt store writes JSON, which has one number type and only valid UTF-8).
\<close>

definition sameRun :: "Run \<Rightarrow> Run \<Rightarrow> bool" where
  "sameRun r r' \<longleftrightarrow> r_ID r' = r_ID r \<and> r_ScheduleName r' = r_ScheduleName r \<and>
     r_Status r' = r_Status r \<and> r_ScheduledAt r' = r_ScheduledAt r \<and>
     r_StartedAt r' = r_StartedAt r \<and> r_FinishedAt r' = r_FinishedAt r"

definition plainStatus :: "Run \<Rightarrow> bool" where
  "plainStatus r \<longleftrightarrow> r_Status r \<in> {RunRunning, RunSucceeded, RunFailed, RunSkipped}"

section \<open>The contract\<close>

locale store_contract =
  fixes st :: "'s Store"
    and inv :: "'s \<Rightarrow> bool"
    and runs :: "'s \<Rightarrow> (string \<rightharpoonup> Run)"
    and scheds :: "'s \<Rightarrow> (string \<rightharpoonup> ScheduleConfig)"
    and normR :: "Run \<Rightarrow> Run"
    and normS :: "ScheduleConfig \<Rightarrow> ScheduleConfig"
  assumes keyed: "inv s \<Longrightarrow> keyedRuns (runs s) \<and> keyedSchedules (scheds s)"
    and normR_same: "storableRun r \<Longrightarrow> plainStatus r \<Longrightarrow> sameRun r (normR r)"
    and SaveSchedule_ok: "inv s \<Longrightarrow> plainKey (sc_Name x) \<Longrightarrow> so_SaveSchedule st x s = (Inr u, s') \<Longrightarrow>
      inv s' \<and> runs s' = runs s \<and> scheds s' = (scheds s)(sc_Name x \<mapsto> normS x)"
    and SaveSchedule_err: "so_SaveSchedule st x s = (Inl e, s') \<Longrightarrow> s' = s"
    and DeleteSchedule_ok: "inv s \<Longrightarrow> so_DeleteSchedule st n s = (Inr u, s') \<Longrightarrow>
      inv s' \<and> runs s' = runs s \<and> scheds s' = (scheds s)(n := None)"
    and DeleteSchedule_err: "so_DeleteSchedule st n s = (Inl e, s') \<Longrightarrow> s' = s"
    and ListSchedules_ok: "inv s \<Longrightarrow> \<exists>out. so_ListSchedules st s = Inr out \<and> listsSchedules (scheds s) out"
    and SaveRun_ok: "inv s \<Longrightarrow> storableRun r \<Longrightarrow> plainStatus r \<Longrightarrow> so_SaveRun st r s = (Inr u, s') \<Longrightarrow>
      inv s' \<and> runs s' = (runs s)(r_ID r \<mapsto> normR r) \<and> scheds s' = scheds s"
    and SaveRun_err: "so_SaveRun st r s = (Inl e, s') \<Longrightarrow> s' = s"
    and UpdateRun_SaveRun: "so_UpdateRun st r s = so_SaveRun st r s"
    and ListRuns_ok: "inv s \<Longrightarrow> \<exists>out. so_ListRuns st limit s = Inr out \<and> listsRuns (runs s) limit out"
    and ClearRuns_ok: "inv s \<Longrightarrow> so_ClearRuns st s = (Inr u, s') \<Longrightarrow>
      inv s' \<and> runs s' = Map.empty \<and> scheds s' = scheds s"
    and ClearRuns_err: "so_ClearRuns st s = (Inl e, s') \<Longrightarrow> s' = s"
    and PruneRuns_ok: "inv s \<Longrightarrow> so_PruneRuns st ret now s = (Inr res, s') \<Longrightarrow>
      inv s' \<and> scheds s' = scheds s \<and> retained ret now (runs s) (runs s') \<and>
      res = retentionResult (runs s) (runs s')"
    and PruneRuns_err: "so_PruneRuns st ret now s = (Inl e, s') \<Longrightarrow> s' = s"
    and HasRunningRun_ok: "inv s \<Longrightarrow> plainKey n \<Longrightarrow> so_HasRunningRun st n s = Inr (hasRunning (runs s) n)"
begin

lemma SaveRun_cases:
  assumes "inv s" "storableRun r" "plainStatus r"
  obtains e where "so_SaveRun st r s = (Inl e, s)"
  | u s' where "so_SaveRun st r s = (Inr u, s')" "inv s'"
      "runs s' = (runs s)(r_ID r \<mapsto> normR r)" "scheds s' = scheds s"
  using assms SaveRun_ok SaveRun_err
  by (metis old.sum.exhaust surj_pair)

lemma SaveRun_running_visible:
  assumes "inv s" "storableRun r" "r_Status r = RunRunning" "so_SaveRun st r s = (Inr u, s')"
  shows "so_HasRunningRun st (r_ScheduleName r) s' = Inr True"
proof -
  have ps: "plainStatus r" using assms by (simp add: plainStatus_def)
  have s': "inv s'" "runs s' = (runs s)(r_ID r \<mapsto> normR r)"
    using SaveRun_ok [OF assms(1,2) ps assms(4)] by auto
  have "hasRunning (runs s') (r_ScheduleName r)"
    using normR_same [OF assms(2) ps] assms(3) s'(2)
    by (auto simp: hasRunning_def sameRun_def intro!: exI [of _ "r_ID r"])
  then show ?thesis using HasRunningRun_ok [OF s'(1)] assms(2) by (simp add: storableRun_def)
qed

lemma PruneRuns_keeps_running:
  assumes "inv s" "so_PruneRuns st ret now s = (Inr res, s')"
  shows "hasRunning (runs s') n = hasRunning (runs s) n"
proof -
  have r: "retained ret now (runs s) (runs s')" using PruneRuns_ok [OF assms] by simp
  show ?thesis
    unfolding hasRunning_def
    using retained_keeps_running [OF r] retained_subset [OF r] by (metis isCompletedRun_def)
qed

lemma ClearRuns_none_running:
  assumes "inv s" "so_ClearRuns st s = (Inr u, s')" "plainKey n"
  shows "so_HasRunningRun st n s' = Inr False"
  using ClearRuns_ok [OF assms(1,2)] HasRunningRun_ok [of s' n] assms(3) by (simp add: hasRunning_def)

end

lemmas contract_defs = listsRuns_def listsSchedules_def hasRunning_def keyedRuns_def keyedSchedules_def

end
