(* ===== verification/MemoryStore.thy ===== *)
theory MemoryStore
  imports StoreContract "HOL-Library.Multiset"
begin

text \<open>
  internal/store/store.go, the in-memory store and the functions it shares with the tool: sorting,
  trimming and pruning of run lists.  A method holds the store's mutex from its first to its last
  line, so each is one atomic function of the state.  A function that ranges over a Go map takes the
  order of the visit (\<open>ord\<close>); \<open>slices.SortFunc\<close> is a stable sort here, and since the visit may
  come in any order every arrangement of equal elements that Go's unstable sort can return is a
  result of the model for some \<open>ord\<close>.
\<close>

section \<open>Sorting, trimming, pruning\<close>

type_synonym storedRun = "string \<times> Run"

definition sortRuns :: "Run list \<Rightarrow> Run list" where
  "sortRuns runs = sort_key (\<lambda>r. - r_StartedAt r) runs"

definition sortSchedules :: "ScheduleConfig list \<Rightarrow> ScheduleConfig list" where
  "sortSchedules ss = sort_key sc_Name ss"

definition sortStoredRunsNewestFirst :: "storedRun list \<Rightarrow> storedRun list" where
  "sortStoredRunsNewestFirst runs = sort_key (\<lambda>p. - r_StartedAt (snd p)) runs"

definition trimRuns :: "Run list \<Rightarrow> int \<Rightarrow> Run list" where
  "trimRuns runs limit =
     (if limit \<le> 0 \<or> int (length runs) < limit then runs else take (nat limit) runs)"

definition retainedCompletedRunCount :: "storedRun list \<Rightarrow> string set \<Rightarrow> int" where
  "retainedCompletedRunCount runs victims =
     int (length (filter (\<lambda>(rid, r). rid \<notin> victims \<and> isCompletedRun r) runs))"

text \<open>The three loops of \<open>pruneRuns\<close>: expired runs, the count of kept runs, the excess.\<close>

fun expireLoop :: "storedRun list \<Rightarrow> go_time \<Rightarrow> string set \<Rightarrow> string set" where
  "expireLoop [] cutoff victims = victims"
| "expireLoop ((rid, r) # rs) cutoff victims =
     expireLoop rs cutoff
       (if r_Status r \<noteq> RunRunning \<and> r_StartedAt r < cutoff then insert rid victims else victims)"

fun keptLoop :: "storedRun list \<Rightarrow> string set \<Rightarrow> int \<Rightarrow> int" where
  "keptLoop [] victims kept = kept"
| "keptLoop ((rid, r) # rs) victims kept =
     keptLoop rs victims (if rid \<notin> victims \<and> r_Status r \<noteq> RunRunning then kept + 1 else kept)"

text \<open>The source walks the list from its last index down; here the list comes reversed.\<close>

fun excessLoop :: "storedRun list \<Rightarrow> int \<Rightarrow> int \<Rightarrow> string set \<Rightarrow> string set" where
  "excessLoop [] maxRecords kept victims = victims"
| "excessLoop ((rid, r) # rs) maxRecords kept victims =
     (if \<not> maxRecords < kept then victims
      else if r_Status r = RunRunning then excessLoop rs maxRecords kept victims
      else if rid \<in> victims then excessLoop rs maxRecords kept victims
      else excessLoop rs maxRecords (kept - 1) (insert rid victims))"

definition pruneRuns ::
    "storedRun list \<Rightarrow> RunRetentionConfig \<Rightarrow> go_time \<Rightarrow> RunRetentionResult \<times> string set" where
  "pruneRuns runs0 retention now =
     (let runs = sortStoredRunsNewestFirst runs0;
          victims1 = (if 0 < rr_MaxAgeDays retention
                      then expireLoop runs (addDays now (- rr_MaxAgeDays retention)) {} else {});
          victims = (if 0 < rr_MaxRecords retention
                     then excessLoop (rev runs) (rr_MaxRecords retention) (keptLoop runs victims1 0) victims1
                     else victims1)
      in (\<lparr>rt_Deleted = int (card victims), rt_Kept = retainedCompletedRunCount runs victims\<rparr>, victims))"

section \<open>The store\<close>

record MemoryStore =
  ms_runs :: "string \<rightharpoonup> Run"
  ms_schedules :: "string \<rightharpoonup> ScheduleConfig"

definition NewMemoryStore :: MemoryStore where
  "NewMemoryStore = \<lparr>ms_runs = Map.empty, ms_schedules = Map.empty\<rparr>"

definition ms_SaveSchedule :: "ScheduleConfig \<Rightarrow> MemoryStore \<Rightarrow> unit result \<times> MemoryStore" where
  "ms_SaveSchedule s0 m = (let s = NormalizeSchedule s0 in
     (Inr (), m\<lparr>ms_schedules := (ms_schedules m)(sc_Name s \<mapsto> s)\<rparr>))"

definition ms_DeleteSchedule :: "string \<Rightarrow> MemoryStore \<Rightarrow> unit result \<times> MemoryStore" where
  "ms_DeleteSchedule name m = (Inr (), m\<lparr>ms_schedules := (ms_schedules m)(name := None)\<rparr>)"

definition ms_ListSchedules :: "string list \<Rightarrow> MemoryStore \<Rightarrow> ScheduleConfig list result" where
  "ms_ListSchedules ord m = Inr (sortSchedules (map snd (visit (ms_schedules m) ord)))"

definition ms_SaveRun :: "Run \<Rightarrow> MemoryStore \<Rightarrow> unit result \<times> MemoryStore" where
  "ms_SaveRun r m = (Inr (), m\<lparr>ms_runs := (ms_runs m)(r_ID r \<mapsto> r)\<rparr>)"

definition ms_UpdateRun :: "Run \<Rightarrow> MemoryStore \<Rightarrow> unit result \<times> MemoryStore" where
  "ms_UpdateRun r m = ms_SaveRun r m"

definition ms_ListRuns :: "string list \<Rightarrow> int \<Rightarrow> MemoryStore \<Rightarrow> Run list result" where
  "ms_ListRuns ord limit m = Inr (trimRuns (sortRuns (map snd (visit (ms_runs m) ord))) limit)"

definition ms_ClearRuns :: "MemoryStore \<Rightarrow> unit result \<times> MemoryStore" where
  "ms_ClearRuns m = (Inr (), m\<lparr>ms_runs := Map.empty\<rparr>)"

definition ms_PruneRuns ::
    "string list \<Rightarrow> RunRetentionConfig \<Rightarrow> go_time \<Rightarrow> MemoryStore \<Rightarrow> RunRetentionResult result \<times> MemoryStore" where
  "ms_PruneRuns ord retention now m =
     (let (res, victims) = pruneRuns (visit (ms_runs m) ord) retention now
      in (Inr res, m\<lparr>ms_runs := (ms_runs m) |` (- victims)\<rparr>))"

definition ms_HasRunningRun :: "string list \<Rightarrow> string \<Rightarrow> MemoryStore \<Rightarrow> bool result" where
  "ms_HasRunningRun ord name m =
     Inr (list_ex (\<lambda>(rid, r). r_ScheduleName r = name \<and> r_Status r = RunRunning) (visit (ms_runs m) ord))"

definition ms_Close :: "MemoryStore \<Rightarrow> unit result" where
  "ms_Close m = Inr ()"

section \<open>What pruning does\<close>

lemma expireLoop_eq:
  "expireLoop rs cutoff victims =
     victims \<union> {rid. \<exists>r. (rid, r) \<in> set rs \<and> isCompletedRun r \<and> r_StartedAt r < cutoff}"
  by (induction rs cutoff victims rule: expireLoop.induct) (auto simp: isCompletedRun_def)

lemma keptLoop_eq:
  "keptLoop rs victims kept =
     kept + int (length (filter (\<lambda>(rid, r). isCompletedRun r \<and> rid \<notin> victims) rs))"
  by (induction rs victims kept rule: keptLoop.induct) (auto simp: isCompletedRun_def)

lemma filter_fresh_insert:
  "rid \<notin> fst ` set rs \<Longrightarrow>
   filter (\<lambda>(k, r). r_Status r \<noteq> RunRunning \<and> k \<noteq> rid \<and> k \<notin> victims) rs =
   filter (\<lambda>(k, r). r_Status r \<noteq> RunRunning \<and> k \<notin> victims) rs"
  by (rule filter_cong) force+

lemma excessLoop_eq:
  "distinct (map fst rs) \<Longrightarrow>
   excessLoop rs maxRecords kept victims = victims \<union>
     fst ` set (take (nat (kept - maxRecords))
       (filter (\<lambda>(k, r). isCompletedRun r \<and> k \<notin> victims) rs))"
proof (induction rs maxRecords kept victims rule: excessLoop.induct)
  case (1 maxRecords kept victims)
  then show ?case by simp
next
  case (2 rid r rs maxRecords kept victims)
  show ?case
  proof (cases "maxRecords < kept \<and> isCompletedRun r \<and> rid \<notin> victims")
    case True
    then have "nat (kept - maxRecords) = Suc (nat (kept - 1 - maxRecords))" by linarith
    with True 2 show ?thesis by (simp add: isCompletedRun_def filter_fresh_insert)
  next
    case False
    with 2 show ?thesis by (auto simp: isCompletedRun_def)
  qed
qed

text \<open>An enumeration of the stored runs, the input of \<open>pruneRuns\<close>.\<close>

definition enumerates :: "(string \<rightharpoonup> Run) \<Rightarrow> storedRun list \<Rightarrow> bool" where
  "enumerates m runs \<longleftrightarrow> set runs = {(k, r). m k = Some r} \<and> distinct (map fst runs)"

lemma enumerates_visit: "iterates m ord \<Longrightarrow> enumerates m (visit m ord)"
  by (simp add: enumerates_def set_visit_iterates fst_visit_iterates) (simp add: iterates_def)

lemma mset_eq_length_filter: "mset xs = mset ys \<Longrightarrow> length (filter P xs) = length (filter P ys)"
  by (metis mset_filter size_mset)

lemma enumerates_sorted:
  assumes "enumerates m runs"
  shows "enumerates m (sortStoredRunsNewestFirst runs)"
proof -
  have "mset (map fst (sortStoredRunsNewestFirst runs)) = mset (map fst runs)"
    by (simp add: sortStoredRunsNewestFirst_def mset_map)
  then have "distinct (map fst (sortStoredRunsNewestFirst runs)) = distinct (map fst runs)"
    by (rule mset_eq_imp_distinct_iff)
  moreover have "set (sortStoredRunsNewestFirst runs) = set runs"
    by (simp add: sortStoredRunsNewestFirst_def)
  ultimately show ?thesis using assms by (simp only: enumerates_def)
qed

lemma oldestFirst_rev_sorted: "oldestFirst (rev (sortStoredRunsNewestFirst runs))"
proof -
  have "sorted (map (\<lambda>p. - r_StartedAt (snd p)) (sortStoredRunsNewestFirst runs))"
    unfolding sortStoredRunsNewestFirst_def by (rule sorted_sort_key)
  then show ?thesis by (simp add: oldestFirst_def sorted_wrt_rev sorted_map)
qed

lemma pruneRuns_victims:
  assumes en: "enumerates m runs0" and pr: "pruneRuns runs0 ret now = (res, victims)"
  obtains C where "set C = freshPairs ret now m" "distinct (map fst C)" "oldestFirst C"
    "victims = expiredIds ret now m \<union> fst ` set (take (excess ret (length C)) C)"
proof -
  define runs where "runs = sortStoredRunsNewestFirst runs0"
  have er: "set runs = {(k, r). m k = Some r}" "distinct (map fst runs)"
    using enumerates_sorted [OF en] by (simp_all add: runs_def enumerates_def)
  define v1 where "v1 = expiredIds ret now m"
  have v1: "(if 0 < rr_MaxAgeDays ret
      then expireLoop runs (addDays now (- rr_MaxAgeDays ret)) {} else {}) = v1"
    using er by (auto simp: expireLoop_eq v1_def expiredIds_def tooOld_def)
  let ?P = "\<lambda>(k, r). isCompletedRun r \<and> k \<notin> v1"
  define C where "C = filter ?P (rev runs)"
  have len: "keptLoop runs v1 0 = int (length C)"
    by (simp add: keptLoop_eq C_def rev_filter [symmetric])
  have dr: "distinct (map fst (rev runs))" using er(2) by (simp add: rev_map [symmetric])
  have vs: "victims = v1 \<union> fst ` set (take (excess ret (length C)) C)"
  proof (cases "0 < rr_MaxRecords ret")
    case True
    have "nat (int (length C) - rr_MaxRecords ret) = length C - nat (rr_MaxRecords ret)"
      using True by linarith
    then have "excessLoop (rev runs) (rr_MaxRecords ret) (int (length C)) v1 =
        v1 \<union> fst ` set (take (excess ret (length C)) C)"
      using True by (simp add: excessLoop_eq [OF dr] C_def [symmetric] excess_def)
    with pr True show ?thesis
      by (simp add: pruneRuns_def runs_def [symmetric] v1 len Let_def)
  next
    case False
    with pr show ?thesis
      by (simp add: pruneRuns_def runs_def [symmetric] v1 Let_def excess_def)
  qed
  show ?thesis
  proof (rule that [of C])
    have "expiredIds ret now m = v1" by (simp add: v1_def)
    show "set C = freshPairs ret now m"
      using er(1) by (auto simp: C_def freshPairs_def v1_def expiredIds_def)
    show "distinct (map fst C)" unfolding C_def using dr by (rule distinct_map_filter)
    show "oldestFirst C"
      unfolding C_def runs_def by (rule oldestFirst_filter [OF oldestFirst_rev_sorted])
    show "victims = expiredIds ret now m \<union> fst ` set (take (excess ret (length C)) C)"
      using vs by (simp add: v1_def)
  qed
qed

lemma filter_distinct_card: "distinct (map fst xs) \<Longrightarrow> length (filter P xs) = card {x \<in> set xs. P x}"
  by (metis distinct_card distinct_filter distinct_map set_filter)

text \<open>The pure function meets the retention specification, and its counters are right.\<close>

lemma pruneRuns_retained:
  assumes en: "enumerates m runs0" and pr: "pruneRuns runs0 ret now = (res, victims)"
  shows "retained ret now m (m |` (- victims))" "victims \<subseteq> dom m"
    "res = retentionResult m (m |` (- victims))"
proof -
  obtain C where C: "set C = freshPairs ret now m" "distinct (map fst C)" "oldestFirst C"
    and v: "victims = expiredIds ret now m \<union> fst ` set (take (excess ret (length C)) C)"
    using pruneRuns_victims [OF en pr] .
  show "retained ret now m (m |` (- victims))" by (rule retained_by_order [OF C v])
  have "fst ` set (take n C) \<subseteq> dom m" for n
    using C(1) set_take_subset [of n C] by (auto simp: freshPairs_def)
  then show dom: "victims \<subseteq> dom m" unfolding v by (auto simp: expiredIds_def)
  define runs where "runs = sortStoredRunsNewestFirst runs0"
  have er: "set runs = {(k, r). m k = Some r}" "distinct (map fst runs)"
    using enumerates_sorted [OF en] by (simp_all add: runs_def enumerates_def)
  have "dom m - dom (m |` (- victims)) = victims" using dom by auto
  moreover have "{x \<in> set runs. case x of (rid, r) \<Rightarrow> rid \<notin> victims \<and> isCompletedRun r}
      = completedPairs (m |` (- victims))"
    unfolding completedPairs_restrict using er(1) by (auto simp: completedPairs_def)
  then have "retainedCompletedRunCount runs victims = int (card (completedPairs (m |` (- victims))))"
    by (simp add: retainedCompletedRunCount_def filter_distinct_card [OF er(2)])
  ultimately show "res = retentionResult m (m |` (- victims))"
    using pr by (auto simp: pruneRuns_def retentionResult_def runs_def [symmetric] Let_def)
qed

section \<open>The in-memory store meets the contract\<close>

text \<open>
  The interface value the engine holds.  \<open>ordR\<close> and \<open>ordS\<close> give the order in which the runtime
  visits a map of runs and a map of schedules.
\<close>

definition memoryStore ::
    "((string \<rightharpoonup> Run) \<Rightarrow> string list) \<Rightarrow> ((string \<rightharpoonup> ScheduleConfig) \<Rightarrow> string list) \<Rightarrow>
     MemoryStore Store" where
  "memoryStore ordR ordS =
     \<lparr>so_SaveSchedule = ms_SaveSchedule, so_DeleteSchedule = ms_DeleteSchedule,
      so_ListSchedules = (\<lambda>m. ms_ListSchedules (ordS (ms_schedules m)) m),
      so_SaveRun = ms_SaveRun, so_UpdateRun = ms_UpdateRun,
      so_ListRuns = (\<lambda>limit m. ms_ListRuns (ordR (ms_runs m)) limit m),
      so_ClearRuns = ms_ClearRuns,
      so_PruneRuns = (\<lambda>ret now m. ms_PruneRuns (ordR (ms_runs m)) ret now m),
      so_HasRunningRun = (\<lambda>name m. ms_HasRunningRun (ordR (ms_runs m)) name m),
      so_Close = ms_Close\<rparr>"

definition ms_inv :: "MemoryStore \<Rightarrow> bool" where
  "ms_inv m \<longleftrightarrow> keyedRuns (ms_runs m) \<and> keyedSchedules (ms_schedules m)"

lemma ms_inv_init: "ms_inv NewMemoryStore"
  by (simp add: ms_inv_def NewMemoryStore_def keyedRuns_def keyedSchedules_def)

lemma sorted_wrt_sortRuns: "sorted_wrt (\<lambda>a b. r_StartedAt b \<le> r_StartedAt a) (sortRuns rs)"
proof -
  have "sorted (map (\<lambda>r. - r_StartedAt r) (sortRuns rs))"
    unfolding sortRuns_def by (rule sorted_sort_key)
  then show ?thesis by (simp add: sorted_map)
qed

lemma values_visit:
  assumes "iterates m ord" and "\<And>k v. m k = Some v \<Longrightarrow> f v = k"
  shows "map f (map snd (visit m ord)) = ord" "set (map snd (visit m ord)) = ran m"
proof -
  have "map f (map snd (visit m ord)) = map fst (visit m ord)"
    using assms by (auto simp: set_visit)
  then show "map f (map snd (visit m ord)) = ord" using assms by (simp add: fst_visit_iterates)
  show "set (map snd (visit m ord)) = ran m"
    using assms by (force simp: set_visit_iterates ran_def)
qed

lemma distinct_sort_key_map: "distinct (map f xs) \<Longrightarrow> distinct (map f (sort_key g xs))"
  using mset_eq_imp_distinct_iff [of "map f (sort_key g xs)" "map f xs"] by (simp add: mset_map)

lemma ListRuns_lists:
  assumes k: "keyedRuns m" and it: "iterates m ord"
  shows "listsRuns m limit (trimRuns (sortRuns (map snd (visit m ord))) limit)"
proof -
  define L where "L = sortRuns (map snd (visit m ord))"
  have key: "\<And>k v. m k = Some v \<Longrightarrow> r_ID v = k" using k by (simp add: keyedRuns_def)
  note vv = values_visit [OF it key]
  have "distinct (map r_ID (map snd (visit m ord)))" using vv(1) it by (simp add: iterates_def)
  then have d: "distinct (map r_ID L)" unfolding L_def sortRuns_def by (rule distinct_sort_key_map)
  have L: "set L = ran m" using vv(2) by (simp add: L_def sortRuns_def)
  have len: "length L = card (dom m)" by (simp add: L_def sortRuns_def length_visit [OF it])
  have s: "sorted_wrt (\<lambda>a b. r_StartedAt b \<le> r_StartedAt a) L"
    unfolding L_def by (rule sorted_wrt_sortRuns)
  have mem: "\<forall>r \<in> set L. m (r_ID r) = Some r" using L key by (auto simp: ran_def)
  have cut: "\<forall>k r. m k = Some r \<and> r \<notin> set (take n L) \<longrightarrow>
      (\<forall>q \<in> set (take n L). r_StartedAt r \<le> r_StartedAt q)" for n
  proof (intro allI impI ballI)
    fix k r q
    assume r: "m k = Some r \<and> r \<notin> set (take n L)" and q: "q \<in> set (take n L)"
    then have "r \<in> set (drop n L)" using L by (metis Un_iff append_take_drop_id ranI set_append)
    then show "r_StartedAt r \<le> r_StartedAt q"
      using s q by (metis append_take_drop_id sorted_wrt_append)
  qed
  have "listsRuns m limit (take n L)"
    if "n = (if limit \<le> 0 then length L else min (nat limit) (length L))" for n
    unfolding listsRuns_def
    using d mem s cut [of n] that len
    by (auto simp: take_map [symmetric] sorted_wrt_take dest: in_set_takeD)
  then show ?thesis
    unfolding trimRuns_def L_def [symmetric]
    by (cases "limit \<le> 0 \<or> int (length L) < limit") (fastforce simp: min_def split: if_splits)+
qed

lemma ListSchedules_lists:
  assumes k: "keyedSchedules m" and it: "iterates m ord"
  shows "listsSchedules m (sortSchedules (map snd (visit m ord)))"
proof -
  have key: "\<And>k v. m k = Some v \<Longrightarrow> sc_Name v = k" using k by (simp add: keyedSchedules_def)
  note vv = values_visit [OF it key]
  have "distinct (map sc_Name (map snd (visit m ord)))" using vv(1) it by (simp add: iterates_def)
  then have "distinct (map sc_Name (sortSchedules (map snd (visit m ord))))"
    unfolding sortSchedules_def by (rule distinct_sort_key_map)
  moreover have "sorted (map sc_Name (sortSchedules (map snd (visit m ord))))"
    unfolding sortSchedules_def by (rule sorted_sort_key)
  ultimately show ?thesis using vv(2)
    by (simp add: listsSchedules_def strict_sorted_iff) (simp add: sortSchedules_def)
qed

lemma HasRunning_visit:
  "iterates m ord \<Longrightarrow>
   list_ex (\<lambda>(rid, r). r_ScheduleName r = n \<and> r_Status r = RunRunning) (visit m ord) = hasRunning m n"
  by (auto simp: list_ex_iff set_visit_iterates hasRunning_def)

locale map_iteration =
  fixes ordR :: "(string \<rightharpoonup> Run) \<Rightarrow> string list" and ordS :: "(string \<rightharpoonup> ScheduleConfig) \<Rightarrow> string list"
  assumes ordR: "finite (dom m) \<Longrightarrow> iterates m (ordR m)"
    and ordS: "finite (dom n) \<Longrightarrow> iterates n (ordS n)"

sublocale map_iteration \<subseteq> mem: store_contract "memoryStore ordR ordS" ms_inv ms_runs ms_schedules
    "\<lambda>r. r" NormalizeSchedule
proof unfold_locales
  fix s s' :: MemoryStore and ret now res
  assume i: "ms_inv s" and p: "so_PruneRuns (memoryStore ordR ordS) ret now s = (Inr res, s')"
  obtain rs victims where pr: "pruneRuns (visit (ms_runs s) (ordR (ms_runs s))) ret now = (rs, victims)"
    by fastforce
  have en: "enumerates (ms_runs s) (visit (ms_runs s) (ordR (ms_runs s)))"
    using i by (intro enumerates_visit ordR) (simp add: ms_inv_def keyedRuns_def)
  have s': "rs = res" "s' = s\<lparr>ms_runs := ms_runs s |` (- victims)\<rparr>"
    using p pr by (auto simp: memoryStore_def ms_PruneRuns_def)
  show "ms_inv s' \<and> ms_schedules s' = ms_schedules s \<and>
      retained ret now (ms_runs s) (ms_runs s') \<and> res = retentionResult (ms_runs s) (ms_runs s')"
    using pruneRuns_retained [OF en pr] i s' by (simp add: ms_inv_def keyedRuns_restrict)
next
  fix s :: MemoryStore and limit
  assume "ms_inv s"
  then show "\<exists>out. so_ListRuns (memoryStore ordR ordS) limit s = Inr out \<and> listsRuns (ms_runs s) limit out"
    using ListRuns_lists [of "ms_runs s"] ordR [of "ms_runs s"]
    by (simp add: memoryStore_def ms_ListRuns_def ms_inv_def keyedRuns_def)
next
  fix s :: MemoryStore
  assume "ms_inv s"
  then show "\<exists>out. so_ListSchedules (memoryStore ordR ordS) s = Inr out \<and> listsSchedules (ms_schedules s) out"
    using ListSchedules_lists [of "ms_schedules s"] ordS [of "ms_schedules s"]
    by (simp add: memoryStore_def ms_ListSchedules_def ms_inv_def keyedSchedules_def)
next
  fix s :: MemoryStore and n
  assume "ms_inv s"
  then show "so_HasRunningRun (memoryStore ordR ordS) n s = Inr (hasRunning (ms_runs s) n)"
    using HasRunning_visit [OF ordR [of "ms_runs s"]]
    by (simp add: memoryStore_def ms_HasRunningRun_def ms_inv_def keyedRuns_def)
qed (auto simp: memoryStore_def ms_inv_def sameRun_def Let_def
       ms_SaveSchedule_def ms_DeleteSchedule_def ms_SaveRun_def ms_UpdateRun_def ms_ClearRuns_def
       ms_PruneRuns_def split: prod.splits)

text \<open>One order of visit: the keys in increasing order.\<close>

definition keyOrder :: "(string \<rightharpoonup> 'v) \<Rightarrow> string list" where
  "keyOrder m = sorted_list_of_set (dom m)"

interpretation ms: map_iteration keyOrder keyOrder
  by unfold_locales (simp_all add: keyOrder_def iterates_def)

end
