(* ===== verification/BoltApi.thy ===== *)
theory BoltApi
  imports Prelude "HOL-Library.RBT"
begin

text \<open>
  The key/value database bbolt (go.etcd.io/bbolt) as the store uses it.  The package is not part of
  the repository, so its operations are a record of functions that every function of the bbolt store
  takes as an argument, and the documented behaviour the store relies on is the locale \<open>bbolt\<close>:
  a bucket is an ordered map from byte strings, a cursor visits it in byte order, \<open>db.Update\<close>
  commits all of a transaction or none.  \<open>refBolt\<close> (a red-black tree per bucket) is one function
  record with that behaviour.
\<close>

named_theorems tx_simps \<open>effect of the bucket operations on what each bucket maps\<close>

section \<open>Buckets and transactions\<close>

record ('b, 'v) bolt_api =
  bk_new :: 'b
  bk_get :: "'b \<Rightarrow> string \<Rightarrow> 'v option"
  bk_put :: "'b \<Rightarrow> string \<Rightarrow> 'v \<Rightarrow> 'b result"
  bk_delete :: "'b \<Rightarrow> string \<Rightarrow> 'b result"
  bk_forward :: "'b \<Rightarrow> (string \<times> 'v) list"
  bk_backward :: "'b \<Rightarrow> (string \<times> 'v) list"
  bk_seek :: "'b \<Rightarrow> string \<Rightarrow> (string \<times> 'v) option"
  db_commit :: "(string \<rightharpoonup> 'b) \<Rightarrow> unit result"

text \<open>
  \<open>bk_forward\<close> lists what \<open>First\<close> and then \<open>Next\<close> return until nil, \<open>bk_backward\<close> what
  \<open>Last\<close> and then \<open>Prev\<close> return; \<open>bk_seek\<close> is \<open>Cursor.Seek\<close>.  The state a transaction
  sees is the set of top-level buckets by name.
\<close>

type_synonym 'b tx = "string \<rightharpoonup> 'b"

text \<open>A method call on the nil bucket that \<open>tx.Bucket\<close> returns for an unknown name panics.\<close>

definition txBucket :: "'b tx \<Rightarrow> string \<Rightarrow> 'b result" where
  "txBucket tx name = (case tx name of None \<Rightarrow> Inl (Panic ''nil bucket'') | Some b \<Rightarrow> Inr b)"

definition txGet :: "('b, 'v) bolt_api \<Rightarrow> 'b tx \<Rightarrow> string \<Rightarrow> string \<Rightarrow> 'v option result" where
  "txGet api tx name k = bindE (txBucket tx name) (\<lambda>b. Inr (bk_get api b k))"

definition txPut :: "('b, 'v) bolt_api \<Rightarrow> 'b tx \<Rightarrow> string \<Rightarrow> string \<Rightarrow> 'v \<Rightarrow> 'b tx result" where
  "txPut api tx name k v =
     bindE (txBucket tx name) (\<lambda>b. bindE (bk_put api b k v) (\<lambda>b'. Inr (tx(name \<mapsto> b'))))"

definition txDelete :: "('b, 'v) bolt_api \<Rightarrow> 'b tx \<Rightarrow> string \<Rightarrow> string \<Rightarrow> 'b tx result" where
  "txDelete api tx name k =
     bindE (txBucket tx name) (\<lambda>b. bindE (bk_delete api b k) (\<lambda>b'. Inr (tx(name \<mapsto> b'))))"

definition CreateBucketIfNotExists :: "('b, 'v) bolt_api \<Rightarrow> 'b tx \<Rightarrow> string \<Rightarrow> 'b tx result" where
  "CreateBucketIfNotExists api tx name =
     (case tx name of Some _ \<Rightarrow> Inr tx | None \<Rightarrow> Inr (tx(name \<mapsto> bk_new api)))"

definition CreateBucket :: "('b, 'v) bolt_api \<Rightarrow> 'b tx \<Rightarrow> string \<Rightarrow> 'b tx result" where
  "CreateBucket api tx name =
     (case tx name of Some _ \<Rightarrow> Inl (External ''bucket already exists'')
      | None \<Rightarrow> Inr (tx(name \<mapsto> bk_new api)))"

definition DeleteBucket :: "'b tx \<Rightarrow> string \<Rightarrow> 'b tx result" where
  "DeleteBucket tx name =
     (case tx name of None \<Rightarrow> Inl (External ''bucket not found'') | Some _ \<Rightarrow> Inr (tx(name := None)))"

text \<open>
  \<open>db.Update\<close>: the function's error or a failed commit leaves the database as it was.
  \<open>db.View\<close>: the function sees the database and changes nothing.
\<close>

definition dbUpdate ::
    "('b, 'v) bolt_api \<Rightarrow> ('b tx \<Rightarrow> ('a \<times> 'b tx) result) \<Rightarrow> 'b tx \<Rightarrow> 'a result \<times> 'b tx" where
  "dbUpdate api f db =
     (case f db of Inl e \<Rightarrow> (Inl e, db)
      | Inr (x, tx) \<Rightarrow> (case db_commit api tx of Inl e \<Rightarrow> (Inl e, db) | Inr _ \<Rightarrow> (Inr x, tx)))"

definition dbView :: "('b tx \<Rightarrow> 'a result) \<Rightarrow> 'b tx \<Rightarrow> 'a result" where
  "dbView f db = f db"

lemma dbUpdate_err: "dbUpdate api f db = (Inl e, db') \<Longrightarrow> db' = db"
  by (auto simp: dbUpdate_def split: sum.splits)

lemma dbUpdate_ok: "dbUpdate api f db = (Inr x, db') \<Longrightarrow> f db = Inr (x, db') \<and> db_commit api db' = Inr ()"
  by (auto simp: dbUpdate_def split: sum.splits)

section \<open>What a bucket maps\<close>

definition look :: "('b, 'v) bolt_api \<Rightarrow> 'b tx \<Rightarrow> string \<Rightarrow> (string \<rightharpoonup> 'v)" where
  "look api tx name = (case tx name of None \<Rightarrow> Map.empty | Some b \<Rightarrow> bk_get api b)"

lemma txGet_look: "tx name \<noteq> None \<Longrightarrow> txGet api tx name k = Inr (look api tx name k)"
  by (auto simp: txGet_def txBucket_def look_def)

section \<open>The documented behaviour\<close>

text \<open>
  \<open>Put\<close> may fail (an empty or oversized key, an oversized value).  bbolt maps at most 256 TB
  (\<open>maxMapSize\<close>), so a bucket that has taken an entry holds less than \<open>2 ^ 48\<close> of them.
\<close>

locale bbolt =
  fixes api :: "('b, 'v) bolt_api"
  assumes forward_sorted: "sorted_keys (bk_forward api b)"
    and get_forward: "bk_get api b k = map_of (bk_forward api b) k"
    and backward_rev: "bk_backward api b = rev (bk_forward api b)"
    and seek_find: "bk_seek api b k = find (\<lambda>p. k \<le> fst p) (bk_forward api b)"
    and new_empty: "bk_forward api (bk_new api) = []"
    and put_get: "bk_put api b k v = Inr b' \<Longrightarrow> bk_get api b' = (bk_get api b)(k \<mapsto> v)"
    and delete_get: "bk_delete api b k = Inr b' \<Longrightarrow> bk_get api b' = (bk_get api b)(k := None)"
    and put_size: "bk_put api b k v = Inr b' \<Longrightarrow> length (bk_forward api b') < 2 ^ 48"
begin

lemma mem_forward: "(k, v) \<in> set (bk_forward api b) \<longleftrightarrow> bk_get api b k = Some v"
  using sorted_keys_map_of_mem [OF forward_sorted] by (simp add: get_forward)

lemma distinct_forward: "distinct (map fst (bk_forward api b))"
  by (rule sorted_keys_distinct [OF forward_sorted])

lemma dom_get: "dom (bk_get api b) = fst ` set (bk_forward api b)"
proof -
  have "bk_get api b = map_of (bk_forward api b)" by (rule ext) (rule get_forward)
  then show ?thesis by (simp add: dom_map_of_conv_image_fst)
qed

lemma card_dom_get: "card (dom (bk_get api b)) = length (bk_forward api b)"
  by (simp add: dom_get) (metis distinct_card distinct_forward length_map list.set_map)

lemma finite_dom_get: "finite (dom (bk_get api b))"
  by (simp add: dom_get)

lemma look_new [tx_simps]: "look api (tx(n \<mapsto> bk_new api)) n = Map.empty"
  by (rule ext) (simp add: look_def get_forward new_empty)

lemma txPut_look [tx_simps]:
  assumes "txPut api tx n k v = Inr tx'"
  shows "dom tx' = dom tx" "n \<in> dom tx" "look api tx' n = (look api tx n)(k \<mapsto> v)"
    "\<And>m. m \<noteq> n \<Longrightarrow> look api tx' m = look api tx m"
  using assms by (auto simp: txPut_def txBucket_def look_def bindE_eq_Inr put_get split: option.splits if_splits)

lemma txDelete_look [tx_simps]:
  assumes "txDelete api tx n k = Inr tx'"
  shows "dom tx' = dom tx" "n \<in> dom tx" "look api tx' n = (look api tx n)(k := None)"
    "\<And>m. m \<noteq> n \<Longrightarrow> look api tx' m = look api tx m"
  using assms by (auto simp: txDelete_def txBucket_def look_def bindE_eq_Inr delete_get split: option.splits if_splits)

lemma txPut_card:
  assumes "txPut api tx n k v = Inr tx'"
  shows "card (dom (look api tx' n)) < 2 ^ 48"
  using assms
  by (auto simp: txPut_def txBucket_def look_def bindE_eq_Inr card_dom_get dest: put_size split: option.splits)

lemma finite_dom_look: "finite (dom (look api tx n))"
  by (cases "tx n") (simp_all add: look_def finite_dom_get)

lemma seek_prefix:
  "(\<exists>kv. bk_seek api b p = Some kv \<and> (\<exists>r. fst kv = p @ r)) \<longleftrightarrow> (\<exists>r v. bk_get api b (p @ r) = Some v)"
proof
  assume "\<exists>kv. bk_seek api b p = Some kv \<and> (\<exists>r. fst kv = p @ r)"
  then show "\<exists>r v. bk_get api b (p @ r) = Some v"
    unfolding seek_find using mem_forward by (metis find_SomeD prod.collapse)
next
  assume "\<exists>r v. bk_get api b (p @ r) = Some v"
  then obtain r v where "(p @ r, v) \<in> set (bk_forward api b)" using mem_forward by blast
  then obtain xs ys where f: "bk_forward api b = xs @ (p @ r, v) # ys" by (meson split_list)
  show "\<exists>kv. bk_seek api b p = Some kv \<and> (\<exists>r. fst kv = p @ r)"
  proof (cases "find (\<lambda>q. p \<le> fst q) xs")
    case None
    then have "find (\<lambda>q. p \<le> fst q) (bk_forward api b) = Some (p @ r, v)"
      unfolding f by (induction xs) (auto split: if_splits)
    then show ?thesis by (simp add: seek_find)
  next
    case (Some kv)
    then have s: "bk_seek api b p = Some kv"
      unfolding seek_find f by (induction xs) (auto split: if_splits)
    have kv: "p \<le> fst kv" "kv \<in> set xs" using find_SomeD [OF Some] by auto
    then have "fst kv < p @ r"
      using forward_sorted [of b] unfolding f by (auto simp: sorted_wrt_append)
    with kv(1) have "\<exists>r'. fst kv = p @ r'"
      by (rule between_extensions)
    with s show ?thesis by blast
  qed
qed

end

section \<open>A reference database\<close>

definition refBolt :: "((string, 'v) rbt, 'v) bolt_api" where
  "refBolt =
     \<lparr>bk_new = RBT.empty, bk_get = RBT.lookup,
      bk_put = (\<lambda>b k v. if k = [] then Inl (External ''key required'')
                        else if 32768 < length k then Inl (External ''key too large'')
                        else if 2 ^ 48 \<le> length (RBT.entries (RBT.insert k v b))
                        then Inl (External ''mmap too large'')
                        else Inr (RBT.insert k v b)),
      bk_delete = (\<lambda>b k. Inr (RBT.delete k b)),
      bk_forward = RBT.entries, bk_backward = (\<lambda>b. rev (RBT.entries b)),
      bk_seek = (\<lambda>b k. find (\<lambda>p. k \<le> fst p) (RBT.entries b)),
      db_commit = (\<lambda>tx. Inr ())\<rparr>"

lemma entries_empty: "RBT.entries (RBT.empty :: (string, 'v) rbt) = []"
proof -
  have "p \<notin> set (RBT.entries (RBT.empty :: (string, 'v) rbt))" for p
    by (cases p) (simp add: RBT.lookup_in_tree [symmetric])
  then show ?thesis by (metis list.set_intros(1) neq_Nil_conv)
qed

interpretation ref: bbolt "refBolt :: ((string, 'v) rbt, 'v) bolt_api"
proof unfold_locales
  fix b b' :: "(string, 'v) rbt" and k v
  show "sorted_keys (bk_forward refBolt b)"
    by (simp add: refBolt_def strict_sorted_iff RBT.sorted_entries RBT.distinct_entries)
  assume "bk_put refBolt b k v = Inr b'"
  then show "bk_get refBolt b' = (bk_get refBolt b)(k \<mapsto> v)"
    "length (bk_forward refBolt b') < 2 ^ 48"
    by (auto simp: refBolt_def split: if_splits)
qed (auto simp: refBolt_def entries_empty)

end
