(* ===== verification/RunCodec.thy ===== *)
theory RunCodec
  imports StoreContract BoltApi
begin

text \<open>
  What the bbolt store writes as values: the JSON text of a run or a schedule, the identifier of a
  run, the eight bytes of the counter.  A JSON text is represented by the struct that decoding it
  gives, so \<open>json.Marshal\<close> is the function from a struct to the struct that comes back: strings
  become valid UTF-8, an integer or a \<open>json.Number\<close> held as \<open>any\<close> comes back as the float64 nearest to its
  literal, a time held as \<open>any\<close> as its RFC 3339 text, an empty map or slice under omitempty as nil; a time outside the
  years 0 to 9999 is an error.  A number outside the range of a float64, which \<open>Marshal\<close> writes and
  \<open>Unmarshal\<close> then refuses, is left out.
\<close>

section \<open>Strings in JSON\<close>

definition cont :: "char \<Rightarrow> bool" where
  "cont c \<longleftrightarrow> 0x80 \<le> byte c \<and> byte c \<le> 0xBF"

text \<open>Length of the UTF-8 encoding of a rune at the head of the string, 0 if there is none.\<close>

definition runeLen :: "string \<Rightarrow> nat" where
  "runeLen s =
     (case s of
        a # b # c # d # r \<Rightarrow>
          if byte a < 0x80 then 1
          else if 0xC2 \<le> byte a \<and> byte a \<le> 0xDF \<and> cont b then 2
          else if (byte a = 0xE0 \<and> 0xA0 \<le> byte b \<or> byte a = 0xED \<and> byte b \<le> 0x9F
                   \<or> 0xE1 \<le> byte a \<and> byte a \<le> 0xEF \<and> byte a \<noteq> 0xED) \<and> cont b \<and> cont c then 3
          else if (byte a = 0xF0 \<and> 0x90 \<le> byte b \<or> 0xF1 \<le> byte a \<and> byte a \<le> 0xF3
                   \<or> byte a = 0xF4 \<and> byte b \<le> 0x8F) \<and> cont b \<and> cont c \<and> cont d then 4
          else 0
      | [a, b, c] \<Rightarrow>
          if byte a < 0x80 then 1
          else if 0xC2 \<le> byte a \<and> byte a \<le> 0xDF \<and> cont b then 2
          else if (byte a = 0xE0 \<and> 0xA0 \<le> byte b \<or> byte a = 0xED \<and> byte b \<le> 0x9F
                   \<or> 0xE1 \<le> byte a \<and> byte a \<le> 0xEF \<and> byte a \<noteq> 0xED) \<and> cont b \<and> cont c then 3
          else 0
      | [a, b] \<Rightarrow>
          if byte a < 0x80 then 1
          else if 0xC2 \<le> byte a \<and> byte a \<le> 0xDF \<and> cont b then 2 else 0
      | [a] \<Rightarrow> if byte a < 0x80 then 1 else 0
      | [] \<Rightarrow> 0)"

function jsonString :: "string \<Rightarrow> string" where
  "jsonString s =
     (case s of [] \<Rightarrow> []
      | c # cs \<Rightarrow> if runeLen s = 0 then map char_of [0xEF, 0xBF, 0xBD :: nat] @ jsonString cs
                  else take (runeLen s) s @ jsonString (drop (runeLen s) s))"
  by pat_completeness auto
termination by (relation "measure length") auto

declare jsonString.simps [simp del]

lemma jsonString_Nil [simp]: "jsonString [] = []"
  by (simp add: jsonString.simps)

lemma runeLen_ascii: "byte c < 128 \<Longrightarrow> runeLen (c # cs) = 1"
  by (auto simp: runeLen_def split: list.splits)

lemma jsonString_ascii: "list_all (\<lambda>c. byte c < 128) s \<Longrightarrow> jsonString s = s"
proof (induction s)
  case (Cons c cs)
  then show ?case by (subst jsonString.simps) (simp add: runeLen_ascii)
qed simp

lemma jsonString_plainKey [simp]: "plainKey s \<Longrightarrow> jsonString s = s"
  by (rule jsonString_ascii) (auto simp: plainKey_def list_all_iff)

section \<open>Values of type any\<close>

fun jsonAny :: "any \<Rightarrow> any" where
  "jsonAny (AnyInt i) = AnyFloat (Itoa i)"
| "jsonAny (AnyNumber l) = AnyFloat l"
| "jsonAny (AnyString s) = AnyString (jsonString s)"
| "jsonAny (AnyTime t) = AnyString (formatRFC3339Nano t)"
| "jsonAny (AnyList xs) = AnyList (map jsonAny xs)"
| "jsonAny (AnyMap kvs) = AnyMap (map (\<lambda>(k, v). (jsonString k, jsonAny v)) kvs)"
| "jsonAny v = v"

definition jsonObject :: "(string \<times> any) list option \<Rightarrow> (string \<times> any) list option" where
  "jsonObject m = (case m of None \<Rightarrow> None | Some [] \<Rightarrow> None
     | Some kvs \<Rightarrow> Some (map (\<lambda>(k, v). (jsonString k, jsonAny v)) kvs))"

section \<open>Runs and schedules\<close>

definition jsonRun :: "Run \<Rightarrow> Run" where
  "jsonRun r = r\<lparr>r_ID := jsonString (r_ID r), r_ScheduleName := jsonString (r_ScheduleName r),
     r_TargetType := jsonString (r_TargetType r), r_TriggeredBy := jsonString (r_TriggeredBy r),
     r_Status := jsonString (r_Status r), r_StructuredOutput := jsonObject (r_StructuredOutput r),
     r_Error := jsonString (r_Error r)\<rparr>"

definition jsonTarget :: "TargetConfig \<Rightarrow> TargetConfig" where
  "jsonTarget t = \<lparr>tc_Type = jsonString (tc_Type t), tc_URL = jsonString (tc_URL t),
     tc_Method = jsonString (tc_Method t),
     tc_Headers = (case tc_Headers t of None \<Rightarrow> None | Some [] \<Rightarrow> None
        | Some kvs \<Rightarrow> Some (map (\<lambda>(k, v). (jsonString k, jsonString v)) kvs)),
     tc_Body = jsonObject (tc_Body t),
     tc_Args = (case tc_Args t of None \<Rightarrow> None | Some [] \<Rightarrow> None | Some xs \<Rightarrow> Some (map jsonAny xs)),
     tc_Queue = jsonString (tc_Queue t), tc_JobType = jsonString (tc_JobType t),
     tc_Instance = jsonString (tc_Instance t)\<rparr>"

text \<open>
  The timeout comes back as it was: \<open>Duration_roundtrip\<close>.
\<close>

definition jsonSchedule :: "ScheduleConfig \<Rightarrow> ScheduleConfig" where
  "jsonSchedule s = s\<lparr>sc_Name := jsonString (sc_Name s), sc_Description := jsonString (sc_Description s),
     sc_ScheduleType := jsonString (sc_ScheduleType s), sc_Cron := jsonString (sc_Cron s),
     sc_Timezone := jsonString (sc_Timezone s), sc_RunAt := jsonString (sc_RunAt s),
     sc_StartsAt := jsonString (sc_StartsAt s), sc_RateUnit := jsonString (sc_RateUnit s),
     sc_Target := jsonTarget (sc_Target s)\<rparr>"

datatype blob = Raw string | JSONRun Run | JSONSchedule ScheduleConfig

definition yearError :: go_error where
  "yearError = External ''Time.MarshalJSON: year outside of range [0,9999]''"

definition yearOkOpt :: "go_time option \<Rightarrow> bool" where
  "yearOkOpt t = (case t of None \<Rightarrow> True | Some t \<Rightarrow> yearOk t)"

definition marshalRun :: "Run \<Rightarrow> blob result" where
  "marshalRun r =
     (if yearOk (r_ScheduledAt r) \<and> yearOk (r_StartedAt r) \<and> yearOkOpt (r_FinishedAt r)
      then Inr (JSONRun (jsonRun r)) else Inl yearError)"

definition unmarshalRun :: "blob \<Rightarrow> Run result" where
  "unmarshalRun v = (case v of JSONRun r \<Rightarrow> Inr r | _ \<Rightarrow> Inl (External ''json: cannot decode run''))"

definition marshalSchedule :: "ScheduleConfig \<Rightarrow> blob result" where
  "marshalSchedule s =
     (if yearOkOpt (sc_CompletedAt s) \<and> yearOk (sc_NextRun s) \<and> yearOk (sc_PreviousRun s)
      then Inr (JSONSchedule (jsonSchedule s)) else Inl yearError)"

definition unmarshalSchedule :: "blob \<Rightarrow> ScheduleConfig result" where
  "unmarshalSchedule v =
     (case v of JSONSchedule s \<Rightarrow> Inr s | _ \<Rightarrow> Inl (External ''json: cannot decode schedule''))"

text \<open>\<open>string(value)\<close>: only index entries are read as strings, and those are raw bytes.\<close>

fun rawBytes :: "blob \<Rightarrow> string" where
  "rawBytes (Raw s) = s"
| "rawBytes v = []"

lemma jsonRun_fields [simp]:
  "r_ScheduledAt (jsonRun r) = r_ScheduledAt r" "r_StartedAt (jsonRun r) = r_StartedAt r"
  "r_FinishedAt (jsonRun r) = r_FinishedAt r"
  "r_ID (jsonRun r) = jsonString (r_ID r)" "r_ScheduleName (jsonRun r) = jsonString (r_ScheduleName r)"
  "r_Status (jsonRun r) = jsonString (r_Status r)"
  by (simp_all add: jsonRun_def)

lemma jsonString_status:
  "s \<in> {RunRunning, RunSucceeded, RunFailed, RunSkipped} \<Longrightarrow> jsonString s = s"
proof -
  have "list_all (\<lambda>s. list_all (\<lambda>c. byte c < 128) s) [RunRunning, RunSucceeded, RunFailed, RunSkipped]"
    by code_simp
  then show "s \<in> {RunRunning, RunSucceeded, RunFailed, RunSkipped} \<Longrightarrow> ?thesis"
    by (auto intro: jsonString_ascii)
qed

lemma jsonRun_same: "storableRun r \<Longrightarrow> plainStatus r \<Longrightarrow> sameRun r (jsonRun r)"
  by (simp add: sameRun_def storableRun_def plainStatus_def jsonString_status)

lemma jsonSchedule_name [simp]: "sc_Name (jsonSchedule s) = jsonString (sc_Name s)"
  by (simp add: jsonSchedule_def)

section \<open>The counter: eight bytes, big-endian\<close>

primrec bigEndian :: "nat \<Rightarrow> nat \<Rightarrow> string" where
  "bigEndian 0 n = []"
| "bigEndian (Suc w) n = bigEndian w (n div 256) @ [char_of (n mod 256)]"

definition PutUint64 :: "64 word \<Rightarrow> string" where
  "PutUint64 w = bigEndian 8 (unat w)"

definition Uint64 :: "string \<Rightarrow> 64 word" where
  "Uint64 s = word_of_int (int (foldl (\<lambda>a c. 256 * a + byte c) 0 s))"

lemma length_bigEndian [simp]: "length (bigEndian w n) = w"
  by (induction w arbitrary: n) simp_all

lemma foldl_bigEndian: "n < 256 ^ w \<Longrightarrow> foldl (\<lambda>a c. 256 * a + byte c) 0 (bigEndian w n) = n"
proof (induction w arbitrary: n)
  case (Suc w)
  then have "n div 256 < 256 ^ w" by (simp add: less_mult_imp_div_less)
  with Suc.IH show ?case by (simp add: byte_def)
qed simp

lemma length_PutUint64 [simp]: "length (PutUint64 w) = 8"
  by (simp add: PutUint64_def)

lemma Uint64_PutUint64 [simp]: "Uint64 (PutUint64 w) = w"
proof -
  have "unat w < 256 ^ 8" using unsigned_less [of w] by simp
  then show ?thesis by (simp add: Uint64_def PutUint64_def foldl_bigEndian)
qed

end
