(* ===== verification/BoltStore.thy ===== *)
theory BoltStore
  imports RunCodec
begin

text \<open>
  internal/store/store.go, the bbolt store: the runs and schedules buckets, the index of runs by
  start time, the index of running runs by schedule, and the counter of completed runs.  Every
  function takes the bbolt operations (\<open>api\<close>) and the transaction it works in.
\<close>

section \<open>Names and keys\<close>

definition runsBucket :: string where "runsBucket = ''runs''"
definition runStatsBucket :: string where "runStatsBucket = ''run_stats''"
definition runsByStartedAtBucket :: string where "runsByStartedAtBucket = ''runs_by_started_at''"
definition runningRunsByScheduleBucket :: string where
  "runningRunsByScheduleBucket = ''running_runs_by_schedule''"
definition schedulesBucket :: string where "schedulesBucket = ''schedules''"
definition completedRunCountKey :: string where "completedRunCountKey = ''completed_count''"

definition runStartedAtIndexTimeLayout :: string where
  "runStartedAtIndexTimeLayout = ''20060102T150405.000000000Z''"

lemma bucket_names_distinct [simp]:
  "runsBucket \<noteq> runStatsBucket" "runsBucket \<noteq> runsByStartedAtBucket"
  "runsBucket \<noteq> runningRunsByScheduleBucket" "runsBucket \<noteq> schedulesBucket"
  "runStatsBucket \<noteq> runsBucket" "runStatsBucket \<noteq> runsByStartedAtBucket"
  "runStatsBucket \<noteq> runningRunsByScheduleBucket" "runStatsBucket \<noteq> schedulesBucket"
  "runsByStartedAtBucket \<noteq> runsBucket" "runsByStartedAtBucket \<noteq> runStatsBucket"
  "runsByStartedAtBucket \<noteq> runningRunsByScheduleBucket" "runsByStartedAtBucket \<noteq> schedulesBucket"
  "runningRunsByScheduleBucket \<noteq> runsBucket" "runningRunsByScheduleBucket \<noteq> runStatsBucket"
  "runningRunsByScheduleBucket \<noteq> runsByStartedAtBucket" "runningRunsByScheduleBucket \<noteq> schedulesBucket"
  "schedulesBucket \<noteq> runsBucket" "schedulesBucket \<noteq> runStatsBucket"
  "schedulesBucket \<noteq> runsByStartedAtBucket" "schedulesBucket \<noteq> runningRunsByScheduleBucket"
  by (simp_all add: runsBucket_def runStatsBucket_def runsByStartedAtBucket_def
      runningRunsByScheduleBucket_def schedulesBucket_def)

definition runStartedAtIndexKey :: "Run \<Rightarrow> string" where
  "runStartedAtIndexKey r = formatStamp (r_StartedAt r) @ ''|'' @ r_ID r"

definition startedAtFromRunIndexKey :: "string \<Rightarrow> go_time result" where
  "startedAtFromRunIndexKey key =
     (if length key < length runStartedAtIndexTimeLayout
      then Inl (ConfigError ''invalid run time index key'')
      else case parseStamp (take (length runStartedAtIndexTimeLayout) key) of
        None \<Rightarrow> Inl (External ''parsing time'') | Some t \<Rightarrow> Inr t)"

definition NUL :: char where "NUL = char_of (0 :: nat)"

definition runningRunSchedulePrefix :: "string \<Rightarrow> string" where
  "runningRunSchedulePrefix name = name @ [NUL]"

definition runningRunScheduleKey :: "Run \<Rightarrow> string" where
  "runningRunScheduleKey r = r_ScheduleName r @ [NUL] @ r_ID r"

section \<open>The counter of completed runs\<close>

definition completedRunCount :: "('b, blob) bolt_api \<Rightarrow> 'b tx \<Rightarrow> int result" where
  "completedRunCount api tx =
     bindE (txGet api tx runStatsBucket completedRunCountKey) (\<lambda>raw.
       case raw of None \<Rightarrow> Inr 0
       | Some v \<Rightarrow> if length (rawBytes v) \<noteq> 8 then Inl (ConfigError ''invalid completed run count'')
                   else Inr (sint (Uint64 (rawBytes v))))"

definition setCompletedRunCount :: "('b, blob) bolt_api \<Rightarrow> 'b tx \<Rightarrow> int \<Rightarrow> 'b tx result" where
  "setCompletedRunCount api tx count0 =
     (let count = (if count0 < 0 then 0 else count0)
      in txPut api tx runStatsBucket completedRunCountKey (Raw (PutUint64 (word_of_int count))))"

definition incrementCompletedRunCount :: "('b, blob) bolt_api \<Rightarrow> 'b tx \<Rightarrow> int \<Rightarrow> 'b tx result" where
  "incrementCompletedRunCount api tx delta =
     bindE (completedRunCount api tx) (\<lambda>count. setCompletedRunCount api tx (count + delta))"

section \<open>The indexes\<close>

definition addRunIndexes :: "('b, blob) bolt_api \<Rightarrow> 'b tx \<Rightarrow> Run \<Rightarrow> 'b tx result" where
  "addRunIndexes api tx r =
     bindE (txPut api tx runsByStartedAtBucket (runStartedAtIndexKey r) (Raw (r_ID r))) (\<lambda>tx.
       if r_Status r = RunRunning
       then txPut api tx runningRunsByScheduleBucket (runningRunScheduleKey r) (Raw (r_ID r))
       else Inr tx)"

definition removeRunIndexes :: "('b, blob) bolt_api \<Rightarrow> 'b tx \<Rightarrow> Run \<Rightarrow> 'b tx result" where
  "removeRunIndexes api tx r =
     bindE (txDelete api tx runsByStartedAtBucket (runStartedAtIndexKey r)) (\<lambda>tx.
       if r_Status r = RunRunning
       then txDelete api tx runningRunsByScheduleBucket (runningRunScheduleKey r)
       else Inr tx)"

definition runByID :: "('b, blob) bolt_api \<Rightarrow> 'b tx \<Rightarrow> string \<Rightarrow> Run result" where
  "runByID api tx rid =
     bindE (txGet api tx runsBucket rid) (\<lambda>raw.
       case raw of None \<Rightarrow> Inl (ConfigError (''run not found: '' @ rid)) | Some v \<Rightarrow> unmarshalRun v)"

definition deleteRunByIndexedKey ::
    "('b, blob) bolt_api \<Rightarrow> 'b tx \<Rightarrow> string \<Rightarrow> string \<Rightarrow> 'b tx result" where
  "deleteRunByIndexedKey api tx indexKey rid =
     bindE (runByID api tx rid) (\<lambda>r.
     bindE (txDelete api tx runsByStartedAtBucket indexKey) (\<lambda>tx.
     bindE (if r_Status r = RunRunning
            then txDelete api tx runningRunsByScheduleBucket (runningRunScheduleKey r)
            else Inr tx) (\<lambda>tx.
     bindE (txDelete api tx runsBucket rid) (\<lambda>tx.
       if isCompletedRun r then incrementCompletedRunCount api tx (- 1) else Inr tx))))"

definition resetBucket :: "('b, blob) bolt_api \<Rightarrow> 'b tx \<Rightarrow> string \<Rightarrow> 'b tx result" where
  "resetBucket api tx name =
     bindE (if tx name \<noteq> None then DeleteBucket tx name else Inr tx) (\<lambda>tx. CreateBucket api tx name)"

text \<open>The loop of \<open>rebuildRunIndexes\<close> over the runs bucket, counting completed runs.\<close>

fun reindexLoop :: "('b, blob) bolt_api \<Rightarrow> (string \<times> blob) list \<Rightarrow> 'b tx \<Rightarrow> int \<Rightarrow> ('b tx \<times> int) result" where
  "reindexLoop api [] tx count = Inr (tx, count)"
| "reindexLoop api ((k, v) # kvs) tx count =
     bindE (unmarshalRun v) (\<lambda>r.
     bindE (addRunIndexes api tx r) (\<lambda>tx.
       reindexLoop api kvs tx (if isCompletedRun r then count + 1 else count)))"

definition rebuildRunIndexes :: "('b, blob) bolt_api \<Rightarrow> 'b tx \<Rightarrow> 'b tx result" where
  "rebuildRunIndexes api tx =
     bindE (resetBucket api tx runsByStartedAtBucket) (\<lambda>tx.
     bindE (resetBucket api tx runningRunsByScheduleBucket) (\<lambda>tx.
     bindE (setCompletedRunCount api tx 0) (\<lambda>tx.
     bindE (txBucket tx runsBucket) (\<lambda>b.
     bindE (reindexLoop api (bk_forward api b) tx 0) (\<lambda>(tx, count).
       setCompletedRunCount api tx count)))))"

section \<open>Opening\<close>

definition openBuckets :: "('b, blob) bolt_api \<Rightarrow> 'b tx \<Rightarrow> (unit \<times> 'b tx) result" where
  "openBuckets api tx =
     bindE (CreateBucketIfNotExists api tx runsBucket) (\<lambda>tx.
     bindE (CreateBucketIfNotExists api tx schedulesBucket) (\<lambda>tx.
     let needsIndexRebuild =
           (tx runsByStartedAtBucket = None \<or> tx runningRunsByScheduleBucket = None \<or>
            tx runStatsBucket = None \<or> look api tx runStatsBucket completedRunCountKey = None)
     in
     bindE (CreateBucketIfNotExists api tx runsByStartedAtBucket) (\<lambda>tx.
     bindE (CreateBucketIfNotExists api tx runningRunsByScheduleBucket) (\<lambda>tx.
     bindE (CreateBucketIfNotExists api tx runStatsBucket) (\<lambda>tx.
       if needsIndexRebuild then bindE (rebuildRunIndexes api tx) (\<lambda>tx. Inr ((), tx))
       else Inr ((), tx))))))"

text \<open>
  \<open>OpenBoltStore\<close>: opening the file is outside the repository (\<open>opened\<close> is its outcome); an
  error of the transaction closes the database.
\<close>

definition OpenBoltStore :: "('b, blob) bolt_api \<Rightarrow> 'b tx result \<Rightarrow> 'b tx result" where
  "OpenBoltStore api opened =
     bindE opened (\<lambda>db. case dbUpdate api (openBuckets api) db of
       (Inl e, _) \<Rightarrow> Inl e | (Inr _, db') \<Rightarrow> Inr db')"

section \<open>Schedules\<close>

definition bs_SaveSchedule :: "('b, blob) bolt_api \<Rightarrow> ScheduleConfig \<Rightarrow> 'b tx \<Rightarrow> unit result \<times> 'b tx" where
  "bs_SaveSchedule api s0 db =
     (let s = NormalizeSchedule s0 in
      dbUpdate api (\<lambda>tx.
        bindE (marshalSchedule s) (\<lambda>raw.
        bindE (txPut api tx schedulesBucket (sc_Name s) raw) (\<lambda>tx. Inr ((), tx)))) db)"

definition bs_DeleteSchedule :: "('b, blob) bolt_api \<Rightarrow> string \<Rightarrow> 'b tx \<Rightarrow> unit result \<times> 'b tx" where
  "bs_DeleteSchedule api name db =
     dbUpdate api (\<lambda>tx. bindE (txDelete api tx schedulesBucket name) (\<lambda>tx. Inr ((), tx))) db"

fun decodeSchedules :: "(string \<times> blob) list \<Rightarrow> ScheduleConfig list result" where
  "decodeSchedules [] = Inr []"
| "decodeSchedules ((k, v) # kvs) =
     bindE (unmarshalSchedule v) (\<lambda>s. bindE (decodeSchedules kvs) (\<lambda>ss. Inr (s # ss)))"

definition bs_ListSchedules :: "('b, blob) bolt_api \<Rightarrow> 'b tx \<Rightarrow> ScheduleConfig list result" where
  "bs_ListSchedules api db =
     bindE (dbView (\<lambda>tx. bindE (txBucket tx schedulesBucket) (\<lambda>b. decodeSchedules (bk_forward api b))) db)
       (\<lambda>ss. Inr (sort_key sc_Name ss))"

section \<open>Runs\<close>

definition writeRun :: "('b, blob) bolt_api \<Rightarrow> Run \<Rightarrow> 'b tx \<Rightarrow> (unit \<times> 'b tx) result" where
  "writeRun api r tx =
     bindE (marshalRun r) (\<lambda>raw.
     bindE (txGet api tx runsBucket (r_ID r)) (\<lambda>oldRaw.
     bindE (case oldRaw of None \<Rightarrow> Inr (None, tx)
            | Some v \<Rightarrow> bindE (unmarshalRun v) (\<lambda>old.
                bindE (removeRunIndexes api tx old) (\<lambda>tx. Inr (Some old, tx)))) (\<lambda>(oldRun, tx).
     bindE (txPut api tx runsBucket (r_ID r) raw) (\<lambda>tx.
     bindE (addRunIndexes api tx r) (\<lambda>tx.
     bindE (if isCompletedRun r \<and> (case oldRun of None \<Rightarrow> True | Some old \<Rightarrow> \<not> isCompletedRun old)
            then incrementCompletedRunCount api tx 1
            else if \<not> isCompletedRun r \<and> (case oldRun of None \<Rightarrow> False | Some old \<Rightarrow> isCompletedRun old)
            then incrementCompletedRunCount api tx (- 1)
            else Inr tx) (\<lambda>tx. Inr ((), tx)))))))"

definition bs_SaveRun :: "('b, blob) bolt_api \<Rightarrow> Run \<Rightarrow> 'b tx \<Rightarrow> unit result \<times> 'b tx" where
  "bs_SaveRun api r db = dbUpdate api (writeRun api r) db"

definition bs_UpdateRun :: "('b, blob) bolt_api \<Rightarrow> Run \<Rightarrow> 'b tx \<Rightarrow> unit result \<times> 'b tx" where
  "bs_UpdateRun api r db = dbUpdate api (writeRun api r) db"

text \<open>The cursor loop of \<open>ListRuns\<close>, from the last index entry back.\<close>

fun listLoop ::
    "('b, blob) bolt_api \<Rightarrow> 'b \<Rightarrow> (string \<times> blob) list \<Rightarrow> int \<Rightarrow> Run list \<Rightarrow> Run list result" where
  "listLoop api rb [] limit out = Inr out"
| "listLoop api rb ((k, v) # kvs) limit out =
     (case bk_get api rb (rawBytes v) of
        None \<Rightarrow> listLoop api rb kvs limit out
      | Some raw \<Rightarrow>
          bindE (unmarshalRun raw) (\<lambda>r.
            if 0 < limit \<and> limit \<le> int (length (out @ [r])) then Inr (out @ [r])
            else listLoop api rb kvs limit (out @ [r])))"

definition bs_ListRuns :: "('b, blob) bolt_api \<Rightarrow> int \<Rightarrow> 'b tx \<Rightarrow> Run list result" where
  "bs_ListRuns api limit db =
     dbView (\<lambda>tx.
       bindE (txBucket tx runsByStartedAtBucket) (\<lambda>ib.
       bindE (txBucket tx runsBucket) (\<lambda>rb.
         listLoop api rb (bk_backward api ib) limit []))) db"

definition bs_ClearRuns :: "('b, blob) bolt_api \<Rightarrow> 'b tx \<Rightarrow> unit result \<times> 'b tx" where
  "bs_ClearRuns api db =
     dbUpdate api (\<lambda>tx.
       bindE (resetBucket api tx runsBucket) (\<lambda>tx.
       bindE (resetBucket api tx runsByStartedAtBucket) (\<lambda>tx.
       bindE (resetBucket api tx runningRunsByScheduleBucket) (\<lambda>tx.
       bindE (setCompletedRunCount api tx 0) (\<lambda>tx. Inr ((), tx)))))) db"

text \<open>
  The two victim loops: the first stops at the first entry that is not older than the cutoff, the
  second when it has found the excess.
\<close>

fun olderVictims ::
    "('b, blob) bolt_api \<Rightarrow> 'b tx \<Rightarrow> go_time \<Rightarrow> (string \<times> blob) list \<Rightarrow> (string \<times> string) list \<Rightarrow>
     (string \<times> string) list result" where
  "olderVictims api tx cutoff [] victims = Inr victims"
| "olderVictims api tx cutoff ((k, v) # kvs) victims =
     bindE (startedAtFromRunIndexKey k) (\<lambda>startedAt.
       if \<not> startedAt < cutoff then Inr victims
       else bindE (runByID api tx (rawBytes v)) (\<lambda>r.
         if r_Status r = RunRunning then olderVictims api tx cutoff kvs victims
         else olderVictims api tx cutoff kvs (victims @ [(k, rawBytes v)])))"

fun overCountVictims ::
    "('b, blob) bolt_api \<Rightarrow> 'b tx \<Rightarrow> int \<Rightarrow> (string \<times> blob) list \<Rightarrow> (string \<times> string) list \<Rightarrow>
     (string \<times> string) list result" where
  "overCountVictims api tx toDelete [] victims = Inr victims"
| "overCountVictims api tx toDelete ((k, v) # kvs) victims =
     (if \<not> int (length victims) < toDelete then Inr victims
      else bindE (runByID api tx (rawBytes v)) (\<lambda>r.
        if r_Status r = RunRunning then overCountVictims api tx toDelete kvs victims
        else overCountVictims api tx toDelete kvs (victims @ [(k, rawBytes v)])))"

fun deleteVictims :: "('b, blob) bolt_api \<Rightarrow> (string \<times> string) list \<Rightarrow> 'b tx \<Rightarrow> 'b tx result" where
  "deleteVictims api [] tx = Inr tx"
| "deleteVictims api ((k, rid) # vs) tx =
     bindE (deleteRunByIndexedKey api tx k rid) (\<lambda>tx. deleteVictims api vs tx)"

definition pruneRunsOlderThan ::
    "('b, blob) bolt_api \<Rightarrow> go_time \<Rightarrow> 'b tx \<Rightarrow> (int \<times> 'b tx) result" where
  "pruneRunsOlderThan api cutoff tx =
     bindE (txBucket tx runsByStartedAtBucket) (\<lambda>ib.
     bindE (olderVictims api tx cutoff (bk_forward api ib) []) (\<lambda>victims.
     bindE (deleteVictims api victims tx) (\<lambda>tx. Inr (int (length victims), tx))))"

definition pruneRunsOverCount ::
    "('b, blob) bolt_api \<Rightarrow> int \<Rightarrow> 'b tx \<Rightarrow> (int \<times> 'b tx) result" where
  "pruneRunsOverCount api maxRecords tx =
     bindE (completedRunCount api tx) (\<lambda>count.
     let toDelete = count - maxRecords in
     if toDelete \<le> 0 then Inr (0, tx)
     else bindE (txBucket tx runsByStartedAtBucket) (\<lambda>ib.
       bindE (overCountVictims api tx toDelete (bk_forward api ib) []) (\<lambda>victims.
       bindE (deleteVictims api victims tx) (\<lambda>tx. Inr (int (length victims), tx)))))"

definition bs_PruneRuns ::
    "('b, blob) bolt_api \<Rightarrow> RunRetentionConfig \<Rightarrow> go_time \<Rightarrow> 'b tx \<Rightarrow> RunRetentionResult result \<times> 'b tx" where
  "bs_PruneRuns api retention now db =
     dbUpdate api (\<lambda>tx.
       bindE (if 0 < rr_MaxAgeDays retention
              then pruneRunsOlderThan api (addDays now (- rr_MaxAgeDays retention)) tx
              else Inr (0, tx)) (\<lambda>(n1, tx).
       bindE (if 0 < rr_MaxRecords retention
              then pruneRunsOverCount api (rr_MaxRecords retention) tx
              else Inr (0, tx)) (\<lambda>(n2, tx).
       bindE (completedRunCount api tx) (\<lambda>count.
         Inr (\<lparr>rt_Deleted = n1 + n2, rt_Kept = count\<rparr>, tx))))) db"

definition bs_HasRunningRun :: "('b, blob) bolt_api \<Rightarrow> string \<Rightarrow> 'b tx \<Rightarrow> bool result" where
  "bs_HasRunningRun api name db =
     dbView (\<lambda>tx.
       bindE (txBucket tx runningRunsByScheduleBucket) (\<lambda>qb.
         let prefix = runningRunSchedulePrefix name in
         case bk_seek api qb prefix of
           None \<Rightarrow> Inr False
         | Some (k, v) \<Rightarrow> Inr (HasPrefix k prefix))) db"

text \<open>The interface value; \<open>closed\<close> is the outcome of \<open>db.Close\<close>.\<close>

definition boltStore :: "('b, blob) bolt_api \<Rightarrow> unit result \<Rightarrow> 'b tx Store" where
  "boltStore api closed =
     \<lparr>so_SaveSchedule = bs_SaveSchedule api, so_DeleteSchedule = bs_DeleteSchedule api,
      so_ListSchedules = bs_ListSchedules api, so_SaveRun = bs_SaveRun api,
      so_UpdateRun = bs_UpdateRun api, so_ListRuns = bs_ListRuns api,
      so_ClearRuns = bs_ClearRuns api, so_PruneRuns = bs_PruneRuns api,
      so_HasRunningRun = bs_HasRunningRun api, so_Close = (\<lambda>db. closed)\<rparr>"

end
