(* ===== verification/BoltInvariant.thy ===== *)
theory BoltInvariant
  imports BoltStore
begin

text \<open>
  The invariant of the bbolt store: both indexes list exactly the runs they should, under the keys
  the code computes, and the counter is the number of completed runs.  Every operation that writes
  keeps it; its proof is per bucket operation, then per function of the store.
\<close>

section \<open>The invariant\<close>

definition runsOf :: "('b, blob) bolt_api \<Rightarrow> 'b tx \<Rightarrow> (string \<rightharpoonup> Run)" where
  "runsOf api tx = (\<lambda>k. case look api tx runsBucket k of Some (JSONRun r) \<Rightarrow> Some r | _ \<Rightarrow> None)"

definition schedsOf :: "('b, blob) bolt_api \<Rightarrow> 'b tx \<Rightarrow> (string \<rightharpoonup> ScheduleConfig)" where
  "schedsOf api tx = (\<lambda>k. case look api tx schedulesBucket k of Some (JSONSchedule s) \<Rightarrow> Some s | _ \<Rightarrow> None)"

definition goodRun :: "Run \<Rightarrow> bool" where
  "goodRun r \<longleftrightarrow> storableRun r \<and> yearOk (r_StartedAt r)"

definition goodRuns :: "(string \<rightharpoonup> Run) \<Rightarrow> bool" where
  "goodRuns R \<longleftrightarrow> (\<forall>k r. R k = Some r \<longrightarrow> r_ID r = k \<and> goodRun r)"

text \<open>The key under which an index lists a run, if it lists it.\<close>

definition startKey :: "Run \<Rightarrow> string option" where
  "startKey r = Some (runStartedAtIndexKey r)"

definition runKey :: "Run \<Rightarrow> string option" where
  "runKey r = (if r_Status r = RunRunning then Some (runningRunScheduleKey r) else None)"

definition indexes :: "(Run \<Rightarrow> string option) \<Rightarrow> (string \<rightharpoonup> Run) \<Rightarrow> (string \<rightharpoonup> blob) \<Rightarrow> bool" where
  "indexes f R I \<longleftrightarrow> (\<forall>k v. I k = Some v \<longleftrightarrow> (\<exists>rid r. R rid = Some r \<and> f r = Some k \<and> v = Raw rid))"

definition counter :: "('b, blob) bolt_api \<Rightarrow> 'b tx \<Rightarrow> int \<Rightarrow> bool" where
  "counter api tx n \<longleftrightarrow>
     look api tx runStatsBucket completedRunCountKey = Some (Raw (PutUint64 (word_of_int n)))"

definition storeBuckets :: "string set" where
  "storeBuckets = {runsBucket, runStatsBucket, runsByStartedAtBucket, runningRunsByScheduleBucket,
     schedulesBucket}"

definition schedulesOk :: "(string \<rightharpoonup> blob) \<Rightarrow> bool" where
  "schedulesOk S \<longleftrightarrow> (\<forall>k v. S k = Some v \<longrightarrow> (\<exists>s. v = JSONSchedule s \<and> sc_Name s = k))"

definition txInv :: "('b, blob) bolt_api \<Rightarrow> (string \<rightharpoonup> Run) \<Rightarrow> 'b tx \<Rightarrow> bool" where
  "txInv api R tx \<longleftrightarrow>
     storeBuckets \<subseteq> dom tx \<and> goodRuns R \<and> card (dom R) < 2 ^ 48 \<and>
     look api tx runsBucket = (\<lambda>k. map_option JSONRun (R k)) \<and>
     indexes startKey R (look api tx runsByStartedAtBucket) \<and>
     indexes runKey R (look api tx runningRunsByScheduleBucket) \<and>
     counter api tx (int (card (completedPairs R))) \<and>
     schedulesOk (look api tx schedulesBucket)"

definition boltInv :: "('b, blob) bolt_api \<Rightarrow> 'b tx \<Rightarrow> bool" where
  "boltInv api db \<longleftrightarrow> txInv api (runsOf api db) db"

lemma txInv_runsOf: "txInv api R tx \<Longrightarrow> runsOf api tx = R"
  by (rule ext) (auto simp: txInv_def runsOf_def split: option.splits)

lemma txInv_boltInv: "txInv api R tx \<Longrightarrow> boltInv api tx \<and> runsOf api tx = R"
  using txInv_runsOf [of api R tx] by (simp add: boltInv_def)

section \<open>Index keys\<close>

definition injKey :: "(Run \<Rightarrow> string option) \<Rightarrow> bool" where
  "injKey f \<longleftrightarrow> (\<forall>r r' k. goodRun r \<and> goodRun r' \<and> f r = Some k \<and> f r' = Some k \<longrightarrow> r_ID r = r_ID r')"

lemma runStartedAtIndexKey_eq:
  assumes "yearOk (r_StartedAt r)" "yearOk (r_StartedAt q)"
  shows "runStartedAtIndexKey r = runStartedAtIndexKey q \<longleftrightarrow>
    r_StartedAt r = r_StartedAt q \<and> r_ID r = r_ID q"
  using assms
  by (simp add: runStartedAtIndexKey_def append_eq_append_len length_formatStamp formatStamp_inj)

lemma runStartedAtIndexKey_less:
  assumes "yearOk (r_StartedAt r)" "yearOk (r_StartedAt q)"
  shows "runStartedAtIndexKey r < runStartedAtIndexKey q \<longleftrightarrow>
    r_StartedAt r < r_StartedAt q \<or> r_StartedAt r = r_StartedAt q \<and> r_ID r < r_ID q"
  using assms
  by (simp add: runStartedAtIndexKey_def append_less_append length_formatStamp formatStamp_inj formatStamp_less)

lemma startedAt_indexKey:
  "yearOk (r_StartedAt r) \<Longrightarrow> startedAtFromRunIndexKey (runStartedAtIndexKey r) = Inr (r_StartedAt r)"
  by (simp add: startedAtFromRunIndexKey_def runStartedAtIndexKey_def runStartedAtIndexTimeLayout_def
      length_formatStamp parseStamp_format)

lemma plainKey_no_NUL: "plainKey s \<Longrightarrow> NUL \<notin> set s"
  by (auto simp: plainKey_def NUL_def byte_def list_all_iff)

lemma split_at_NUL:
  "NUL \<notin> set a \<Longrightarrow> NUL \<notin> set b \<Longrightarrow> a @ NUL # x = b @ NUL # y \<longleftrightarrow> a = b \<and> x = y"
proof (induction a arbitrary: b)
  case Nil
  then show ?case by (cases b) auto
next
  case (Cons c a)
  then show ?case by (cases b) auto
qed

lemma injKey_startKey: "injKey startKey"
  by (auto simp: injKey_def startKey_def goodRun_def dest: runStartedAtIndexKey_eq [THEN iffD1, rotated 2])

lemma injKey_runKey: "injKey runKey"
proof -
  have "r_ID r = r_ID q"
    if g: "goodRun r" "goodRun q" and eq: "runKey r = Some k" "runKey q = Some k" for r q k
  proof -
    have n: "NUL \<notin> set (r_ScheduleName r)" "NUL \<notin> set (r_ScheduleName q)"
      using g by (simp_all add: goodRun_def storableRun_def plainKey_no_NUL)
    have "r_ScheduleName r @ NUL # r_ID r = r_ScheduleName q @ NUL # r_ID q"
      using eq by (simp add: runKey_def runningRunScheduleKey_def split: if_splits)
    then show ?thesis using split_at_NUL [OF n] by simp
  qed
  then show ?thesis by (auto simp: injKey_def)
qed

lemma index_unique:
  assumes "goodRuns R" "injKey f" "R a = Some r" "R b = Some q" "f q = Some k" "f r = Some k"
  shows "b = a"
  using assms unfolding goodRuns_def injKey_def by metis

lemma index_remove:
  assumes i: "indexes f R I" and g: "goodRuns R" and inj: "injKey f" and r: "R a = Some r"
  shows "indexes f (R(a := None)) (case f r of None \<Rightarrow> I | Some k \<Rightarrow> I(k := None))"
  unfolding indexes_def
proof (intro allI)
  fix k v
  let ?I = "case f r of None \<Rightarrow> I | Some k \<Rightarrow> I(k := None)"
  have I: "I k = Some v \<longleftrightarrow> (\<exists>rid q. R rid = Some q \<and> f q = Some k \<and> v = Raw rid)"
    using i by (simp add: indexes_def)
  show "?I k = Some v \<longleftrightarrow> (\<exists>rid q. (R(a := None)) rid = Some q \<and> f q = Some k \<and> v = Raw rid)"
  proof (cases "f r = Some k")
    case True
    have "\<not> (R(a := None)) rid = Some q" if "f q = Some k" for rid q
      using index_unique [OF g inj r _ that True] by auto
    with True show ?thesis by auto
  next
    case False
    then have "?I k = I k" by (cases "f r") auto
    moreover have "R rid = Some q \<and> f q = Some k \<longleftrightarrow> (R(a := None)) rid = Some q \<and> f q = Some k" for rid q
      using r False by auto
    ultimately show ?thesis using I by metis
  qed
qed

lemma index_add:
  assumes i: "indexes f R I" and g: "goodRuns (R(a \<mapsto> r))" and inj: "injKey f" and n: "R a = None"
  shows "indexes f (R(a \<mapsto> r)) (case f r of None \<Rightarrow> I | Some k \<Rightarrow> I(k \<mapsto> Raw a))"
  unfolding indexes_def
proof (intro allI)
  fix k v
  let ?I = "case f r of None \<Rightarrow> I | Some k \<Rightarrow> I(k \<mapsto> Raw a)" and ?R = "R(a \<mapsto> r)"
  have I: "I k = Some v \<longleftrightarrow> (\<exists>rid q. R rid = Some q \<and> f q = Some k \<and> v = Raw rid)"
    using i by (simp add: indexes_def)
  show "?I k = Some v \<longleftrightarrow> (\<exists>rid q. ?R rid = Some q \<and> f q = Some k \<and> v = Raw rid)"
  proof (cases "f r = Some k")
    case True
    have "rid = a \<and> q = r" if "?R rid = Some q" "f q = Some k" for rid q
      using index_unique [OF g inj _ that(1,2) True] that by auto
    moreover have "?R a = Some r" by simp
    ultimately have "(\<exists>rid q. ?R rid = Some q \<and> f q = Some k \<and> v = Raw rid) \<longleftrightarrow> v = Raw a"
      using True by metis
    with True show ?thesis by auto
  next
    case False
    then have "?I k = I k" by (cases "f r") auto
    moreover have "R rid = Some q \<and> f q = Some k \<longleftrightarrow> ?R rid = Some q \<and> f q = Some k" for rid q
      using n False by auto
    ultimately show ?thesis using I by metis
  qed
qed

section \<open>The counter\<close>

lemma card_completedPairs_le:
  assumes "finite (dom R)"
  shows "card (completedPairs R) \<le> card (dom R)"
proof -
  have "completedPairs R \<subseteq> (\<lambda>k. (k, the (R k))) ` dom R" by (auto simp: completedPairs_def)
  then have "card (completedPairs R) \<le> card ((\<lambda>k. (k, the (R k))) ` dom R)"
    using assms by (intro card_mono) auto
  also have "\<dots> \<le> card (dom R)" using assms by (rule card_image_le)
  finally show ?thesis .
qed

lemma completedPairs_delete:
  "completedPairs (R(k := None)) = completedPairs R - {(k, r) | r. True}"
  by (auto simp: completedPairs_def split: if_splits)

lemma card_completed_delete:
  assumes "finite (dom R)" "R k = Some r"
  shows "int (card (completedPairs (R(k := None)))) =
    int (card (completedPairs R)) - (if isCompletedRun r then 1 else 0)"
proof (cases "isCompletedRun r")
  case True
  then have "completedPairs (R(k := None)) = completedPairs R - {(k, r)}" "(k, r) \<in> completedPairs R"
    using assms by (auto simp: completedPairs_def split: if_splits)
  moreover have "0 < card (completedPairs R)"
    using calculation(2) finite_completedPairs [OF assms(1)] by (metis card_gt_0_iff empty_iff)
  ultimately show ?thesis using True finite_completedPairs [OF assms(1)] by simp
next
  case False
  then have "completedPairs (R(k := None)) = completedPairs R"
    using assms by (auto simp: completedPairs_def split: if_splits)
  with False show ?thesis by simp
qed

lemma card_completed_insert:
  assumes "finite (dom R)" "R k = None"
  shows "int (card (completedPairs (R(k \<mapsto> r)))) =
    int (card (completedPairs R)) + (if isCompletedRun r then 1 else 0)"
proof (cases "isCompletedRun r")
  case True
  then have "completedPairs (R(k \<mapsto> r)) = insert (k, r) (completedPairs R)" "(k, r) \<notin> completedPairs R"
    using assms by (auto simp: completedPairs_def split: if_splits)
  then show ?thesis using True finite_completedPairs [OF assms(1)] by simp
next
  case False
  then have "completedPairs (R(k \<mapsto> r)) = completedPairs R"
    using assms by (auto simp: completedPairs_def split: if_splits)
  with False show ?thesis by simp
qed

lemma completedRunCount_counter:
  assumes "counter api tx n" "0 \<le> n" "n < 2 ^ 63"
  shows "completedRunCount api tx = Inr n"
proof -
  have "tx runStatsBucket \<noteq> None" using assms(1) by (auto simp: counter_def look_def split: option.splits)
  then show ?thesis using assms
    by (simp add: completedRunCount_def txGet_look counter_def sint_word_of_int64)
qed

end
