(* ===== verification/BoltWrites.thy ===== *)
theory BoltWrites
  imports BoltInvariant
begin

text \<open>
  The functions of the bbolt store that write keep the invariant: saving a run, deleting runs,
  clearing, and rebuilding the indexes when an older database is opened.
\<close>

section \<open>The database and what a step leaves alone\<close>

locale bolt_database = bbolt api for api :: "('b, blob) bolt_api"

definition sameBut :: "('b, blob) bolt_api \<Rightarrow> string set \<Rightarrow> 'b tx \<Rightarrow> 'b tx \<Rightarrow> bool" where
  "sameBut api B tx tx' \<longleftrightarrow> dom tx' = dom tx \<and> (\<forall>n. n \<notin> B \<longrightarrow> look api tx' n = look api tx n)"

definition indexBuckets :: "string set" where
  "indexBuckets = {runsByStartedAtBucket, runningRunsByScheduleBucket}"

definition indexed :: "('b, blob) bolt_api \<Rightarrow> (string \<rightharpoonup> Run) \<Rightarrow> 'b tx \<Rightarrow> bool" where
  "indexed api R tx \<longleftrightarrow> indexes startKey R (look api tx runsByStartedAtBucket) \<and>
     indexes runKey R (look api tx runningRunsByScheduleBucket)"

lemma indexBuckets_simps [simp]:
  "runsBucket \<notin> indexBuckets" "runStatsBucket \<notin> indexBuckets" "schedulesBucket \<notin> indexBuckets"
  by (simp_all add: indexBuckets_def)

lemma sameBut_trans:
  "sameBut api B tx tx1 \<Longrightarrow> sameBut api C tx1 tx2 \<Longrightarrow> sameBut api (B \<union> C) tx tx2"
  by (simp add: sameBut_def)

lemma sameBut_refl [simp]: "sameBut api B tx tx"
  by (simp add: sameBut_def)

lemma sameBut_look: "sameBut api B tx tx' \<Longrightarrow> n \<notin> B \<Longrightarrow> look api tx' n = look api tx n"
  by (simp add: sameBut_def)

lemma sameBut_dom: "sameBut api B tx tx' \<Longrightarrow> dom tx' = dom tx"
  by (simp add: sameBut_def)

lemma sameBut_indexed:
  "sameBut api B tx tx' \<Longrightarrow> B \<inter> indexBuckets = {} \<Longrightarrow> indexed api R tx' \<longleftrightarrow> indexed api R tx"
  by (auto simp: indexed_def indexBuckets_def sameBut_def)

lemma sameBut_counter:
  "sameBut api B tx tx' \<Longrightarrow> runStatsBucket \<notin> B \<Longrightarrow> counter api tx' n \<longleftrightarrow> counter api tx n"
  by (simp add: counter_def sameBut_def)

lemma txInv_alt:
  "txInv api R tx \<longleftrightarrow>
     storeBuckets \<subseteq> dom tx \<and> goodRuns R \<and> card (dom R) < 2 ^ 48 \<and>
     look api tx runsBucket = (\<lambda>k. map_option JSONRun (R k)) \<and> indexed api R tx \<and>
     counter api tx (int (card (completedPairs R))) \<and> schedulesOk (look api tx schedulesBucket)"
  by (simp add: txInv_def indexed_def)

lemma dom_stored: "dom (\<lambda>k. map_option JSONRun (R k)) = dom R"
  by (auto simp: dom_def)

lemma goodRuns_upd [simp]: "goodRuns R \<Longrightarrow> goodRun r \<Longrightarrow> r_ID r = k \<Longrightarrow> goodRuns (R(k \<mapsto> r))"
  by (simp add: goodRuns_def)

lemma goodRuns_del [simp]: "goodRuns R \<Longrightarrow> goodRuns (R(k := None))"
  by (simp add: goodRuns_def)

lemma goodRunsD: "goodRuns R \<Longrightarrow> R k = Some r \<Longrightarrow> r_ID r = k \<and> goodRun r"
  by (simp add: goodRuns_def)

context bolt_database
begin

lemma put_sameBut:
  assumes "txPut api tx n k v = Inr tx'"
  shows "sameBut api {n} tx tx'" "look api tx' n = (look api tx n)(k \<mapsto> v)"
  using txPut_look [OF assms] by (auto simp: sameBut_def)

lemma delete_sameBut:
  assumes "txDelete api tx n k = Inr tx'"
  shows "sameBut api {n} tx tx'" "look api tx' n = (look api tx n)(k := None)"
  using txDelete_look [OF assms] by (auto simp: sameBut_def)

lemma finite_dom_runs: "look api tx runsBucket = (\<lambda>k. map_option JSONRun (R k)) \<Longrightarrow> finite (dom R)"
  using finite_dom_look [of tx runsBucket] by (simp add: dom_stored)

section \<open>Indexes\<close>

lemma addRunIndexes_look:
  assumes "addRunIndexes api tx r = Inr tx'"
  shows "sameBut api indexBuckets tx tx'"
    "look api tx' runsByStartedAtBucket =
       (look api tx runsByStartedAtBucket)(runStartedAtIndexKey r \<mapsto> Raw (r_ID r))"
    "look api tx' runningRunsByScheduleBucket =
       (case runKey r of None \<Rightarrow> look api tx runningRunsByScheduleBucket
        | Some k \<Rightarrow> (look api tx runningRunsByScheduleBucket)(k \<mapsto> Raw (r_ID r)))"
proof -
  obtain tx1 where 1: "txPut api tx runsByStartedAtBucket (runStartedAtIndexKey r) (Raw (r_ID r)) = Inr tx1"
    and 2: "if r_Status r = RunRunning
            then txPut api tx1 runningRunsByScheduleBucket (runningRunScheduleKey r) (Raw (r_ID r)) = Inr tx'
            else tx' = tx1"
    using assms by (auto simp: addRunIndexes_def bindE_eq_Inr split: if_splits)
  note p1 = txPut_look [OF 1]
  have s: "sameBut api indexBuckets tx tx' \<and>
    look api tx' runsByStartedAtBucket = look api tx1 runsByStartedAtBucket \<and>
    look api tx' runningRunsByScheduleBucket =
       (case runKey r of None \<Rightarrow> look api tx runningRunsByScheduleBucket
        | Some k \<Rightarrow> (look api tx runningRunsByScheduleBucket)(k \<mapsto> Raw (r_ID r)))"
  proof (cases "r_Status r = RunRunning")
    case True
    then have "txPut api tx1 runningRunsByScheduleBucket (runningRunScheduleKey r) (Raw (r_ID r)) = Inr tx'"
      using 2 by simp
    from txPut_look [OF this] p1 True show ?thesis
      by (simp add: sameBut_def indexBuckets_def runKey_def)
  next
    case False
    then show ?thesis using 2 p1 by (simp add: sameBut_def indexBuckets_def runKey_def)
  qed
  from s p1 show "sameBut api indexBuckets tx tx'"
    "look api tx' runsByStartedAtBucket =
       (look api tx runsByStartedAtBucket)(runStartedAtIndexKey r \<mapsto> Raw (r_ID r))"
    "look api tx' runningRunsByScheduleBucket =
       (case runKey r of None \<Rightarrow> look api tx runningRunsByScheduleBucket
        | Some k \<Rightarrow> (look api tx runningRunsByScheduleBucket)(k \<mapsto> Raw (r_ID r)))"
    by simp_all
qed

lemma addRunIndexes_indexed:
  assumes a: "addRunIndexes api tx r = Inr tx'" and i: "indexed api R tx"
    and g: "goodRuns (R(r_ID r \<mapsto> q))" and n: "R (r_ID r) = None"
    and q: "startKey q = startKey r" "runKey q = runKey r"
  shows "indexed api (R(r_ID r \<mapsto> q)) tx'"
  using index_add [OF _ g injKey_startKey n, of "look api tx runsByStartedAtBucket"]
    index_add [OF _ g injKey_runKey n, of "look api tx runningRunsByScheduleBucket"] i q
  by (simp add: indexed_def addRunIndexes_look [OF a] startKey_def)

lemma removeRunIndexes_look:
  assumes "removeRunIndexes api tx r = Inr tx'"
  shows "sameBut api indexBuckets tx tx'"
    "look api tx' runsByStartedAtBucket = (look api tx runsByStartedAtBucket)(runStartedAtIndexKey r := None)"
    "look api tx' runningRunsByScheduleBucket =
       (case runKey r of None \<Rightarrow> look api tx runningRunsByScheduleBucket
        | Some k \<Rightarrow> (look api tx runningRunsByScheduleBucket)(k := None))"
proof -
  obtain tx1 where 1: "txDelete api tx runsByStartedAtBucket (runStartedAtIndexKey r) = Inr tx1"
    and 2: "if r_Status r = RunRunning
            then txDelete api tx1 runningRunsByScheduleBucket (runningRunScheduleKey r) = Inr tx'
            else tx' = tx1"
    using assms by (auto simp: removeRunIndexes_def bindE_eq_Inr split: if_splits)
  note p1 = txDelete_look [OF 1]
  have s: "sameBut api indexBuckets tx tx' \<and>
    look api tx' runsByStartedAtBucket = look api tx1 runsByStartedAtBucket \<and>
    look api tx' runningRunsByScheduleBucket =
       (case runKey r of None \<Rightarrow> look api tx runningRunsByScheduleBucket
        | Some k \<Rightarrow> (look api tx runningRunsByScheduleBucket)(k := None))"
  proof (cases "r_Status r = RunRunning")
    case True
    then have "txDelete api tx1 runningRunsByScheduleBucket (runningRunScheduleKey r) = Inr tx'"
      using 2 by simp
    from txDelete_look [OF this] p1 True show ?thesis
      by (simp add: sameBut_def indexBuckets_def runKey_def)
  next
    case False
    then show ?thesis using 2 p1 by (simp add: sameBut_def indexBuckets_def runKey_def)
  qed
  from s p1 show "sameBut api indexBuckets tx tx'"
    "look api tx' runsByStartedAtBucket = (look api tx runsByStartedAtBucket)(runStartedAtIndexKey r := None)"
    "look api tx' runningRunsByScheduleBucket =
       (case runKey r of None \<Rightarrow> look api tx runningRunsByScheduleBucket
        | Some k \<Rightarrow> (look api tx runningRunsByScheduleBucket)(k := None))"
    by simp_all
qed

lemma removeRunIndexes_indexed:
  assumes a: "removeRunIndexes api tx r = Inr tx'" and i: "indexed api R tx"
    and g: "goodRuns R" and r: "R k = Some r"
  shows "indexed api (R(k := None)) tx'"
  using index_remove [OF _ g injKey_startKey r, of "look api tx runsByStartedAtBucket"]
    index_remove [OF _ g injKey_runKey r, of "look api tx runningRunsByScheduleBucket"] i
  by (simp add: indexed_def removeRunIndexes_look [OF a] startKey_def)

section \<open>The counter\<close>

lemma setCompletedRunCount_counter:
  assumes "setCompletedRunCount api tx n = Inr tx'" "0 \<le> n"
  shows "sameBut api {runStatsBucket} tx tx' \<and> counter api tx' n"
  using assms put_sameBut by (simp add: setCompletedRunCount_def counter_def)

lemma incrementCompletedRunCount_counter:
  assumes i: "incrementCompletedRunCount api tx d = Inr tx'" and c: "counter api tx n"
    and n: "0 \<le> n" "n < 2 ^ 63" "0 \<le> n + d"
  shows "sameBut api {runStatsBucket} tx tx' \<and> counter api tx' (n + d)"
  using i completedRunCount_counter [OF c n(1,2)] setCompletedRunCount_counter n(3)
  by (simp add: incrementCompletedRunCount_def)

lemma completedRunCount_txInv:
  assumes "txInv api R tx"
  shows "completedRunCount api tx = Inr (int (card (completedPairs R)))"
    "int (card (completedPairs R)) < 2 ^ 48" "finite (dom R)"
proof -
  have t: "look api tx runsBucket = (\<lambda>k. map_option JSONRun (R k))" "card (dom R) < 2 ^ 48"
    "counter api tx (int (card (completedPairs R)))"
    using assms by (simp_all add: txInv_def)
  show f: "finite (dom R)" using finite_dom_runs [OF t(1)] .
  show le: "int (card (completedPairs R)) < 2 ^ 48"
    using card_completedPairs_le [OF f] t(2) by simp
  show "completedRunCount api tx = Inr (int (card (completedPairs R)))"
    using completedRunCount_counter [OF t(3)] le by simp
qed

end

section \<open>Saving a run\<close>

lemma jsonRun_keys:
  assumes "storableRun r" "plainStatus r"
  shows "startKey (jsonRun r) = startKey r" "runKey (jsonRun r) = runKey r"
    "isCompletedRun (jsonRun r) = isCompletedRun r" "r_ID (jsonRun r) = r_ID r"
proof -
  have "r_ID (jsonRun r) = r_ID r" "r_ScheduleName (jsonRun r) = r_ScheduleName r"
    "r_Status (jsonRun r) = r_Status r" "r_StartedAt (jsonRun r) = r_StartedAt r"
    using jsonRun_same [OF assms] unfolding sameRun_def by blast+
  then show "startKey (jsonRun r) = startKey r" "runKey (jsonRun r) = runKey r"
    "isCompletedRun (jsonRun r) = isCompletedRun r" "r_ID (jsonRun r) = r_ID r"
    by (simp_all only: startKey_def runKey_def isCompletedRun_def runStartedAtIndexKey_def
        runningRunScheduleKey_def)
qed

lemma goodRun_json:
  assumes "storableRun r" "plainStatus r" "yearOk (r_StartedAt r)"
  shows "goodRun (jsonRun r)"
  using assms jsonRun_same [OF assms(1,2)] by (simp add: goodRun_def sameRun_def storableRun_def)

definition completedInt :: "Run option \<Rightarrow> int" where
  "completedInt x = (case x of None \<Rightarrow> 0 | Some r \<Rightarrow> if isCompletedRun r then 1 else 0)"

lemma card_completed_remove:
  assumes "finite (dom R)"
  shows "int (card (completedPairs R)) =
    int (card (completedPairs (R(k := None)))) + completedInt (R k)"
proof (cases "R k")
  case None
  then have "R(k := None) = R" by auto
  with None show ?thesis by (simp add: completedInt_def)
next
  case (Some r)
  then show ?thesis using card_completed_delete [OF assms Some] by (simp add: completedInt_def)
qed

lemma card_completed_update:
  assumes "finite (dom R)"
  shows "int (card (completedPairs (R(k \<mapsto> r)))) =
    int (card (completedPairs R)) - completedInt (R k) + (if isCompletedRun r then 1 else 0)"
  using card_completed_remove [OF assms, of k] card_completed_insert [of "R(k := None)" k r] assms
  by simp

text \<open>The first half of \<open>writeRun\<close>: the stored run, if any, leaves the indexes.\<close>

definition dropOldRun :: "('b, blob) bolt_api \<Rightarrow> string \<Rightarrow> 'b tx \<Rightarrow> (Run option \<times> 'b tx) result" where
  "dropOldRun api rid tx =
     bindE (txGet api tx runsBucket rid) (\<lambda>oldRaw.
     case oldRaw of None \<Rightarrow> Inr (None, tx)
     | Some v \<Rightarrow> bindE (unmarshalRun v) (\<lambda>old.
         bindE (removeRunIndexes api tx old) (\<lambda>tx. Inr (Some old, tx))))"

lemma writeRun_dropOldRun:
  "writeRun api r tx =
     bindE (marshalRun r) (\<lambda>raw.
     bindE (dropOldRun api (r_ID r) tx) (\<lambda>(oldRun, tx).
     bindE (txPut api tx runsBucket (r_ID r) raw) (\<lambda>tx.
     bindE (addRunIndexes api tx r) (\<lambda>tx.
     bindE (if isCompletedRun r \<and> (case oldRun of None \<Rightarrow> True | Some old \<Rightarrow> \<not> isCompletedRun old)
            then incrementCompletedRunCount api tx 1
            else if \<not> isCompletedRun r \<and> (case oldRun of None \<Rightarrow> False | Some old \<Rightarrow> isCompletedRun old)
            then incrementCompletedRunCount api tx (- 1)
            else Inr tx) (\<lambda>tx. Inr ((), tx))))))"
  by (cases "marshalRun r"; cases "txGet api tx runsBucket (r_ID r)")
    (simp_all add: writeRun_def dropOldRun_def split: option.splits)

context bolt_database
begin

lemma dropOldRun_ok:
  assumes inv: "txInv api R tx" and d: "dropOldRun api k tx = Inr (old, tx')"
  shows "old = R k \<and> sameBut api indexBuckets tx tx' \<and> indexed api (R(k := None)) tx'"
proof -
  have i: "indexed api R tx" "goodRuns R" "tx runsBucket \<noteq> None"
    "look api tx runsBucket = (\<lambda>k. map_option JSONRun (R k))"
    using inv by (auto simp: txInv_alt storeBuckets_def)
  show ?thesis
  proof (cases "R k")
    case None
    then have "R(k := None) = R" by auto
    with None d i show ?thesis by (simp add: dropOldRun_def txGet_look)
  next
    case (Some r)
    then have "removeRunIndexes api tx r = Inr tx'" "old = Some r"
      using d i by (auto simp: dropOldRun_def txGet_look unmarshalRun_def bindE_eq_Inr)
    with Some show ?thesis
      using removeRunIndexes_indexed [OF _ i(1,2) Some] removeRunIndexes_look(1) by simp
  qed
qed

lemma writeRun_txInv:
  assumes inv: "txInv api R tx" and st: "storableRun r" and ps: "plainStatus r"
    and w: "writeRun api r tx = Inr (u, tx')"
  shows "txInv api (R(r_ID r \<mapsto> jsonRun r)) tx' \<and>
    look api tx' schedulesBucket = look api tx schedulesBucket"
proof -
  let ?k = "r_ID r" and ?q = "jsonRun r"
  let ?R = "R(?k \<mapsto> ?q)" and ?n = "int (card (completedPairs R))"
  have i: "goodRuns R" "look api tx runsBucket = (\<lambda>k. map_option JSONRun (R k))"
    "storeBuckets \<subseteq> dom tx" "counter api tx ?n" "schedulesOk (look api tx schedulesBucket)"
    using inv by (simp_all add: txInv_alt)
  note cnt = completedRunCount_txInv [OF inv]
  obtain old tx1 tx2 tx3 where year: "yearOk (r_StartedAt r)"
    and 1: "dropOldRun api ?k tx = Inr (old, tx1)"
    and 2: "txPut api tx1 runsBucket ?k (JSONRun ?q) = Inr tx2"
    and 3: "addRunIndexes api tx2 r = Inr tx3"
    and 4: "if isCompletedRun r \<and> (case old of None \<Rightarrow> True | Some old \<Rightarrow> \<not> isCompletedRun old)
            then incrementCompletedRunCount api tx3 1 = Inr tx'
            else if \<not> isCompletedRun r \<and> (case old of None \<Rightarrow> False | Some old \<Rightarrow> isCompletedRun old)
            then incrementCompletedRunCount api tx3 (- 1) = Inr tx'
            else tx' = tx3"
    using w by (auto simp: writeRun_dropOldRun bindE_eq_Inr marshalRun_def split: if_splits)
  have good: "goodRuns ?R"
    using i(1) goodRun_json [OF st ps year] jsonRun_keys(4) [OF st ps] by simp
  have d: "old = R ?k" "sameBut api indexBuckets tx tx1" "indexed api (R(?k := None)) tx1"
    using dropOldRun_ok [OF inv 1] by auto
  note p = put_sameBut [OF 2]
  have ix2: "indexed api (R(?k := None)) tx2"
    using sameBut_indexed [OF p(1)] d(3) by simp
  have ix3: "indexed api ?R tx3"
    using addRunIndexes_indexed [OF 3 ix2, of ?q] good jsonRun_keys [OF st ps] by simp
  note a = addRunIndexes_look(1) [OF 3]
  have s3: "sameBut api (indexBuckets \<union> {runsBucket}) tx tx3"
    using sameBut_trans [OF sameBut_trans [OF d(2) p(1)] a] by (simp add: Un_ac)
  have c3: "counter api tx3 ?n" using sameBut_counter [OF s3] i(4) by simp
  let ?d = "(if isCompletedRun r then 1 else 0) - completedInt (R ?k)"
  have upd: "int (card (completedPairs ?R)) = ?n + ?d"
    using card_completed_update [OF cnt(3), of ?k ?q] jsonRun_keys(3) [OF st ps] by simp
  have s4: "sameBut api {runStatsBucket} tx3 tx' \<and> counter api tx' (?n + ?d)"
  proof -
    have b: "0 \<le> ?n" "?n < 2 ^ 63" "0 \<le> ?n + ?d" 
    proof -
      show "0 \<le> ?n" by simp
      show "?n < 2 ^ 63" using cnt(2) by simp
      show "0 \<le> ?n + ?d" unfolding upd [symmetric] by simp
    qed
    have "incrementCompletedRunCount api tx3 ?d = Inr tx' \<or> ?d = 0 \<and> tx' = tx3"
      using 4 d(1) by (auto simp: completedInt_def split: option.splits if_splits)
    then show ?thesis
    proof
      assume "incrementCompletedRunCount api tx3 ?d = Inr tx'"
      then show ?thesis using incrementCompletedRunCount_counter [OF _ c3 b] by blast
    next
      assume z: "?d = 0 \<and> tx' = tx3"
      then have "?n + ?d = ?n" by simp
      with z c3 show ?thesis by (simp only: sameBut_refl simp_thms)
    qed
  qed
  have s: "sameBut api (indexBuckets \<union> {runsBucket} \<union> {runStatsBucket}) tx tx'"
    using sameBut_trans [OF s3] s4 by blast
  note looks = sameBut_look [OF conjunct1 [OF s4]] sameBut_look [OF a] sameBut_look [OF d(2)]
  have l: "look api tx' runsBucket = (\<lambda>k. map_option JSONRun (?R k))"
  proof -
    have "look api tx' runsBucket = (look api tx runsBucket)(?k \<mapsto> JSONRun ?q)"
      using p(2) by (simp add: looks)
    then show ?thesis using i(2) by auto
  qed
  have "look api tx' runsBucket = look api tx2 runsBucket"
    by (simp add: looks)
  then have "card (dom ?R) < 2 ^ 48"
    using txPut_card [OF 2] l dom_stored [of ?R] by simp
  moreover have "indexed api ?R tx'"
    using sameBut_indexed [of api "{runStatsBucket}" tx3 tx'] s4 ix3 by (auto simp: indexBuckets_def)
  moreover have "storeBuckets \<subseteq> dom tx'" using sameBut_dom [OF s] i(3) by simp
  moreover have "look api tx' schedulesBucket = look api tx schedulesBucket"
    using s by (rule sameBut_look) (simp add: indexBuckets_def)
  ultimately show ?thesis
    using good l s4 upd i(5) by (simp add: txInv_alt)
qed

end

section \<open>Deleting runs\<close>

lemma restrict_remove_one: "R |` (- insert k A) = (R(k := None)) |` (- A)"
  by (rule ext) (simp add: restrict_map_def)

context bolt_database
begin

lemma runByID_txInv:
  assumes "txInv api R tx"
  shows "runByID api tx k =
    (case R k of None \<Rightarrow> Inl (ConfigError (''run not found: '' @ k)) | Some r \<Rightarrow> Inr r)"
proof -
  have "look api tx runsBucket = (\<lambda>k. map_option JSONRun (R k))" "tx runsBucket \<noteq> None"
    using assms by (auto simp: txInv_alt storeBuckets_def)
  then show ?thesis by (simp add: runByID_def txGet_look unmarshalRun_def split: option.splits)
qed

lemma deleteRun_txInv:
  assumes inv: "txInv api R tx" and r: "R k = Some r"
    and d: "deleteRunByIndexedKey api tx (runStartedAtIndexKey r) k = Inr tx'"
  shows "txInv api (R(k := None)) tx' \<and> look api tx' schedulesBucket = look api tx schedulesBucket"
proof -
  let ?R = "R(k := None)" and ?n = "int (card (completedPairs R))"
  have i: "goodRuns R" "look api tx runsBucket = (\<lambda>k. map_option JSONRun (R k))" "indexed api R tx"
    "storeBuckets \<subseteq> dom tx" "counter api tx ?n" "schedulesOk (look api tx schedulesBucket)"
    "card (dom R) < 2 ^ 48"
    using inv by (simp_all add: txInv_alt)
  note cnt = completedRunCount_txInv [OF inv]
  have "\<exists>tx1 tx2. removeRunIndexes api tx r = Inr tx1 \<and> txDelete api tx1 runsBucket k = Inr tx2 \<and>
    (if isCompletedRun r then incrementCompletedRunCount api tx2 (- 1) = Inr tx' else tx' = tx2)"
    using d r
    by (auto simp: deleteRunByIndexedKey_def removeRunIndexes_def runByID_txInv [OF inv] bindE_eq_Inr
        split: if_splits)
  then obtain tx1 tx2 where 1: "removeRunIndexes api tx r = Inr tx1"
    and 2: "txDelete api tx1 runsBucket k = Inr tx2"
    and 3: "if isCompletedRun r then incrementCompletedRunCount api tx2 (- 1) = Inr tx' else tx' = tx2"
    by blast
  note d1 = removeRunIndexes_look(1) [OF 1] and d2 = delete_sameBut [OF 2]
  have s2: "sameBut api (indexBuckets \<union> {runsBucket}) tx tx2" by (rule sameBut_trans [OF d1 d2(1)])
  have c2: "counter api tx2 ?n" using sameBut_counter [OF s2] i(5) by simp
  have upd: "int (card (completedPairs ?R)) = ?n - (if isCompletedRun r then 1 else 0)"
    by (rule card_completed_delete [OF cnt(3) r])
  have s3: "sameBut api {runStatsBucket} tx2 tx' \<and> counter api tx' (int (card (completedPairs ?R)))"
  proof (cases "isCompletedRun r")
    case True
    have b: "0 \<le> ?n" "?n < 2 ^ 63" using cnt(2) by simp_all
    have "int (card (completedPairs ?R)) = ?n + - 1" using upd True by simp
    moreover from this have "0 \<le> ?n + - 1" by (metis of_nat_0_le_iff)
    ultimately show ?thesis
      using incrementCompletedRunCount_counter [OF _ c2 b, of "- 1"] 3 True by (metis (no_types))
  next
    case False
    then show ?thesis using 3 c2 upd by simp
  qed
  note s = sameBut_trans [OF s2 conjunct1 [OF s3]]
  have "look api tx' runsBucket = (\<lambda>k. map_option JSONRun (?R k))"
    using sameBut_look [OF conjunct1 [OF s3], of runsBucket] d2(2)
      sameBut_look [OF d1, of runsBucket] i(2) by auto
  moreover have "indexed api ?R tx'"
    using removeRunIndexes_indexed [OF 1 i(3,1) r] sameBut_indexed [OF d2(1)]
      sameBut_indexed [OF conjunct1 [OF s3]] by (simp add: indexBuckets_def)
  moreover have "storeBuckets \<subseteq> dom tx'" using sameBut_dom [OF s] i(4) by simp
  moreover have "look api tx' schedulesBucket = look api tx schedulesBucket"
    using s by (rule sameBut_look) (simp add: indexBuckets_def)
  moreover have "card (dom ?R) < 2 ^ 48"
    using i(7) card_Diff1_le [of "dom R" k] by simp
  ultimately show ?thesis using i(1,6) s3 by (simp add: txInv_alt)
qed

lemma deleteVictims_txInv:
  assumes "txInv api R tx" "deleteVictims api vs tx = Inr tx'" "distinct (map snd vs)"
    and "\<And>k rid. (k, rid) \<in> set vs \<Longrightarrow> \<exists>r. R rid = Some r \<and> k = runStartedAtIndexKey r"
  shows "txInv api (R |` (- snd ` set vs)) tx' \<and>
    look api tx' schedulesBucket = look api tx schedulesBucket"
  using assms
proof (induction vs arbitrary: R tx)
  case Nil
  have "R |` UNIV = R" by (rule ext) simp
  with Nil show ?case by simp
next
  case (Cons v vs)
  obtain k rid where v: "v = (k, rid)" by (cases v)
  obtain r where r: "R rid = Some r" "k = runStartedAtIndexKey r" using Cons.prems(4) v by auto
  obtain tx1 where 1: "deleteRunByIndexedKey api tx k rid = Inr tx1" "deleteVictims api vs tx1 = Inr tx'"
    using Cons.prems(2) v by (auto simp: bindE_eq_Inr)
  have i1: "txInv api (R(rid := None)) tx1" "look api tx1 schedulesBucket = look api tx schedulesBucket"
    using deleteRun_txInv [OF Cons.prems(1) r(1)] 1(1) r(2) by auto
  have nin: "rid \<notin> snd ` set vs" using Cons.prems(3) v by auto
  have "\<exists>q. (R(rid := None)) rid' = Some q \<and> k' = runStartedAtIndexKey q"
    if m: "(k', rid') \<in> set vs" for k' rid'
  proof -
    have "rid' \<noteq> rid" using nin m by force
    then show ?thesis using Cons.prems(4) m by simp
  qed
  then have "txInv api ((R(rid := None)) |` (- snd ` set vs)) tx' \<and>
      look api tx' schedulesBucket = look api tx1 schedulesBucket"
    by (intro Cons.IH i1(1) 1(2)) (use Cons.prems(3) in \<open>simp_all only: list.map distinct.simps simp_thms\<close>)
  moreover have "R |` (- snd ` set (v # vs)) = (R(rid := None)) |` (- snd ` set vs)"
    using restrict_remove_one [of R rid "snd ` set vs"] by (simp add: v)
  ultimately show ?case using i1(2) by simp
qed

end

section \<open>Schedules\<close>

context bolt_database
begin

lemma sameSchedules_txInv:
  assumes inv: "txInv api R tx" and s: "sameBut api {schedulesBucket} tx tx'"
    and ok: "schedulesOk (look api tx' schedulesBucket)"
  shows "txInv api R tx'"
  using inv ok sameBut_look [OF s, of runsBucket] sameBut_dom [OF s]
    sameBut_indexed [OF s] sameBut_counter [OF s]
  by (simp add: txInv_alt indexBuckets_def)

lemma schedsOf_look:
  "look api tx' schedulesBucket = look api tx schedulesBucket \<Longrightarrow> schedsOf api tx' = schedsOf api tx"
  by (simp add: schedsOf_def)

lemma saveSchedule_tx:
  assumes inv: "txInv api R tx" and pk: "plainKey (sc_Name x)"
    and p: "txPut api tx schedulesBucket (sc_Name x) (JSONSchedule (jsonSchedule x)) = Inr tx'"
  shows "txInv api R tx' \<and> schedsOf api tx' = (schedsOf api tx)(sc_Name x \<mapsto> jsonSchedule x)"
proof -
  note q = put_sameBut [OF p]
  have "schedulesOk (look api tx' schedulesBucket)"
    using inv q(2) pk by (simp add: txInv_alt schedulesOk_def)
  then show ?thesis
    using sameSchedules_txInv [OF inv q(1)] q(2) by (auto simp: schedsOf_def)
qed

lemma deleteSchedule_tx:
  assumes inv: "txInv api R tx" and p: "txDelete api tx schedulesBucket n = Inr tx'"
  shows "txInv api R tx' \<and> schedsOf api tx' = (schedsOf api tx)(n := None)"
proof -
  note q = delete_sameBut [OF p]
  have "schedulesOk (look api tx' schedulesBucket)"
    using inv q(2) by (simp add: txInv_alt schedulesOk_def)
  then show ?thesis
    using sameSchedules_txInv [OF inv q(1)] q(2) by (auto simp: schedsOf_def)
qed

end

section \<open>Clearing and rebuilding\<close>

definition runsIn :: "(string \<times> blob) list \<Rightarrow> (string \<rightharpoonup> Run)" where
  "runsIn kvs = (\<lambda>k. case map_of kvs k of Some (JSONRun r) \<Rightarrow> Some r | _ \<Rightarrow> None)"

definition runEntry :: "string \<times> blob \<Rightarrow> bool" where
  "runEntry kv \<longleftrightarrow> (\<exists>r. snd kv = JSONRun r \<and> r_ID r = fst kv \<and> goodRun r)"

lemma runsIn_Cons:
  "R k = None \<Longrightarrow> k \<notin> fst ` set kvs \<Longrightarrow>
   R ++ runsIn ((k, JSONRun r) # kvs) = R(k \<mapsto> r) ++ runsIn kvs"
  by (rule ext) (auto simp: runsIn_def map_add_def split: option.splits blob.splits dest!: map_of_SomeD, force+)

lemma indexes_empty [simp]: "indexes f Map.empty Map.empty"
  by (simp add: indexes_def)

context bolt_database
begin

lemma resetBucket_look:
  assumes "resetBucket api tx n = Inr tx'"
  shows "dom tx' = insert n (dom tx)" "look api tx' n = Map.empty"
    "\<And>m. m \<noteq> n \<Longrightarrow> look api tx' m = look api tx m"
  using assms
  by (auto simp: resetBucket_def CreateBucket_def DeleteBucket_def look_new bindE_eq_Inr
      split: option.splits if_splits) (simp_all add: look_def)

lemma resetIndexes_look:
  assumes "resetBucket api tx runsByStartedAtBucket = Inr tx1"
    and "resetBucket api tx1 runningRunsByScheduleBucket = Inr tx2"
  shows "dom tx2 = dom tx \<union> indexBuckets" "indexed api Map.empty tx2"
    "\<And>m. m \<notin> indexBuckets \<Longrightarrow> look api tx2 m = look api tx m"
  using resetBucket_look [OF assms(1)] resetBucket_look [OF assms(2)]
  by (auto simp: indexBuckets_def indexed_def)

lemma clear_tx:
  assumes inv: "txInv api R tx"
    and 0: "resetBucket api tx runsBucket = Inr tx0"
    and 1: "resetBucket api tx0 runsByStartedAtBucket = Inr tx1"
    and 2: "resetBucket api tx1 runningRunsByScheduleBucket = Inr tx2"
    and 3: "setCompletedRunCount api tx2 0 = Inr tx'"
  shows "txInv api Map.empty tx' \<and> look api tx' schedulesBucket = look api tx schedulesBucket"
proof -
  note r0 = resetBucket_look [OF 0] and r = resetIndexes_look [OF 1 2]
  have c: "sameBut api {runStatsBucket} tx2 tx'" "counter api tx' 0"
    using setCompletedRunCount_counter [OF 3] by auto
  have "look api tx' runsBucket = Map.empty"
    using sameBut_look [OF c(1), of runsBucket] r(3) [of runsBucket] r0(2) by simp
  moreover have "look api tx' schedulesBucket = look api tx schedulesBucket"
    using sameBut_look [OF c(1), of schedulesBucket] r(3) [of schedulesBucket] r0(3) by simp
  moreover have "indexed api Map.empty tx'"
    using sameBut_indexed [OF c(1)] r(2) by (simp add: indexBuckets_def)
  moreover have "storeBuckets \<subseteq> dom tx'"
    using inv sameBut_dom [OF c(1)] r(1) r0(1) by (auto simp: txInv_alt)
  ultimately show ?thesis
    using inv c(2) by (simp add: txInv_alt goodRuns_def completedPairs_def)
qed

lemma reindexLoop_ok:
  assumes "reindexLoop api kvs tx n = Inr (tx', n')" "list_all runEntry kvs" "distinct (map fst kvs)"
    and "goodRuns R" "finite (dom R)" "fst ` set kvs \<inter> dom R = {}" "indexed api R tx"
    and "n = int (card (completedPairs R))"
  shows "sameBut api indexBuckets tx tx' \<and> goodRuns (R ++ runsIn kvs) \<and> indexed api (R ++ runsIn kvs) tx' \<and>
    n' = int (card (completedPairs (R ++ runsIn kvs)))"
  using assms
proof (induction kvs arbitrary: R tx n)
  case Nil
  have "R ++ runsIn [] = R" by (rule ext) (simp add: runsIn_def map_add_def)
  with Nil show ?case by simp
next
  case (Cons kv kvs)
  obtain k r where kv: "kv = (k, JSONRun r)" and r: "r_ID r = k" "goodRun r"
    using Cons.prems(2) by (cases kv) (auto simp: runEntry_def)
  let ?R = "R(k \<mapsto> r)"
  obtain tx1 where 1: "addRunIndexes api tx r = Inr tx1"
    and 2: "reindexLoop api kvs tx1 (if isCompletedRun r then n + 1 else n) = Inr (tx', n')"
    using Cons.prems(1) kv by (auto simp: bindE_eq_Inr unmarshalRun_def)
  have n: "R k = None" and nin: "k \<notin> fst ` set kvs"
    using Cons.prems(3,6) kv by auto
  have g: "goodRuns ?R" using Cons.prems(4) r by simp
  have ix: "indexed api ?R tx1"
    using addRunIndexes_indexed [OF 1 Cons.prems(7), of r] g n r(1) by simp
  define R' where "R' = ?R"
  have count: "(if isCompletedRun r then n + 1 else n) = int (card (completedPairs R'))"
    using card_completed_insert [OF Cons.prems(5) n, of r] Cons.prems(8) by (simp add: R'_def)
  have "fst ` set kvs \<inter> dom R' = {}" "finite (dom R')" "list_all runEntry kvs" "distinct (map fst kvs)"
    "goodRuns R'" "indexed api R' tx1"
    using Cons.prems(2,3,5,6) nin kv g ix by (auto simp: R'_def)
  then have "sameBut api indexBuckets tx1 tx' \<and> goodRuns (R' ++ runsIn kvs) \<and>
      indexed api (R' ++ runsIn kvs) tx' \<and> n' = int (card (completedPairs (R' ++ runsIn kvs)))"
    using Cons.IH [OF 2 _ _ _ _ _ _ count] by simp
  then show ?case
    using runsIn_Cons [of R, OF n nin, of r] sameBut_trans [OF addRunIndexes_look(1) [OF 1], of indexBuckets tx']
    by (simp add: kv R'_def)
qed

end

section \<open>Opening\<close>

text \<open>
  What \<open>OpenBoltStore\<close> can upgrade: the runs and schedules buckets, where they exist, hold what
  this package wrote, and a database that has all four auxiliary entries satisfies the invariant.
\<close>

definition needsIndexRebuild :: "('b, blob) bolt_api \<Rightarrow> 'b tx \<Rightarrow> bool" where
  "needsIndexRebuild api tx \<longleftrightarrow>
     tx runsByStartedAtBucket = None \<or> tx runningRunsByScheduleBucket = None \<or>
     tx runStatsBucket = None \<or> look api tx runStatsBucket completedRunCountKey = None"

lemma openBuckets_steps:
  "openBuckets api tx =
     bindE (CreateBucketIfNotExists api tx runsBucket) (\<lambda>tx.
     bindE (CreateBucketIfNotExists api tx schedulesBucket) (\<lambda>tx2.
     bindE (CreateBucketIfNotExists api tx2 runsByStartedAtBucket) (\<lambda>tx.
     bindE (CreateBucketIfNotExists api tx runningRunsByScheduleBucket) (\<lambda>tx.
     bindE (CreateBucketIfNotExists api tx runStatsBucket) (\<lambda>tx.
       if needsIndexRebuild api tx2 then bindE (rebuildRunIndexes api tx) (\<lambda>tx. Inr ((), tx))
       else Inr ((), tx))))))"
  by (simp add: openBuckets_def needsIndexRebuild_def Let_def)

text \<open>The invariant but for buckets that are still missing.\<close>

definition laidOut :: "('b, blob) bolt_api \<Rightarrow> (string \<rightharpoonup> Run) \<Rightarrow> 'b tx \<Rightarrow> bool" where
  "laidOut api R tx \<longleftrightarrow>
     goodRuns R \<and> card (dom R) < 2 ^ 48 \<and> look api tx runsBucket = (\<lambda>k. map_option JSONRun (R k)) \<and>
     indexed api R tx \<and> counter api tx (int (card (completedPairs R))) \<and> schedulesOk (look api tx schedulesBucket)"

lemma txInv_laidOut: "txInv api R tx \<longleftrightarrow> storeBuckets \<subseteq> dom tx \<and> laidOut api R tx"
  by (simp add: txInv_alt laidOut_def)

definition upgradable :: "('b, blob) bolt_api \<Rightarrow> 'b tx \<Rightarrow> bool" where
  "upgradable api db \<longleftrightarrow>
     (\<forall>k v. look api db runsBucket k = Some v \<longrightarrow> runEntry (k, v)) \<and>
     card (dom (look api db runsBucket)) < 2 ^ 48 \<and>
     schedulesOk (look api db schedulesBucket) \<and>
     (needsIndexRebuild api db \<or> laidOut api (runsOf api db) db)"

context bolt_database
begin

lemma createIfMissing_look:
  assumes "CreateBucketIfNotExists api tx n = Inr tx'"
  shows "dom tx' = insert n (dom tx)" "look api tx' = look api tx"
proof -
  have "dom tx' = insert n (dom tx) \<and> look api tx' = look api tx"
  proof (cases "tx n")
    case None
    then have "tx' = tx(n \<mapsto> bk_new api)" using assms by (simp add: CreateBucketIfNotExists_def)
    moreover have "look api (tx(n \<mapsto> bk_new api)) m = look api tx m" for m
      using None look_new [of tx n] by (cases "m = n") (simp_all add: look_def)
    ultimately show ?thesis by auto
  next
    case (Some b)
    then show ?thesis using assms by (auto simp: CreateBucketIfNotExists_def)
  qed
  then show "dom tx' = insert n (dom tx)" "look api tx' = look api tx" by simp_all
qed

lemma runsIn_forward:
  assumes "tx runsBucket = Some b"
  shows "runsIn (bk_forward api b) = runsOf api tx"
  using assms by (simp add: runsIn_def runsOf_def look_def get_forward [symmetric])

lemma rebuild_txInv:
  assumes r: "rebuildRunIndexes api tx = Inr tx'"
    and u: "\<And>k v. look api tx runsBucket k = Some v \<Longrightarrow> runEntry (k, v)"
    and c: "card (dom (look api tx runsBucket)) < 2 ^ 48" and s: "schedulesOk (look api tx schedulesBucket)"
    and d: "storeBuckets \<subseteq> dom tx"
  shows "txInv api (runsOf api tx) tx' \<and> look api tx' schedulesBucket = look api tx schedulesBucket"
proof -
  let ?R = "runsOf api tx"
  obtain tx1 tx2 tx3 b tx4 n where
    1: "resetBucket api tx runsByStartedAtBucket = Inr tx1"
      "resetBucket api tx1 runningRunsByScheduleBucket = Inr tx2"
    and 3: "setCompletedRunCount api tx2 0 = Inr tx3" and b: "tx3 runsBucket = Some b"
    and 4: "reindexLoop api (bk_forward api b) tx3 0 = Inr (tx4, n)"
    and 5: "setCompletedRunCount api tx4 n = Inr tx'"
    using r by (auto simp: rebuildRunIndexes_def bindE_eq_Inr txBucket_def split: option.splits)
  note ri = resetIndexes_look [OF 1]
  have c3: "sameBut api {runStatsBucket} tx2 tx3" using setCompletedRunCount_counter [OF 3] by simp
  have l3: "look api tx3 runsBucket = look api tx runsBucket"
    using sameBut_look [OF c3] ri(3) by simp
  have b3: "bk_get api b = look api tx runsBucket" using b l3 by (simp add: look_def)
  have e: "list_all runEntry (bk_forward api b)"
    using mem_forward [of _ _ b] u b3 by (auto simp: list_all_iff)
  have R: "Map.empty ++ runsIn (bk_forward api b) = ?R"
    using runsIn_forward [of tx3 b, OF b] l3 by (simp add: runsOf_def)
  have ix: "indexed api Map.empty tx3"
    using sameBut_indexed [OF c3] ri(2) by (simp add: indexBuckets_def)
  have loop: "sameBut api indexBuckets tx3 tx4 \<and> goodRuns ?R \<and> indexed api ?R tx4 \<and>
      n = int (card (completedPairs ?R))"
    using reindexLoop_ok [OF 4 e distinct_forward _ _ _ ix] R
    by (simp add: goodRuns_def completedPairs_def)
  have c5: "sameBut api {runStatsBucket} tx4 tx'" "counter api tx' n"
    using setCompletedRunCount_counter [OF 5] loop by auto
  have stored: "look api tx runsBucket = (\<lambda>k. map_option JSONRun (?R k))"
    using u by (fastforce simp: runsOf_def runEntry_def fun_eq_iff split: option.splits)
  note looks = sameBut_look [OF c5(1)] sameBut_look [OF conjunct1 [OF loop]] l3 sameBut_look [OF c3] ri(3)
  have "look api tx' runsBucket = look api tx runsBucket"
    "look api tx' schedulesBucket = look api tx schedulesBucket" by (simp_all add: looks)
  moreover have "storeBuckets \<subseteq> dom tx'"
    using d ri(1) sameBut_dom [OF c3] sameBut_dom [OF conjunct1 [OF loop]] sameBut_dom [OF c5(1)] by auto
  moreover have "indexed api ?R tx'"
    using sameBut_indexed [OF c5(1)] loop by (simp add: indexBuckets_def)
  moreover have "card (dom ?R) < 2 ^ 48" using c stored dom_stored [of ?R] by simp
  ultimately show ?thesis using loop c5(2) stored s by (simp add: txInv_alt)
qed

lemma openBuckets_txInv:
  assumes o: "openBuckets api db = Inr (u, tx')" and up: "upgradable api db"
  shows "txInv api (runsOf api db) tx' \<and> look api tx' schedulesBucket = look api db schedulesBucket"
proof -
  obtain tx1 tx2 tx3 tx4 tx5 where 1: "CreateBucketIfNotExists api db runsBucket = Inr tx1"
    "CreateBucketIfNotExists api tx1 schedulesBucket = Inr tx2"
    and 2: "CreateBucketIfNotExists api tx2 runsByStartedAtBucket = Inr tx3"
    "CreateBucketIfNotExists api tx3 runningRunsByScheduleBucket = Inr tx4"
    "CreateBucketIfNotExists api tx4 runStatsBucket = Inr tx5"
    and 3: "if needsIndexRebuild api tx2 then rebuildRunIndexes api tx5 = Inr tx' else tx' = tx5"
    using o by (auto simp: openBuckets_steps bindE_eq_Inr split: if_splits)
  note l2 = createIfMissing_look [OF 1(1)] createIfMissing_look [OF 1(2)]
  have "tx2 n = None \<longleftrightarrow> db n = None" if "n \<notin> {runsBucket, schedulesBucket}" for n
    using l2(1,3) that by (metis (no_types) domIff insert_iff)
  then have nb: "needsIndexRebuild api tx2 \<longleftrightarrow> needsIndexRebuild api db"
    using l2(2,4) by (simp add: needsIndexRebuild_def)
  note l5 = createIfMissing_look [OF 2(1)] createIfMissing_look [OF 2(2)] createIfMissing_look [OF 2(3)]
  have l: "look api tx5 = look api db" using l2 l5 by simp
  have d: "storeBuckets \<subseteq> dom tx5" using l2 l5 by (auto simp: storeBuckets_def)
  have r: "runsOf api tx5 = runsOf api db" by (simp add: runsOf_def l)
  show ?thesis
  proof (cases "needsIndexRebuild api db")
    case True
    then show ?thesis using rebuild_txInv [of tx5 tx'] 3 nb up d by (simp add: upgradable_def l r)
  next
    case False
    then have "laidOut api (runsOf api db) db" "tx' = tx5"
      using 3 nb up by (simp_all add: upgradable_def)
    then show ?thesis using d by (simp add: txInv_laidOut laidOut_def indexed_def l counter_def)
  qed
qed

end

end
