(* ===== verification/BoltPrune.thy ===== *)
theory BoltPrune
  imports BoltWrites
begin

text \<open>
  Reading the index of the bbolt store by start time: the cursor visits every run once, oldest
  first.  From this follow what the two pruning loops delete, that \<open>PruneRuns\<close> meets the
  retention specification, and what \<open>ListRuns\<close> returns.
\<close>

section \<open>The index as a list of runs\<close>

definition entries :: "(string \<times> Run) list \<Rightarrow> (string \<times> blob) list" where
  "entries P = map (\<lambda>(rid, r). (runStartedAtIndexKey r, Raw rid)) P"

definition victimsOf :: "(string \<times> Run) list \<Rightarrow> (string \<times> string) list" where
  "victimsOf P = map (\<lambda>(rid, r). (runStartedAtIndexKey r, rid)) P"

definition graphList :: "(string \<rightharpoonup> Run) \<Rightarrow> (string \<times> Run) list \<Rightarrow> bool" where
  "graphList R P \<longleftrightarrow> set P = {(k, r). R k = Some r} \<and> distinct (map fst P) \<and> oldestFirst P"

lemma entries_simps [simp]:
  "entries [] = []" "entries ((k, r) # P) = (runStartedAtIndexKey r, Raw k) # entries P"
  by (simp_all add: entries_def)

lemma victimsOf_simps [simp]:
  "victimsOf [] = []" "victimsOf ((k, r) # P) = (runStartedAtIndexKey r, k) # victimsOf P"
  "map snd (victimsOf P) = map fst P" "length (victimsOf P) = length P"
  by (auto simp: victimsOf_def)

lemma set_victimsOf: "(i, k) \<in> set (victimsOf P) \<Longrightarrow> \<exists>r. (k, r) \<in> set P \<and> i = runStartedAtIndexKey r"
  by (auto simp: victimsOf_def)

lemma snd_victimsOf: "snd ` set (victimsOf P) = fst ` set P"
  by (metis list.set_map victimsOf_simps(3))

lemma takeWhile_oldest:
  "oldestFirst P \<Longrightarrow> takeWhile (\<lambda>p. r_StartedAt (snd p) < c) P = filter (\<lambda>p. r_StartedAt (snd p) < c) P"
proof (induction P)
  case (Cons p P)
  show ?case
  proof (cases "r_StartedAt (snd p) < c")
    case True
    then show ?thesis using Cons by (simp add: oldestFirst_def)
  next
    case False
    then have "\<forall>q \<in> set P. \<not> r_StartedAt (snd q) < c"
      using Cons.prems by (auto simp: oldestFirst_def dest!: bspec)
    with False show ?thesis by (simp add: filter_empty_conv)
  qed
qed simp

lemma graphListD: "graphList R P \<Longrightarrow> (k, r) \<in> set P \<longleftrightarrow> R k = Some r"
  by (simp add: graphList_def)

lemma completed_graphList:
  assumes "graphList R P"
  shows "set (filter (\<lambda>p. isCompletedRun (snd p)) P) = completedPairs R"
    "card (completedPairs R) = length (filter (\<lambda>p. isCompletedRun (snd p)) P)"
proof -
  show s: "set (filter (\<lambda>p. isCompletedRun (snd p)) P) = completedPairs R"
    using assms by (auto simp: graphList_def completedPairs_def)
  have "distinct (filter (\<lambda>p. isCompletedRun (snd p)) P)"
    using assms by (simp add: graphList_def distinct_map)
  then show "card (completedPairs R) = length (filter (\<lambda>p. isCompletedRun (snd p)) P)"
    using s distinct_card by metis
qed

context bolt_database
begin

lemma index_list:
  assumes inv: "txInv api R tx"
  obtains ib P where "tx runsByStartedAtBucket = Some ib" "bk_forward api ib = entries P" "graphList R P"
proof -
  have g: "goodRuns R" and ix: "indexes startKey R (look api tx runsByStartedAtBucket)"
    and "runsByStartedAtBucket \<in> dom tx"
    using inv by (auto simp: txInv_def storeBuckets_def)
  then obtain ib where ib: "tx runsByStartedAtBucket = Some ib" by blast
  let ?F = "bk_forward api ib"
  have mem: "kv \<in> set ?F \<longleftrightarrow> (\<exists>rid r. R rid = Some r \<and> kv = (runStartedAtIndexKey r, Raw rid))" for kv
    using ix ib mem_forward [of "fst kv" "snd kv" ib]
    by (cases kv) (auto simp: indexes_def startKey_def look_def)
  define P where "P = map (\<lambda>kv. (rawBytes (snd kv), the (R (rawBytes (snd kv))))) ?F"
  have e: "?F = entries P"
    unfolding P_def entries_def map_map by (rule map_idI [symmetric]) (auto simp: mem)
  have s: "set P = {(k, r). R k = Some r}"
  proof (intro set_eqI iffI)
    fix p assume "p \<in> set P"
    then obtain kv where kv: "kv \<in> set ?F" "p = (rawBytes (snd kv), the (R (rawBytes (snd kv))))"
      unfolding P_def by auto
    then obtain rid r where "R rid = Some r" "kv = (runStartedAtIndexKey r, Raw rid)" using mem by blast
    with kv(2) show "p \<in> {(k, r). R k = Some r}" by simp
  next
    fix p assume "p \<in> {(k, r). R k = Some r}"
    then obtain k r where p: "p = (k, r)" "R k = Some r" by auto
    then have "(runStartedAtIndexKey r, Raw k) \<in> set ?F" using mem by blast
    then have "(k, r) \<in> set P" unfolding P_def using p(2) by (force simp: image_iff)
    with p(1) show "p \<in> set P" by simp
  qed
  have dk: "distinct (map fst (entries P))" using distinct_forward [of ib] e by simp
  have "distinct (map fst P)"
  proof -
    have "map fst (entries P) = map (\<lambda>k. runStartedAtIndexKey (the (R k))) (map fst P)"
      using s by (auto simp: entries_def)
    then show ?thesis using dk by (metis distinct_map)
  qed
  moreover have "oldestFirst P"
  proof -
    have year: "yearOk (r_StartedAt (snd p))" if "p \<in> set P" for p
      using that s goodRunsD [OF g] by (auto simp: goodRun_def)
    have "sorted_wrt (\<lambda>p q. runStartedAtIndexKey (snd p) < runStartedAtIndexKey (snd q)) P"
      using forward_sorted [of ib] unfolding e
      by (simp add: entries_def sorted_wrt_map case_prod_beta)
    then show ?thesis
      unfolding oldestFirst_def
      by (rule sorted_wrt_mono_rel [rotated]) (auto simp: runStartedAtIndexKey_less year)
  qed
  ultimately show ?thesis using that [OF ib e] s by (simp add: graphList_def)
qed

section \<open>The pruning loops\<close>

lemma olderVictims_eq:
  assumes "txInv api R tx" "\<And>k r. (k, r) \<in> set P \<Longrightarrow> R k = Some r"
  shows "olderVictims api tx c (entries P) vs =
    Inr (vs @ victimsOf (filter (\<lambda>p. isCompletedRun (snd p)) (takeWhile (\<lambda>p. r_StartedAt (snd p) < c) P)))"
  using assms(2)
proof (induction P arbitrary: vs)
  case (Cons p P)
  obtain k r where p: "p = (k, r)" by (cases p)
  have r: "R k = Some r" using Cons.prems p by simp
  have rb: "runByID api tx k = Inr r" by (simp add: runByID_txInv [OF assms(1)] r)
  have "yearOk (r_StartedAt r)"
    using assms(1) r goodRunsD [of R k r] by (simp add: txInv_def goodRun_def)
  then show ?case
    using Cons.IH Cons.prems rb by (auto simp: p startedAt_indexKey isCompletedRun_def)
qed simp

lemma overCountVictims_eq:
  assumes "txInv api R tx" "\<And>k r. (k, r) \<in> set P \<Longrightarrow> R k = Some r"
  shows "overCountVictims api tx n (entries P) vs =
    Inr (vs @ victimsOf (take (nat (n - int (length vs))) (filter (\<lambda>p. isCompletedRun (snd p)) P)))"
  using assms(2)
proof (induction P arbitrary: vs)
  case (Cons p P)
  obtain k r where p: "p = (k, r)" by (cases p)
  have r: "R k = Some r" using Cons.prems p by simp
  have rb: "runByID api tx k = Inr r" by (simp add: runByID_txInv [OF assms(1)] r)
  show ?case
  proof (cases "int (length vs) < n")
    case True
    then have "nat (n - int (length vs)) = Suc (nat (n - int (length vs) - 1))" by simp
    then show ?thesis
      using Cons.IH Cons.prems rb True by (auto simp: p isCompletedRun_def algebra_simps)
  next
    case False
    then show ?thesis by (simp add: p)
  qed
qed simp

lemma deletePairs_txInv:
  assumes inv: "txInv api R tx" and d: "deleteVictims api (victimsOf Q) tx = Inr tx'"
    and q: "set Q \<subseteq> {(k, r). R k = Some r}" "distinct (map fst Q)"
  shows "txInv api (R |` (- fst ` set Q)) tx' \<and> look api tx' schedulesBucket = look api tx schedulesBucket"
proof -
  have "\<exists>r. R rid = Some r \<and> k = runStartedAtIndexKey r" if "(k, rid) \<in> set (victimsOf Q)" for k rid
    using set_victimsOf [OF that] q(1) by auto
  from deleteVictims_txInv [OF inv d _ this] q(2) show ?thesis by (simp add: snd_victimsOf)
qed

end

section \<open>PruneRuns\<close>

lemma restrict_restrict: "(R |` (- A)) |` (- B) = R |` (- (A \<union> B))"
  by (rule ext) (simp add: restrict_map_def)

context bolt_database
begin

lemma pruneRunsOlderThan_ok:
  assumes inv: "txInv api R tx" and p: "pruneRunsOlderThan api c tx = Inr (n, tx')"
  obtains Q where "set Q = {(k, r). R k = Some r \<and> isCompletedRun r \<and> r_StartedAt r < c}"
    "distinct (map fst Q)" "n = int (length Q)" "txInv api (R |` (- fst ` set Q)) tx'"
    "look api tx' schedulesBucket = look api tx schedulesBucket"
proof -
  obtain ib P where ib: "tx runsByStartedAtBucket = Some ib" "bk_forward api ib = entries P"
    and P: "graphList R P" using index_list [OF inv] .
  define Q where "Q = filter (\<lambda>p. isCompletedRun (snd p)) (takeWhile (\<lambda>p. r_StartedAt (snd p) < c) P)"
  have Q: "Q = filter (\<lambda>p. isCompletedRun (snd p)) (filter (\<lambda>p. r_StartedAt (snd p) < c) P)"
    using P by (simp add: Q_def takeWhile_oldest graphList_def)
  have "olderVictims api tx c (entries P) [] = Inr (victimsOf Q)"
    using olderVictims_eq [OF inv, of P] P by (simp add: graphListD Q_def)
  then have d: "deleteVictims api (victimsOf Q) tx = Inr tx'" "n = int (length Q)"
    using p ib by (auto simp: pruneRunsOlderThan_def txBucket_def bindE_eq_Inr)
  have s: "set Q = {(k, r). R k = Some r \<and> isCompletedRun r \<and> r_StartedAt r < c}"
    unfolding Q using P by (auto simp: graphList_def)
  have di: "distinct (map fst Q)"
    unfolding Q using P by (simp add: graphList_def distinct_map_filter)
  show ?thesis
    using that [OF s di d(2)] deletePairs_txInv [OF inv d(1) _ di] s by auto
qed

lemma pruneRunsOverCount_ok:
  assumes inv: "txInv api R tx" and p: "pruneRunsOverCount api m tx = Inr (n, tx')" and m: "0 < m"
  obtains C where "set C = completedPairs R" "distinct (map fst C)" "oldestFirst C"
    "n = int (length C - nat m)" "txInv api (R |` (- fst ` set (take (length C - nat m) C))) tx'"
    "look api tx' schedulesBucket = look api tx schedulesBucket"
proof -
  obtain ib P where ib: "tx runsByStartedAtBucket = Some ib" "bk_forward api ib = entries P"
    and P: "graphList R P" using index_list [OF inv] .
  define C where "C = filter (\<lambda>p. isCompletedRun (snd p)) P"
  have C: "set C = completedPairs R" "distinct (map fst C)" "oldestFirst C"
    "int (card (completedPairs R)) = int (length C)"
    using P completed_graphList [OF P] by (auto simp: C_def graphList_def distinct_map_filter oldestFirst_filter)
  note cnt = completedRunCount_txInv(1) [OF inv, unfolded C(4)]
  show ?thesis
  proof (cases "int (length C) - m \<le> 0")
    case True
    then have "n = 0" "tx' = tx" using p cnt by (simp_all add: pruneRunsOverCount_def)
    moreover have "length C - nat m = 0" using True m by linarith
    moreover have "R |` UNIV = R" by (rule ext) simp
    ultimately show ?thesis using that [OF C(1-3)] inv by simp
  next
    case False
    then have len: "nat (int (length C) - m) = length C - nat m" using m by linarith
    let ?V = "take (length C - nat m) C"
    have "overCountVictims api tx (int (length C) - m) (entries P) [] = Inr (victimsOf ?V)"
      using overCountVictims_eq [OF inv, of P "int (length C) - m" "[]"] P len by (simp add: graphListD C_def)
    then have d: "deleteVictims api (victimsOf ?V) tx = Inr tx'" "n = int (length ?V)"
      using p cnt ib False by (auto simp: pruneRunsOverCount_def txBucket_def bindE_eq_Inr)
    have "set ?V \<subseteq> {(k, r). R k = Some r}"
      using set_take_subset [of "length C - nat m" C] C(1) by (auto simp: completedPairs_def)
    moreover have "distinct (map fst ?V)" using C(2) by (simp add: take_map [symmetric])
    moreover have "length ?V = length C - nat m" by simp
    ultimately show ?thesis using that [OF C(1-3)] deletePairs_txInv [OF inv d(1)] d(2) by metis
  qed
qed

lemma prune_retained:
  assumes inv: "txInv api R tx"
    and 1: "(if 0 < rr_MaxAgeDays ret
             then pruneRunsOlderThan api (addDays now (- rr_MaxAgeDays ret)) tx
             else Inr (0, tx)) = Inr (n1, tx1)"
    and 2: "(if 0 < rr_MaxRecords ret then pruneRunsOverCount api (rr_MaxRecords ret) tx1
             else Inr (0, tx1)) = Inr (n2, tx')"
  shows "\<exists>R'. txInv api R' tx' \<and> retained ret now R R' \<and> n1 + n2 = int (card (dom R - dom R')) \<and>
    look api tx' schedulesBucket = look api tx schedulesBucket"
proof -
  let ?E = "expiredIds ret now R"
  have fin: "finite (dom R)" by (rule completedRunCount_txInv(3) [OF inv])
  have E: "txInv api (R |` (- ?E)) tx1 \<and> n1 = int (card ?E) \<and>
    look api tx1 schedulesBucket = look api tx schedulesBucket"
  proof (cases "0 < rr_MaxAgeDays ret")
    case True
    then have "pruneRunsOlderThan api (addDays now (- rr_MaxAgeDays ret)) tx = Inr (n1, tx1)" using 1 by simp
    then obtain Q where Q: "set Q = {(k, r). R k = Some r \<and> isCompletedRun r \<and>
        r_StartedAt r < addDays now (- rr_MaxAgeDays ret)}" "distinct (map fst Q)"
      "n1 = int (length Q)" "txInv api (R |` (- fst ` set Q)) tx1"
      "look api tx1 schedulesBucket = look api tx schedulesBucket"
      by (rule pruneRunsOlderThan_ok [OF inv])
    have e: "fst ` set Q = ?E" using True unfolding Q(1) by (force simp: expiredIds_def tooOld_def)
    then have "card ?E = length Q" using Q(2) by (metis distinct_card length_map list.set_map)
    with Q e show ?thesis by simp
  next
    case False
    moreover from this have "?E = {}" by (simp add: expiredIds_def tooOld_def)
    moreover have "R |` UNIV = R" by (rule ext) simp
    ultimately show ?thesis using 1 inv by simp
  qed
  have fresh: "completedPairs (R |` (- ?E)) = freshPairs ret now R"
    by (auto simp: completedPairs_def freshPairs_def expiredIds_def restrict_map_def split: if_splits)
  have "\<exists>C. set C = freshPairs ret now R \<and> distinct (map fst C) \<and> oldestFirst C \<and>
    n2 = int (excess ret (length C)) \<and>
    txInv api ((R |` (- ?E)) |` (- fst ` set (take (excess ret (length C)) C))) tx' \<and>
    look api tx' schedulesBucket = look api tx1 schedulesBucket"
  proof (cases "0 < rr_MaxRecords ret")
    case True
    then have "pruneRunsOverCount api (rr_MaxRecords ret) tx1 = Inr (n2, tx')" using 2 by simp
    from pruneRunsOverCount_ok [OF conjunct1 [OF E] this True] show ?thesis
      using True by (metis excess_def fresh)
  next
    case False
    obtain P where P: "graphList (R |` (- ?E)) P" using index_list [OF conjunct1 [OF E]] by metis
    have "set (filter (\<lambda>p. isCompletedRun (snd p)) P) = freshPairs ret now R"
      using completed_graphList(1) [OF P] fresh by simp
    moreover have "distinct (map fst (filter (\<lambda>p. isCompletedRun (snd p)) P))"
      "oldestFirst (filter (\<lambda>p. isCompletedRun (snd p)) P)"
      using P by (simp_all add: graphList_def distinct_map_filter oldestFirst_filter)
    moreover have "(R |` (- ?E)) |` UNIV = R |` (- ?E)" by (rule ext) simp
    ultimately show ?thesis using False 2 E
      by (intro exI [of _ "filter (\<lambda>p. isCompletedRun (snd p)) P"]) (simp add: excess_def)
  qed
  then obtain C where C: "set C = freshPairs ret now R" "distinct (map fst C)" "oldestFirst C"
    "n2 = int (excess ret (length C))"
    and i: "txInv api (R |` (- (?E \<union> fst ` set (take (excess ret (length C)) C)))) tx'"
    and l: "look api tx' schedulesBucket = look api tx1 schedulesBucket"
    by (auto simp: restrict_restrict)
  let ?T = "fst ` set (take (excess ret (length C)) C)"
  have ret: "retained ret now R (R |` (- (?E \<union> ?T)))"
    by (rule retained_by_order [OF C(1-3) refl])
  have "card ?T = excess ret (length C)"
  proof -
    have "card ?T = length (take (excess ret (length C)) C)"
      using C(2) by (metis distinct_card distinct_take length_map list.set_map take_map)
    then show ?thesis by (simp add: excess_def)
  qed
  moreover have T: "?T \<subseteq> fst ` freshPairs ret now R" 
    unfolding C(1) [symmetric] by (intro image_mono set_take_subset)
  moreover have "?E \<inter> ?T = {}"
  proof -
    have "fst ` freshPairs ret now R \<inter> ?E = {}" by (auto simp: freshPairs_def expiredIds_def)
    with T show ?thesis by blast
  qed
  moreover have sub: "?E \<union> ?T \<subseteq> dom R" using T by (auto simp: expiredIds_def freshPairs_def)
  moreover have "dom R - dom (R |` (- (?E \<union> ?T))) = ?E \<union> ?T" using sub by auto
  moreover have "finite ?E" "finite ?T" using sub fin by (auto intro: finite_subset)
  ultimately have "int (card (dom R - dom (R |` (- (?E \<union> ?T))))) = n1 + n2"
    using E C(4) card_Un_disjoint [of ?E ?T] by auto
  with i ret l E show ?thesis by metis
qed

end

section \<open>ListRuns and HasRunningRun\<close>

lemma rev_entries: "rev (entries P) = entries (rev P)"
  by (simp add: entries_def rev_map)

lemma listLoop_eq:
  assumes "\<And>k r. (k, r) \<in> set P \<Longrightarrow> bk_get api rb k = Some (JSONRun r)"
    and "limit \<le> 0 \<or> int (length out) < limit"
  shows "listLoop api rb (entries P) limit out =
    Inr (out @ map snd (if limit \<le> 0 then P else take (nat limit - length out) P))"
  using assms
proof (induction P arbitrary: out)
  case (Cons p P)
  obtain k r where p: "p = (k, r)" by (cases p)
  have g: "bk_get api rb k = Some (JSONRun r)" using Cons.prems p by simp
  show ?case
  proof (cases "0 < limit \<and> limit \<le> int (length (out @ [r]))")
    case True
    then have "nat limit - length out = 1" using Cons.prems(2) by auto
    with True g show ?thesis by (simp add: p unmarshalRun_def)
  next
    case False
    then have c: "limit \<le> 0 \<or> int (length (out @ [r])) < limit" by linarith
    have "listLoop api rb (entries P) limit (out @ [r]) =
        Inr ((out @ [r]) @ map snd (if limit \<le> 0 then P else take (nat limit - length (out @ [r])) P))"
      using Cons.IH [OF _ c] Cons.prems(1) by simp
    moreover have "nat limit - length out = Suc (nat limit - length (out @ [r]))" if "0 < limit"
      using c that by simp
    ultimately show ?thesis using False g by (simp add: p unmarshalRun_def)
  qed
qed simp

text \<open>Listing a graph newest first, cut to the limit, is what the contract asks for.\<close>

lemma listsRuns_graph:
  assumes P: "graphList R P" and g: "goodRuns R"
  shows "listsRuns R limit (map snd (if limit \<le> 0 then rev P else take (nat limit) (rev P)))"
proof -
  let ?n = "if limit \<le> 0 then length P else nat limit"
  have eq: "(if limit \<le> 0 then rev P else take (nat limit) (rev P)) = take ?n (rev P)" by simp
  have key: "r_ID (snd p) = fst p \<and> R (fst p) = Some (snd p)" if "p \<in> set P" for p
    using graphListD [OF P, of "fst p" "snd p"] goodRunsD [OF g, of "fst p" "snd p"] that by simp
  have sub: "set (take ?n (rev P)) \<subseteq> set P" using set_take_subset [of ?n "rev P"] by simp
  have ids: "map r_ID (map snd (take ?n (rev P))) = map fst (take ?n (rev P))"
    using key sub by auto
  have d: "distinct (map fst (take ?n (rev P)))"
    using P by (simp add: graphList_def take_map [symmetric] rev_map [symmetric])
  have so: "sorted_wrt (\<lambda>a b. r_StartedAt b \<le> r_StartedAt a) (map snd (rev P))"
    using P by (simp add: graphList_def oldestFirst_def sorted_wrt_map sorted_wrt_rev)
  have card: "card (dom R) = length P"
  proof -
    have "dom R = fst ` set P" using P by (force simp: graphList_def dom_def)
    then show ?thesis using P by (metis distinct_card graphList_def length_map list.set_map)
  qed
  have later: "r_StartedAt r \<le> r_StartedAt q"
    if "R k = Some r" "r \<notin> set (map snd (take ?n (rev P)))" "q \<in> set (map snd (take ?n (rev P)))" for k r q
  proof -
    have "(k, r) \<in> set (rev P)" using P that(1) by (simp add: graphList_def)
    then have "(k, r) \<in> set (drop ?n (rev P))"
      using that(2) in_take_or_drop [of "(k, r)" "rev P" ?n] by force
    moreover have "\<exists>p \<in> set (take ?n (rev P)). q = snd p" using that(3) by auto
    ultimately show ?thesis
      using sorted_wrt_take_drop [OF so [unfolded sorted_wrt_map], of _ ?n "(k, r)"] by auto
  qed
  have so': "sorted_wrt (\<lambda>a b. r_StartedAt b \<le> r_StartedAt a) (map snd (take ?n (rev P)))"
    using so by (metis append_take_drop_id sorted_wrt_append take_map)
  show ?thesis
    unfolding listsRuns_def eq ids
  proof (intro conjI)
    show "\<forall>r\<in>set (map snd (take ?n (rev P))). R (r_ID r) = Some r" using key sub by auto
    show "length (map snd (take ?n (rev P))) =
        (if limit \<le> 0 then card (dom R) else min (nat limit) (card (dom R)))"
      using card by (simp add: min.commute)
    show "\<forall>k r. R k = Some r \<and> r \<notin> set (map snd (take ?n (rev P))) \<longrightarrow>
        (\<forall>q\<in>set (map snd (take ?n (rev P))). r_StartedAt r \<le> r_StartedAt q)"
      using later by blast
  qed (rule d so')+
qed

context bolt_database
begin

lemma ListRuns_inv:
  assumes "boltInv api db"
  shows "\<exists>out. bs_ListRuns api limit db = Inr out \<and> listsRuns (runsOf api db) limit out"
proof -
  have inv: "txInv api (runsOf api db) db" using assms by (simp add: boltInv_def)
  obtain ib P where ib: "db runsByStartedAtBucket = Some ib" "bk_forward api ib = entries P"
    and P: "graphList (runsOf api db) P" using index_list [OF inv] .
  have i: "look api db runsBucket = (\<lambda>k. map_option JSONRun (runsOf api db k))" "goodRuns (runsOf api db)"
    "runsBucket \<in> dom db"
    using inv by (auto simp: txInv_def storeBuckets_def)
  then obtain rb where rb: "db runsBucket = Some rb" by blast
  have g: "bk_get api rb k = Some (JSONRun r)" if "(k, r) \<in> set (rev P)" for k r
    using fun_cong [OF i(1), of k] rb that P by (simp add: look_def graphList_def)
  have "listLoop api rb (entries (rev P)) limit [] =
      Inr (map snd (if limit \<le> 0 then rev P else take (nat limit) (rev P)))"
    using listLoop_eq [of "rev P" api rb limit "[]"] g by simp
  then have "bs_ListRuns api limit db = Inr (map snd (if limit \<le> 0 then rev P else take (nat limit) (rev P)))"
    using ib rb by (simp add: bs_ListRuns_def dbView_def txBucket_def backward_rev rev_entries)
  then show ?thesis using listsRuns_graph [OF P i(2)] by blast
qed

lemma HasRunningRun_inv:
  assumes "boltInv api db" and n: "plainKey n"
  shows "bs_HasRunningRun api n db = Inr (hasRunning (runsOf api db) n)"
proof -
  let ?R = "runsOf api db" and ?p = "runningRunSchedulePrefix n"
  have inv: "txInv api ?R db" using assms by (simp add: boltInv_def)
  have ix: "indexes runKey ?R (look api db runningRunsByScheduleBucket)" and g: "goodRuns ?R"
    and "runningRunsByScheduleBucket \<in> dom db"
    using inv by (auto simp: txInv_def storeBuckets_def)
  then obtain qb where qb: "db runningRunsByScheduleBucket = Some qb" by blast
  have "(\<exists>s v. bk_get api qb (?p @ s) = Some v) \<longleftrightarrow> (\<exists>s k r. ?R k = Some r \<and> runKey r = Some (?p @ s))"
    using ix qb by (auto simp: indexes_def look_def)
  also have "\<dots> \<longleftrightarrow> hasRunning ?R n"
  proof -
    have "(\<exists>s. runKey r = Some (?p @ s)) \<longleftrightarrow> r_ScheduleName r = n \<and> r_Status r = RunRunning"
      if "?R k = Some r" for k r
    proof -
      have "NUL \<notin> set (r_ScheduleName r)" "NUL \<notin> set n"
        using goodRunsD [OF g that] n by (simp_all add: goodRun_def storableRun_def plainKey_no_NUL)
      then show ?thesis
        by (auto simp: runKey_def runningRunScheduleKey_def runningRunSchedulePrefix_def split_at_NUL)
    qed
    then show ?thesis unfolding hasRunning_def by blast
  qed
  finally have "(\<exists>kv. bk_seek api qb ?p = Some kv \<and> (\<exists>s. fst kv = ?p @ s)) \<longleftrightarrow> hasRunning ?R n"
    using seek_prefix [of qb ?p] by simp
  then show ?thesis
    by (auto simp: bs_HasRunningRun_def dbView_def txBucket_def qb HasPrefix_iff Let_def
        split: option.splits)
qed

end

section \<open>Schedules and the contract\<close>

lemma decodeSchedules_eq:
  "list_all (\<lambda>kv. snd kv = JSONSchedule (f kv)) kvs \<Longrightarrow> decodeSchedules kvs = Inr (map f kvs)"
proof (induction kvs)
  case (Cons kv kvs)
  obtain k v where kv: "kv = (k, v)" by (cases kv)
  have v: "v = JSONSchedule (f (k, v))" using Cons.prems kv by simp
  have "unmarshalSchedule v = Inr (f (k, v))" by (subst v) (simp add: unmarshalSchedule_def)
  with Cons show ?case by (simp add: kv)
qed simp

context bolt_database
begin

lemma ListSchedules_inv:
  assumes "boltInv api db"
  shows "\<exists>out. bs_ListSchedules api db = Inr out \<and> listsSchedules (schedsOf api db) out"
proof -
  have ok: "schedulesOk (look api db schedulesBucket)" and "schedulesBucket \<in> dom db"
    using assms by (auto simp: boltInv_def txInv_def storeBuckets_def)
  then obtain b where b: "db schedulesBucket = Some b" by blast
  have "\<exists>s. snd kv = JSONSchedule s \<and> sc_Name s = fst kv" if "kv \<in> set (bk_forward api b)" for kv
  proof -
    have "look api db schedulesBucket (fst kv) = Some (snd kv)"
      using that b mem_forward [of "fst kv" "snd kv" b] by (simp add: look_def)
    then show ?thesis using ok by (simp add: schedulesOk_def)
  qed
  then obtain f where e: "snd kv = JSONSchedule (f kv) \<and> sc_Name (f kv) = fst kv"
    if "kv \<in> set (bk_forward api b)" for kv by metis
  let ?F = "bk_forward api b"
  have "decodeSchedules ?F = Inr (map f ?F)"
    by (rule decodeSchedules_eq) (simp add: list_all_iff e)
  moreover have names: "map sc_Name (map f ?F) = map fst ?F" using e by simp
  moreover have "sort_key sc_Name (map f ?F) = map f ?F"
    by (rule sort_key_id_if_sorted) (simp only: names forward_sorted strict_sorted_imp_sorted)
  ultimately have "bs_ListSchedules api db = Inr (map f ?F)"
    using b by (simp add: bs_ListSchedules_def dbView_def txBucket_def)
  moreover have "set (map f ?F) = ran (schedsOf api db)"
  proof -
    have "schedsOf api db k = Some s \<longleftrightarrow> (k, JSONSchedule s) \<in> set ?F" for k s
      using b mem_forward [of k _ b]
      by (auto simp: schedsOf_def look_def split: option.splits blob.splits)
    then show ?thesis using e by (force simp: ran_def image_iff)
  qed
  ultimately show ?thesis
    using forward_sorted [of b] names by (simp only: listsSchedules_def) metis
qed

lemma keyed_inv:
  assumes "boltInv api db"
  shows "keyedRuns (runsOf api db) \<and> keyedSchedules (schedsOf api db)"
proof -
  have inv: "txInv api (runsOf api db) db" using assms by (simp add: boltInv_def)
  then have g: "goodRuns (runsOf api db)" and ok: "schedulesOk (look api db schedulesBucket)"
    by (simp_all add: txInv_def)
  have "dom (schedsOf api db) \<subseteq> dom (look api db schedulesBucket)"
    by (auto simp: schedsOf_def split: option.splits)
  then have "finite (dom (schedsOf api db))" using finite_dom_look finite_subset by blast
  moreover have "sc_Name s = k" if "schedsOf api db k = Some s" for k s
    using that ok by (force simp: schedsOf_def schedulesOk_def split: option.splits blob.splits)
  ultimately show ?thesis
    using completedRunCount_txInv(3) [OF inv] goodRunsD [OF g]
    by (auto simp: keyedRuns_def keyedSchedules_def)
qed

lemma txInv_result:
  "txInv api R tx \<Longrightarrow> look api tx schedulesBucket = look api db schedulesBucket \<Longrightarrow>
   boltInv api tx \<and> runsOf api tx = R \<and> schedsOf api tx = schedsOf api db"
  using txInv_boltInv schedsOf_look by blast

lemma PruneRuns_inv:
  assumes "boltInv api db" "bs_PruneRuns api ret now db = (Inr res, db')"
  shows "boltInv api db' \<and> schedsOf api db' = schedsOf api db \<and>
    retained ret now (runsOf api db) (runsOf api db') \<and> res = retentionResult (runsOf api db) (runsOf api db')"
proof -
  have inv: "txInv api (runsOf api db) db" using assms(1) by (simp add: boltInv_def)
  define A where "A = (if 0 < rr_MaxAgeDays ret
    then pruneRunsOlderThan api (addDays now (- rr_MaxAgeDays ret)) db else Inr (0, db))"
  define B where "B = (\<lambda>tx1. if 0 < rr_MaxRecords ret
    then pruneRunsOverCount api (rr_MaxRecords ret) tx1 else Inr (0, tx1))"
  have "bindE A (\<lambda>(n1, tx). bindE (B tx) (\<lambda>(n2, tx). bindE (completedRunCount api tx) (\<lambda>count.
      Inr (\<lparr>rt_Deleted = n1 + n2, rt_Kept = count\<rparr>, tx)))) = Inr (res, db')"
    using dbUpdate_ok [OF assms(2) [unfolded bs_PruneRuns_def]] by (simp add: A_def B_def)
  then obtain n1 tx1 n2 count where 1: "A = Inr (n1, tx1)" and 2: "B tx1 = Inr (n2, db')"
    and 3: "completedRunCount api db' = Inr count" "res = \<lparr>rt_Deleted = n1 + n2, rt_Kept = count\<rparr>"
    by (auto simp: bindE_eq_Inr)
  obtain R' where R': "txInv api R' db'" "retained ret now (runsOf api db) R'"
    "n1 + n2 = int (card (dom (runsOf api db) - dom R'))" "look api db' schedulesBucket = look api db schedulesBucket"
    using prune_retained [OF inv 1 [unfolded A_def] 2 [unfolded B_def]] by blast
  show ?thesis
    using txInv_result [OF R'(1,4)] R'(2,3) completedRunCount_txInv(1) [OF R'(1)] 3
    by (simp add: retentionResult_def)
qed

end

end
