(* ===== verification/BoltContract.thy ===== *)
theory BoltContract
  imports BoltPrune
begin

text \<open>
  The bbolt store provides the store contract: for every database with the documented behaviour of
  bbolt, with the index invariant as the invariant and the runs and schedules read through
  \<open>look\<close> as the abstract state.
\<close>

section \<open>The operations on a database that satisfies the invariant\<close>

context bolt_database
begin

lemma SaveRun_inv:
  assumes "boltInv api db" "storableRun r" "plainStatus r" "bs_SaveRun api r db = (Inr u, db')"
  shows "boltInv api db' \<and> runsOf api db' = (runsOf api db)(r_ID r \<mapsto> jsonRun r) \<and>
    schedsOf api db' = schedsOf api db"
proof -
  have inv: "txInv api (runsOf api db) db" using assms(1) by (simp add: boltInv_def)
  have w: "writeRun api r db = Inr (u, db')"
    using dbUpdate_ok [OF assms(4) [unfolded bs_SaveRun_def]] by simp
  have t: "txInv api ((runsOf api db)(r_ID r \<mapsto> jsonRun r)) db'"
    "look api db' schedulesBucket = look api db schedulesBucket"
    using writeRun_txInv [OF inv assms(2,3) w] by blast+
  from txInv_result [OF this] show ?thesis by blast
qed

lemma ClearRuns_inv:
  assumes "boltInv api db" "bs_ClearRuns api db = (Inr u, db')"
  shows "boltInv api db' \<and> runsOf api db' = Map.empty \<and> schedsOf api db' = schedsOf api db"
proof -
  have inv: "txInv api (runsOf api db) db" using assms(1) by (simp add: boltInv_def)
  obtain tx0 tx1 tx2 where "resetBucket api db runsBucket = Inr tx0"
    "resetBucket api tx0 runsByStartedAtBucket = Inr tx1"
    "resetBucket api tx1 runningRunsByScheduleBucket = Inr tx2"
    "setCompletedRunCount api tx2 0 = Inr db'"
    using dbUpdate_ok [OF assms(2) [unfolded bs_ClearRuns_def]] by (auto simp: bindE_eq_Inr)
  from clear_tx [OF inv this] show ?thesis using txInv_result by blast
qed

lemma NormalizeSchedule_plainName:
  "plainKey (sc_Name x) \<Longrightarrow> sc_Name (jsonSchedule (NormalizeSchedule x)) = sc_Name x"
  by (simp add: NormalizeSchedule_fields)

lemma SaveSchedule_inv:
  assumes "boltInv api db" "plainKey (sc_Name x)" "bs_SaveSchedule api x db = (Inr u, db')"
  shows "boltInv api db' \<and> runsOf api db' = runsOf api db \<and>
    schedsOf api db' = (schedsOf api db)(sc_Name x \<mapsto> jsonSchedule (NormalizeSchedule x))"
proof -
  have inv: "txInv api (runsOf api db) db" using assms(1) by (simp add: boltInv_def)
  have n: "sc_Name (NormalizeSchedule x) = sc_Name x" by (simp add: NormalizeSchedule_fields)
  have p: "txPut api db schedulesBucket (sc_Name (NormalizeSchedule x))
      (JSONSchedule (jsonSchedule (NormalizeSchedule x))) = Inr db'"
    using dbUpdate_ok [OF assms(3) [unfolded bs_SaveSchedule_def Let_def]]
    by (auto simp: bindE_eq_Inr marshalSchedule_def split: if_splits)
  have "plainKey (sc_Name (NormalizeSchedule x))" using assms(2) n by simp
  from saveSchedule_tx [OF inv this p] n show ?thesis using txInv_boltInv by metis
qed

lemma DeleteSchedule_inv:
  assumes "boltInv api db" "bs_DeleteSchedule api n db = (Inr u, db')"
  shows "boltInv api db' \<and> runsOf api db' = runsOf api db \<and> schedsOf api db' = (schedsOf api db)(n := None)"
proof -
  have inv: "txInv api (runsOf api db) db" using assms(1) by (simp add: boltInv_def)
  have p: "txDelete api db schedulesBucket n = Inr db'"
    using dbUpdate_ok [OF assms(2) [unfolded bs_DeleteSchedule_def]] by (auto simp: bindE_eq_Inr)
  from deleteSchedule_tx [OF inv p] show ?thesis using txInv_boltInv by metis
qed

lemma OpenBoltStore_inv:
  assumes "OpenBoltStore api (Inr db) = Inr db'" "upgradable api db"
  shows "boltInv api db' \<and> runsOf api db' = runsOf api db \<and> schedsOf api db' = schedsOf api db"
proof -
  have "openBuckets api db = Inr ((), db')"
    using assms(1) dbUpdate_ok [of api "openBuckets api" db]
    by (auto simp: OpenBoltStore_def split: prod.splits sum.splits)
  from openBuckets_txInv [OF this assms(2)] show ?thesis using txInv_result by blast
qed

lemma failed_updates:
  "bs_SaveSchedule api x db = (Inl e, db') \<Longrightarrow> db' = db"
  "bs_DeleteSchedule api n db = (Inl e, db') \<Longrightarrow> db' = db"
  "bs_SaveRun api r db = (Inl e, db') \<Longrightarrow> db' = db"
  "bs_ClearRuns api db = (Inl e, db') \<Longrightarrow> db' = db"
  "bs_PruneRuns api ret now db = (Inl e, db') \<Longrightarrow> db' = db"
  by (auto simp: bs_SaveSchedule_def bs_DeleteSchedule_def bs_SaveRun_def bs_ClearRuns_def bs_PruneRuns_def
      Let_def dest: dbUpdate_err)

end

section \<open>The contract\<close>

sublocale bolt_database \<subseteq> bolt: store_contract "boltStore api (Inr ())" "boltInv api" "runsOf api"
  "schedsOf api" jsonRun "\<lambda>s. jsonSchedule (NormalizeSchedule s)"
proof unfold_locales
  fix db db' x u n r e limit ret now res
  show "boltInv api db \<Longrightarrow> keyedRuns (runsOf api db) \<and> keyedSchedules (schedsOf api db)"
    by (rule keyed_inv)
  show "storableRun r \<Longrightarrow> plainStatus r \<Longrightarrow> sameRun r (jsonRun r)" by (rule jsonRun_same)
  show "boltInv api db \<Longrightarrow> plainKey (sc_Name x) \<Longrightarrow>
      so_SaveSchedule (boltStore api (Inr ())) x db = (Inr u, db') \<Longrightarrow>
      boltInv api db' \<and> runsOf api db' = runsOf api db \<and>
      schedsOf api db' = (schedsOf api db)(sc_Name x \<mapsto> jsonSchedule (NormalizeSchedule x))"
    using SaveSchedule_inv by (simp add: boltStore_def)
  show "boltInv api db \<Longrightarrow> so_DeleteSchedule (boltStore api (Inr ())) n db = (Inr u, db') \<Longrightarrow>
      boltInv api db' \<and> runsOf api db' = runsOf api db \<and> schedsOf api db' = (schedsOf api db)(n := None)"
    using DeleteSchedule_inv by (simp add: boltStore_def)
  show "boltInv api db \<Longrightarrow> \<exists>out. so_ListSchedules (boltStore api (Inr ())) db = Inr out \<and>
      listsSchedules (schedsOf api db) out"
    using ListSchedules_inv by (simp add: boltStore_def)
  show "boltInv api db \<Longrightarrow> storableRun r \<Longrightarrow> plainStatus r \<Longrightarrow>
      so_SaveRun (boltStore api (Inr ())) r db = (Inr u, db') \<Longrightarrow>
      boltInv api db' \<and> runsOf api db' = (runsOf api db)(r_ID r \<mapsto> jsonRun r) \<and>
      schedsOf api db' = schedsOf api db"
    using SaveRun_inv by (simp add: boltStore_def)
  show "so_UpdateRun (boltStore api (Inr ())) r db = so_SaveRun (boltStore api (Inr ())) r db"
    by (simp add: boltStore_def bs_UpdateRun_def bs_SaveRun_def)
  show "boltInv api db \<Longrightarrow> \<exists>out. so_ListRuns (boltStore api (Inr ())) limit db = Inr out \<and>
      listsRuns (runsOf api db) limit out"
    using ListRuns_inv by (simp add: boltStore_def)
  show "boltInv api db \<Longrightarrow> so_ClearRuns (boltStore api (Inr ())) db = (Inr u, db') \<Longrightarrow>
      boltInv api db' \<and> runsOf api db' = Map.empty \<and> schedsOf api db' = schedsOf api db"
    using ClearRuns_inv by (simp add: boltStore_def)
  show "boltInv api db \<Longrightarrow> so_PruneRuns (boltStore api (Inr ())) ret now db = (Inr res, db') \<Longrightarrow>
      boltInv api db' \<and> schedsOf api db' = schedsOf api db \<and>
      retained ret now (runsOf api db) (runsOf api db') \<and> res = retentionResult (runsOf api db) (runsOf api db')"
    using PruneRuns_inv by (simp add: boltStore_def)
  show "boltInv api db \<Longrightarrow> plainKey n \<Longrightarrow>
      so_HasRunningRun (boltStore api (Inr ())) n db = Inr (hasRunning (runsOf api db) n)"
    using HasRunningRun_inv by (simp add: boltStore_def)
qed (auto simp: boltStore_def dest: failed_updates)

interpretation db: bolt_database "refBolt :: ((string, blob) rbt, blob) bolt_api"
  by unfold_locales

end
