(* ===== verification/StoreProperties.thy ===== *)
theory StoreProperties
  imports MemoryStore BoltContract
begin

text \<open>
  The properties of the two stores, over the operations of internal/store/store.go, and the
  databases at which they are applied.
\<close>

section \<open>Sample runs and databases\<close>

definition sampleRun :: "string \<Rightarrow> go_time \<Rightarrow> RunStatus \<Rightarrow> Run" where
  "sampleRun k t status = zeroRun\<lparr>r_ID := k, r_ScheduleName := ''nightly'', r_StartedAt := t, r_Status := status\<rparr>"

definition emptyDB :: "(string, blob) rbt tx" where
  "emptyDB = Map.empty"

definition openedDB :: "(string, blob) rbt tx" where
  "openedDB = (case OpenBoltStore refBolt (Inr emptyDB) of Inr db \<Rightarrow> db | Inl _ \<Rightarrow> emptyDB)"

definition savedDB :: "(string, blob) rbt tx" where
  "savedDB = snd (bs_SaveRun refBolt (sampleRun ''run-2'' 7 RunRunning)
     (snd (bs_SaveRun refBolt (sampleRun ''run-1'' 5 RunSucceeded) openedDB)))"

text \<open>A database of the first release: the run is stored, the indexes do not exist.\<close>

definition legacyDB :: "(string, blob) rbt tx" where
  "legacyDB = [runsBucket \<mapsto> RBT.insert ''run-1'' (JSONRun (sampleRun ''run-1'' 5 RunSucceeded)) RBT.empty]"

definition sampleRetention :: RunRetentionConfig where
  "sampleRetention = \<lparr>rr_MaxRecords = 10, rr_MaxAgeDays = 1\<rparr>"

definition sampleMemory :: MemoryStore where
  "sampleMemory = \<lparr>ms_runs = [''run-1'' \<mapsto> sampleRun ''run-1'' 5 RunSucceeded,
      ''run-2'' \<mapsto> sampleRun ''run-2'' 7 RunRunning], ms_schedules = Map.empty\<rparr>"

lemma upgradable_empty: "upgradable refBolt emptyDB"
  by (simp add: upgradable_def needsIndexRebuild_def emptyDB_def look_def schedulesOk_def)

lemma openedDB_inv: "boltInv refBolt openedDB" "runsOf refBolt openedDB = Map.empty"
proof -
  have "isOk (OpenBoltStore refBolt (Inr emptyDB))" by code_simp
  then have o: "OpenBoltStore refBolt (Inr emptyDB) = Inr openedDB"
    by (auto simp: openedDB_def isOk_iff)
  have "runsOf refBolt emptyDB = Map.empty" by (simp add: runsOf_def look_def emptyDB_def)
  then show "boltInv refBolt openedDB" "runsOf refBolt openedDB = Map.empty"
    using db.OpenBoltStore_inv [OF o upgradable_empty] by simp_all
qed

lemma sampleRun_ok:
  "storableRun (sampleRun ''run-1'' 5 RunSucceeded)" "plainStatus (sampleRun ''run-1'' 5 RunSucceeded)"
  "storableRun (sampleRun ''run-2'' 7 RunRunning)" "plainStatus (sampleRun ''run-2'' 7 RunRunning)"
proof -
  have "plainKey ''run-1'' \<and> plainKey ''run-2'' \<and> plainKey ''nightly''" by code_simp
  then show "storableRun (sampleRun ''run-1'' 5 RunSucceeded)" "plainStatus (sampleRun ''run-1'' 5 RunSucceeded)"
    "storableRun (sampleRun ''run-2'' 7 RunRunning)" "plainStatus (sampleRun ''run-2'' 7 RunRunning)"
    by (simp_all add: storableRun_def plainStatus_def sampleRun_def)
qed

lemma sampleRun_json:
  "jsonRun (sampleRun ''run-1'' 5 RunSucceeded) = sampleRun ''run-1'' 5 RunSucceeded"
  "jsonRun (sampleRun ''run-2'' 7 RunRunning) = sampleRun ''run-2'' 7 RunRunning"
  by code_simp+

lemma savedDB_inv: "boltInv refBolt savedDB" "runsOf refBolt savedDB = ms_runs sampleMemory"
proof -
  define db1 where "db1 = snd (bs_SaveRun refBolt (sampleRun ''run-1'' 5 RunSucceeded) openedDB)"
  have "fst (bs_SaveRun refBolt (sampleRun ''run-1'' 5 RunSucceeded) openedDB) = Inr ()" by code_simp
  then have 1: "bs_SaveRun refBolt (sampleRun ''run-1'' 5 RunSucceeded) openedDB = (Inr (), db1)"
    by (simp add: db1_def prod_eq_iff)
  note i1 = db.SaveRun_inv [OF openedDB_inv(1) sampleRun_ok(1,2) 1]
  have "fst (bs_SaveRun refBolt (sampleRun ''run-2'' 7 RunRunning)
      (snd (bs_SaveRun refBolt (sampleRun ''run-1'' 5 RunSucceeded) openedDB))) = Inr ()" by code_simp
  then have 2: "bs_SaveRun refBolt (sampleRun ''run-2'' 7 RunRunning) db1 = (Inr (), savedDB)"
    by (simp add: db1_def savedDB_def prod_eq_iff)
  note i2 = db.SaveRun_inv [OF conjunct1 [OF i1] sampleRun_ok(3,4) 2]
  show "boltInv refBolt savedDB" using i2 by blast
  have id: "r_ID (sampleRun k t s) = k" for k t s by (simp add: sampleRun_def)
  show "runsOf refBolt savedDB = ms_runs sampleMemory"
    using i1 i2 by (simp add: openedDB_inv(2) sampleRun_json id sampleMemory_def)
qed

lemma sampleMemory_inv:
  "ms_inv sampleMemory" "iterates (ms_runs sampleMemory) [''run-1'', ''run-2'']"
  by (auto simp: ms_inv_def sampleMemory_def keyedRuns_def keyedSchedules_def iterates_def sampleRun_def)

lemma sampleMemory_running: "hasRunning (ms_runs sampleMemory) n \<longleftrightarrow> n = ''nightly''"
proof
  assume "hasRunning (ms_runs sampleMemory) n"
  then show "n = ''nightly''" by (auto simp: hasRunning_def sampleMemory_def sampleRun_def split: if_splits)
next
  assume "n = ''nightly''"
  moreover have "ms_runs sampleMemory ''run-2'' = Some (sampleRun ''run-2'' 7 RunRunning)"
    by (simp add: sampleMemory_def)
  moreover have "r_ScheduleName (sampleRun ''run-2'' 7 RunRunning) = ''nightly''"
    "r_Status (sampleRun ''run-2'' 7 RunRunning) = RunRunning" by (simp_all add: sampleRun_def)
  ultimately show "hasRunning (ms_runs sampleMemory) n" unfolding hasRunning_def by metis
qed

section \<open>Two stores, one retention\<close>

lemma retained_deleted:
  assumes f: "finite (dom m)" and r: "retained ret now m m'"
  shows "card (dom m - dom m') = card (completedPairs m) - card (completedPairs m')"
proof -
  have sub: "completedPairs m' \<subseteq> completedPairs m"
    using retained_subset [OF r] by (auto simp: completedPairs_def)
  have "dom m - dom m' = fst ` (completedPairs m - completedPairs m')"
  proof (intro set_eqI iffI)
    fix k assume k: "k \<in> dom m - dom m'"
    then obtain v where v: "m k = Some v" "m' k = None" by (auto simp: domIff)
    then have "isCompletedRun v" using retained_keeps_running [OF r v(1)] by auto
    with v have "(k, v) \<in> completedPairs m - completedPairs m'" by (simp add: completedPairs_def)
    then show "k \<in> fst ` (completedPairs m - completedPairs m')" by force
  next
    fix k assume "k \<in> fst ` (completedPairs m - completedPairs m')"
    then obtain v where kv: "(k, v) \<in> completedPairs m" "(k, v) \<notin> completedPairs m'" by force
    then have v: "m k = Some v" "isCompletedRun v" by (simp_all add: completedPairs_def)
    then have "m' k = None"
      using retained_subset [OF r, of k] v kv(2) by (cases "m' k") (auto simp: completedPairs_def)
    with v show "k \<in> dom m - dom m'" by auto
  qed
  moreover have "inj_on fst (completedPairs m - completedPairs m')"
    by (auto simp: inj_on_def completedPairs_def)
  moreover have "finite (completedPairs m')"
    using sub finite_completedPairs [OF f] finite_subset by blast
  ultimately show ?thesis by (simp add: card_image card_Diff_subset sub)
qed

lemma retained_order:
  assumes "retained ret now m m'" "p \<in> freshPairs ret now m" "p \<notin> completedPairs m'" "q \<in> completedPairs m'"
  shows "r_StartedAt (snd p) \<le> r_StartedAt (snd q)"
  using assms by (cases p; cases q) (simp add: retained_def)

lemma retained_same_result:
  assumes f: "finite (dom m)" and 1: "retained ret now m m1" and 2: "retained ret now m m2"
  shows "retentionResult m m1 = retentionResult m m2"
proof -
  have "card (completedPairs m1) = card (completedPairs m2)"
    using 1 2 by (simp add: retained_def)
  then show ?thesis by (simp add: retentionResult_def retained_deleted [OF f 1] retained_deleted [OF f 2])
qed

lemma retained_unique:
  assumes f: "finite (dom m)" and 1: "retained ret now m m1" and 2: "retained ret now m m2"
    and inj: "inj_on (\<lambda>p. r_StartedAt (snd p)) (completedPairs m)"
  shows "m1 = m2"
proof -
  have K: "completedPairs m1 \<subseteq> freshPairs ret now m" "completedPairs m2 \<subseteq> freshPairs ret now m"
    "card (completedPairs m1) = card (completedPairs m2)"
    using 1 2 by (simp_all add: retained_def)
  have fin: "finite (completedPairs m1)" "finite (completedPairs m2)"
    using K(1,2) freshPairs_subset [of ret now m] finite_completedPairs [OF f] by (meson finite_subset)+
  have "completedPairs m1 = completedPairs m2"
  proof (rule ccontr)
    assume ne: "completedPairs m1 \<noteq> completedPairs m2"
    then have "\<not> completedPairs m1 \<subseteq> completedPairs m2" "\<not> completedPairs m2 \<subseteq> completedPairs m1"
      using K(3) card_subset_eq fin by metis+
    then obtain p q where p: "p \<in> completedPairs m1" "p \<notin> completedPairs m2"
      and q: "q \<in> completedPairs m2" "q \<notin> completedPairs m1" by blast
    have "r_StartedAt (snd p) \<le> r_StartedAt (snd q)" "r_StartedAt (snd q) \<le> r_StartedAt (snd p)"
      using retained_order [OF 2 _ p(2) q(1)] retained_order [OF 1 _ q(2) p(1)] p(1) q(1) K(1,2) by blast+
    then have "p = q"
      using inj p(1) q(1) K(1,2) freshPairs_subset [of ret now m] by (intro inj_onD [OF inj]) auto
    with p q show False by simp
  qed
  moreover have "m' k = Some r \<longleftrightarrow> (if isCompletedRun r then (k, r) \<in> completedPairs m' else m k = Some r)"
    if "retained ret now m m'" for m' k r
    using retained_keeps_running [OF that, of k r] retained_subset [OF that, of k r]
    by (auto simp: completedPairs_def)
  ultimately have "m1 k = Some r \<longleftrightarrow> m2 k = Some r" for k r using 1 2 by metis
  then show ?thesis by (metis ext not_None_eq)
qed

section \<open>Properties\<close>

text \<open>C1: \<open>SaveRun\<close> of the bbolt store keeps both indexes and the counter exact and replaces exactly
  the run with that identifier, whatever was stored before.\<close>

theorem bolt_SaveRun_exact:
  assumes "bolt_database api" "boltInv api db" "storableRun r" "plainStatus r"
    and "bs_SaveRun api r db = (Inr u, db')"
  shows "boltInv api db' \<and> runsOf api db' = (runsOf api db)(r_ID r \<mapsto> jsonRun r) \<and>
    schedsOf api db' = schedsOf api db"
  by (rule bolt_database.SaveRun_inv [OF assms])

theorem bolt_SaveRun_exact_witness:
  "boltInv refBolt (snd (bs_SaveRun refBolt (sampleRun ''run-1'' 5 RunSucceeded) openedDB)) \<and>
   runsOf refBolt (snd (bs_SaveRun refBolt (sampleRun ''run-1'' 5 RunSucceeded) openedDB)) =
     [''run-1'' \<mapsto> jsonRun (sampleRun ''run-1'' 5 RunSucceeded)]"
proof -
  have "fst (bs_SaveRun refBolt (sampleRun ''run-1'' 5 RunSucceeded) openedDB) = Inr ()" by code_simp
  then have s: "bs_SaveRun refBolt (sampleRun ''run-1'' 5 RunSucceeded) openedDB =
      (Inr (), snd (bs_SaveRun refBolt (sampleRun ''run-1'' 5 RunSucceeded) openedDB))"
    by (simp add: prod_eq_iff)
  from bolt_SaveRun_exact [OF db.bolt_database_axioms openedDB_inv(1) sampleRun_ok(1,2) s]
  show ?thesis by (simp add: openedDB_inv(2)) (simp add: sampleRun_def)
qed

text \<open>C2: \<open>PruneRuns\<close> of the bbolt store, with its cursor loops over the index, keeps the invariant,
  meets the retention specification and reports the numbers of deleted and kept runs.\<close>

theorem bolt_PruneRuns_retention:
  assumes "bolt_database api" "boltInv api db" "bs_PruneRuns api ret now db = (Inr res, db')"
  shows "boltInv api db' \<and> retained ret now (runsOf api db) (runsOf api db') \<and>
    res = retentionResult (runsOf api db) (runsOf api db')"
  using bolt_database.PruneRuns_inv [OF assms] by blast

theorem bolt_PruneRuns_retention_witness:
  "fst (bs_PruneRuns refBolt sampleRetention (2 * nsPerDay) savedDB) =
     Inr \<lparr>rt_Deleted = 1, rt_Kept = 0\<rparr> \<and>
   retained sampleRetention (2 * nsPerDay) (runsOf refBolt savedDB)
     (runsOf refBolt (snd (bs_PruneRuns refBolt sampleRetention (2 * nsPerDay) savedDB)))"
proof -
  have f: "fst (bs_PruneRuns refBolt sampleRetention (2 * nsPerDay) savedDB) =
      Inr \<lparr>rt_Deleted = 1, rt_Kept = 0\<rparr>" by code_simp
  then have p: "bs_PruneRuns refBolt sampleRetention (2 * nsPerDay) savedDB =
      (Inr \<lparr>rt_Deleted = 1, rt_Kept = 0\<rparr>,
       snd (bs_PruneRuns refBolt sampleRetention (2 * nsPerDay) savedDB))"
    by (simp add: prod_eq_iff)
  from bolt_PruneRuns_retention [OF db.bolt_database_axioms savedDB_inv(1) p] f show ?thesis by blast
qed

text \<open>\<open>PruneRuns\<close> of the in-memory store meets the same specification, in whatever order the map
  of runs is visited.\<close>

lemma memory_PruneRuns_retention:
  assumes "ms_inv m" "iterates (ms_runs m) ord" "ms_PruneRuns ord ret now m = (Inr res, m')"
  shows "retained ret now (ms_runs m) (ms_runs m') \<and> res = retentionResult (ms_runs m) (ms_runs m') \<and>
    ms_schedules m' = ms_schedules m"
proof -
  obtain rs victims where pr: "pruneRuns (visit (ms_runs m) ord) ret now = (rs, victims)"
    by fastforce
  show ?thesis
    using pruneRuns_retained [OF enumerates_visit [OF assms(2)] pr] assms(3) pr
    by (auto simp: ms_PruneRuns_def)
qed

text \<open>C3: the two stores, holding the same runs, both meet the retention specification, in whatever order the
  map of the in-memory store is visited: they delete and keep the same number of runs, and the same runs
  when no two completed runs started at the same instant.\<close>

theorem stores_prune_alike:
  assumes "bolt_database api" "boltInv api db" "ms_inv m" "iterates (ms_runs m) ord"
    and same: "ms_runs m = runsOf api db"
    and b: "bs_PruneRuns api ret now db = (Inr res, db')"
    and p: "ms_PruneRuns ord ret now m = (Inr res', m')"
  shows "retained ret now (ms_runs m) (runsOf api db') \<and> retained ret now (ms_runs m) (ms_runs m') \<and>
    res' = retentionResult (ms_runs m) (ms_runs m') \<and> res' = res \<and> ms_schedules m' = ms_schedules m \<and>
    (inj_on (\<lambda>p. r_StartedAt (snd p)) (completedPairs (ms_runs m)) \<longrightarrow> ms_runs m' = runsOf api db')"
proof -
  have f: "finite (dom (ms_runs m))" using assms(3) by (simp add: ms_inv_def keyedRuns_def)
  have 1: "retained ret now (ms_runs m) (runsOf api db')" "res = retentionResult (ms_runs m) (runsOf api db')"
    using bolt_database.PruneRuns_inv [OF assms(1,2) b] same by simp_all
  note 2 = memory_PruneRuns_retention [OF assms(3,4) p]
  then have "res' = res" using 1 retained_same_result [OF f] by metis
  then show ?thesis using 1 2 retained_unique [OF f] by blast
qed

theorem stores_prune_alike_witness:
  "fst (ms_PruneRuns [''run-1'', ''run-2''] sampleRetention (2 * nsPerDay) sampleMemory) =
     Inr \<lparr>rt_Deleted = 1, rt_Kept = 0\<rparr> \<and>
   ms_runs (snd (ms_PruneRuns [''run-1'', ''run-2''] sampleRetention (2 * nsPerDay) sampleMemory)) =
     runsOf refBolt (snd (bs_PruneRuns refBolt sampleRetention (2 * nsPerDay) savedDB))"
proof -
  let ?res = "\<lparr>rt_Deleted = 1, rt_Kept = 0\<rparr>"
  have "fst (ms_PruneRuns [''run-1'', ''run-2''] sampleRetention (2 * nsPerDay) sampleMemory) = Inr ?res"
    "fst (bs_PruneRuns refBolt sampleRetention (2 * nsPerDay) savedDB) = Inr ?res" by code_simp+
  then have p: "ms_PruneRuns [''run-1'', ''run-2''] sampleRetention (2 * nsPerDay) sampleMemory =
      (Inr ?res, snd (ms_PruneRuns [''run-1'', ''run-2''] sampleRetention (2 * nsPerDay) sampleMemory))"
    and b: "bs_PruneRuns refBolt sampleRetention (2 * nsPerDay) savedDB =
      (Inr ?res, snd (bs_PruneRuns refBolt sampleRetention (2 * nsPerDay) savedDB))"
    by (simp_all add: prod_eq_iff)
  have "inj_on (\<lambda>p. r_StartedAt (snd p)) (completedPairs (ms_runs sampleMemory))"
    by (auto simp: inj_on_def completedPairs_def sampleMemory_def sampleRun_def split: if_splits)
  then show ?thesis
    using stores_prune_alike [OF db.bolt_database_axioms savedDB_inv(1) sampleMemory_inv savedDB_inv(2) [symmetric] b p] p
    by (metis fst_conv)
qed

lemma legacyDB_upgradable: "upgradable refBolt legacyDB"
proof -
  have l: "look refBolt legacyDB runsBucket = [''run-1'' \<mapsto> JSONRun (sampleRun ''run-1'' 5 RunSucceeded)]"
    by (rule ext) (simp add: look_def legacyDB_def refBolt_def)
  have y: "yearOk 5 = True" by code_simp
  have e: "runEntry (''run-1'', JSONRun (sampleRun ''run-1'' 5 RunSucceeded))"
    using sampleRun_ok(1) y by (simp add: runEntry_def goodRun_def sampleRun_def)
  show ?thesis
    using e by (simp add: upgradable_def l needsIndexRebuild_def schedulesOk_def)
      (simp add: look_def legacyDB_def)
qed

text \<open>C4: opening a database written by a release without indexes builds them: every stored run is then
  found by every operation, and no run or schedule changes.\<close>

theorem OpenBoltStore_upgrades:
  assumes "bolt_database api" "upgradable api db" "OpenBoltStore api (Inr db) = Inr db'"
  shows "boltInv api db' \<and> runsOf api db' = runsOf api db \<and> schedsOf api db' = schedsOf api db"
  by (rule bolt_database.OpenBoltStore_inv [OF assms(1,3,2)])

theorem OpenBoltStore_upgrades_witness:
  "\<exists>db'. OpenBoltStore refBolt (Inr legacyDB) = Inr db' \<and> boltInv refBolt db' \<and>
     runsOf refBolt db' = [''run-1'' \<mapsto> sampleRun ''run-1'' 5 RunSucceeded]"
proof -
  have "isOk (OpenBoltStore refBolt (Inr legacyDB))" by code_simp
  then obtain db' where o: "OpenBoltStore refBolt (Inr legacyDB) = Inr db'" by (auto simp: isOk_iff)
  have l: "look refBolt legacyDB runsBucket = [''run-1'' \<mapsto> JSONRun (sampleRun ''run-1'' 5 RunSucceeded)]"
    by (rule ext) (simp add: look_def legacyDB_def refBolt_def)
  have "runsOf refBolt legacyDB = [''run-1'' \<mapsto> sampleRun ''run-1'' 5 RunSucceeded]"
    by (rule ext) (simp add: runsOf_def l)
  then show ?thesis
    using OpenBoltStore_upgrades [OF db.bolt_database_axioms legacyDB_upgradable o] o by auto
qed

text \<open>The listing specification determines the list when no two runs started at the same instant.\<close>

lemma listsRuns_unique:
  assumes xs: "listsRuns m limit xs" and ys: "listsRuns m limit ys"
    and inj: "\<And>k r k' r'. m k = Some r \<Longrightarrow> m k' = Some r' \<Longrightarrow> r_StartedAt r = r_StartedAt r' \<Longrightarrow> r = r'"
  shows "xs = ys"
proof -
  have d: "distinct xs" "distinct ys" "length xs = length ys"
    using xs ys by (simp_all add: listsRuns_def distinct_map)
  have out: "r_StartedAt x \<le> r_StartedAt y" if "listsRuns m limit zs" "m (r_ID x) = Some x" "x \<notin> set zs" "y \<in> set zs" for x y zs
    using that unfolding listsRuns_def by blast
  have stored: "m (r_ID x) = Some x" if "x \<in> set xs \<union> set ys" for x
    using xs ys that unfolding listsRuns_def by blast
  have same: "set xs = set ys"
  proof (rule ccontr)
    assume "set xs \<noteq> set ys"
    moreover have "card (set xs) = card (set ys)" using d by (simp add: distinct_card)
    ultimately obtain x y where xy: "x \<in> set xs" "x \<notin> set ys" "y \<in> set ys" "y \<notin> set xs"
      using card_subset_eq [of "set xs" "set ys"] card_subset_eq [of "set ys" "set xs"] by auto
    have "r_StartedAt x \<le> r_StartedAt y" using out [OF ys _ xy(2,3)] stored [of x] xy(1) by simp
    moreover have "r_StartedAt y \<le> r_StartedAt x" using out [OF xs _ xy(4,1)] stored [of y] xy(3) by simp
    ultimately show False using inj [of "r_ID x" x "r_ID y" y] stored [of x] stored [of y] xy by auto
  qed
  have injs: "inj_on r_StartedAt (set xs)" using inj stored by (meson UnI1 inj_onI)
  have "sorted (map r_StartedAt (rev zs))" if "listsRuns m limit zs" for zs
    using that by (simp add: listsRuns_def sorted_map sorted_wrt_rev)
  then have "map r_StartedAt (rev xs) = map r_StartedAt (rev ys)"
    using xs ys d same injs by (intro sorted_distinct_set_unique) (simp_all add: distinct_map)
  then show ?thesis using injs same by (simp add: rev_map [symmetric] inj_on_map_eq_map)
qed

text \<open>C5: over the same runs, both stores list the newest runs, each once, newest first, as many as the limit
  asks for, and the same list when no two runs started at the same instant; and both tell exactly
  whether a run of a schedule is running, the bbolt store with one cursor seek, not confused by a schedule
  whose name extends the given one.\<close>

theorem stores_read_alike:
  assumes "bolt_database api" "boltInv api db" "ms_inv m" "iterates (ms_runs m) ord" "ms_runs m = runsOf api db" "plainKey name"
  shows "bs_HasRunningRun api name db = Inr (hasRunning (runsOf api db) name) \<and>
    ms_HasRunningRun ord name m = Inr (hasRunning (runsOf api db) name) \<and> (\<exists>xs ys. bs_ListRuns api limit db = Inr xs \<and> ms_ListRuns ord limit m = Inr ys \<and>
    listsRuns (runsOf api db) limit xs \<and> listsRuns (runsOf api db) limit ys \<and>
    ((\<forall>k r k' r'. runsOf api db k = Some r \<and> runsOf api db k' = Some r' \<and> r_StartedAt r = r_StartedAt r' \<longrightarrow> r = r') \<longrightarrow> xs = ys))"
proof -
  obtain xs where xs: "bs_ListRuns api limit db = Inr xs" "listsRuns (runsOf api db) limit xs"
    using bolt_database.ListRuns_inv [OF assms(1,2)] by blast
  obtain ys where ys: "ms_ListRuns ord limit m = Inr ys" "listsRuns (runsOf api db) limit ys"
    using ListRuns_lists [of "ms_runs m" ord limit] assms(3-5) by (simp add: ms_ListRuns_def ms_inv_def)
  have "bs_HasRunningRun api name db = Inr (hasRunning (runsOf api db) name)"
    by (rule bolt_database.HasRunningRun_inv [OF assms(1,2,6)])
  moreover have "ms_HasRunningRun ord name m = Inr (hasRunning (runsOf api db) name)"
    using HasRunning_visit [OF assms(4)] assms(3,5) by (simp add: ms_HasRunningRun_def ms_inv_def keyedRuns_def)
  ultimately show ?thesis using xs ys listsRuns_unique [OF xs(2) ys(2)] by blast
qed

theorem stores_read_alike_witness:
  "bs_ListRuns refBolt 1 savedDB = ms_ListRuns [''run-1'', ''run-2''] 1 sampleMemory \<and>
   listsRuns (ms_runs sampleMemory) 1 [sampleRun ''run-2'' 7 RunRunning] \<and>
   bs_HasRunningRun refBolt ''nightly'' savedDB = Inr True \<and> bs_HasRunningRun refBolt ''night'' savedDB = Inr False"
proof -
  have "bs_ListRuns refBolt 1 savedDB = Inr [sampleRun ''run-2'' 7 RunRunning]"
    "ms_ListRuns [''run-1'', ''run-2''] 1 sampleMemory = Inr [sampleRun ''run-2'' 7 RunRunning]" by code_simp+
  moreover have "plainKey ''nightly''" "plainKey ''night''" by code_simp+
  note stores_read_alike [OF db.bolt_database_axioms savedDB_inv(1) sampleMemory_inv savedDB_inv(2) [symmetric] this(1), of 1]
    stores_read_alike [OF db.bolt_database_axioms savedDB_inv(1) sampleMemory_inv savedDB_inv(2) [symmetric] this(2), of 1]
  ultimately show ?thesis by (auto simp: savedDB_inv(2) sampleMemory_running)
qed

end
