(* ===== verification/Scheduling.thy ===== *)
theory Scheduling
  imports RunModel "HOL-Library.Signed_Division"
begin

text \<open>
  internal/engine/engine.go, when a schedule fires: the rate and once schedules the engine hands to
  the cron library, the conversion of a schedule configuration, and its validation.  The library's
  own cron expressions are outside the repository: \<open>parse\<close> is \<open>parser.Parse\<close> with the
  engine's parser options, and a parsed expression is a value of the type \<open>'c\<close>.
\<close>

section \<open>Rates and single instants\<close>

record rateSchedule =
  rs_start :: go_time
  rs_interval :: duration

record onceSchedule =
  os_runAt :: go_time

text \<open>Go's \<open>/\<close> on two \<open>time.Duration\<close> values truncates towards zero; \<open>+\<close> and \<open>*\<close> wrap.\<close>

definition rateNext :: "rateSchedule \<Rightarrow> go_time \<Rightarrow> go_time" where
  "rateNext s t =
     (if sint (rs_interval s) \<le> 0 then zeroTime
      else if t < rs_start s then rs_start s
      else (let elapsed = timeSub t (rs_start s);
                intervals = word_of_int (sint elapsed sdiv sint (rs_interval s)) + 1
            in timeAdd (rs_start s) (intervals * rs_interval s)))"

definition onceNext :: "onceSchedule \<Rightarrow> go_time \<Rightarrow> go_time" where
  "onceNext s t = (if t < os_runAt s then os_runAt s else zeroTime)"

definition rateDuration :: "ScheduleConfig \<Rightarrow> duration" where
  "rateDuration s =
     (if sc_RateUnit s = ''minutes'' then sc_RateInterval s * Minute
      else if sc_RateUnit s = ''hours'' then sc_RateInterval s * Hour
      else if sc_RateUnit s = ''days'' then sc_RateInterval s * 24 * Hour
      else 0)"

section \<open>From a configuration to a schedule of the cron library\<close>

datatype 'c Schedule = SpecSchedule 'c | RateSchedule rateSchedule | OnceSchedule onceSchedule

definition cronSpec :: "ScheduleConfig \<Rightarrow> string" where
  "cronSpec s =
     (if sc_Timezone s \<noteq> [] then ''CRON_TZ='' @ sc_Timezone s @ '' '' @ sc_Cron s else sc_Cron s)"

text \<open>\<open>now1\<close> and \<open>now2\<close> are the two readings of the clock.\<close>

definition cronSchedule ::
    "(string \<Rightarrow> 'c result) \<Rightarrow> (string \<Rightarrow> location result) \<Rightarrow> go_time \<Rightarrow> go_time \<Rightarrow>
     ScheduleConfig \<Rightarrow> 'c Schedule result" where
  "cronSchedule parse loadLocation now1 now2 s =
     (if sc_ScheduleType s = ''cron'' then
        bindE (parse (cronSpec s)) (\<lambda>c. Inr (SpecSchedule c))
      else if sc_ScheduleType s = ''rate'' then
        bindE (ParseLocalDateTime loadLocation (sc_StartsAt s) (sc_Timezone s)) (\<lambda>start.
          Inr (RateSchedule \<lparr>rs_start = start, rs_interval = rateDuration s\<rparr>))
      else if sc_ScheduleType s = ''once'' then
        bindE (ParseLocalDateTime loadLocation (sc_RunAt s) (sc_Timezone s)) (\<lambda>runAt.
          let fireAt = (if \<not> now1 < runAt then timeAdd now2 Second else runAt)
          in Inr (OnceSchedule \<lparr>os_runAt = fireAt\<rparr>))
      else Inl (ConfigError (''unsupported schedule_type for schedule '' @ sc_Name s @ '': '' @ sc_ScheduleType s)))"

definition scheduledAtForSchedule ::
    "(string \<Rightarrow> location result) \<Rightarrow> ScheduleConfig \<Rightarrow> go_time \<Rightarrow> go_time" where
  "scheduledAtForSchedule loadLocation s now =
     (if sc_ScheduleType s = ''once''
      then (case ParseLocalDateTime loadLocation (sc_RunAt s) (sc_Timezone s) of
          Inr runAt \<Rightarrow> runAt
        | Inl _ \<Rightarrow> truncateMinute now)
      else truncateMinute now)"

definition validateSchedule ::
    "(string \<Rightarrow> 'c result) \<Rightarrow> (string \<Rightarrow> location result) \<Rightarrow> ScheduleConfig \<Rightarrow> FaktoryInstance list \<Rightarrow> unit result" where
  "validateSchedule parse loadLocation s0 faktoryInstances =
     (let s = NormalizeSchedule s0 in
      bindE (Validate loadLocation (zeroConfig\<lparr>cfg_Faktory := faktoryInstances, cfg_Schedules := [s]\<rparr>)) (\<lambda>_.
        if sc_ScheduleType s = ''cron''
        then (case parse (cronSpec s) of
            Inl e \<Rightarrow> Inl (Wrapped (''invalid cron for schedule '' @ sc_Name s @ '': '') e)
          | Inr _ \<Rightarrow> Inr ())
        else Inr ()))"

section \<open>What a rate schedule computes\<close>

lemma rateNext_before: "0 < sint (rs_interval s) \<Longrightarrow> t < rs_start s \<Longrightarrow> rateNext s t = rs_start s"
  by (simp add: rateNext_def)

lemma rateNext_after:
  assumes i: "0 < sint (rs_interval s)" and t: "rs_start s \<le> t"
    and small: "t - rs_start s + sint (rs_interval s) < 2 ^ 63"
  shows "rateNext s t =
    rs_start s + ((t - rs_start s) div sint (rs_interval s) + 1) * sint (rs_interval s)"
proof -
  define e d where "e = t - rs_start s" and "d = sint (rs_interval s)"
  have e0: "0 \<le> e" "e + d < 2 ^ 63" "0 < d" using assms by (simp_all add: e_def d_def)
  have el: "sint (timeSub t (rs_start s)) = e"
    using e0 by (subst sint_timeSub) (simp_all add: e_def)
  have q0: "0 \<le> e div d" using e0 by (simp add: pos_imp_zdiv_nonneg_iff)
  have "e div d * d \<le> e" using e0(3) by (simp add: minus_mod_eq_div_mult [symmetric])
  then have b: "(e div d + 1) * d < 2 ^ 63" "0 \<le> (e div d + 1) * d"
    using e0 q0 by (simp_all add: distrib_right)
  have sd: "e sdiv d = e div d"
  proof (cases "e = 0")
    case False
    then have "sgn e = 1" "sgn d = 1" using e0 by simp_all
    then show ?thesis using e0 by (simp add: signed_divide_int_def)
  qed (simp add: signed_divide_int_def)
  have "rs_interval s = word_of_int d" by (simp add: d_def)
  then have w: "(word_of_int (e sdiv d) + 1) * rs_interval s = word_of_int ((e div d + 1) * d)"
    by (simp add: sd)
  have "sint (word_of_int ((e div d + 1) * d) :: 64 word) = (e div d + 1) * d"
    using b by (intro sint_word_of_int64) auto
  then show ?thesis
    using i t w by (simp add: rateNext_def timeAdd_def el e_def [symmetric] d_def [symmetric])
qed

text \<open>The least instant of the schedule's grid after \<open>t\<close>.\<close>

lemma rateNext_least:
  assumes i: "0 < sint (rs_interval s)"
    and small: "t - rs_start s + sint (rs_interval s) < 2 ^ 63"
  shows "t < rateNext s t" "\<exists>k \<ge> 0. rateNext s t = rs_start s + k * sint (rs_interval s)"
    "0 \<le> k \<Longrightarrow> t < rs_start s + k * sint (rs_interval s) \<Longrightarrow>
     rateNext s t \<le> rs_start s + k * sint (rs_interval s)"
proof -
  define d where "d = sint (rs_interval s)"
  have d: "0 < d" using i by (simp add: d_def)
  have "t < rateNext s t \<and> (\<exists>k \<ge> 0. rateNext s t = rs_start s + k * d) \<and>
    (\<forall>k \<ge> 0. t < rs_start s + k * d \<longrightarrow> rateNext s t \<le> rs_start s + k * d)"
  proof (cases "t < rs_start s")
    case True
    then show ?thesis using rateNext_before [OF i True] d by (auto intro: exI [of _ 0])
  next
    case False
    define e where "e = t - rs_start s"
    have n: "rateNext s t = rs_start s + (e div d + 1) * d"
      using rateNext_after [OF i _ small] False by (simp add: e_def d_def)
    have e: "e = e div d * d + e mod d" "0 \<le> e mod d" "e mod d < d" "0 \<le> e" using d False by (simp_all add: e_def)
    have lt: "e < (e div d + 1) * d"
    proof -
      have "(e div d + 1) * d = e div d * d + d" by (simp add: distrib_right)
      then show ?thesis using e(1,3) by linarith
    qed
    have "(e div d + 1) * d \<le> k * d" if "e < k * d" for k
    proof -
      have "e div d * d < k * d" using that e(1,2) by linarith
      then have "e div d + 1 \<le> k" using d by simp
      then show ?thesis using d by (intro mult_right_mono) auto
    qed
    then have "\<forall>k \<ge> 0. t < rs_start s + k * d \<longrightarrow> rateNext s t \<le> rs_start s + k * d"
      unfolding n by (auto simp: e_def)
    moreover have "0 \<le> e div d + 1" using e(4) d by (simp add: pos_imp_zdiv_nonneg_iff add_increasing2)
    ultimately show ?thesis using lt unfolding n by (auto simp: e_def)
  qed
  then show "t < rateNext s t" "\<exists>k \<ge> 0. rateNext s t = rs_start s + k * sint (rs_interval s)"
    "0 \<le> k \<Longrightarrow> t < rs_start s + k * sint (rs_interval s) \<Longrightarrow>
     rateNext s t \<le> rs_start s + k * sint (rs_interval s)"
    by (auto simp: d_def)
qed

text \<open>The number of nanoseconds of a rate, and when it fits.\<close>

definition rateUnitNs :: "string \<Rightarrow> int" where
  "rateUnitNs u = (if u = ''minutes'' then 60000000000 else if u = ''hours'' then 3600000000000
     else if u = ''days'' then 86400000000000 else 0)"

lemma rateDuration_ns: "rateDuration s = word_of_int (sint (sc_RateInterval s) * rateUnitNs (sc_RateUnit s))"
  by (simp add: rateDuration_def rateUnitNs_def Minute_def Hour_def)

lemma sint_rateDuration:
  assumes "0 < sint (sc_RateInterval s)" "sint (sc_RateInterval s) * rateUnitNs (sc_RateUnit s) < 2 ^ 63"
  shows "sint (rateDuration s) = sint (sc_RateInterval s) * rateUnitNs (sc_RateUnit s)"
proof -
  have "0 \<le> rateUnitNs (sc_RateUnit s)" by (simp add: rateUnitNs_def)
  then have "0 \<le> sint (sc_RateInterval s) * rateUnitNs (sc_RateUnit s)" using assms(1) by simp
  then show ?thesis using assms(2) by (simp only: rateDuration_ns) (intro sint_word_of_int64; linarith)
qed

section \<open>What the validation guarantees\<close>

lemma validateSchedule_iff:
  "isOk (validateSchedule parse loadLocation s insts) \<longleftrightarrow>
     instancesOk insts \<and> scheduleOk loadLocation (fi_Name ` set insts) (NormalizeSchedule s) \<and>
     (sc_ScheduleType (NormalizeSchedule s) = ''cron'' \<longrightarrow> isOk (parse (cronSpec (NormalizeSchedule s))))"
proof -
  let ?c = "zeroConfig\<lparr>cfg_Faktory := insts, cfg_Schedules := [NormalizeSchedule s]\<rparr>"
  have v: "isOk (Validate loadLocation ?c) \<longleftrightarrow>
      instancesOk insts \<and> scheduleOk loadLocation (fi_Name ` set insts) (NormalizeSchedule s)"
    by (simp add: Validate_iff zeroConfig_def)
  have "isOk (validateSchedule parse loadLocation s insts) \<longleftrightarrow> isOk (Validate loadLocation ?c) \<and>
     (sc_ScheduleType (NormalizeSchedule s) = ''cron'' \<longrightarrow> isOk (parse (cronSpec (NormalizeSchedule s))))"
    by (cases "Validate loadLocation ?c") (simp_all add: validateSchedule_def Let_def split: sum.splits)
  with v show ?thesis by simp
qed

lemma validateSchedule_Normalize [simp]:
  "validateSchedule parse loadLocation (NormalizeSchedule s) insts = validateSchedule parse loadLocation s insts"
  by (simp add: validateSchedule_def)

lemma valid_cronSchedule:
  assumes "isOk (validateSchedule parse loadLocation s insts)"
  shows "isOk (cronSchedule parse loadLocation now1 now2 (NormalizeSchedule s))"
proof -
  have "scheduleOk loadLocation (fi_Name ` set insts) (NormalizeSchedule s)"
    "sc_ScheduleType (NormalizeSchedule s) = ''cron'' \<longrightarrow> isOk (parse (cronSpec (NormalizeSchedule s)))"
    using assms unfolding validateSchedule_iff by blast+
  then show ?thesis
    by (auto simp: cronSchedule_def scheduleOk_def timingOk_def isOk_iff Let_def)
qed

lemma valid_rate_interval:
  assumes "scheduleOk loadLocation insts s" "sc_ScheduleType s = ''rate''"
  shows "0 < sint (sc_RateInterval s)" "sc_RateUnit s \<in> {''minutes'', ''hours'', ''days''}"
  using assms by (auto simp: scheduleOk_def timingOk_def)

end
