(* ===== verification/CronApi.thy ===== *)
theory CronApi
  imports Scheduling
begin

text \<open>
  The cron library (github.com/netresearch/go-cron) as the engine uses it.  The package is not part
  of the repository: its operations are a record of functions over a state \<open>'q\<close>, the documented
  behaviour the engine relies on is the locale \<open>cron_lib\<close>, and \<open>refCron\<close> is a library that has it.
  The job of an entry is the closure of \<open>registerScheduleLocked\<close>, represented by the schedule it
  captures.
\<close>

type_synonym EntryID = nat

record ('c, 'q) CronApi =
  ca_Parse :: "string \<Rightarrow> 'c result"
  ca_ScheduleJob :: "'c Schedule \<Rightarrow> ScheduleConfig \<Rightarrow> 'q \<Rightarrow> EntryID result \<times> 'q"
  ca_Remove :: "EntryID \<Rightarrow> 'q \<Rightarrow> 'q"
  ca_Entry :: "'q \<Rightarrow> EntryID \<Rightarrow> go_time \<times> go_time"

text \<open>
  \<open>entries\<close> maps the identifier of a live entry to its schedule and the captured configuration.
  \<open>ScheduleJob\<close> may fail (a limit on entries); otherwise it adds one entry under an identifier not
  in use.
\<close>

locale cron_lib =
  fixes cr :: "('c, 'q) CronApi" and entries :: "'q \<Rightarrow> (EntryID \<rightharpoonup> 'c Schedule \<times> ScheduleConfig)"
  assumes ScheduleJob_ok: "ca_ScheduleJob cr c j q = (Inr i, q') \<Longrightarrow>
      entries q i = None \<and> entries q' = (entries q)(i \<mapsto> (c, j))"
    and ScheduleJob_err: "ca_ScheduleJob cr c j q = (Inl e, q') \<Longrightarrow> entries q' = entries q"
    and Remove_entries: "entries (ca_Remove cr i q) = (entries q)(i := None)"
begin

lemma ScheduleJob_cases:
  obtains e q' where "ca_ScheduleJob cr c j q = (Inl e, q')" "entries q' = entries q"
  | i q' where "ca_ScheduleJob cr c j q = (Inr i, q')" "entries q i = None"
      "entries q' = (entries q)(i \<mapsto> (c, j))"
  using ScheduleJob_ok ScheduleJob_err by (metis old.sum.exhaust surj_pair)

end

section \<open>A reference library\<close>

text \<open>A list of entries with a limit; \<open>Next\<close> and \<open>Prev\<close> are the zero time before the start.\<close>

type_synonym 'c refEntries = "(EntryID \<times> 'c Schedule \<times> ScheduleConfig) list"

definition freshID :: "'c refEntries \<Rightarrow> EntryID" where
  "freshID q = Suc (fold max (map fst q) 0)"

definition refCron :: "(string \<Rightarrow> 'c result) \<Rightarrow> nat \<Rightarrow> ('c, 'c refEntries) CronApi" where
  "refCron parse limit =
     \<lparr>ca_Parse = parse,
      ca_ScheduleJob = (\<lambda>c j q. if limit \<le> length q then (Inl (External ''max entries reached''), q)
                                else (Inr (freshID q), (freshID q, c, j) # q)),
      ca_Remove = (\<lambda>i q. filter (\<lambda>e. fst e \<noteq> i) q),
      ca_Entry = (\<lambda>q i. (zeroTime, zeroTime))\<rparr>"

lemma fold_max_start: "m \<le> fold max ns (m :: nat)"
proof (induction ns arbitrary: m)
  case (Cons n ns)
  have "m \<le> max n m" by simp
  also have "\<dots> \<le> fold max ns (max n m)" by (rule Cons)
  finally show ?case by simp
qed simp

lemma fold_max_bound: "n \<in> set ns \<Longrightarrow> n \<le> fold max ns (m :: nat)"
proof (induction ns arbitrary: m)
  case (Cons k ns)
  then show ?case using fold_max_start [of "max k m" ns] by auto
qed simp

lemma freshID_new: "freshID q \<notin> fst ` set q"
  using fold_max_bound [of _ "map fst q" 0] by (fastforce simp: freshID_def)

lemma map_of_filter_fst: "map_of (filter (\<lambda>e. fst e \<noteq> i) q) = (map_of q)(i := None)"
  by (induction q) auto

interpretation rc: cron_lib "refCron parse limit" map_of
proof unfold_locales
  fix c j i e and q q' :: "'a refEntries"
  show "ca_ScheduleJob (refCron parse limit) c j q = (Inr i, q') \<Longrightarrow>
      map_of q i = None \<and> map_of q' = (map_of q)(i \<mapsto> (c, j))"
    using freshID_new [of q] by (auto simp: refCron_def map_of_eq_None_iff split: if_splits)
qed (auto simp: refCron_def map_of_filter_fst split: if_splits)

end
