(* ===== verification/Target.thy ===== *)
theory Target
  imports RunModel
begin

text \<open>
  internal/target: what a run sends to its target and what it reports back.  The network is outside
  the repository: a \<open>Network\<close> holds \<open>http.NewRequestWithContext\<close>'s check of method and URL,
  the exchange of one HTTP request, \<open>url.Parse\<close>, the environment variables, and the client of the
  Faktory server.  The context of a run is the error it reports at once (if its timeout is not
  positive) and the time that is left.
\<close>

named_theorems target_defs \<open>the functions of the target package\<close>

section \<open>The outside\<close>

record Context =
  cx_Err :: "go_error option"
  cx_Left :: "duration option"

record Request =
  rq_Method :: string
  rq_URL :: string
  rq_Body :: any
  rq_Header :: "string \<rightharpoonup> string"

record Response =
  rp_StatusCode :: int
  rp_Status :: string
  rp_Body :: "string result"

record Job =
  jb_Jid :: string
  jb_Type :: string
  jb_Queue :: string
  jb_Args :: "any list"

text \<open>\<open>sv_TLS\<close> tells whether a TLS configuration is set.\<close>

record FaktoryServer =
  fs_Network :: string
  fs_Address :: string
  fs_Password :: string
  fs_Timeout :: duration
  fs_TLS :: bool

record 'k Network =
  nw_marshal :: "any \<Rightarrow> unit result"
  nw_newRequest :: "string \<Rightarrow> string \<Rightarrow> unit result"
  nw_Do :: "Context \<Rightarrow> Request \<Rightarrow> Response result"
  nw_parseURL :: "string \<Rightarrow> (string \<times> string) result"
  nw_Getenv :: "string \<Rightarrow> string"
  nw_defaultServer :: FaktoryServer
  nw_newJid :: string
  nw_Open :: "FaktoryServer \<Rightarrow> 'k result"
  nw_Push :: "'k \<Rightarrow> Job \<Rightarrow> unit result"
  nw_QueueSizes :: "'k \<Rightarrow> (string \<times> int) list result"

section \<open>HTTP targets\<close>

definition maxOutputBytes :: nat where "maxOutputBytes = 64 * 1024"

type_synonym TargetResult = "(string \<times> any) list option"

definition defaultBody :: "ScheduleConfig \<Rightarrow> Run \<Rightarrow> (string \<times> any) list" where
  "defaultBody s r =
     [(''run_id'', AnyString (r_ID r)), (''schedule_name'', AnyString (sc_Name s)),
      (''scheduled_at'', AnyTime (r_ScheduledAt r)), (''triggered_by'', AnyString (r_TriggeredBy r))]"

text \<open>
  \<open>Header.Set\<close> replaces the value under the canonical name (textproto.CanonicalMIMEHeaderKey):
  a letter after a dash or at the start in upper case, the others in lower case; a name with a byte
  that is no token character stays as it is.  The configured headers are applied in the order the
  map is visited.
\<close>

definition isUpper :: "char \<Rightarrow> bool" where "isUpper c \<longleftrightarrow> 65 \<le> byte c \<and> byte c \<le> 90"
definition isLower :: "char \<Rightarrow> bool" where "isLower c \<longleftrightarrow> 97 \<le> byte c \<and> byte c \<le> 122"

definition tokenChar :: "char \<Rightarrow> bool" where
  "tokenChar c \<longleftrightarrow> isUpper c \<or> isLower c \<or> isDigit c \<or> byte c \<in> {33, 35, 36, 37, 38, 39, 42, 43, 45, 46, 94, 95, 96, 124, 126}"

fun canonLoop :: "bool \<Rightarrow> string \<Rightarrow> string" where
  "canonLoop upper [] = []"
| "canonLoop upper (c # cs) =
     (if upper \<and> isLower c then char_of (byte c - 32)
      else if \<not> upper \<and> isUpper c then char_of (byte c + 32) else c) # canonLoop (c = CHR ''-'') cs"

definition CanonicalHeaderKey :: "string \<Rightarrow> string" where
  "CanonicalHeaderKey s = (if list_all tokenChar s then canonLoop True s else s)"

definition setHeader :: "string \<times> string \<Rightarrow> (string \<rightharpoonup> string) \<Rightarrow> (string \<rightharpoonup> string)" where
  "setHeader kv h = h(CanonicalHeaderKey (fst kv) \<mapsto> snd kv)"

definition requestHeader :: "(string \<times> string) list \<Rightarrow> (string \<rightharpoonup> string)" where
  "requestHeader hs =
     fold setHeader hs
       (setHeader (''User-Agent'', ''clock-relay/0'')
         (setHeader (''Content-Type'', ''application/json'') Map.empty))"

text \<open>\<open>io.ReadAll\<close> of a \<open>LimitReader\<close>: an error of the body counts if it comes within the limit.\<close>

definition triggerHTTP ::
    "'k Network \<Rightarrow> Context \<Rightarrow> ScheduleConfig \<Rightarrow> Run \<Rightarrow> TargetResult \<times> go_error option" where
  "triggerHTTP net ctx s r =
     (let body = (case tc_Body (sc_Target s) of None \<Rightarrow> defaultBody s r | Some b \<Rightarrow> b);
          headers = (case tc_Headers (sc_Target s) of None \<Rightarrow> [] | Some hs \<Rightarrow> hs)
      in case nw_marshal net (AnyMap body) of Inl e \<Rightarrow> (None, Some e)
       | Inr _ \<Rightarrow>
      (case nw_newRequest net (tc_Method (sc_Target s)) (tc_URL (sc_Target s)) of Inl e \<Rightarrow> (None, Some e)
       | Inr _ \<Rightarrow>
      (case nw_Do net ctx \<lparr>rq_Method = tc_Method (sc_Target s), rq_URL = tc_URL (sc_Target s),
              rq_Body = AnyMap body, rq_Header = requestHeader headers\<rparr> of Inl e \<Rightarrow> (None, Some e)
       | Inr resp \<Rightarrow>
      (case rp_Body resp of Inl e \<Rightarrow> (None, Some e)
       | Inr raw \<Rightarrow>
         (let output = TrimSpace (take maxOutputBytes raw);
              result = Some [(''raw'', AnyString output), (''status_code'', AnyInt (rp_StatusCode resp))]
          in if rp_StatusCode resp < 200 \<or> 300 \<le> rp_StatusCode resp
             then (result, Some (Errorf (''http target returned '' @ rp_Status resp)))
             else (result, None))))))"

section \<open>Faktory targets\<close>

fun resolveFaktoryInstance :: "ScheduleConfig \<Rightarrow> FaktoryInstance list \<Rightarrow> FaktoryInstance result" where
  "resolveFaktoryInstance s [] = Inl (ConfigError (''unknown faktory instance: '' @ tc_Instance (sc_Target s)))"
| "resolveFaktoryInstance s (inst # insts) =
     (if fi_Name inst = tc_Instance (sc_Target s) then Inr inst else resolveFaktoryInstance s insts)"

definition faktoryTargetResult :: "Job \<Rightarrow> TargetResult" where
  "faktoryTargetResult job = Some
     [(''raw'', AnyString (''faktory jid='' @ jb_Jid job @ '' queue='' @ jb_Queue job @ '' job_type='' @ jb_Type job)),
      (''provider'', AnyString ''faktory''), (''jid'', AnyString (jb_Jid job)),
      (''queue'', AnyString (jb_Queue job)), (''job_type'', AnyString (jb_Type job))]"

text \<open>\<open>faktory.NewJob\<close> draws the identifier: \<open>jid\<close>.\<close>

definition buildFaktoryJob :: "string \<Rightarrow> ScheduleConfig \<Rightarrow> Job result" where
  "buildFaktoryJob jid s =
     (if tc_JobType (sc_Target s) = [] then Inl (ConfigError ''faktory target job_type is required'')
      else Inr \<lparr>jb_Jid = jid, jb_Type = tc_JobType (sc_Target s),
        jb_Queue = (if tc_Queue (sc_Target s) = [] then ''default'' else tc_Queue (sc_Target s)),
        jb_Args = (case tc_Args (sc_Target s) of None \<Rightarrow> [] | Some args \<Rightarrow> args)\<rparr>)"

definition faktoryPassword :: "'k Network \<Rightarrow> FaktoryInstance \<Rightarrow> string" where
  "faktoryPassword net inst = (if fi_PasswordEnv inst = [] then [] else nw_Getenv net (fi_PasswordEnv inst))"

definition faktoryServer :: "'k Network \<Rightarrow> Context \<Rightarrow> FaktoryInstance \<Rightarrow> FaktoryServer result" where
  "faktoryServer net ctx inst =
     (let server = nw_defaultServer net;
          server = (case cx_Left ctx of None \<Rightarrow> server
            | Some timeout \<Rightarrow> if 0 < sint timeout then server\<lparr>fs_Timeout := timeout\<rparr> else server)
      in if \<not> Contains (fi_URL inst) ''://''
         then Inr (server\<lparr>fs_Network := ''tcp'', fs_Address := fi_URL inst, fs_Password := faktoryPassword net inst\<rparr>)
         else (case nw_parseURL net (fi_URL inst) of
             Inl e \<Rightarrow> Inl (Wrapped ''parse faktory url: '' e)
           | Inr (scheme, host) \<Rightarrow>
               if scheme \<notin> {''tcp'', ''tcp+tls''}
               then Inl (ConfigError (''unsupported faktory url scheme: '' @ scheme))
               else if host = [] then Inl (ConfigError ''faktory url must include host and port'')
               else Inr (server\<lparr>fs_Network := scheme, fs_Address := host,
                      fs_TLS := (fs_TLS server \<or> scheme = ''tcp+tls''),
                      fs_Password := faktoryPassword net inst\<rparr>)))"

definition openFaktoryClient :: "'k Network \<Rightarrow> Context \<Rightarrow> FaktoryInstance \<Rightarrow> 'k result" where
  "openFaktoryClient net ctx inst = bindE (faktoryServer net ctx inst) (nw_Open net)"

definition triggerFaktory ::
    "'k Network \<Rightarrow> Context \<Rightarrow> ScheduleConfig \<Rightarrow> FaktoryInstance list \<Rightarrow> TargetResult \<times> go_error option" where
  "triggerFaktory net ctx s insts =
     (case cx_Err ctx of Some e \<Rightarrow> (None, Some e)
      | None \<Rightarrow>
      (case bindE (resolveFaktoryInstance s insts) (\<lambda>inst.
            bindE (buildFaktoryJob (nw_newJid net) s) (\<lambda>job.
            bindE (openFaktoryClient net ctx inst) (\<lambda>client.
            bindE (nw_Push net client job) (\<lambda>_. Inr (faktoryTargetResult job))))) of
         Inl e \<Rightarrow> (None, Some e)
       | Inr res \<Rightarrow> (res, None)))"

text \<open>The queue names come from a Go map and are sorted.\<close>

definition FaktoryQueues :: "'k Network \<Rightarrow> Context \<Rightarrow> FaktoryInstance \<Rightarrow> string list result" where
  "FaktoryQueues net ctx inst =
     bindE (openFaktoryClient net ctx inst) (\<lambda>client.
     bindE (nw_QueueSizes net client) (\<lambda>sizes. Inr (sort (map fst sizes))))"

definition TriggerTarget ::
    "'k Network \<Rightarrow> Context \<Rightarrow> ScheduleConfig \<Rightarrow> Run \<Rightarrow> FaktoryInstance list \<Rightarrow> TargetResult \<times> go_error option" where
  "TriggerTarget net ctx s r insts =
     (if tc_Type (sc_Target s) = ''http'' then triggerHTTP net ctx s r
      else if tc_Type (sc_Target s) = ''faktory'' then triggerFaktory net ctx s insts
      else (None, Some (ConfigError (''unsupported target type: '' @ tc_Type (sc_Target s)))))"

section \<open>What a target reports\<close>

text \<open>The run succeeds exactly on a 2xx answer; the output is recorded on any answer.\<close>

lemma triggerHTTP_success:
  "snd (triggerHTTP net ctx s r) = None \<longleftrightarrow>
     (\<exists>body resp raw.
        body = AnyMap (case tc_Body (sc_Target s) of None \<Rightarrow> defaultBody s r | Some b \<Rightarrow> b) \<and>
        isOk (nw_marshal net body) \<and> isOk (nw_newRequest net (tc_Method (sc_Target s)) (tc_URL (sc_Target s))) \<and>
        nw_Do net ctx \<lparr>rq_Method = tc_Method (sc_Target s), rq_URL = tc_URL (sc_Target s), rq_Body = body,
          rq_Header = requestHeader (case tc_Headers (sc_Target s) of None \<Rightarrow> [] | Some hs \<Rightarrow> hs)\<rparr> = Inr resp \<and>
        rp_Body resp = Inr raw \<and> 200 \<le> rp_StatusCode resp \<and> rp_StatusCode resp < 300)"
  by (auto simp: triggerHTTP_def Let_def isOk_iff split: sum.splits)

text \<open>
  The request carries the two default headers unless the configuration names them, in any spelling,
  and every configured header that no other one respells.
\<close>

lemma fold_setHeader_other:
  "\<forall>kv \<in> set hs. CanonicalHeaderKey (fst kv) \<noteq> k \<Longrightarrow> fold setHeader hs h k = h k"
  by (induction hs arbitrary: h) (auto simp: setHeader_def)

lemma fold_setHeader_same:
  "\<forall>kv \<in> set hs. CanonicalHeaderKey (fst kv) = c \<longrightarrow> snd kv = v \<Longrightarrow>
   h c = Some v \<or> (\<exists>kv \<in> set hs. CanonicalHeaderKey (fst kv) = c) \<Longrightarrow> fold setHeader hs h c = Some v"
proof (induction hs arbitrary: h)
  case (Cons a hs)
  have "fold setHeader hs (setHeader a h) c = Some v"
    by (rule Cons.IH) (use Cons.prems in \<open>auto simp: setHeader_def\<close>)
  then show ?case by simp
qed simp

lemma requestHeader_configured:
  assumes "(k, v) \<in> set hs" "\<forall>kv \<in> set hs. CanonicalHeaderKey (fst kv) = CanonicalHeaderKey k \<longrightarrow> snd kv = v"
  shows "requestHeader hs (CanonicalHeaderKey k) = Some v"
  unfolding requestHeader_def using assms by (intro fold_setHeader_same) force+

lemma requestHeader_default:
  assumes "\<forall>kv \<in> set hs. CanonicalHeaderKey (fst kv) \<noteq> ''Content-Type''"
  shows "requestHeader hs ''Content-Type'' = Some ''application/json''"
proof -
  have "CanonicalHeaderKey ''Content-Type'' = ''Content-Type''" "CanonicalHeaderKey ''User-Agent'' = ''User-Agent''"
    by code_simp+
  then show ?thesis using assms by (simp add: requestHeader_def fold_setHeader_other) (simp add: setHeader_def)
qed

lemma TrimSpace_length: "length (TrimSpace s) \<le> length s"
proof -
  have "length (TrimLeftSpace x) \<le> length x" "length (TrimRightSpace x) \<le> length x" for x
    using trimWith_length by (auto simp: TrimLeftSpace_def TrimRightSpace_def) (metis length_rev)
  then show ?thesis unfolding TrimSpace_def using le_trans by blast
qed

lemma triggerHTTP_output_bound:
  assumes "triggerHTTP net ctx s r = (Some out, err)" "(''raw'', AnyString o') \<in> set out"
  shows "length o' \<le> maxOutputBytes"
proof -
  obtain raw where "o' = TrimSpace (take maxOutputBytes raw)"
    using assms by (auto simp: triggerHTTP_def Let_def split: sum.splits if_splits)
  then show ?thesis using TrimSpace_length [of "take maxOutputBytes raw"] by simp
qed

lemma resolveFaktoryInstance_find:
  "resolveFaktoryInstance s insts =
     (case find (\<lambda>i. fi_Name i = tc_Instance (sc_Target s)) insts of
        Some i \<Rightarrow> Inr i
      | None \<Rightarrow> Inl (ConfigError (''unknown faktory instance: '' @ tc_Instance (sc_Target s))))"
  by (induction insts) simp_all

end
