(* ===== verification/RunIdentity.thy ===== *)
theory RunIdentity
  imports StoreContract
begin

unbundle bit_operations_syntax

text \<open>
  The identifier of a run: the schedule's name and twelve hexadecimal digits of a SHA-1 digest.
  crypto/sha1 and encoding/hex of the standard library, then \<open>runID\<close> of
  internal/engine/engine.go.
\<close>

section \<open>SHA-1\<close>

type_synonym word32 = "32 word"

definition rotl :: "nat \<Rightarrow> word32 \<Rightarrow> word32" where
  "rotl n w = push_bit n w OR drop_bit (32 - n) w"

primrec bytesBE :: "nat \<Rightarrow> nat \<Rightarrow> nat list" where
  "bytesBE 0 n = []"
| "bytesBE (Suc k) n = bytesBE k (n div 256) @ [n mod 256]"

definition padMessage :: "nat list \<Rightarrow> nat list" where
  "padMessage m =
     m @ [128] @ replicate ((119 - length m mod 64) mod 64) 0 @ bytesBE 8 (8 * length m)"

fun toWords :: "nat list \<Rightarrow> word32 list" where
  "toWords (a # b # c # d # r) = of_nat (((a * 256 + b) * 256 + c) * 256 + d) # toWords r"
| "toWords _ = []"

text \<open>The 80 words of a block, latest first; each new word comes from four of the last sixteen.\<close>

primrec extendBlock :: "nat \<Rightarrow> word32 list \<Rightarrow> word32 list" where
  "extendBlock 0 ws = ws"
| "extendBlock (Suc n) ws =
     extendBlock n (rotl 1 (ws ! 2 XOR ws ! 7 XOR ws ! 13 XOR ws ! 15) # ws)"

type_synonym digest = "word32 \<times> word32 \<times> word32 \<times> word32 \<times> word32"

definition shaRound :: "nat \<times> word32 \<Rightarrow> digest \<Rightarrow> digest" where
  "shaRound tw h =
     (case tw of (t, w) \<Rightarrow> case h of (a, b, c, d, e) \<Rightarrow>
      let (f, k) = (if t < 20 then ((b AND c) OR (NOT b AND d), 0x5A827999)
                    else if t < 40 then (b XOR c XOR d, 0x6ED9EBA1)
                    else if t < 60 then ((b AND c) OR (b AND d) OR (c AND d), 0x8F1BBCDC)
                    else (b XOR c XOR d, 0xCA62C1D6))
      in (rotl 5 a + f + e + k + w, a, rotl 30 b, c, d))"

definition shaBlock :: "word32 list \<Rightarrow> digest \<Rightarrow> digest" where
  "shaBlock ws h =
     (case h of (a, b, c, d, e) \<Rightarrow>
      case fold shaRound (zip [0..<80] (rev (extendBlock 64 (rev ws)))) h of (a', b', c', d', e') \<Rightarrow>
        (a + a', b + b', c + c', d + d', e + e'))"

fun blocks :: "nat \<Rightarrow> word32 list \<Rightarrow> word32 list list" where
  "blocks 0 ws = []"
| "blocks (Suc n) ws = take 16 ws # blocks n (drop 16 ws)"

definition sha1Sum :: "string \<Rightarrow> nat list" where
  "sha1Sum s =
     (let ws = toWords (padMessage (map byte s));
          (a, b, c, d, e) = fold shaBlock (blocks (length ws div 16) ws)
            (0x67452301, 0xEFCDAB89, 0x98BADCFE, 0x10325476, 0xC3D2E1F0)
      in concat (map (\<lambda>w. bytesBE 4 (unat w)) [a, b, c, d, e]))"

section \<open>Hexadecimal\<close>

definition hexDigit :: "nat \<Rightarrow> char" where
  "hexDigit n = (if n < 10 then digitChar n else char_of (87 + n))"

definition EncodeToString :: "nat list \<Rightarrow> string" where
  "EncodeToString bs = concat (map (\<lambda>b. [hexDigit (b div 16), hexDigit (b mod 16)]) bs)"

section \<open>runID\<close>

text \<open>\<open>[:12]\<close> does not panic: the digest has twenty bytes.\<close>

definition runID :: "string \<Rightarrow> string \<Rightarrow> go_time \<Rightarrow> string" where
  "runID scheduleName triggeredBy scheduledAt =
     scheduleName @ ''-'' @
     take 12 (EncodeToString (sha1Sum (scheduleName @ ''|'' @ triggeredBy @ ''|'' @ formatRFC3339Nano scheduledAt)))"

lemma length_bytesBE [simp]: "length (bytesBE k n) = k"
  by (induction k arbitrary: n) simp_all

lemma bytesBE_bytes: "\<forall>b \<in> set (bytesBE k n). b < 256"
  by (induction k arbitrary: n) auto

lemma length_sha1Sum: "length (sha1Sum s) = 20"
  by (simp add: sha1Sum_def Let_def split: prod.splits)

lemma sha1Sum_bytes: "\<forall>b \<in> set (sha1Sum s). b < 256"
  using bytesBE_bytes by (auto simp: sha1Sum_def Let_def split: prod.splits)

lemma length_EncodeToString: "length (EncodeToString bs) = 2 * length bs"
  by (induction bs) (simp_all add: EncodeToString_def)

lemma hexDigit_ascii: "n < 16 \<Longrightarrow> 0 < byte (hexDigit n) \<and> byte (hexDigit n) < 128"
proof -
  have "\<forall>n \<in> set [0..<16]. 0 < byte (hexDigit n) \<and> byte (hexDigit n) < 128" by code_simp
  then show "n < 16 \<Longrightarrow> ?thesis" by simp
qed

lemma EncodeToString_ascii:
  "\<forall>b \<in> set bs. b < 256 \<Longrightarrow> list_all (\<lambda>c. 0 < byte c \<and> byte c < 128) (EncodeToString bs)"
proof (induction bs)
  case (Cons b bs)
  then have "b div 16 < 16" "b mod 16 < 16" by auto
  with Cons show ?case by (simp add: EncodeToString_def hexDigit_ascii)
qed (simp add: EncodeToString_def)

lemma list_all_take: "list_all f xs \<Longrightarrow> list_all f (take n xs)"
  by (auto simp: list_all_iff dest: in_set_takeD)

lemma runID_plainKey: "plainKey name \<Longrightarrow> plainKey (runID name by at)"
  using list_all_take [OF EncodeToString_ascii [OF sha1Sum_bytes]]
  by (simp add: plainKey_def runID_def) (simp add: byte_def)

lemma length_runID: "length (runID name by at) = length name + 13"
  by (simp add: runID_def length_EncodeToString length_sha1Sum)

text \<open>Runs of different schedules have different identifiers.\<close>

lemma runID_schedule: "runID n by at = runID n' by' at' \<Longrightarrow> n = n'"
proof -
  assume eq: "runID n by at = runID n' by' at'"
  then have "length n = length n'" using length_runID by (metis add_right_cancel)
  with eq show ?thesis by (simp add: runID_def)
qed


end
