(* ===== verification/Engine.thy ===== *)
theory Engine
  imports CronApi Target RunIdentity
begin

text \<open>
  internal/engine/engine.go: the engine's state and its handlers.  The store, the cron library, the
  time zone database and the network are the fields of an environment \<open>env\<close>.  \<open>now i\<close> is the
  \<open>i\<close>-th reading of the clock in a call.  A handler that holds \<open>e.mu\<close> is one atomic function;
  \<open>Trigger\<close> does not hold it across its steps, so it is composed of the steps
  \<open>triggerLookup\<close>, \<open>triggerCheck\<close>, \<open>triggerSkip\<close>, \<open>triggerStart\<close> and \<open>triggerMark\<close>.
  \<open>en_inflight\<close> holds what the goroutines counted by \<open>e.wg\<close> will execute.
\<close>

named_theorems engine_defs \<open>the functions on the table of schedules and entries\<close>

section \<open>State and environment\<close>

record ('s, 'q, 'c, 'k) Env =
  ev_store :: "'s Store"
  ev_cron :: "('c, 'q) CronApi"
  ev_loadLocation :: "string \<Rightarrow> location result"
  ev_net :: "'k Network"

type_synonym LogEntry = "string \<times> (string \<times> any) list"

record ('s, 'q) Engine =
  en_cfg :: Config
  en_store :: 's
  en_cron :: 'q
  en_schedules :: "string \<rightharpoonup> ScheduleConfig"
  en_entryIDs :: "string \<rightharpoonup> EntryID"
  en_lastRunPrune :: go_time
  en_runPruneEvery :: duration
  en_runPruneEveryN :: int
  en_runsSincePrune :: int
  en_inflight :: "(ScheduleConfig \<times> Run) list"
  en_log :: "LogEntry list"

type_synonym err = "go_error option"

definition onStore :: "('s \<Rightarrow> 'a \<times> 's) \<Rightarrow> ('s, 'q) Engine \<Rightarrow> 'a \<times> ('s, 'q) Engine" where
  "onStore f e = (case f (en_store e) of (r, s') \<Rightarrow> (r, e\<lparr>en_store := s'\<rparr>))"

definition logLine :: "string \<Rightarrow> (string \<times> any) list \<Rightarrow> ('s, 'q) Engine \<Rightarrow> ('s, 'q) Engine" where
  "logLine msg attrs e = e\<lparr>en_log := en_log e @ [(msg, attrs)]\<rparr>"

section \<open>Schedules and cron entries\<close>

definition removeEntryLocked ::
    "('s, 'q, 'c, 'k) Env \<Rightarrow> string \<Rightarrow> ('s, 'q) Engine \<Rightarrow> ('s, 'q) Engine" where
  "removeEntryLocked env name e =
     (case en_entryIDs e name of None \<Rightarrow> e
      | Some i \<Rightarrow> e\<lparr>en_cron := ca_Remove (ev_cron env) i (en_cron e),
                    en_entryIDs := (en_entryIDs e)(name := None)\<rparr>)"

definition removeScheduleLocked ::
    "('s, 'q, 'c, 'k) Env \<Rightarrow> string \<Rightarrow> ('s, 'q) Engine \<Rightarrow> ('s, 'q) Engine" where
  "removeScheduleLocked env name e =
     (let e = removeEntryLocked env name e in e\<lparr>en_schedules := (en_schedules e)(name := None)\<rparr>)"

definition registerScheduleLocked ::
    "('s, 'q, 'c, 'k) Env \<Rightarrow> go_time \<Rightarrow> go_time \<Rightarrow> ScheduleConfig \<Rightarrow> ('s, 'q) Engine \<Rightarrow> err \<times> ('s, 'q) Engine" where
  "registerScheduleLocked env now1 now2 s e0 =
     (let e = removeEntryLocked env (sc_Name s) e0 in
      if sc_Paused s then (None, e)
      else if sc_ScheduleType s = ''once'' \<and> sc_CompletedAt s \<noteq> None then (None, e)
      else (case cronSchedule (ca_Parse (ev_cron env)) (ev_loadLocation env) now1 now2 s of
          Inl err \<Rightarrow> (Some err, e)
        | Inr c \<Rightarrow>
            (case ca_ScheduleJob (ev_cron env) c s (en_cron e) of
              (Inl err, q) \<Rightarrow> (Some err, e\<lparr>en_cron := q\<rparr>)
            | (Inr i, q) \<Rightarrow> (None, e\<lparr>en_cron := q, en_entryIDs := (en_entryIDs e)(sc_Name s \<mapsto> i)\<rparr>))))"

definition registerSchedule ::
    "('s, 'q, 'c, 'k) Env \<Rightarrow> go_time \<Rightarrow> go_time \<Rightarrow> ScheduleConfig \<Rightarrow> ('s, 'q) Engine \<Rightarrow> err \<times> ('s, 'q) Engine" where
  "registerSchedule env now1 now2 s0 e =
     (let s = NormalizeSchedule s0 in
      case validateSchedule (ca_Parse (ev_cron env)) (ev_loadLocation env) s (cfg_Faktory (en_cfg e)) of
        Inl err \<Rightarrow> (Some err, e)
      | Inr _ \<Rightarrow>
          (case registerScheduleLocked env now1 now2 s (e\<lparr>en_schedules := (en_schedules e)(sc_Name s \<mapsto> s)\<rparr>) of
            (Some err, e) \<Rightarrow> (Some err, e\<lparr>en_schedules := (en_schedules e)(sc_Name s := None)\<rparr>)
          | (None, e) \<Rightarrow> (None, e)))"

text \<open>
  \<open>SaveSchedule\<close>: the guards, the store, the table.  \<open>originalName\<close> is empty for a new
  schedule.
\<close>

definition saveTarget ::
    "('s, 'q) Engine \<Rightarrow> string \<Rightarrow> ScheduleConfig \<Rightarrow> (ScheduleConfig \<times> ScheduleConfig option) result" where
  "saveTarget e originalName s =
     bindE (if originalName \<noteq> []
            then (case en_schedules e originalName of
                None \<Rightarrow> Inl (ConfigError (''schedule not found: '' @ originalName))
              | Some old \<Rightarrow> Inr
                  (if sc_ScheduleType s = ''once'' \<and> sc_ScheduleType old = ''once'' \<and> sc_RunAt s = sc_RunAt old
                      \<and> sc_Timezone s = sc_Timezone old \<and> sc_CompletedAt s = None
                   then s\<lparr>sc_CompletedAt := sc_CompletedAt old\<rparr> else s, Some old))
            else Inr (s, None)) (\<lambda>(s, old).
       if (originalName = [] \<or> originalName \<noteq> sc_Name s) \<and> en_schedules e (sc_Name s) \<noteq> None
       then Inl (ConfigError (''schedule already exists: '' @ sc_Name s))
       else Inr (s, old))"

definition storeSchedule ::
    "('s, 'q, 'c, 'k) Env \<Rightarrow> string \<Rightarrow> ScheduleConfig \<Rightarrow> ScheduleConfig option \<Rightarrow> ('s, 'q) Engine \<Rightarrow>
     err \<times> ('s, 'q) Engine" where
  "storeSchedule env originalName s old e =
     (case onStore (so_SaveSchedule (ev_store env) s) e of
        (Inl err, e) \<Rightarrow> (Some err, e)
      | (Inr _, e) \<Rightarrow>
          if originalName \<noteq> [] \<and> originalName \<noteq> sc_Name s
          then (case onStore (so_DeleteSchedule (ev_store env) originalName) e of
              (Inl err, e) \<Rightarrow>
                (let e = snd (onStore (so_DeleteSchedule (ev_store env) (sc_Name s)) e);
                     e = snd (onStore (so_SaveSchedule (ev_store env)
                                (case old of Some o' \<Rightarrow> o' | None \<Rightarrow> zeroSchedule)) e)
                 in (Some err, e))
            | (Inr _, e) \<Rightarrow> (None, e))
          else (None, e))"

definition swapSchedule ::
    "('s, 'q, 'c, 'k) Env \<Rightarrow> (nat \<Rightarrow> go_time) \<Rightarrow> string \<Rightarrow> ScheduleConfig \<Rightarrow> ScheduleConfig option \<Rightarrow>
     ('s, 'q) Engine \<Rightarrow> err \<times> ('s, 'q) Engine" where
  "swapSchedule env now originalName s old e =
     (let e = (if originalName \<noteq> [] \<and> originalName \<noteq> sc_Name s then removeScheduleLocked env originalName e else e);
          e = removeScheduleLocked env (sc_Name s) e
      in case registerSchedule env (now 0) (now 1) s e of
           (None, e) \<Rightarrow> (None, e)
         | (Some err, e) \<Rightarrow>
             (let e = removeScheduleLocked env (sc_Name s) e;
                  e = snd (onStore (so_DeleteSchedule (ev_store env) (sc_Name s)) e)
              in case old of
                   None \<Rightarrow> (Some err, e)
                 | Some o' \<Rightarrow>
                     (let e = snd (onStore (so_SaveSchedule (ev_store env) o') e);
                          e = snd (registerSchedule env (now 2) (now 3) o' e)
                      in (Some err, e))))"

definition SaveSchedule ::
    "('s, 'q, 'c, 'k) Env \<Rightarrow> (nat \<Rightarrow> go_time) \<Rightarrow> string \<Rightarrow> ScheduleConfig \<Rightarrow> ('s, 'q) Engine \<Rightarrow> err \<times> ('s, 'q) Engine" where
  "SaveSchedule env now originalName s0 e =
     (let s1 = NormalizeSchedule s0 in
      case validateSchedule (ca_Parse (ev_cron env)) (ev_loadLocation env) s1 (cfg_Faktory (en_cfg e)) of
        Inl err \<Rightarrow> (Some err, e)
      | Inr _ \<Rightarrow>
          (case saveTarget e originalName s1 of
             Inl err \<Rightarrow> (Some err, e)
           | Inr (s, old) \<Rightarrow>
               (case storeSchedule env originalName s old e of
                  (Some err, e) \<Rightarrow> (Some err, e)
                | (None, e) \<Rightarrow> swapSchedule env now originalName s old e)))"

definition DeleteSchedule ::
    "('s, 'q, 'c, 'k) Env \<Rightarrow> string \<Rightarrow> ('s, 'q) Engine \<Rightarrow> err \<times> ('s, 'q) Engine" where
  "DeleteSchedule env name e =
     (case en_schedules e name of
        None \<Rightarrow> (Some (ConfigError (''schedule not found: '' @ name)), e)
      | Some _ \<Rightarrow>
          (case onStore (so_DeleteSchedule (ev_store env) name) (removeScheduleLocked env name e) of
             (Inl err, e) \<Rightarrow> (Some err, e) | (Inr _, e) \<Rightarrow> (None, e)))"

definition TogglePause ::
    "('s, 'q, 'c, 'k) Env \<Rightarrow> (nat \<Rightarrow> go_time) \<Rightarrow> string \<Rightarrow> ('s, 'q) Engine \<Rightarrow> (bool \<times> err) \<times> ('s, 'q) Engine" where
  "TogglePause env now name e =
     (case en_schedules e name of
        None \<Rightarrow> ((False, Some (ConfigError (''schedule not found: '' @ name))), e)
      | Some s0 \<Rightarrow>
          (let s = s0\<lparr>sc_Paused := \<not> sc_Paused s0\<rparr> in
           case onStore (so_SaveSchedule (ev_store env) s) e of
             (Inl err, e) \<Rightarrow> ((False, Some err), e)
           | (Inr _, e) \<Rightarrow>
               if sc_Paused s
               then (let e = removeEntryLocked env name e
                     in ((True, None), e\<lparr>en_schedules := (en_schedules e)(name \<mapsto> s)\<rparr>))
               else (case registerScheduleLocked env (now 0) (now 1) s e of
                   (Some err, e) \<Rightarrow>
                     (let s = s\<lparr>sc_Paused := True\<rparr>;
                          e = snd (onStore (so_SaveSchedule (ev_store env) s) e)
                      in ((True, Some err), e\<lparr>en_schedules := (en_schedules e)(name \<mapsto> s)\<rparr>))
                 | (None, e) \<Rightarrow> ((False, None), e\<lparr>en_schedules := (en_schedules e)(name \<mapsto> s)\<rparr>))))"

definition Schedules ::
    "('s, 'q, 'c, 'k) Env \<Rightarrow> string list \<Rightarrow> ('s, 'q) Engine \<Rightarrow> ScheduleConfig list" where
  "Schedules env ord e =
     sort_key sc_Name (map (\<lambda>(k, s).
       case en_entryIDs e (sc_Name s) of None \<Rightarrow> s
       | Some i \<Rightarrow> (case ca_Entry (ev_cron env) (en_cron e) i of (next, prev) \<Rightarrow>
           s\<lparr>sc_NextRun := next, sc_PreviousRun := prev\<rparr>)) (visit (en_schedules e) ord))"

section \<open>Pruning\<close>

definition enginePruneRuns ::
    "('s, 'q, 'c, 'k) Env \<Rightarrow> go_time \<Rightarrow> ('s, 'q) Engine \<Rightarrow> err \<times> ('s, 'q) Engine" where
  "enginePruneRuns env now e =
     (case onStore (so_PruneRuns (ev_store env) (cfg_RunRetention (en_cfg e)) now) e of
        (Inl err, e) \<Rightarrow> (Some err, e)
      | (Inr res, e) \<Rightarrow>
          (None, if 0 < rt_Deleted res
                 then logLine ''pruned run log'' [(''deleted'', AnyInt (rt_Deleted res)), (''kept'', AnyInt (rt_Kept res))] e
                 else e))"

definition markRunPruned :: "go_time \<Rightarrow> ('s, 'q) Engine \<Rightarrow> ('s, 'q) Engine" where
  "markRunPruned now e = e\<lparr>en_lastRunPrune := now, en_runsSincePrune := 0\<rparr>"

definition pruneDue :: "go_time \<Rightarrow> ('s, 'q) Engine \<Rightarrow> bool" where
  "pruneDue now e \<longleftrightarrow> en_lastRunPrune e = zeroTime \<or>
     sint (en_runPruneEvery e) \<le> sint (timeSub now (en_lastRunPrune e)) \<or>
     en_runPruneEveryN e \<le> en_runsSincePrune e"

definition maybePruneRuns ::
    "('s, 'q, 'c, 'k) Env \<Rightarrow> go_time \<Rightarrow> go_time \<Rightarrow> ('s, 'q) Engine \<Rightarrow> ('s, 'q) Engine" where
  "maybePruneRuns env now1 now2 e0 =
     (let e = e0\<lparr>en_runsSincePrune := en_runsSincePrune e0 + 1\<rparr> in
      if pruneDue now1 e
      then (case enginePruneRuns env now2 (markRunPruned now1 e) of
          (None, e) \<Rightarrow> e
        | (Some err, e) \<Rightarrow> logLine ''prune run log'' [(''error'', AnyString (Error err))] e)
      else e)"

section \<open>The run event log\<close>

definition lookupAny :: "string \<Rightarrow> (string \<times> any) list option \<Rightarrow> any option" where
  "lookupAny k m = (case m of None \<Rightarrow> None | Some kvs \<Rightarrow> map_of kvs k)"

definition runSummaryOutputAttrs :: "Run \<Rightarrow> (string \<times> any) list" where
  "runSummaryOutputAttrs r =
     (if r_TargetType r = ''http'' then
        (case lookupAny ''status_code'' (r_StructuredOutput r) of
           Some c \<Rightarrow> [(''http_status_code'', c)] | None \<Rightarrow> [])
      else if r_TargetType r = ''faktory'' then
        List.map_filter (\<lambda>f. map_option (Pair f) (lookupAny f (r_StructuredOutput r)))
          [''provider'', ''jid'', ''queue'', ''job_type'']
      else [])"

text \<open>\<open>Milliseconds\<close> truncates towards zero.\<close>

definition runEventAttrs :: "string \<Rightarrow> Run \<Rightarrow> (string \<times> any) list" where
  "runEventAttrs stdout r =
     [(''run_id'', AnyString (r_ID r)), (''schedule'', AnyString (r_ScheduleName r)),
      (''target_type'', AnyString (r_TargetType r)), (''triggered_by'', AnyString (r_TriggeredBy r)),
      (''status'', AnyString (r_Status r)), (''scheduled_at'', AnyTime (r_ScheduledAt r)),
      (''started_at'', AnyTime (r_StartedAt r))]
     @ (case r_FinishedAt r of None \<Rightarrow> []
        | Some f \<Rightarrow> [(''finished_at'', AnyTime f),
                     (''duration_ms'', AnyInt (sint (timeSub f (r_StartedAt r)) sdiv 1000000))])
     @ (if r_Error r \<noteq> [] then [(''error'', AnyString (r_Error r))] else [])
     @ runSummaryOutputAttrs r
     @ (if stdout = ''full'' \<and> r_StructuredOutput r \<notin> {None, Some []}
        then [(''structured_output'', AnyMap (the (r_StructuredOutput r)))] else [])"

definition logRunEvent :: "Run \<Rightarrow> ('s, 'q) Engine \<Rightarrow> ('s, 'q) Engine" where
  "logRunEvent r e =
     (if rl_Stdout (cfg_RunLogging (en_cfg e)) = ''off'' then e
      else logLine ''run event'' (runEventAttrs (rl_Stdout (cfg_RunLogging (en_cfg e))) r) e)"

section \<open>Triggering\<close>

definition markOneTimeCompleted ::
    "('s, 'q, 'c, 'k) Env \<Rightarrow> go_time \<Rightarrow> string \<Rightarrow> ('s, 'q) Engine \<Rightarrow> err \<times> ('s, 'q) Engine" where
  "markOneTimeCompleted env now name e =
     (case en_schedules e name of
        None \<Rightarrow> (Some (ConfigError (''schedule not found: '' @ name)), e)
      | Some s0 \<Rightarrow>
          if sc_ScheduleType s0 \<noteq> ''once'' \<or> sc_CompletedAt s0 \<noteq> None then (None, e)
          else (let s = s0\<lparr>sc_CompletedAt := Some now\<rparr> in
             case onStore (so_SaveSchedule (ev_store env) s) e of
               (Inl err, e) \<Rightarrow> (Some err, e)
             | (Inr _, e) \<Rightarrow>
                 (None, removeEntryLocked env name (e\<lparr>en_schedules := (en_schedules e)(name \<mapsto> s)\<rparr>))))"

definition skippedError :: string where
  "skippedError = ''skipped because a previous run is still running''"

definition newRun :: "ScheduleConfig \<Rightarrow> string \<Rightarrow> go_time \<Rightarrow> go_time \<Rightarrow> Run" where
  "newRun s by at started =
     \<lparr>r_ID = runID (sc_Name s) by at, r_ScheduleName = sc_Name s, r_TargetType = tc_Type (sc_Target s),
      r_TriggeredBy = by, r_Status = RunRunning, r_ScheduledAt = at, r_StartedAt = started,
      r_FinishedAt = None, r_StructuredOutput = None, r_Error = []\<rparr>"

definition skippedRun :: "ScheduleConfig \<Rightarrow> string \<Rightarrow> go_time \<Rightarrow> go_time \<Rightarrow> go_time \<Rightarrow> Run" where
  "skippedRun s by at started finished =
     (newRun s by at started)\<lparr>r_Status := RunSkipped, r_FinishedAt := Some finished, r_Error := skippedError\<rparr>"

definition triggerLookup :: "string \<Rightarrow> ('s, 'q) Engine \<Rightarrow> ScheduleConfig result" where
  "triggerLookup name e =
     (case en_schedules e name of
        None \<Rightarrow> Inl (ConfigError (''schedule not found: '' @ name)) | Some s \<Rightarrow> Inr s)"

text \<open>Whether the trigger is skipped.\<close>

definition triggerCheck :: "('s, 'q, 'c, 'k) Env \<Rightarrow> ScheduleConfig \<Rightarrow> ('s, 'q) Engine \<Rightarrow> bool result" where
  "triggerCheck env s e =
     (if \<not> AllowsConcurrentRuns s then so_HasRunningRun (ev_store env) (sc_Name s) (en_store e)
      else Inr False)"

type_synonym trigger_result = "Run \<times> err"

definition triggerSkip ::
    "('s, 'q, 'c, 'k) Env \<Rightarrow> (nat \<Rightarrow> go_time) \<Rightarrow> ScheduleConfig \<Rightarrow> string \<Rightarrow> go_time \<Rightarrow> ('s, 'q) Engine \<Rightarrow>
     trigger_result \<times> ('s, 'q) Engine" where
  "triggerSkip env now s by at e =
     (let r = skippedRun s by at (now 0) (now 1) in
      case onStore (so_SaveRun (ev_store env) r) e of
        (Inl err, e) \<Rightarrow> ((zeroRun, Some err), e)
      | (Inr _, e) \<Rightarrow> ((r, None), maybePruneRuns env (now 2) (now 3) (logRunEvent r e)))"

definition triggerStart ::
    "('s, 'q, 'c, 'k) Env \<Rightarrow> go_time \<Rightarrow> ScheduleConfig \<Rightarrow> string \<Rightarrow> go_time \<Rightarrow> ('s, 'q) Engine \<Rightarrow>
     Run result \<times> ('s, 'q) Engine" where
  "triggerStart env now s by at e =
     (let r = newRun s by at now in
      case onStore (so_SaveRun (ev_store env) r) e of
        (Inl err, e) \<Rightarrow> (Inl err, e) | (Inr _, e) \<Rightarrow> (Inr r, e))"

text \<open>After the run is stored: completion of a one-time schedule, then the goroutine.\<close>

definition triggerMark ::
    "('s, 'q, 'c, 'k) Env \<Rightarrow> go_time \<Rightarrow> ScheduleConfig \<Rightarrow> Run \<Rightarrow> ('s, 'q) Engine \<Rightarrow> ('s, 'q) Engine" where
  "triggerMark env now s r e =
     (let e = (if sc_ScheduleType s = ''once'' \<and> r_TriggeredBy r = ''scheduler''
               then (case markOneTimeCompleted env now (sc_Name s) e of
                   (None, e) \<Rightarrow> e
                 | (Some err, e) \<Rightarrow> logLine ''mark one-time schedule complete''
                     [(''schedule'', AnyString (sc_Name s)), (''run_id'', AnyString (r_ID r)),
                      (''error'', AnyString (Error err))] e)
               else e)
      in e\<lparr>en_inflight := (s, r) # en_inflight e\<rparr>)"

definition Trigger ::
    "('s, 'q, 'c, 'k) Env \<Rightarrow> (nat \<Rightarrow> go_time) \<Rightarrow> string \<Rightarrow> string \<Rightarrow> go_time \<Rightarrow> ('s, 'q) Engine \<Rightarrow>
     trigger_result \<times> ('s, 'q) Engine" where
  "Trigger env now name by at e =
     (case triggerLookup name e of
        Inl err \<Rightarrow> ((zeroRun, Some err), e)
      | Inr s \<Rightarrow>
          (case triggerCheck env s e of
             Inl err \<Rightarrow> ((zeroRun, Some err), e)
           | Inr True \<Rightarrow> triggerSkip env now s by at e
           | Inr False \<Rightarrow>
               (case triggerStart env (now 0) s by at e of
                  (Inl err, e) \<Rightarrow> ((zeroRun, Some err), e)
                | (Inr r, e) \<Rightarrow> ((r, None), triggerMark env (now 1) s r e))))"

definition TriggerManual ::
    "('s, 'q, 'c, 'k) Env \<Rightarrow> (nat \<Rightarrow> go_time) \<Rightarrow> string \<Rightarrow> ('s, 'q) Engine \<Rightarrow> trigger_result \<times> ('s, 'q) Engine" where
  "TriggerManual env now name e =
     (case en_schedules e name of
        None \<Rightarrow> ((zeroRun, Some (ConfigError (''schedule not found: '' @ name))), e)
      | Some s \<Rightarrow>
          if sc_Paused s then ((zeroRun, Some (ConfigError (''cannot run paused job: '' @ name))), e)
          else Trigger env (\<lambda>i. now (i + 1)) name ''manual'' (now 0) e)"

text \<open>The job of a cron entry, run by the library: \<open>scheduleCopy\<close> is what the closure captured.\<close>

definition cronJob ::
    "('s, 'q, 'c, 'k) Env \<Rightarrow> (nat \<Rightarrow> go_time) \<Rightarrow> ScheduleConfig \<Rightarrow> ('s, 'q) Engine \<Rightarrow> trigger_result \<times> ('s, 'q) Engine" where
  "cronJob env now scheduleCopy e =
     Trigger env (\<lambda>i. now (i + 1)) (sc_Name scheduleCopy) ''scheduler''
       (scheduledAtForSchedule (ev_loadLocation env) scheduleCopy (now 0)) e"

section \<open>Executing\<close>

text \<open>A positive timeout leaves that time; any other has expired at once.\<close>

definition runContext :: "duration \<Rightarrow> Context" where
  "runContext timeout =
     \<lparr>cx_Err = (if 0 < sint timeout then None else Some (External ''context deadline exceeded'')),
      cx_Left = Some timeout\<rparr>"

definition finishedRun :: "Run \<Rightarrow> TargetResult \<times> err \<Rightarrow> go_time \<Rightarrow> Run" where
  "finishedRun r outcome finished =
     (case outcome of
        (out, None) \<Rightarrow> r\<lparr>r_FinishedAt := Some finished, r_StructuredOutput := out, r_Status := RunSucceeded\<rparr>
      | (out, Some err) \<Rightarrow> r\<lparr>r_FinishedAt := Some finished, r_StructuredOutput := out, r_Status := RunFailed,
                             r_Error := Error err\<rparr>)"

definition executeRun ::
    "('s, 'q, 'c, 'k) Env \<Rightarrow> (nat \<Rightarrow> go_time) \<Rightarrow> ScheduleConfig \<Rightarrow> Run \<Rightarrow> ('s, 'q) Engine \<Rightarrow> ('s, 'q) Engine" where
  "executeRun env now s r0 e =
     (let outcome = TriggerTarget (ev_net env) (runContext (sc_Timeout s)) s r0 (cfg_Faktory (en_cfg e));
          r = finishedRun r0 outcome (now 0);
          about = [(''schedule'', AnyString (r_ScheduleName r)), (''run_id'', AnyString (r_ID r))];
          e = (case snd outcome of
                 None \<Rightarrow> logLine ''run succeeded'' about e
               | Some err \<Rightarrow> logLine ''run failed'' (about @ [(''error'', AnyString (Error err))]) e);
          e = (case onStore (so_UpdateRun (ev_store env) r) e of
                 (Inr _, e) \<Rightarrow> e
               | (Inl err, e) \<Rightarrow> logLine ''update run'' [(''run_id'', AnyString (r_ID r)), (''error'', AnyString (Error err))] e);
          e = maybePruneRuns env (now 1) (now 2) (logRunEvent r e)
      in e\<lparr>en_inflight := remove1 (s, r0) (en_inflight e)\<rparr>)"

section \<open>The remaining handlers and the constructor\<close>

definition Runs :: "('s, 'q, 'c, 'k) Env \<Rightarrow> int \<Rightarrow> ('s, 'q) Engine \<Rightarrow> Run list result" where
  "Runs env limit e = so_ListRuns (ev_store env) limit (en_store e)"

definition ClearRuns :: "('s, 'q, 'c, 'k) Env \<Rightarrow> ('s, 'q) Engine \<Rightarrow> unit result \<times> ('s, 'q) Engine" where
  "ClearRuns env e = onStore (so_ClearRuns (ev_store env)) e"

definition engineFaktoryQueues ::
    "('s, 'q, 'c, 'k) Env \<Rightarrow> Context \<Rightarrow> string \<Rightarrow> ('s, 'q) Engine \<Rightarrow> string list result" where
  "engineFaktoryQueues env ctx instanceName e =
     (case FindFaktoryInstance (en_cfg e) instanceName of
        (inst, True) \<Rightarrow> FaktoryQueues (ev_net env) ctx inst
      | (inst, False) \<Rightarrow> Inl (ConfigError (''unknown faktory instance: '' @ instanceName)))"

fun registerAll ::
    "('s, 'q, 'c, 'k) Env \<Rightarrow> (nat \<Rightarrow> go_time) \<Rightarrow> ScheduleConfig list \<Rightarrow> ('s, 'q) Engine \<Rightarrow> err \<times> ('s, 'q) Engine" where
  "registerAll env now [] e = (None, e)"
| "registerAll env now (s # ss) e =
     (case registerSchedule env (now 0) (now 1) s e of
        (Some err, e) \<Rightarrow> (Some err, e)
      | (None, e) \<Rightarrow> registerAll env (\<lambda>i. now (i + 2)) ss e)"

fun seedSchedules ::
    "('s, 'q, 'c, 'k) Env \<Rightarrow> ScheduleConfig list \<Rightarrow> ('s, 'q) Engine \<Rightarrow> err \<times> ('s, 'q) Engine" where
  "seedSchedules env [] e = (None, e)"
| "seedSchedules env (s # ss) e =
     (case onStore (so_SaveSchedule (ev_store env) s) e of
        (Inl err, e) \<Rightarrow> (Some err, e) | (Inr _, e) \<Rightarrow> seedSchedules env ss e)"

text \<open>
  \<open>store0\<close> and \<open>cron0\<close> are the opened store and the new cron instance.  A failing start may have
  written to the store: the second component is the store it leaves.
\<close>

definition newEngine :: "Config \<Rightarrow> 's \<Rightarrow> 'q \<Rightarrow> ('s, 'q) Engine" where
  "newEngine cfg store0 cron0 =
     \<lparr>en_cfg = cfg, en_store = store0, en_cron = cron0, en_schedules = Map.empty, en_entryIDs = Map.empty,
      en_lastRunPrune = zeroTime, en_runPruneEvery = 5 * Minute, en_runPruneEveryN = 100,
      en_runsSincePrune = 0, en_inflight = [], en_log = []\<rparr>"

definition NewEngine ::
    "('s, 'q, 'c, 'k) Env \<Rightarrow> (nat \<Rightarrow> go_time) \<Rightarrow> Config \<Rightarrow> 's \<Rightarrow> 'q \<Rightarrow> ('s, 'q) Engine result \<times> 's" where
  "NewEngine env now cfg0 store0 cron0 =
     (let cfg = ApplyDefaults cfg0 in
      case bindE (ValidateRunRetention (cfg_RunRetention cfg)) (\<lambda>_.
           bindE (ValidateRunLogging (cfg_RunLogging cfg)) (\<lambda>_. so_ListSchedules (ev_store env) store0)) of
        Inl err \<Rightarrow> (Inl err, store0)
      | Inr stored \<Rightarrow>
          (case (if stored = [] \<and> cfg_Schedules cfg \<noteq> []
                 then (seedSchedules env (cfg_Schedules cfg) (newEngine cfg store0 cron0), cfg_Schedules cfg)
                 else ((None, newEngine cfg store0 cron0), stored)) of
             ((Some err, e), _) \<Rightarrow> (Inl err, en_store e)
           | ((None, e), schedules) \<Rightarrow>
               (case enginePruneRuns env (now 0) e of
                  (Some err, e) \<Rightarrow> (Inl err, en_store e)
                | (None, e) \<Rightarrow>
                    (case registerAll env (\<lambda>i. now (i + 2)) schedules (markRunPruned (now 1) e) of
                       (Some err, e) \<Rightarrow> (Inl err, en_store e)
                     | (None, e) \<Rightarrow> (Inr e, en_store e)))))"

end
