(* ===== verification/EngineTable.thy ===== *)
theory EngineTable
  imports Engine
begin

text \<open>
  The engine's table of schedules and cron entries.  The invariant says that the library holds
  exactly one entry for every active schedule and none for any other, that the entry's closure has
  captured the schedule as it is now, and that every schedule in the table is valid.  Every handler
  keeps it, whatever fails in it.
\<close>

section \<open>The invariant\<close>

definition activeSchedule :: "ScheduleConfig \<Rightarrow> bool" where
  "activeSchedule s \<longleftrightarrow> \<not> sc_Paused s \<and> \<not> (sc_ScheduleType s = ''once'' \<and> sc_CompletedAt s \<noteq> None)"

definition validEntry :: "('s, 'q, 'c, 'k) Env \<Rightarrow> Config \<Rightarrow> ScheduleConfig \<Rightarrow> bool" where
  "validEntry env cfg s \<longleftrightarrow> normalised s \<and>
     isOk (validateSchedule (ca_Parse (ev_cron env)) (ev_loadLocation env) s (cfg_Faktory cfg))"

lemma validEntry_iff:
  "validEntry env cfg s \<longleftrightarrow> normalised s \<and> instancesOk (cfg_Faktory cfg) \<and>
     scheduleOk (ev_loadLocation env) (fi_Name ` set (cfg_Faktory cfg)) s \<and>
     (sc_ScheduleType s = ''cron'' \<longrightarrow> isOk (ca_Parse (ev_cron env) (cronSpec s)))"
proof (cases "normalised s")
  case True
  then have n: "NormalizeSchedule s = s" by (rule NormalizeSchedule_id)
  show ?thesis unfolding validEntry_def validateSchedule_iff n using True by simp
qed (simp add: validEntry_def)

lemma scheduleOk_updates [simp]:
  "scheduleOk loc insts (s\<lparr>sc_Paused := b\<rparr>) = scheduleOk loc insts s"
  "scheduleOk loc insts (s\<lparr>sc_CompletedAt := t\<rparr>) = scheduleOk loc insts s"
  "cronSpec (s\<lparr>sc_Paused := b\<rparr>) = cronSpec s" "cronSpec (s\<lparr>sc_CompletedAt := t\<rparr>) = cronSpec s"
  by (simp_all add: scheduleOk_def timingOk_def cronSpec_def)

lemma validEntry_updates [simp]:
  "validEntry env cfg (s\<lparr>sc_Paused := b\<rparr>) = validEntry env cfg s"
  "validEntry env cfg (s\<lparr>sc_CompletedAt := t\<rparr>) = validEntry env cfg s"
  by (simp_all add: validEntry_iff)

lemma validEntry_normalised: "validEntry env cfg s \<Longrightarrow> NormalizeSchedule s = s"
  by (simp add: validEntry_def NormalizeSchedule_id)

lemma validEntry_plainKey: "validEntry env cfg s \<Longrightarrow> plainKey (sc_Name s)"
  by (simp add: validEntry_iff scheduleOk_def nameOk_plainKey)

lemma validEntry_validate:
  "isOk (validateSchedule (ca_Parse (ev_cron env)) (ev_loadLocation env) s0 (cfg_Faktory cfg)) \<Longrightarrow>
   validEntry env cfg (NormalizeSchedule s0)"
  by (simp add: validEntry_def normalised_NormalizeSchedule)

text \<open>Over the names other than \<open>n\<close>, with the identifiers tied to the entries for all names.\<close>

definition tableBut ::
    "('s, 'q, 'c, 'k) Env \<Rightarrow> ('q \<Rightarrow> (EntryID \<rightharpoonup> 'c Schedule \<times> ScheduleConfig)) \<Rightarrow> string set \<Rightarrow> ('s, 'q) Engine \<Rightarrow> bool" where
  "tableBut env entries N e \<longleftrightarrow>
     (\<forall>k i. en_entryIDs e k = Some i \<longleftrightarrow> (\<exists>c s. entries (en_cron e) i = Some (c, s) \<and> sc_Name s = k)) \<and>
     (\<forall>k s. k \<notin> N \<and> en_schedules e k = Some s \<longrightarrow> sc_Name s = k \<and> validEntry env (en_cfg e) s) \<and>
     (\<forall>i c s. entries (en_cron e) i = Some (c, s) \<and> sc_Name s \<notin> N \<longrightarrow>
        en_schedules e (sc_Name s) = Some s \<and> activeSchedule s) \<and>
     (\<forall>k s. k \<notin> N \<and> en_schedules e k = Some s \<and> activeSchedule s \<longrightarrow> en_entryIDs e k \<noteq> None)"

lemma tableI:
  assumes "\<And>k i. en_entryIDs e k = Some i \<longleftrightarrow> (\<exists>c s. entries (en_cron e) i = Some (c, s) \<and> sc_Name s = k)"
    and "\<And>k s. k \<notin> N \<Longrightarrow> en_schedules e k = Some s \<Longrightarrow> sc_Name s = k \<and> validEntry env (en_cfg e) s"
    and "\<And>i c s. entries (en_cron e) i = Some (c, s) \<Longrightarrow> sc_Name s \<notin> N \<Longrightarrow>
      en_schedules e (sc_Name s) = Some s \<and> activeSchedule s"
    and "\<And>k s. k \<notin> N \<Longrightarrow> en_schedules e k = Some s \<Longrightarrow> activeSchedule s \<Longrightarrow> en_entryIDs e k \<noteq> None"
  shows "tableBut env entries N e"
  unfolding tableBut_def using assms by (intro conjI allI impI; blast)

lemma tableD:
  assumes "tableBut env entries N e"
  shows "en_entryIDs e k = Some i \<longleftrightarrow> (\<exists>c s. entries (en_cron e) i = Some (c, s) \<and> sc_Name s = k)"
    and "k \<notin> N \<Longrightarrow> en_schedules e k = Some s \<Longrightarrow> sc_Name s = k \<and> validEntry env (en_cfg e) s"
    and "entries (en_cron e) i = Some (c, s) \<Longrightarrow> sc_Name s \<notin> N \<Longrightarrow>
      en_schedules e (sc_Name s) = Some s \<and> activeSchedule s"
    and "k \<notin> N \<Longrightarrow> en_schedules e k = Some s \<Longrightarrow> activeSchedule s \<Longrightarrow> \<exists>i. en_entryIDs e k = Some i"
proof -
  show "en_entryIDs e k = Some i \<longleftrightarrow> (\<exists>c s. entries (en_cron e) i = Some (c, s) \<and> sc_Name s = k)"
    using assms unfolding tableBut_def by blast
  show "k \<notin> N \<Longrightarrow> en_schedules e k = Some s \<Longrightarrow> sc_Name s = k \<and> validEntry env (en_cfg e) s"
    using assms unfolding tableBut_def by blast
  show "entries (en_cron e) i = Some (c, s) \<Longrightarrow> sc_Name s \<notin> N \<Longrightarrow>
      en_schedules e (sc_Name s) = Some s \<and> activeSchedule s"
    using assms unfolding tableBut_def by blast
  show "k \<notin> N \<Longrightarrow> en_schedules e k = Some s \<Longrightarrow> activeSchedule s \<Longrightarrow> \<exists>i. en_entryIDs e k = Some i"
    using assms unfolding tableBut_def not_None_eq by blast
qed

abbreviation table where "table env entries e \<equiv> tableBut env entries {} e"

lemma tableBut_mono: "tableBut env entries N e \<Longrightarrow> N \<subseteq> M \<Longrightarrow> tableBut env entries M e"
  unfolding tableBut_def by blast

lemma table_frame [simp]:
  "tableBut env entries N (e\<lparr>en_store := s\<rparr>) = tableBut env entries N e"
  "tableBut env entries N (e\<lparr>en_log := l\<rparr>) = tableBut env entries N e"
  "tableBut env entries N (e\<lparr>en_inflight := f\<rparr>) = tableBut env entries N e"
  "tableBut env entries N (e\<lparr>en_lastRunPrune := t\<rparr>) = tableBut env entries N e"
  "tableBut env entries N (e\<lparr>en_runsSincePrune := n\<rparr>) = tableBut env entries N e"
  by (simp_all add: tableBut_def)

lemma table_entries:
  "entries q = entries (en_cron e) \<Longrightarrow> tableBut env entries N (e\<lparr>en_cron := q\<rparr>) = tableBut env entries N e"
  by (simp add: tableBut_def)

definition entryFor :: "ScheduleConfig \<Rightarrow> ('s, 'q) Engine \<Rightarrow> bool" where
  "entryFor s e \<longleftrightarrow> (activeSchedule s \<longleftrightarrow> en_entryIDs e (sc_Name s) \<noteq> None)"

lemma tableD_valid: "table env entries e \<Longrightarrow> en_schedules e k = Some s \<Longrightarrow> sc_Name s = k \<and> validEntry env (en_cfg e) s"
  unfolding tableBut_def by blast

text \<open>An engine that differs only in the cron state and the identifiers.\<close>

definition cronOnly :: "('s, 'q) Engine \<Rightarrow> ('s, 'q) Engine \<Rightarrow> bool" where
  "cronOnly e e' \<longleftrightarrow> (\<exists>q ids. e' = e\<lparr>en_cron := q, en_entryIDs := ids\<rparr>)"

lemma cronOnly_refl [simp]: "cronOnly e e"
  unfolding cronOnly_def by (rule exI [of _ "en_cron e"], rule exI [of _ "en_entryIDs e"]) simp

lemma cronOnly_upd [simp]: "cronOnly e (e\<lparr>en_cron := q\<rparr>)" "cronOnly e (e\<lparr>en_cron := q, en_entryIDs := ids\<rparr>)"
proof -
  have "e\<lparr>en_cron := q\<rparr> = e\<lparr>en_cron := q, en_entryIDs := en_entryIDs e\<rparr>" by simp
  then show "cronOnly e (e\<lparr>en_cron := q\<rparr>)" unfolding cronOnly_def by blast
  show "cronOnly e (e\<lparr>en_cron := q, en_entryIDs := ids\<rparr>)" unfolding cronOnly_def by blast
qed

lemma cronOnly_trans: "cronOnly e e1 \<Longrightarrow> cronOnly e1 e2 \<Longrightarrow> cronOnly e e2"
  unfolding cronOnly_def
proof (elim exE)
  fix q ids q' ids'
  assume "e1 = e\<lparr>en_cron := q, en_entryIDs := ids\<rparr>" "e2 = e1\<lparr>en_cron := q', en_entryIDs := ids'\<rparr>"
  then have "e2 = e\<lparr>en_cron := q', en_entryIDs := ids'\<rparr>" by simp
  then show "\<exists>q ids. e2 = e\<lparr>en_cron := q, en_entryIDs := ids\<rparr>" by blast
qed

lemma cronOnly_fields:
  assumes "cronOnly e e'"
  shows "en_cfg e' = en_cfg e" "en_store e' = en_store e" "en_schedules e' = en_schedules e"
    "en_lastRunPrune e' = en_lastRunPrune e" "en_runsSincePrune e' = en_runsSincePrune e"
    "en_inflight e' = en_inflight e" "en_log e' = en_log e"
    "en_runPruneEvery e' = en_runPruneEvery e" "en_runPruneEveryN e' = en_runPruneEveryN e"
  using assms by (auto simp: cronOnly_def)

section \<open>The steps on one name\<close>

locale cron_table = cron_lib cr entries for cr :: "('c, 'q) CronApi" and entries +
  fixes env :: "('s, 'q, 'c, 'k) Env"
  assumes env_cron: "ev_cron env = cr"
begin

lemma removeEntry_table:
  assumes t: "tableBut env entries N e"
  shows "tableBut env entries (insert n N) (removeEntryLocked env n e)"
    "en_entryIDs (removeEntryLocked env n e) n = None" "cronOnly e (removeEntryLocked env n e)"
proof -
  show "cronOnly e (removeEntryLocked env n e)"
    by (simp add: removeEntryLocked_def split: option.split)
  show "en_entryIDs (removeEntryLocked env n e) n = None"
    by (simp add: removeEntryLocked_def split: option.split)
  show "tableBut env entries (insert n N) (removeEntryLocked env n e)"
  proof (cases "en_entryIDs e n")
    case None
    then have "removeEntryLocked env n e = e" by (simp add: removeEntryLocked_def)
    then show ?thesis using tableBut_mono [OF t, of "insert n N"] by auto
  next
    case (Some i)
    let ?e = "removeEntryLocked env n e"
    have e: "en_entryIDs ?e = (en_entryIDs e)(n := None)" "entries (en_cron ?e) = (entries (en_cron e))(i := None)"
      "en_schedules ?e = en_schedules e" "en_cfg ?e = en_cfg e"
      using Some by (simp_all add: removeEntryLocked_def env_cron Remove_entries)
    show ?thesis
    proof (rule tableI, unfold e)
      fix k j
      show "((en_entryIDs e)(n := None)) k = Some j \<longleftrightarrow>
          (\<exists>c s. ((entries (en_cron e))(i := None)) j = Some (c, s) \<and> sc_Name s = k)"
        using tableD(1) [OF t, of k j] tableD(1) [OF t, of n j] tableD(1) [OF t, of n i] Some by auto
    next
      fix j c s assume "((entries (en_cron e))(i := None)) j = Some (c, s)" "sc_Name s \<notin> insert n N"
      then show "en_schedules e (sc_Name s) = Some s \<and> activeSchedule s"
        using tableD(3) [OF t, of j c s] by (simp split: if_splits)
    qed (use tableD(2,4) [OF t] in \<open>auto\<close>)
  qed
qed

lemma dropSchedule_table:
  assumes t: "tableBut env entries (insert n N) e" and "en_entryIDs e n = None" "en_schedules e n = None"
  shows "tableBut env entries N e"
proof (rule tableI)
  fix i c s assume "entries (en_cron e) i = Some (c, s)" "sc_Name s \<notin> N"
  moreover from this have "sc_Name s \<noteq> n" using tableD(1) [OF t, of n i] assms(2) by auto
  ultimately show "en_schedules e (sc_Name s) = Some s \<and> activeSchedule s" using tableD(3) [OF t] by simp
next
  fix k s assume a: "k \<notin> N" "en_schedules e k = Some s"
  then have k: "k \<noteq> n" using assms(3) by auto
  with a show "sc_Name s = k \<and> validEntry env (en_cfg e) s" using tableD(2) [OF t] by simp
  show "en_entryIDs e k \<noteq> None" if "activeSchedule s" using tableD(4) [OF t, of k s] a k that by simp
qed (rule tableD(1) [OF t])

lemma keepSchedule_table:
  assumes t: "tableBut env entries (insert (sc_Name s) N) e" and f: "entryFor s e"
    and c: "\<And>i c q. entries (en_cron e) i = Some (c, q) \<Longrightarrow> sc_Name q = sc_Name s \<Longrightarrow> q = s"
    and v: "en_schedules e (sc_Name s) = Some s" "validEntry env (en_cfg e) s"
  shows "tableBut env entries N e"
proof (rule tableI)
  fix i d q assume a: "entries (en_cron e) i = Some (d, q)" "sc_Name q \<notin> N"
  show "en_schedules e (sc_Name q) = Some q \<and> activeSchedule q"
  proof (cases "sc_Name q = sc_Name s")
    case True
    then have "q = s" using c a by blast
    moreover have "en_entryIDs e (sc_Name q) = Some i" using tableD(1) [OF t] a by blast
    ultimately show ?thesis using f v(1) by (simp add: entryFor_def)
  next
    case False
    then show ?thesis using tableD(3) [OF t] a by simp
  qed
next
  fix k q assume a: "k \<notin> N" "en_schedules e k = Some q"
  show "sc_Name q = k \<and> validEntry env (en_cfg e) q"
    using tableD(2) [OF t, of k q] a v by (cases "k = sc_Name s") auto
  show "en_entryIDs e k \<noteq> None" if "activeSchedule q"
    using tableD(4) [OF t, of k q] a v(1) f that by (cases "k = sc_Name s") (auto simp: entryFor_def)
qed (rule tableD(1) [OF t])

lemma setSchedule_table:
  assumes t: "tableBut env entries (insert n N) e"
  shows "tableBut env entries (insert n N) (e\<lparr>en_schedules := (en_schedules e)(n := x)\<rparr>)"
proof (rule tableI)
  fix i c s
  assume "entries (en_cron (e\<lparr>en_schedules := (en_schedules e)(n := x)\<rparr>)) i = Some (c, s)" "sc_Name s \<notin> insert n N"
  then show "en_schedules (e\<lparr>en_schedules := (en_schedules e)(n := x)\<rparr>) (sc_Name s) = Some s \<and> activeSchedule s"
    using tableD(3) [OF t, of i c s] by simp
next
  fix k s assume "k \<notin> insert n N" "en_schedules (e\<lparr>en_schedules := (en_schedules e)(n := x)\<rparr>) k = Some s"
  then show "sc_Name s = k \<and> validEntry env (en_cfg (e\<lparr>en_schedules := (en_schedules e)(n := x)\<rparr>)) s"
    "activeSchedule s \<Longrightarrow> en_entryIDs (e\<lparr>en_schedules := (en_schedules e)(n := x)\<rparr>) k \<noteq> None"
    using tableD(2,4) [OF t, of k s] by auto
qed (use tableD(1) [OF t] in \<open>simp\<close>)

lemma noEntry_name:
  "tableBut env entries N e \<Longrightarrow> en_entryIDs e n = None \<Longrightarrow> entries (en_cron e) i = Some (c, q) \<Longrightarrow> sc_Name q \<noteq> n"
  using tableD(1) [of env entries N e n i] by auto

text \<open>
  \<open>registerScheduleLocked\<close>: on success the entry is the one the schedule asks for; on an error
  there is none.
\<close>

lemma registerScheduleLocked_table:
  assumes t: "tableBut env entries N e" and r: "registerScheduleLocked env now1 now2 s e = (err, e')"
  shows "cronOnly e e' \<and> tableBut env entries (insert (sc_Name s) N) e' \<and>
    (case err of None \<Rightarrow> entryFor s e' \<and>
        (\<forall>i c q. entries (en_cron e') i = Some (c, q) \<and> sc_Name q = sc_Name s \<longrightarrow> q = s)
     | Some _ \<Rightarrow> en_entryIDs e' (sc_Name s) = None)"
proof -
  let ?n = "sc_Name s" and ?e = "removeEntryLocked env (sc_Name s) e"
  note rm = removeEntry_table [OF t, of ?n]
  have no: "sc_Name q \<noteq> ?n" if "entries (en_cron ?e) i = Some (c, q)" for i c q
    using noEntry_name [OF rm(1,2) that] .
  let ?cs = "cronSchedule (ca_Parse cr) (ev_loadLocation env) now1 now2 s"
  have r': "(if activeSchedule s
      then (case ?cs of Inl x \<Rightarrow> (Some x, ?e)
          | Inr c \<Rightarrow> (case ca_ScheduleJob cr c s (en_cron ?e) of
              (Inl x, q) \<Rightarrow> (Some x, ?e\<lparr>en_cron := q\<rparr>)
            | (Inr i, q) \<Rightarrow> (None, ?e\<lparr>en_cron := q, en_entryIDs := (en_entryIDs ?e)(?n \<mapsto> i)\<rparr>)))
      else (None, ?e)) = (err, e')"
    using r unfolding registerScheduleLocked_def activeSchedule_def env_cron Let_def
    by (cases "sc_Paused s"; cases "sc_ScheduleType s = ''once'' \<and> sc_CompletedAt s \<noteq> None")
      (simp_all only: if_True if_False simp_thms)
  consider (inactive) "\<not> activeSchedule s" "err = None" "e' = ?e"
    | (spec) x where "activeSchedule s" "err = Some x" "e' = ?e"
    | (job) c where "activeSchedule s"
        "(case ca_ScheduleJob cr c s (en_cron ?e) of
          (Inl x, q) \<Rightarrow> (Some x, ?e\<lparr>en_cron := q\<rparr>)
        | (Inr i, q) \<Rightarrow> (None, ?e\<lparr>en_cron := q, en_entryIDs := (en_entryIDs ?e)(?n \<mapsto> i)\<rparr>)) = (err, e')"
  proof (cases "activeSchedule s")
    case True
    then show ?thesis using r' spec job by (cases ?cs) auto
  next
    case False
    then show ?thesis using r' inactive by simp
  qed
  then show ?thesis
  proof cases
    case inactive
    then show ?thesis using rm no by (auto simp: entryFor_def)
  next
    case spec
    then show ?thesis using rm by simp
  next
    case (job c)
    consider (err) x q where "ca_ScheduleJob cr c s (en_cron ?e) = (Inl x, q)" "entries q = entries (en_cron ?e)"
      | (ok) i q where "ca_ScheduleJob cr c s (en_cron ?e) = (Inr i, q)" "entries (en_cron ?e) i = None"
        "entries q = (entries (en_cron ?e))(i \<mapsto> (c, s))"
      by (rule ScheduleJob_cases)
    then show ?thesis
    proof cases
      case err
      then have e': "e' = ?e\<lparr>en_cron := q\<rparr>" "err = Some x" using job by auto
      have "tableBut env entries (insert ?n N) e'" using rm(1) unfolding e' table_entries [OF err(2)] .
      moreover have "cronOnly e e'" unfolding e' by (rule cronOnly_trans [OF rm(3)]) simp
      ultimately show ?thesis using e' rm(2) by simp
    next
      case ok
      then have e': "e' = ?e\<lparr>en_cron := q, en_entryIDs := (en_entryIDs ?e)(?n \<mapsto> i)\<rparr>" "err = None"
        using job by auto
      have f: "en_entryIDs e' = (en_entryIDs ?e)(?n \<mapsto> i)" "entries (en_cron e') = (entries (en_cron ?e))(i \<mapsto> (c, s))"
        "en_schedules e' = en_schedules ?e" "en_cfg e' = en_cfg ?e" using e' ok(3) by simp_all
      have "tableBut env entries (insert ?n N) e'"
      proof (rule tableI, unfold f)
        fix k j
        show "((en_entryIDs ?e)(?n \<mapsto> i)) k = Some j \<longleftrightarrow>
            (\<exists>d q. ((entries (en_cron ?e))(i \<mapsto> (c, s))) j = Some (d, q) \<and> sc_Name q = k)"
        proof (cases "k = ?n")
          case True
          have "\<not> (\<exists>d q. entries (en_cron ?e) j = Some (d, q) \<and> sc_Name q = ?n)" using no by blast
          then show ?thesis unfolding True by (cases "j = i") auto
        next
          case False
          then show ?thesis
            using tableD(1) [OF rm(1), of k j] ok(2) by (cases "j = i") auto
        qed
      next
        fix j d q assume "((entries (en_cron ?e))(i \<mapsto> (c, s))) j = Some (d, q)" "sc_Name q \<notin> insert ?n N"
        then show "en_schedules ?e (sc_Name q) = Some q \<and> activeSchedule q"
          using tableD(3) [OF rm(1), of j d q] by (auto split: if_splits)
      next
        fix k q assume a: "k \<notin> insert ?n N" "en_schedules ?e k = Some q"
        then show "sc_Name q = k \<and> validEntry env (en_cfg ?e) q" using tableD(2) [OF rm(1)] by blast
        show "((en_entryIDs ?e)(?n \<mapsto> i)) k \<noteq> None" if "activeSchedule q"
          using tableD(4) [OF rm(1), of k q] a that by auto
      qed
      moreover have "cronOnly e e'" using e' cronOnly_trans [OF rm(3)] by simp
      moreover have "entryFor s e'" using job(1) f by (simp add: entryFor_def)
      moreover have "q' = s" if "entries (en_cron e') j = Some (d, q')" "sc_Name q' = ?n" for j d q'
        using that no unfolding f by (auto split: if_splits)
      ultimately show ?thesis unfolding e'(2) option.case by blast
    qed
  qed
qed

end

section \<open>The handlers\<close>

lemma onStore_frame: "onStore f e = (r, e') \<Longrightarrow> \<exists>s'. f (en_store e) = (r, s') \<and> e' = e\<lparr>en_store := s'\<rparr>"
  by (simp add: onStore_def split: prod.splits)

lemma onStore_table [simp]: "tableBut env entries N (snd (onStore f e)) = tableBut env entries N e"
  by (simp add: onStore_def split: prod.splits)

lemma onStore_table_eq: "onStore f e = (r, e') \<Longrightarrow> tableBut env entries N e' = tableBut env entries N e"
  by (metis onStore_table snd_conv)

lemma logLine_table [simp]: "tableBut env entries N (logLine m a e) = tableBut env entries N e"
  by (simp add: logLine_def)

lemma logRunEvent_table [simp]: "tableBut env entries N (logRunEvent r e) = tableBut env entries N e"
  by (simp add: logRunEvent_def)

lemma enginePruneRuns_cases:
  obtains x s' where "so_PruneRuns (ev_store env) (cfg_RunRetention (en_cfg e)) now (en_store e) = (Inl x, s')"
      "enginePruneRuns env now e = (Some x, e\<lparr>en_store := s'\<rparr>)"
  | res s' l where "so_PruneRuns (ev_store env) (cfg_RunRetention (en_cfg e)) now (en_store e) = (Inr res, s')"
      "enginePruneRuns env now e = (None, e\<lparr>en_store := s', en_log := l\<rparr>)"
proof -
  obtain r s' where p: "so_PruneRuns (ev_store env) (cfg_RunRetention (en_cfg e)) now (en_store e) = (r, s')"
    by fastforce
  show thesis
  proof (cases r)
    case (Inl x)
    then show thesis using that(1) p by (simp add: enginePruneRuns_def onStore_def)
  next
    case (Inr res)
    have "\<exists>l. enginePruneRuns env now e = (None, e\<lparr>en_store := s', en_log := l\<rparr>)"
    proof (cases "0 < rt_Deleted res")
      case True
      then show ?thesis using p Inr by (auto simp: enginePruneRuns_def onStore_def logLine_def)
    next
      case False
      then have "enginePruneRuns env now e = (None, e\<lparr>en_store := s', en_log := en_log e\<rparr>)"
        using p Inr by (simp add: enginePruneRuns_def onStore_def)
      then show ?thesis by blast
    qed
    then show thesis using that(2) p Inr by blast
  qed
qed

lemma enginePruneRuns_table:
  assumes "enginePruneRuns env0 now e = (err, e')"
  shows "tableBut env entries N e' = tableBut env entries N e"
  by (rule enginePruneRuns_cases [of env0 e now]) (use assms in simp_all)

lemma maybePruneRuns_table [simp]:
  "tableBut env entries N (maybePruneRuns env0 now1 now2 e) = tableBut env entries N e"
proof -
  let ?e = "e\<lparr>en_runsSincePrune := en_runsSincePrune e + 1\<rparr>"
  obtain x e1 where p: "enginePruneRuns env0 now2 (markRunPruned now1 ?e) = (x, e1)" by fastforce
  have "tableBut env entries N e1 = tableBut env entries N e"
    using enginePruneRuns_table [OF p, of env entries N] by (simp add: markRunPruned_def)
  then show ?thesis by (cases x) (simp_all add: maybePruneRuns_def Let_def p)
qed

lemma storeSchedule_frame:
  "storeSchedule env n s old e = (err, e') \<Longrightarrow> \<exists>s'. e' = e\<lparr>en_store := s'\<rparr>"
  by (auto simp: storeSchedule_def onStore_def Let_def split: prod.splits sum.splits if_splits)

context cron_table
begin

lemma removeSchedule_table:
  assumes t: "tableBut env entries (insert n N) e"
  shows "tableBut env entries N (removeScheduleLocked env n e)"
    "en_schedules (removeScheduleLocked env n e) = (en_schedules e)(n := None)"
    "en_store (removeScheduleLocked env n e) = en_store e" "en_cfg (removeScheduleLocked env n e) = en_cfg e"
proof -
  let ?e = "removeEntryLocked env n e"
  have c: "tableBut env entries (insert n N) ?e" using removeEntry_table(1) [OF t, of n] by simp
  note fr = removeEntry_table(2,3) [OF t, of n] cronOnly_fields [OF removeEntry_table(3) [OF t, of n]]
  have "tableBut env entries (insert n N) (removeScheduleLocked env n e)"
    unfolding removeScheduleLocked_def Let_def by (rule setSchedule_table [OF c])
  then show "tableBut env entries N (removeScheduleLocked env n e)"
    by (rule dropSchedule_table) (simp_all add: removeScheduleLocked_def fr)
  show "en_schedules (removeScheduleLocked env n e) = (en_schedules e)(n := None)"
    "en_store (removeScheduleLocked env n e) = en_store e" "en_cfg (removeScheduleLocked env n e) = en_cfg e"
    by (simp_all add: removeScheduleLocked_def fr)
qed

lemma registerSchedule_table:
  assumes t: "table env entries e" and r: "registerSchedule env now1 now2 s0 e = (err, e')"
  shows "table env entries e'" "en_store e' = en_store e" "en_cfg e' = en_cfg e"
    "err = None \<Longrightarrow> en_schedules e' = (en_schedules e)(sc_Name s0 \<mapsto> NormalizeSchedule s0)"
proof -
  let ?s = "NormalizeSchedule s0" and ?n = "sc_Name s0"
  let ?e = "e\<lparr>en_schedules := (en_schedules e)(?n \<mapsto> ?s)\<rparr>"
  let ?v = "validateSchedule (ca_Parse (ev_cron env)) (ev_loadLocation env) ?s (cfg_Faktory (en_cfg e))"
  have "table env entries e' \<and> en_store e' = en_store e \<and> en_cfg e' = en_cfg e \<and>
    (err = None \<longrightarrow> en_schedules e' = (en_schedules e)(?n \<mapsto> ?s))"
  proof (cases ?v)
    case (Inl x)
    then show ?thesis using r t by (auto simp: registerSchedule_def)
  next
    case (Inr u)
    obtain x e1 where 1: "registerScheduleLocked env now1 now2 ?s ?e = (x, e1)" by fastforce
    have t1: "tableBut env entries {?n} ?e"
      using setSchedule_table [OF tableBut_mono [OF t]] by simp
    note l = registerScheduleLocked_table [OF t1 1]
    then have b: "tableBut env entries {?n} e1" by simp
    note f = cronOnly_fields [OF conjunct1 [OF l]]
    show ?thesis
    proof (cases x)
      case None
      then have e': "err = None" "e' = e1" using r 1 Inr by (simp_all add: registerSchedule_def)
      have v: "validEntry env (en_cfg e1) ?s"
        using Inr validEntry_validate [of env s0 "en_cfg e"] by (simp add: f)
      have "table env entries e1"
        by (rule keepSchedule_table [of ?s]) (use b l None v f in auto)
      then show ?thesis using e' f by simp
    next
      case (Some y)
      then have e': "err = Some y" "e' = e1\<lparr>en_schedules := (en_schedules e1)(?n := None)\<rparr>"
        using r 1 Inr by (simp_all add: registerSchedule_def)
      have "tableBut env entries {?n} e'"
        unfolding e' by (rule setSchedule_table) (use b in simp)
      then have "table env entries e'"
        by (rule dropSchedule_table) (use l Some e' in simp_all)
      then show ?thesis using e' f by simp
    qed
  qed
  then show "table env entries e'" "en_store e' = en_store e" "en_cfg e' = en_cfg e"
    "err = None \<Longrightarrow> en_schedules e' = (en_schedules e)(?n \<mapsto> ?s)" by simp_all
qed

lemma registerSchedule_snd:
  assumes "table env entries e"
  shows "table env entries (snd (registerSchedule env now1 now2 s e))"
    "en_cfg (snd (registerSchedule env now1 now2 s e)) = en_cfg e"
  using registerSchedule_table [OF assms] by (metis prod.collapse)+

lemma swapSchedule_table:
  assumes t: "table env entries e" and s: "swapSchedule env now n s old e = (err, e')"
  shows "table env entries e'"
    "err = None \<Longrightarrow> en_store e' = en_store e \<and> en_cfg e' = en_cfg e \<and>
       en_schedules e' = (if n \<noteq> [] \<and> n \<noteq> sc_Name s then (en_schedules e)(n := None) else en_schedules e)
         (sc_Name s \<mapsto> NormalizeSchedule s)"
proof -
  define e1 where "e1 = (if n \<noteq> [] \<and> n \<noteq> sc_Name s then removeScheduleLocked env n e else e)"
  define e2 where "e2 = removeScheduleLocked env (sc_Name s) e1"
  have t1: "table env entries e1"
    using t removeSchedule_table(1) [OF tableBut_mono [OF t]] by (simp add: e1_def)
  have t2: "table env entries e2"
    unfolding e2_def by (rule removeSchedule_table(1) [OF tableBut_mono [OF t1]]) simp
  have f1: "en_store e1 = en_store e" "en_cfg e1 = en_cfg e"
    "en_schedules e1 = (if n \<noteq> [] \<and> n \<noteq> sc_Name s then (en_schedules e)(n := None) else en_schedules e)"
    using removeSchedule_table(2-4) [OF tableBut_mono [OF t, of "{n}"]] by (simp_all add: e1_def)
  have f2: "en_store e2 = en_store e" "en_cfg e2 = en_cfg e" "en_schedules e2 = (en_schedules e1)(sc_Name s := None)"
    using removeSchedule_table(2-4) [OF tableBut_mono [OF t1, of "{sc_Name s}"]] f1 by (simp_all add: e2_def)
  obtain x e3 where 3: "registerSchedule env (now 0) (now 1) s e2 = (x, e3)" by fastforce
  note r3 = registerSchedule_table [OF t2 3]
  have s': "(case x of None \<Rightarrow> (None, e3)
      | Some er \<Rightarrow> (let e = removeScheduleLocked env (sc_Name s) e3;
                       e = snd (onStore (so_DeleteSchedule (ev_store env) (sc_Name s)) e)
                   in case old of None \<Rightarrow> (Some er, e)
                      | Some o' \<Rightarrow> (let e = snd (onStore (so_SaveSchedule (ev_store env) o') e);
                                        e = snd (registerSchedule env (now 2) (now 3) o' e)
                                    in (Some er, e)))) = (err, e')"
    using s 3 by (auto simp: swapSchedule_def Let_def e1_def [symmetric] e2_def [symmetric] split: option.splits)
  show "table env entries e'"
  proof (cases x)
    case None
    then show ?thesis using s' r3(1) by simp
  next
    case (Some er)
    let ?e = "removeScheduleLocked env (sc_Name s) e3"
    have t4: "table env entries ?e"
      by (rule removeSchedule_table(1) [OF tableBut_mono [OF r3(1)]]) simp
    show ?thesis using s' Some t4 by (cases old) (auto simp: Let_def registerSchedule_snd)
  qed
  assume err: "err = None"
  then have "x = None" "e' = e3" using s' by (auto simp: Let_def split: option.splits)
  then show "en_store e' = en_store e \<and> en_cfg e' = en_cfg e \<and>
       en_schedules e' = (if n \<noteq> [] \<and> n \<noteq> sc_Name s then (en_schedules e)(n := None) else en_schedules e)
         (sc_Name s \<mapsto> NormalizeSchedule s)"
    using r3 f1 f2 by (simp add: fun_upd_upd)
qed

lemma SaveSchedule_table:
  assumes t: "table env entries e" and s: "SaveSchedule env now n s0 e = (err, e')"
  shows "table env entries e'"
proof -
  consider "e' = e" | s old x where "storeSchedule env n s old e = (Some x, e')"
    | s old e1 where "storeSchedule env n s old e = (None, e1)" "swapSchedule env now n s old e1 = (err, e')"
    using s by (auto simp: SaveSchedule_def Let_def split: sum.splits prod.splits option.splits)
  then show ?thesis
  proof cases
    case 1
    then show ?thesis using t by simp
  next
    case 2
    then show ?thesis using storeSchedule_frame [of env n s old e] t by fastforce
  next
    case 3
    then have "table env entries e1" using storeSchedule_frame [of env n s old e] t by fastforce
    from swapSchedule_table(1) [OF this 3(2)] show ?thesis .
  qed
qed

lemma DeleteSchedule_table:
  assumes t: "table env entries e" and d: "DeleteSchedule env n e = (err, e')"
  shows "table env entries e'"
proof -
  have "table env entries (removeScheduleLocked env n e)"
    by (rule removeSchedule_table(1) [OF tableBut_mono [OF t]]) simp
  then show ?thesis
    using d t by (auto simp: DeleteSchedule_def onStore_table_eq split: option.splits prod.splits sum.splits)
qed

end

context cron_table
begin

text \<open>A schedule of the table is replaced by one with the same name while its entry is gone.\<close>

lemma replaceInactive_table:
  assumes t: "tableBut env entries {sc_Name s} e" and n: "en_entryIDs e (sc_Name s) = None"
    and v: "validEntry env (en_cfg e) s" and i: "\<not> activeSchedule s"
  shows "table env entries (e\<lparr>en_schedules := (en_schedules e)(sc_Name s \<mapsto> s)\<rparr>)"
proof -
  let ?e = "e\<lparr>en_schedules := (en_schedules e)(sc_Name s \<mapsto> s)\<rparr>"
  have t': "tableBut env entries {sc_Name s} ?e" using setSchedule_table t by blast
  have "q = s" if "entries (en_cron ?e) j = Some (c, q)" "sc_Name q = sc_Name s" for j c q
    using noEntry_name [OF t' _ that(1), of "sc_Name s"] n that(2) by simp
  then show ?thesis using n v i by (intro keepSchedule_table [OF t']) (simp_all add: entryFor_def)
qed

lemma replaceRegistered_table:
  assumes t: "tableBut env entries {sc_Name s} e" and f: "entryFor s e"
    and c: "\<forall>i c q. entries (en_cron e) i = Some (c, q) \<and> sc_Name q = sc_Name s \<longrightarrow> q = s"
    and v: "validEntry env (en_cfg e) s"
  shows "table env entries (e\<lparr>en_schedules := (en_schedules e)(sc_Name s \<mapsto> s)\<rparr>)"
proof -
  let ?e = "e\<lparr>en_schedules := (en_schedules e)(sc_Name s \<mapsto> s)\<rparr>"
  have t': "tableBut env entries {sc_Name s} ?e" using setSchedule_table t by blast
  show ?thesis
    by (rule keepSchedule_table [OF t']) (use c v f in \<open>auto simp: entryFor_def\<close>)
qed

lemma TogglePause_table:
  assumes t: "table env entries e" and p: "TogglePause env now n e = (r, e')"
  shows "table env entries e'"
proof (cases "en_schedules e n")
  case None
  then show ?thesis using t p by (simp add: TogglePause_def)
next
  case (Some s0)
  let ?s = "s0\<lparr>sc_Paused := \<not> sc_Paused s0\<rparr>"
  have v: "sc_Name s0 = n" "validEntry env (en_cfg e) s0" using tableD(2) [OF t _ Some] by auto
  obtain x e1 where 1: "onStore (so_SaveSchedule (ev_store env) ?s) e = (x, e1)" by fastforce
  have t1: "table env entries e1" using t onStore_table_eq [OF 1] by blast
  have f1: "en_cfg e1 = en_cfg e" "en_schedules e1 = en_schedules e"
    using onStore_frame [OF 1] by auto
  have p': "(case x of Inl err \<Rightarrow> ((False, Some err), e1)
      | Inr _ \<Rightarrow> if sc_Paused ?s
          then (let e = removeEntryLocked env n e1 in ((True, None), e\<lparr>en_schedules := (en_schedules e)(n \<mapsto> ?s)\<rparr>))
          else (case registerScheduleLocked env (now 0) (now 1) ?s e1 of
              (Some err, e) \<Rightarrow> (let s = ?s\<lparr>sc_Paused := True\<rparr>; e = snd (onStore (so_SaveSchedule (ev_store env) s) e)
                 in ((True, Some err), e\<lparr>en_schedules := (en_schedules e)(n \<mapsto> s)\<rparr>))
            | (None, e) \<Rightarrow> ((False, None), e\<lparr>en_schedules := (en_schedules e)(n \<mapsto> ?s)\<rparr>))) = (r, e')"
    using p Some 1 unfolding TogglePause_def Let_def by simp
  obtain y e2 where 2: "registerScheduleLocked env (now 0) (now 1) ?s e1 = (y, e2)" by fastforce
  consider (fail) "e' = e1" | (pause) "sc_Paused ?s"
      "e' = (removeEntryLocked env n e1)\<lparr>en_schedules := (en_schedules (removeEntryLocked env n e1))(n \<mapsto> ?s)\<rparr>"
    | (resume) "\<not> sc_Paused ?s"
      "e' = (case y of None \<Rightarrow> e2\<lparr>en_schedules := (en_schedules e2)(n \<mapsto> ?s)\<rparr>
        | Some _ \<Rightarrow> (let s = ?s\<lparr>sc_Paused := True\<rparr>; e = snd (onStore (so_SaveSchedule (ev_store env) s) e2)
             in e\<lparr>en_schedules := (en_schedules e)(n \<mapsto> s)\<rparr>))"
  proof (cases x)
    case (Inl z)
    then show ?thesis using p' fail by simp
  next
    case (Inr u)
    show ?thesis
    proof (cases "sc_Paused ?s")
      case True
      then show ?thesis using p' Inr by (intro pause) (simp_all add: Let_def)
    next
      case False
      then show ?thesis using p' Inr 2 by (intro resume) (cases y; simp add: Let_def)+
    qed
  qed
  then show ?thesis
  proof cases
    case fail
    then show ?thesis using t1 by simp
  next
    case pause
    note rm = removeEntry_table [OF t1, of n]
    have "table env entries (removeEntryLocked env n e1
        \<lparr>en_schedules := (en_schedules (removeEntryLocked env n e1))(sc_Name ?s \<mapsto> ?s)\<rparr>)"
      by (rule replaceInactive_table)
        (use rm v f1 pause(1) cronOnly_fields(1) [OF rm(3)] in \<open>simp_all add: activeSchedule_def\<close>)
    then show ?thesis using pause(2) v(1) by simp
  next
    case resume
    note l = registerScheduleLocked_table [OF t1 2]
    have b: "tableBut env entries {n} e2" using l v(1) by simp
    have c: "en_cfg e2 = en_cfg e" using cronOnly_fields(1) [OF conjunct1 [OF l]] f1 by simp
    show ?thesis
    proof (cases y)
      case None
      have "table env entries (e2\<lparr>en_schedules := (en_schedules e2)(sc_Name ?s \<mapsto> ?s)\<rparr>)"
        by (rule replaceRegistered_table) (use b l None v c in simp_all)
      then show ?thesis using resume(2) None v(1) by simp
    next
      case (Some z)
      let ?p = "?s\<lparr>sc_Paused := True\<rparr>"
      obtain w e3 where 3: "onStore (so_SaveSchedule (ev_store env) ?p) e2 = (w, e3)" by fastforce
      obtain s3 where e3: "e3 = e2\<lparr>en_store := s3\<rparr>" using onStore_frame [OF 3] by blast
      have "table env entries (e3\<lparr>en_schedules := (en_schedules e3)(sc_Name ?p \<mapsto> ?p)\<rparr>)"
        by (rule replaceInactive_table) (use b l Some v c e3 in \<open>simp_all add: activeSchedule_def\<close>)
      then show ?thesis using resume(2) Some v(1) 3 by (simp add: Let_def)
    qed
  qed
qed

lemma markOneTimeCompleted_table:
  assumes t: "table env entries e" and m: "markOneTimeCompleted env now n e = (err, e')"
  shows "table env entries e'"
proof -
  consider "e' = e"
    | s0 x e1 where "en_schedules e n = Some s0"
      "onStore (so_SaveSchedule (ev_store env) (s0\<lparr>sc_CompletedAt := Some now\<rparr>)) e = (x, e1)" "e' = e1"
    | s0 x e1 where "en_schedules e n = Some s0" "sc_ScheduleType s0 = ''once''"
      "onStore (so_SaveSchedule (ev_store env) (s0\<lparr>sc_CompletedAt := Some now\<rparr>)) e = (x, e1)"
      "e' = removeEntryLocked env n (e1\<lparr>en_schedules := (en_schedules e1)(n \<mapsto> s0\<lparr>sc_CompletedAt := Some now\<rparr>)\<rparr>)"
    using m by (auto simp: markOneTimeCompleted_def Let_def split: option.splits if_splits prod.splits sum.splits)
  then show ?thesis
  proof cases
    case 1
    then show ?thesis using t by simp
  next
    case (2 s0 x e1)
    then show ?thesis using onStore_table_eq [OF 2(2), of env entries "{}"] t by simp
  next
    case (3 s0 x e1)
    let ?s = "s0\<lparr>sc_CompletedAt := Some now\<rparr>"
    let ?e = "e1\<lparr>en_schedules := (en_schedules e1)(n \<mapsto> ?s)\<rparr>"
    have v: "sc_Name s0 = n" "validEntry env (en_cfg e) s0" using tableD(2) [OF t _ 3(1)] by auto
    obtain s1 where e1: "e1 = e\<lparr>en_store := s1\<rparr>" using onStore_frame [OF 3(3)] by blast
    have "tableBut env entries {n} e1" using tableBut_mono [OF t, of "{n}"] by (simp add: e1)
    then have t1: "tableBut env entries {n} ?e" by (rule setSchedule_table)
    note rm = removeEntry_table [OF t1, of n]
    have b: "tableBut env entries {n} e'" "en_entryIDs e' n = None" using rm 3(4) by auto
    have f: "en_cfg e' = en_cfg e" "en_schedules e' n = Some ?s"
      using cronOnly_fields [OF rm(3)] 3(4) e1 by simp_all
    have "table env entries (e'\<lparr>en_schedules := (en_schedules e')(sc_Name ?s \<mapsto> ?s)\<rparr>)"
      by (rule replaceInactive_table) (use b v f 3(2) in \<open>simp_all add: activeSchedule_def\<close>)
    moreover have "(en_schedules e')(sc_Name ?s \<mapsto> ?s) = en_schedules e'" using f(2) v(1) by auto
    ultimately show ?thesis by simp
  qed
qed

lemma triggerMark_table:
  assumes "table env entries e"
  shows "table env entries (triggerMark env now s r e)"
  using assms markOneTimeCompleted_table [OF assms]
  by (auto simp: triggerMark_def Let_def split: prod.splits option.splits)

lemma triggerSkip_table: "table env entries e \<Longrightarrow> table env entries (snd (triggerSkip env now s by at e))"
  by (auto simp: triggerSkip_def Let_def onStore_table_eq split: prod.splits sum.splits)

lemma triggerStart_table: "table env entries e \<Longrightarrow> table env entries (snd (triggerStart env now s by at e))"
  by (auto simp: triggerStart_def Let_def onStore_table_eq split: prod.splits sum.splits)

lemma Trigger_table:
  assumes t: "table env entries e"
  shows "table env entries (snd (Trigger env now n by at e))"
proof (cases "triggerLookup n e")
  case (Inl x)
  then show ?thesis using t by (simp add: Trigger_def)
next
  case (Inr s)
  show ?thesis
  proof (cases "triggerCheck env s e")
    case (Inl x)
    then show ?thesis using t Inr by (simp add: Trigger_def \<open>triggerLookup n e = Inr s\<close>)
  next
    case c: (Inr b)
    obtain y e1 where 1: "triggerStart env (now 0) s by at e = (y, e1)" by fastforce
    have "table env entries e1" using triggerStart_table [OF t, of "now 0" s "by" at] 1 by simp
    then show ?thesis
      using triggerSkip_table [OF t] triggerMark_table 1 Inr c
      by (auto simp: Trigger_def split: bool.splits sum.splits)
  qed
qed

lemma TriggerManual_table:
  "table env entries e \<Longrightarrow> table env entries (snd (TriggerManual env now n e))"
  using Trigger_table by (auto simp: TriggerManual_def split: option.splits)

lemma cronJob_table: "table env entries e \<Longrightarrow> table env entries (snd (cronJob env now s e))"
  using Trigger_table by (simp add: cronJob_def)

lemma executeRun_table:
  assumes t: "table env entries e"
  shows "table env entries (executeRun env now s r e)"
  using t unfolding executeRun_def Let_def
  by (simp split: option.split) (auto simp: onStore_table_eq split: prod.splits sum.splits)

lemma ClearRuns_table: "table env entries e \<Longrightarrow> table env entries (snd (ClearRuns env e))"
  by (simp add: ClearRuns_def)

lemma registerAll_table:
  "table env entries e \<Longrightarrow> registerAll env now ss e = (err, e') \<Longrightarrow> table env entries e'"
proof (induction ss arbitrary: e now)
  case (Cons s ss)
  obtain x e1 where 1: "registerSchedule env (now 0) (now 1) s e = (x, e1)" by fastforce
  note t1 = registerSchedule_table(1) [OF Cons.prems(1) 1]
  show ?case
  proof (cases x)
    case None
    then show ?thesis using Cons.IH [OF t1, of "\<lambda>i. now (i + 2)"] Cons.prems(2) 1 by simp
  next
    case (Some y)
    then show ?thesis using Cons.prems(2) 1 t1 by simp
  qed
qed simp

lemma seedSchedules_frame: "seedSchedules env ss e = (err, e') \<Longrightarrow> \<exists>s'. e' = e\<lparr>en_store := s'\<rparr>"
proof (induction ss arbitrary: e)
  case Nil
  then have "e' = e\<lparr>en_store := en_store e\<rparr>" by simp
  then show ?case by blast
next
  case (Cons s ss)
  obtain x e1 where 1: "onStore (so_SaveSchedule (ev_store env) s) e = (x, e1)" by fastforce
  obtain s1 where e1: "e1 = e\<lparr>en_store := s1\<rparr>" using onStore_frame [OF 1] by blast
  show ?case
  proof (cases x)
    case (Inl y)
    then show ?thesis using Cons.prems 1 e1 by auto
  next
    case (Inr u)
    then have "seedSchedules env ss e1 = (err, e')" using Cons.prems 1 by simp
    then show ?thesis using Cons.IH e1 by fastforce
  qed
qed

text \<open>The stages of a start that succeeds.\<close>

lemma NewEngine_stages:
  assumes "NewEngine env now cfg store0 cron0 = (Inr e, store1)"
  obtains stored ss e1 e2 where
    "isOk (ValidateRunRetention (cfg_RunRetention (ApplyDefaults cfg)))"
    "so_ListSchedules (ev_store env) store0 = Inr stored"
    "if stored = [] \<and> cfg_Schedules (ApplyDefaults cfg) \<noteq> []
     then seedSchedules env ss (newEngine (ApplyDefaults cfg) store0 cron0) = (None, e1) \<and>
       ss = cfg_Schedules (ApplyDefaults cfg)
     else e1 = newEngine (ApplyDefaults cfg) store0 cron0 \<and> ss = stored"
    "enginePruneRuns env (now 0) e1 = (None, e2)"
    "registerAll env (\<lambda>i. now (i + 2)) ss (markRunPruned (now 1) e2) = (None, e)"
    "store1 = en_store e"
proof -
  let ?c = "ApplyDefaults cfg"
  obtain stored where a: "bindE (ValidateRunRetention (cfg_RunRetention ?c)) (\<lambda>_.
      bindE (ValidateRunLogging (cfg_RunLogging ?c)) (\<lambda>_. so_ListSchedules (ev_store env) store0)) = Inr stored"
    using assms by (cases "bindE (ValidateRunRetention (cfg_RunRetention ?c)) (\<lambda>_.
      bindE (ValidateRunLogging (cfg_RunLogging ?c)) (\<lambda>_. so_ListSchedules (ev_store env) store0))")
      (simp_all add: NewEngine_def Let_def)
  then have l: "isOk (ValidateRunRetention (cfg_RunRetention ?c))" "so_ListSchedules (ev_store env) store0 = Inr stored"
    by (auto simp: bindE_eq_Inr isOk_iff)
  obtain x e1 ss where f: "(if stored = [] \<and> cfg_Schedules ?c \<noteq> []
      then (seedSchedules env (cfg_Schedules ?c) (newEngine ?c store0 cron0), cfg_Schedules ?c)
      else ((None, newEngine ?c store0 cron0), stored)) = ((x, e1), ss)" by (metis prod.exhaust)
  have x: "x = None"
    using assms by (cases x) (simp_all only: NewEngine_def Let_def a f sum.case prod.case option.case, simp)
  obtain y e2 where p: "enginePruneRuns env (now 0) e1 = (y, e2)" by fastforce
  have y: "y = None"
    using assms by (cases y) (simp_all only: NewEngine_def Let_def a f x p sum.case prod.case option.case, simp)
  obtain z e3 where r: "registerAll env (\<lambda>i. now (i + 2)) ss (markRunPruned (now 1) e2) = (z, e3)" by fastforce
  have z: "z = None \<and> e3 = e \<and> store1 = en_store e"
    using assms by (cases z) (simp_all only: NewEngine_def Let_def a f x p y r sum.case prod.case option.case, auto)
  have "if stored = [] \<and> cfg_Schedules ?c \<noteq> []
     then seedSchedules env ss (newEngine ?c store0 cron0) = (None, e1) \<and> ss = cfg_Schedules ?c
     else e1 = newEngine ?c store0 cron0 \<and> ss = stored"
    using f x by (auto split: if_splits)
  then show thesis using that l p y r z by blast
qed

lemma NewEngine_table:
  assumes n: "NewEngine env now cfg store0 cron0 = (Inr e, store1)" and c: "entries cron0 = Map.empty"
  shows "table env entries e"
proof (rule NewEngine_stages [OF n])
  fix stored ss e1 e2
  assume f: "if stored = [] \<and> cfg_Schedules (ApplyDefaults cfg) \<noteq> []
     then seedSchedules env ss (newEngine (ApplyDefaults cfg) store0 cron0) = (None, e1) \<and>
       ss = cfg_Schedules (ApplyDefaults cfg)
     else e1 = newEngine (ApplyDefaults cfg) store0 cron0 \<and> ss = stored"
    and p: "enginePruneRuns env (now 0) e1 = (None, e2)"
    and r: "registerAll env (\<lambda>i. now (i + 2)) ss (markRunPruned (now 1) e2) = (None, e)"
  have t0: "table env entries (newEngine (ApplyDefaults cfg) store0 cron0)"
    by (rule tableI) (simp_all add: newEngine_def c)
  then have "table env entries e1"
    using f seedSchedules_frame [of ss "newEngine (ApplyDefaults cfg) store0 cron0" None e1]
    by (auto split: if_splits)
  then have "table env entries (markRunPruned (now 1) e2)"
    using enginePruneRuns_table [OF p, of env entries "{}"] by (simp add: markRunPruned_def)
  from registerAll_table [OF this r] show ?thesis .
qed

end

end
