(* ===== verification/EngineRuns.thy ===== *)
theory EngineRuns
  imports EngineTable
begin

text \<open>
  What the engine's handlers do to the stored runs, for any store that keeps the store contract: a
  skipped trigger starts nothing, a started run of a schedule without concurrent runs is the only
  running one, a finished run is not running any more, pruning touches no running run.
\<close>

section \<open>Engine and store together\<close>

locale engine_store =
  store_contract st inv runs scheds normR normS + cron_table cr entries env
  for st :: "'s Store" and inv runs scheds normR normS
    and cr :: "('c, 'q) CronApi" and entries and env :: "('s, 'q, 'c, 'k) Env" +
  assumes env_store: "ev_store env = st"

definition prunedTo :: "(string \<rightharpoonup> Run) \<Rightarrow> (string \<rightharpoonup> Run) \<Rightarrow> bool" where
  "prunedTo R R' \<longleftrightarrow> R' \<subseteq>\<^sub>m R \<and> (\<forall>k r. R k = Some r \<and> \<not> isCompletedRun r \<longrightarrow> R' k = Some r)"

lemma prunedTo_refl [simp]: "prunedTo R R"
  by (simp add: prunedTo_def)

lemma prunedTo_retained: "retained ret now R R' \<Longrightarrow> prunedTo R R'"
  by (simp add: prunedTo_def retained_def)

lemma prunedTo_Some: "prunedTo R R' \<Longrightarrow> R' k = Some r \<Longrightarrow> R k = Some r"
  unfolding prunedTo_def map_le_def by (metis domI)

lemma prunedTo_running:
  assumes "prunedTo R R'" "r_Status r = RunRunning"
  shows "R' k = Some r \<longleftrightarrow> R k = Some r"
proof
  show "R' k = Some r \<Longrightarrow> R k = Some r" by (rule prunedTo_Some [OF assms(1)])
  have "\<not> isCompletedRun r" using assms(2) by (simp add: isCompletedRun_def)
  then show "R k = Some r \<Longrightarrow> R' k = Some r" using assms(1) by (simp add: prunedTo_def)
qed

text \<open>The running runs of a schedule.\<close>

definition runningIds :: "(string \<rightharpoonup> Run) \<Rightarrow> string \<Rightarrow> string set" where
  "runningIds R n = {k. \<exists>r. R k = Some r \<and> r_ScheduleName r = n \<and> r_Status r = RunRunning}"

lemma hasRunning_runningIds: "hasRunning R n \<longleftrightarrow> runningIds R n \<noteq> {}"
  by (auto simp: hasRunning_def runningIds_def)

lemma runningIds_pruned: "prunedTo R R' \<Longrightarrow> runningIds R' n = runningIds R n"
  unfolding runningIds_def using prunedTo_running by blast

lemma runningIds_upd:
  "sameRun r q \<Longrightarrow> runningIds (R(k \<mapsto> q)) n =
     (if r_ScheduleName r = n \<and> r_Status r = RunRunning then insert k (runningIds R n) else runningIds R n - {k})"
  by (auto simp: runningIds_def sameRun_def)

lemma newRun_fields [simp]:
  "r_ID (newRun s by at now) = runID (sc_Name s) by at" "r_ScheduleName (newRun s by at now) = sc_Name s"
  "r_Status (newRun s by at now) = RunRunning" "r_TriggeredBy (newRun s by at now) = by"
  "r_StartedAt (newRun s by at now) = now"
  by (simp_all add: newRun_def)

lemma skippedRun_fields [simp]:
  "r_ID (skippedRun s by at now now') = runID (sc_Name s) by at"
  "r_ScheduleName (skippedRun s by at now now') = sc_Name s"
  "r_Status (skippedRun s by at now now') = RunSkipped"
  by (simp_all add: skippedRun_def)

lemma newRun_storable: "plainKey (sc_Name s) \<Longrightarrow> storableRun (newRun s by at now) \<and> plainStatus (newRun s by at now)"
  by (simp add: storableRun_def plainStatus_def runID_plainKey)

lemma skippedRun_storable:
  "plainKey (sc_Name s) \<Longrightarrow> storableRun (skippedRun s by at now now') \<and> plainStatus (skippedRun s by at now now')"
  by (simp add: storableRun_def plainStatus_def runID_plainKey)

lemma finishedRun_fields [simp]:
  "r_ID (finishedRun r o' t) = r_ID r" "r_ScheduleName (finishedRun r o' t) = r_ScheduleName r"
  "r_Status (finishedRun r o' t) = (if snd o' = None then RunSucceeded else RunFailed)"
  "r_FinishedAt (finishedRun r o' t) = Some t" "r_StartedAt (finishedRun r o' t) = r_StartedAt r"
  by (auto simp: finishedRun_def split: prod.splits option.splits)

lemma logLine_fields [simp]:
  "en_store (logLine m a e) = en_store e" "en_inflight (logLine m a e) = en_inflight e"
  "en_schedules (logLine m a e) = en_schedules e" "en_cfg (logLine m a e) = en_cfg e"
  "en_runsSincePrune (logLine m a e) = en_runsSincePrune e" "en_lastRunPrune (logLine m a e) = en_lastRunPrune e"
  "en_runPruneEveryN (logLine m a e) = en_runPruneEveryN e"
  by (simp_all add: logLine_def)

lemma logRunEvent_fields [simp]:
  "en_store (logRunEvent r e) = en_store e" "en_inflight (logRunEvent r e) = en_inflight e"
  "en_schedules (logRunEvent r e) = en_schedules e" "en_cfg (logRunEvent r e) = en_cfg e"
  "en_runsSincePrune (logRunEvent r e) = en_runsSincePrune e"
  "en_runPruneEveryN (logRunEvent r e) = en_runPruneEveryN e"
  by (simp_all add: logRunEvent_def)

section \<open>Pruning\<close>

context engine_store
begin

lemma maybePruneRuns_runs:
  assumes i: "inv (en_store e)"
  shows "inv (en_store (maybePruneRuns env now1 now2 e))"
    "prunedTo (runs (en_store e)) (runs (en_store (maybePruneRuns env now1 now2 e)))"
    "scheds (en_store (maybePruneRuns env now1 now2 e)) = scheds (en_store e)"
    "en_inflight (maybePruneRuns env now1 now2 e) = en_inflight e"
    "en_schedules (maybePruneRuns env now1 now2 e) = en_schedules e"
    "en_cfg (maybePruneRuns env now1 now2 e) = en_cfg e"
proof -
  let ?e = "e\<lparr>en_runsSincePrune := en_runsSincePrune e + 1\<rparr>" and ?m = "maybePruneRuns env now1 now2 e"
  have "inv (en_store ?m) \<and> prunedTo (runs (en_store e)) (runs (en_store ?m)) \<and>
    scheds (en_store ?m) = scheds (en_store e) \<and> en_inflight ?m = en_inflight e \<and>
    en_schedules ?m = en_schedules e \<and> en_cfg ?m = en_cfg e"
  proof (cases "pruneDue now1 ?e")
    case False
    then show ?thesis using i by (simp add: maybePruneRuns_def)
  next
    case True
    let ?k = "markRunPruned now1 ?e"
    have k: "en_store ?k = en_store e" by (simp add: markRunPruned_def)
    show ?thesis
    proof (rule enginePruneRuns_cases [of env ?k now2])
      fix x s'
      assume a: "so_PruneRuns (ev_store env) (cfg_RunRetention (en_cfg ?k)) now2 (en_store ?k) = (Inl x, s')"
        "enginePruneRuns env now2 ?k = (Some x, ?k\<lparr>en_store := s'\<rparr>)"
      then have "s' = en_store e" using PruneRuns_err k by (simp add: env_store)
      then show ?thesis using a(2) True i by (simp add: maybePruneRuns_def Let_def markRunPruned_def)
    next
      fix res s' l
      assume a: "so_PruneRuns (ev_store env) (cfg_RunRetention (en_cfg ?k)) now2 (en_store ?k) = (Inr res, s')"
        "enginePruneRuns env now2 ?k = (None, ?k\<lparr>en_store := s', en_log := l\<rparr>)"
      then have "inv s' \<and> scheds s' = scheds (en_store e) \<and> prunedTo (runs (en_store e)) (runs s')"
        using PruneRuns_ok [OF i] prunedTo_retained k unfolding env_store by metis
      then show ?thesis using a(2) True by (simp add: maybePruneRuns_def Let_def markRunPruned_def)
    qed
  qed
  then show "inv (en_store ?m)" "prunedTo (runs (en_store e)) (runs (en_store ?m))"
    "scheds (en_store ?m) = scheds (en_store e)" "en_inflight ?m = en_inflight e"
    "en_schedules ?m = en_schedules e" "en_cfg ?m = en_cfg e" by blast+
qed

section \<open>Triggering\<close>

lemma triggerSkip_runs:
  assumes i: "inv (en_store e)" and s: "plainKey (sc_Name s)"
    and t: "triggerSkip env now s by at e = (res, e')"
  shows "inv (en_store e')" "en_inflight e' = en_inflight e" "en_schedules e' = en_schedules e"
    "scheds (en_store e') = scheds (en_store e)"
    "runningIds (runs (en_store e')) n \<subseteq> runningIds (runs (en_store e)) n"
    "snd res = None \<Longrightarrow> fst res = skippedRun s by at (now 0) (now 1)"
    "snd res = None \<Longrightarrow> runningIds (runs (en_store e')) n = runningIds (runs (en_store e)) n - {runID (sc_Name s) by at}"
proof -
  let ?r = "skippedRun s by at (now 0) (now 1)"
  note ss = skippedRun_storable [OF s, of "by" at "now 0" "now 1"]
  have "inv (en_store e') \<and> en_inflight e' = en_inflight e \<and> en_schedules e' = en_schedules e \<and>
    scheds (en_store e') = scheds (en_store e) \<and>
    runningIds (runs (en_store e')) n \<subseteq> runningIds (runs (en_store e)) n \<and>
    (snd res = None \<longrightarrow> fst res = ?r \<and>
      runningIds (runs (en_store e')) n = runningIds (runs (en_store e)) n - {runID (sc_Name s) by at})"
  proof (rule SaveRun_cases [OF i conjunct1 [OF ss] conjunct2 [OF ss]])
    fix x assume "so_SaveRun st ?r (en_store e) = (Inl x, en_store e)"
    then show ?thesis using t i by (auto simp: triggerSkip_def Let_def onStore_def env_store)
  next
    fix u s' assume a: "so_SaveRun st ?r (en_store e) = (Inr u, s')" "inv s'"
      "runs s' = (runs (en_store e))(r_ID ?r \<mapsto> normR ?r)" "scheds s' = scheds (en_store e)"
    let ?l = "logRunEvent ?r (e\<lparr>en_store := s'\<rparr>)"
    have e': "e' = maybePruneRuns env (now 2) (now 3) ?l" "res = (?r, None)"
      using t a(1) by (simp_all add: triggerSkip_def Let_def onStore_def env_store)
    have il: "inv (en_store ?l)" using a(2) by simp
    note m = maybePruneRuns_runs [OF il, of "now 2" "now 3"]
    have "sameRun ?r (normR ?r)" using normR_same ss by blast
    then have "runningIds (runs s') n = runningIds (runs (en_store e)) n - {runID (sc_Name s) by at}"
      using runningIds_upd [of ?r "normR ?r" "runs (en_store e)" "r_ID ?r" n] a(3) by simp
    then show ?thesis using m runningIds_pruned [OF m(2), of n] e' a(4) by auto
  qed
  then show "inv (en_store e')" "en_inflight e' = en_inflight e" "en_schedules e' = en_schedules e"
    "scheds (en_store e') = scheds (en_store e)"
    "runningIds (runs (en_store e')) n \<subseteq> runningIds (runs (en_store e)) n"
    "snd res = None \<Longrightarrow> fst res = ?r"
    "snd res = None \<Longrightarrow> runningIds (runs (en_store e')) n = runningIds (runs (en_store e)) n - {runID (sc_Name s) by at}"
    by blast+
qed

lemma triggerStart_runs:
  assumes i: "inv (en_store e)" and s: "plainKey (sc_Name s)"
    and t: "triggerStart env now s by at e = (res, e')"
  shows "inv (en_store e')" "\<exists>s'. e' = e\<lparr>en_store := s'\<rparr>" "scheds (en_store e') = scheds (en_store e)"
    "res = Inr r \<Longrightarrow> r = newRun s by at now \<and>
       runs (en_store e') = (runs (en_store e))(runID (sc_Name s) by at \<mapsto> normR (newRun s by at now)) \<and>
       runningIds (runs (en_store e')) (sc_Name s) = insert (runID (sc_Name s) by at) (runningIds (runs (en_store e)) (sc_Name s))"
    "res = Inl x \<Longrightarrow> e' = e"
proof -
  let ?r = "newRun s by at now"
  note ss = newRun_storable [OF s, of "by" at now]
  have "inv (en_store e') \<and> (\<exists>s'. e' = e\<lparr>en_store := s'\<rparr>) \<and> scheds (en_store e') = scheds (en_store e) \<and>
    (res = Inr r \<longrightarrow> r = ?r \<and> runs (en_store e') = (runs (en_store e))(runID (sc_Name s) by at \<mapsto> normR (newRun s by at now)) \<and>
       runningIds (runs (en_store e')) (sc_Name s) = insert (runID (sc_Name s) by at) (runningIds (runs (en_store e)) (sc_Name s))) \<and>
    (res = Inl x \<longrightarrow> e' = e)"
  proof (rule SaveRun_cases [OF i conjunct1 [OF ss] conjunct2 [OF ss]])
    fix y assume "so_SaveRun st ?r (en_store e) = (Inl y, en_store e)"
    then have "res = Inl y" "e' = e\<lparr>en_store := en_store e\<rparr>"
      using t by (simp_all add: triggerStart_def Let_def onStore_def env_store)
    moreover have "\<exists>s'. e = e\<lparr>en_store := s'\<rparr>" by (rule exI [of _ "en_store e"]) simp
    ultimately show ?thesis using i by simp
  next
    fix u s' assume a: "so_SaveRun st ?r (en_store e) = (Inr u, s')" "inv s'"
      "runs s' = (runs (en_store e))(r_ID ?r \<mapsto> normR ?r)" "scheds s' = scheds (en_store e)"
    have e': "e' = e\<lparr>en_store := s'\<rparr>" "res = Inr ?r"
      using t a(1) by (simp_all add: triggerStart_def Let_def onStore_def env_store)
    have "sameRun ?r (normR ?r)" using normR_same ss by blast
    then have "runningIds (runs s') (sc_Name s) = insert (r_ID ?r) (runningIds (runs (en_store e)) (sc_Name s))"
      using runningIds_upd [of ?r "normR ?r" "runs (en_store e)" "r_ID ?r" "sc_Name s"] a(3) by simp
    moreover have "\<exists>s'. e' = e\<lparr>en_store := s'\<rparr>" using e'(1) by (rule exI)
    ultimately show ?thesis using a(2-4) unfolding e'(2) by (simp add: e'(1), intro impI, simp)
  qed
  note * = this
  show "inv (en_store e')" using * by (rule conjunct1)
  show "\<exists>s'. e' = e\<lparr>en_store := s'\<rparr>" using * by (elim conjE)
  show "scheds (en_store e') = scheds (en_store e)" using * by (elim conjE)
  show "res = Inr r \<Longrightarrow> r = ?r \<and>
      runs (en_store e') = (runs (en_store e))(runID (sc_Name s) by at \<mapsto> normR ?r) \<and>
      runningIds (runs (en_store e')) (sc_Name s) =
        insert (runID (sc_Name s) by at) (runningIds (runs (en_store e)) (sc_Name s))"
    using * by (elim conjE) (erule mp)
  show "res = Inl x \<Longrightarrow> e' = e" using * by (elim conjE) (erule mp)
qed

end

section \<open>Completion of one-time schedules\<close>

context engine_store
begin

lemma SaveSchedule_cases:
  assumes "inv s" "plainKey (sc_Name x)"
  obtains y where "so_SaveSchedule st x s = (Inl y, s)"
  | u s' where "so_SaveSchedule st x s = (Inr u, s')" "inv s'" "runs s' = runs s"
      "scheds s' = (scheds s)(sc_Name x \<mapsto> normS x)"
  using assms SaveSchedule_ok SaveSchedule_err
  by (metis old.sum.exhaust surj_pair)

text \<open>What the completion of a one-time schedule may do, and what it does when it succeeds.\<close>

lemma markOneTimeCompleted_runs:
  assumes i: "inv (en_store e)" and t: "table env entries e"
    and m: "markOneTimeCompleted env now n e = (err, e')"
  shows "inv (en_store e') \<and> runs (en_store e') = runs (en_store e) \<and> en_inflight e' = en_inflight e \<and>
    (err \<noteq> None \<longrightarrow> e' = e) \<and>
    (\<forall>s. err = None \<and> en_schedules e n = Some s \<and> sc_ScheduleType s = ''once'' \<and> sc_CompletedAt s = None \<longrightarrow>
       en_schedules e' = (en_schedules e)(n \<mapsto> s\<lparr>sc_CompletedAt := Some now\<rparr>) \<and> en_entryIDs e' n = None \<and>
       scheds (en_store e') = (scheds (en_store e))(n \<mapsto> normS (s\<lparr>sc_CompletedAt := Some now\<rparr>)))"
proof (cases "en_schedules e n")
  case None
  then show ?thesis using m i by (simp add: markOneTimeCompleted_def)
next
  case (Some s)
  show ?thesis
  proof (cases "sc_ScheduleType s \<noteq> ''once'' \<or> sc_CompletedAt s \<noteq> None")
    case True
    then show ?thesis using m i Some by (auto simp: markOneTimeCompleted_def)
  next
    case False
    let ?s = "s\<lparr>sc_CompletedAt := Some now\<rparr>"
    have v: "sc_Name s = n" "plainKey n"
      using tableD_valid [OF t Some] validEntry_plainKey by auto
    have k: "plainKey (sc_Name ?s)" using v by simp
    show ?thesis
    proof (rule SaveSchedule_cases [OF i k])
      fix y assume "so_SaveSchedule st ?s (en_store e) = (Inl y, en_store e)"
      then have "err = Some y" "e' = e"
        using m Some False by (simp_all add: markOneTimeCompleted_def onStore_def env_store)
      then show ?thesis using i by simp
    next
      fix u s' assume a: "so_SaveSchedule st ?s (en_store e) = (Inr u, s')" "inv s'"
        "runs s' = runs (en_store e)" "scheds s' = (scheds (en_store e))(sc_Name ?s \<mapsto> normS ?s)"
      let ?e = "e\<lparr>en_store := s', en_schedules := (en_schedules e)(n \<mapsto> ?s)\<rparr>"
      have e': "err = None" "e' = removeEntryLocked env n ?e"
        using m Some False a(1) by (simp_all add: markOneTimeCompleted_def onStore_def env_store)
      have c: "cronOnly ?e e'" "en_entryIDs e' n = None"
        unfolding e' by (simp_all add: removeEntryLocked_def split: option.split)
      show ?thesis using cronOnly_fields [OF c(1)] c(2) a v e'(1) Some by simp
    qed
  qed
qed

lemma triggerMark_runs:
  assumes i: "inv (en_store e)" and t: "table env entries e"
  shows "inv (en_store (triggerMark env now s r e)) \<and>
    runs (en_store (triggerMark env now s r e)) = runs (en_store e) \<and>
    en_inflight (triggerMark env now s r e) = (s, r) # en_inflight e"
proof -
  obtain x e1 where 1: "markOneTimeCompleted env now (sc_Name s) e = (x, e1)" by fastforce
  show ?thesis using markOneTimeCompleted_runs [OF i t 1] i
    by (simp add: triggerMark_def Let_def 1 split: option.split)
qed

section \<open>A trigger as a whole\<close>

lemma triggerCheck_exact:
  assumes i: "inv (en_store e)" and k: "plainKey (sc_Name s)"
  shows "triggerCheck env s e =
    Inr (\<not> AllowsConcurrentRuns s \<and> hasRunning (runs (en_store e)) (sc_Name s))"
  using HasRunningRun_ok [OF i k] by (simp add: triggerCheck_def env_store)

lemma Trigger_cases:
  assumes i: "inv (en_store e)" and t: "table env entries e"
    and tr: "Trigger env now n by at e = ((r, err), e')"
  obtains "en_schedules e n = None" "err = Some (ConfigError (''schedule not found: '' @ n))" "r = zeroRun" "e' = e"
  | s where "en_schedules e n = Some s" "sc_Name s = n" "plainKey n" "\<not> AllowsConcurrentRuns s"
      "hasRunning (runs (en_store e)) n" "triggerSkip env now s by at e = ((r, err), e')"
  | s x where "en_schedules e n = Some s" "sc_Name s = n" "plainKey n"
      "AllowsConcurrentRuns s \<or> \<not> hasRunning (runs (en_store e)) n"
      "triggerStart env (now 0) s by at e = (Inl x, e)" "r = zeroRun" "err = Some x" "e' = e"
  | s e1 where "en_schedules e n = Some s" "sc_Name s = n" "plainKey n"
      "AllowsConcurrentRuns s \<or> \<not> hasRunning (runs (en_store e)) n"
      "triggerStart env (now 0) s by at e = (Inr r, e1)" "err = None" "e' = triggerMark env (now 1) s r e1"
proof (cases "en_schedules e n")
  case None
  then have "((zeroRun, Some (ConfigError (''schedule not found: '' @ n))), e) = ((r, err), e')"
    using tr by (simp add: Trigger_def triggerLookup_def)
  then show thesis using that(1) [OF None] by blast
next
  case (Some s)
  then have s: "sc_Name s = n" "plainKey n"
    using tableD_valid [OF t Some] validEntry_plainKey by auto
  then have k: "plainKey (sc_Name s)" by simp
  note c = triggerCheck_exact [OF i k]
  show thesis
  proof (cases "\<not> AllowsConcurrentRuns s \<and> hasRunning (runs (en_store e)) n")
    case True
    then have "triggerSkip env now s by at e = ((r, err), e')"
      using tr Some c s(1) by (simp add: Trigger_def triggerLookup_def)
    then show thesis using that(2) [OF Some] s True by blast
  next
    case False
    obtain y e1 where 1: "triggerStart env (now 0) s by at e = (y, e1)" by fastforce
    show thesis
    proof (cases y)
      case (Inl x)
      then have "e1 = e" using triggerStart_runs(5) [OF i k 1] by simp
      moreover have "r = zeroRun" "err = Some x" "e' = e1"
        using tr Some c s(1) False 1 Inl by (auto simp: Trigger_def triggerLookup_def)
      ultimately show thesis using that(3) [OF Some] s False 1 Inl by blast
    next
      case (Inr q)
      then have "r = q" "err = None" "e' = triggerMark env (now 1) s q e1"
        using tr Some c s(1) False 1 by (auto simp: Trigger_def triggerLookup_def)
      then show thesis using that(4) [OF Some] s False 1 Inr by blast
    qed
  qed
qed

lemma triggerSkip_error:
  assumes "triggerSkip env now s by at e = ((r, err), e')" "err \<noteq> None"
  shows "e' = e \<and> r = zeroRun"
proof -
  let ?r = "skippedRun s by at (now 0) (now 1)"
  obtain y s' where y: "so_SaveRun st ?r (en_store e) = (y, s')" by fastforce
  then obtain x where x: "y = Inl x"
    using assms by (cases y) (simp_all add: triggerSkip_def Let_def onStore_def env_store)
  then have "s' = en_store e" using SaveRun_err y by blast
  then show ?thesis using assms(1) y x by (simp add: triggerSkip_def Let_def onStore_def env_store)
qed

lemma Trigger_error_frame:
  assumes "inv (en_store e)" "table env entries e" "Trigger env now n by at e = ((r, Some x), e')"
  shows "e' = e \<and> r = zeroRun"
  by (rule Trigger_cases [OF assms]) (use triggerSkip_error in auto)

text \<open>The runs after a successful trigger.\<close>

lemma Trigger_effect:
  assumes i: "inv (en_store e)" and t: "table env entries e"
    and tr: "Trigger env now n by at e = ((r, None), e')"
  obtains s where "en_schedules e n = Some s" "\<not> AllowsConcurrentRuns s" "runningIds (runs (en_store e)) n \<noteq> {}"
      "r = skippedRun s by at (now 0) (now 1)" "en_inflight e' = en_inflight e" "inv (en_store e')"
      "runningIds (runs (en_store e')) n = runningIds (runs (en_store e)) n - {runID n by at}"
  | s where "en_schedules e n = Some s" "AllowsConcurrentRuns s \<or> runningIds (runs (en_store e)) n = {}"
      "r = newRun s by at (now 0)" "en_inflight e' = (s, r) # en_inflight e" "inv (en_store e')"
      "runs (en_store e') = (runs (en_store e))(runID n by at \<mapsto> normR r)"
      "runningIds (runs (en_store e')) n = insert (runID n by at) (runningIds (runs (en_store e)) n)"
proof (rule Trigger_cases [OF i t tr])
  fix s assume a: "en_schedules e n = Some s" "sc_Name s = n" "plainKey n" "\<not> AllowsConcurrentRuns s"
    "hasRunning (runs (en_store e)) n" "triggerSkip env now s by at e = ((r, None), e')"
  have k: "plainKey (sc_Name s)" using a by simp
  note sk = triggerSkip_runs [OF i k a(6)]
  show thesis using that(1) [OF a(1,4)] a(2,5) sk(1,2) sk(6) sk(7) [of n]
    by (simp add: hasRunning_runningIds)
next
  fix s e1 assume a: "en_schedules e n = Some s" "sc_Name s = n" "plainKey n"
    "AllowsConcurrentRuns s \<or> \<not> hasRunning (runs (en_store e)) n"
    "triggerStart env (now 0) s by at e = (Inr r, e1)" "e' = triggerMark env (now 1) s r e1"
  have k: "plainKey (sc_Name s)" using a by simp
  note ts = triggerStart_runs [OF i k a(5)]
  have t1: "table env entries e1" using triggerStart_table [OF t, of "now 0" s "by" at] a(5) by simp
  obtain s1 where e1: "e1 = e\<lparr>en_store := s1\<rparr>" using ts(2) by blast
  note tm = triggerMark_runs [OF ts(1) t1, of "now 1" s r]
  have r: "r = newRun s by at (now 0)" "runs (en_store e1) = (runs (en_store e))(runID n by at \<mapsto> normR r)"
    using ts(4) [of r] a(2) by simp_all
  have q: "runningIds (runs (en_store e1)) n = insert (runID n by at) (runningIds (runs (en_store e)) n)"
    using conjunct2 [OF conjunct2 [OF ts(4) [OF refl]]] a(2) by simp
  show thesis
    by (rule that(2) [OF a(1)]) (use a(4) r q tm e1 in \<open>simp_all add: a(6) hasRunning_runningIds\<close>)
qed simp_all

end

section \<open>Execution\<close>

context engine_store
begin

text \<open>The run that \<open>executeRun\<close> writes, and the store it is pruned in.\<close>

definition executed :: "(nat \<Rightarrow> go_time) \<Rightarrow> ScheduleConfig \<Rightarrow> Run \<Rightarrow> Config \<Rightarrow> Run" where
  "executed now s r cfg =
     finishedRun r (TriggerTarget (ev_net env) (runContext (sc_Timeout s)) s r (cfg_Faktory cfg)) (now 0)"

lemma executed_fields [simp]:
  "r_ID (executed now s r cfg) = r_ID r" "r_ScheduleName (executed now s r cfg) = r_ScheduleName r"
  "r_StartedAt (executed now s r cfg) = r_StartedAt r" "r_FinishedAt (executed now s r cfg) = Some (now 0)"
  by (simp_all add: executed_def)

lemma executed_status:
  "r_Status (executed now s r cfg) = RunSucceeded \<or> r_Status (executed now s r cfg) = RunFailed"
  by (simp add: executed_def)

lemma executed_storable: "storableRun r \<Longrightarrow> storableRun (executed now s r cfg) \<and> plainStatus (executed now s r cfg)"
  using executed_status [of now s r cfg] by (auto simp: storableRun_def plainStatus_def)

text \<open>The log aside, \<open>executeRun\<close> is the update of the store, a pruning if due, and the end of
  the goroutine.\<close>

lemma executeRun_eq:
  "\<exists>e1. executeRun env now s r e =
      (let e2 = maybePruneRuns env (now 1) (now 2) (logRunEvent (executed now s r (en_cfg e)) e1)
       in e2\<lparr>en_inflight := remove1 (s, r) (en_inflight e2)\<rparr>) \<and>
     (\<exists>l. e1 = e\<lparr>en_store := snd (so_UpdateRun st (executed now s r (en_cfg e)) (en_store e)), en_log := l\<rparr>)"
proof -
  let ?o = "TriggerTarget (ev_net env) (runContext (sc_Timeout s)) s r (cfg_Faktory (en_cfg e))"
  let ?x = "executed now s r (en_cfg e)"
  let ?up = "\<lambda>e1. case onStore (so_UpdateRun (ev_store env) ?x) e1 of
                 (Inr _, e) \<Rightarrow> e
               | (Inl err, e) \<Rightarrow> logLine ''update run'' [(''run_id'', AnyString (r_ID ?x)), (''error'', AnyString (Error err))] e"
  have "\<exists>l. (case snd ?o of None \<Rightarrow> logLine ''run succeeded'' a e
      | Some er \<Rightarrow> logLine ''run failed'' (a @ [(''error'', AnyString (Error er))]) e) = e\<lparr>en_log := l\<rparr>" for a
    by (cases "snd ?o") (auto simp: logLine_def)
  then obtain l where l: "(case snd ?o of None \<Rightarrow> logLine ''run succeeded''
          [(''schedule'', AnyString (r_ScheduleName ?x)), (''run_id'', AnyString (r_ID ?x))] e
      | Some er \<Rightarrow> logLine ''run failed'' ([(''schedule'', AnyString (r_ScheduleName ?x)),
          (''run_id'', AnyString (r_ID ?x))] @ [(''error'', AnyString (Error er))]) e) = e\<lparr>en_log := l\<rparr>"
    by blast
  obtain y s' where y: "so_UpdateRun st ?x (en_store e) = (y, s')" by fastforce
  have "\<exists>l'. ?up (e\<lparr>en_log := l\<rparr>) = e\<lparr>en_store := snd (so_UpdateRun st ?x (en_store e)), en_log := l'\<rparr>"
  proof (cases y)
    case (Inl x)
    then show ?thesis using y by (auto simp: onStore_def env_store logLine_def)
  next
    case (Inr u)
    then show ?thesis using y by (intro exI [of _ l]) (simp add: onStore_def env_store)
  qed
  moreover have "executeRun env now s r e =
      (let e2 = maybePruneRuns env (now 1) (now 2) (logRunEvent ?x (?up (e\<lparr>en_log := l\<rparr>)))
       in e2\<lparr>en_inflight := remove1 (s, r) (en_inflight e2)\<rparr>)"
    using l by (simp only: executeRun_def Let_def executed_def)
  ultimately show ?thesis by blast
qed

lemma executeRun_runs:
  assumes i: "inv (en_store e)" and r: "storableRun r"
  shows "inv (en_store (executeRun env now s r e))"
    "en_inflight (executeRun env now s r e) = remove1 (s, r) (en_inflight e)"
    "en_schedules (executeRun env now s r e) = en_schedules e"
    "scheds (en_store (executeRun env now s r e)) = scheds (en_store e)"
    "runningIds (runs (en_store (executeRun env now s r e))) n \<subseteq> runningIds (runs (en_store e)) n"
    "fst (so_UpdateRun st (executed now s r (en_cfg e)) (en_store e)) = Inr () \<Longrightarrow>
       prunedTo ((runs (en_store e))(r_ID r \<mapsto> normR (executed now s r (en_cfg e))))
         (runs (en_store (executeRun env now s r e))) \<and>
       runningIds (runs (en_store (executeRun env now s r e))) n = runningIds (runs (en_store e)) n - {r_ID r}"
proof -
  let ?x = "executed now s r (en_cfg e)" and ?e = "executeRun env now s r e"
  let ?c = "fst (so_UpdateRun st ?x (en_store e)) = Inr ()"
  let ?s1 = "snd (so_UpdateRun st ?x (en_store e))"
  note ss = executed_storable [OF r, of now s "en_cfg e"]
  obtain e1 l where e1: "?e = (let e2 = maybePruneRuns env (now 1) (now 2) (logRunEvent ?x e1)
       in e2\<lparr>en_inflight := remove1 (s, r) (en_inflight e2)\<rparr>)" "e1 = e\<lparr>en_store := ?s1, en_log := l\<rparr>"
    using executeRun_eq [of now s r e] by blast
  have s1: "inv ?s1 \<and> scheds ?s1 = scheds (en_store e) \<and>
      (?c \<longrightarrow> runs ?s1 = (runs (en_store e))(r_ID r \<mapsto> normR ?x)) \<and> (\<not> ?c \<longrightarrow> runs ?s1 = runs (en_store e))"
  proof (rule SaveRun_cases [OF i conjunct1 [OF ss] conjunct2 [OF ss]])
    fix y assume "so_SaveRun st ?x (en_store e) = (Inl y, en_store e)"
    then show ?thesis using i by (simp add: UpdateRun_SaveRun)
  next
    fix u s' assume a: "so_SaveRun st ?x (en_store e) = (Inr u, s')" "inv s'"
      "runs s' = (runs (en_store e))(r_ID ?x \<mapsto> normR ?x)" "scheds s' = scheds (en_store e)"
    have "so_UpdateRun st ?x (en_store e) = (Inr (), s')" using a(1) by (simp add: UpdateRun_SaveRun)
    then show ?thesis using a(2-4) by simp
  qed
  define l1 where "l1 = logRunEvent ?x e1"
  have l1: "en_store l1 = ?s1" "en_inflight l1 = en_inflight e" "en_schedules l1 = en_schedules e"
    by (simp_all add: l1_def e1(2))
  have "inv (en_store l1)" using s1 l1(1) by simp
  note m = maybePruneRuns_runs [OF this, of "now 1" "now 2", unfolded l1]
  have e': "?e = (maybePruneRuns env (now 1) (now 2) l1)\<lparr>en_inflight := remove1 (s, r) (en_inflight e)\<rparr>"
    using e1(1) m(4) by (simp add: Let_def l1_def)
  have "prunedTo (runs ?s1) (runs (en_store ?e))" using m(2) by (simp add: e')
  moreover have "inv (en_store ?e) \<and> en_inflight ?e = remove1 (s, r) (en_inflight e) \<and>
      en_schedules ?e = en_schedules e \<and> scheds (en_store ?e) = scheds (en_store e)"
    using m(1,3,5) conjunct1 [OF conjunct2 [OF s1]] by (simp add: e')
  moreover have "?c \<longrightarrow> runs ?s1 = (runs (en_store e))(r_ID r \<mapsto> normR ?x)" "\<not> ?c \<longrightarrow> runs ?s1 = runs (en_store e)"
    by (rule conjunct1 [OF conjunct2 [OF conjunct2 [OF s1]]], rule conjunct2 [OF conjunct2 [OF conjunct2 [OF s1]]])
  ultimately obtain R where R: "prunedTo R (runs (en_store ?e))" "?c \<Longrightarrow> R = (runs (en_store e))(r_ID r \<mapsto> normR ?x)"
      "\<not> ?c \<Longrightarrow> R = runs (en_store e)"
    and f: "inv (en_store ?e)" "en_inflight ?e = remove1 (s, r) (en_inflight e)"
      "en_schedules ?e = en_schedules e" "scheds (en_store ?e) = scheds (en_store e)"
    by blast
  show "inv (en_store ?e)" "en_inflight ?e = remove1 (s, r) (en_inflight e)"
      "en_schedules ?e = en_schedules e" "scheds (en_store ?e) = scheds (en_store e)" by (rule f)+
  have "sameRun ?x (normR ?x)" using normR_same ss by blast
  then have u: "runningIds ((runs (en_store e))(r_ID r \<mapsto> normR ?x)) n = runningIds (runs (en_store e)) n - {r_ID r}"
    using runningIds_upd [of ?x "normR ?x" "runs (en_store e)" "r_ID r" n] executed_status [of now s r "en_cfg e"]
    by auto
  show "runningIds (runs (en_store ?e)) n \<subseteq> runningIds (runs (en_store e)) n"
    using runningIds_pruned [OF R(1), of n] R(2,3) u by (cases ?c) auto
  show "prunedTo ((runs (en_store e))(r_ID r \<mapsto> normR ?x)) (runs (en_store ?e)) \<and>
       runningIds (runs (en_store ?e)) n = runningIds (runs (en_store e)) n - {r_ID r}" if ?c
    using runningIds_pruned [OF R(1), of n] R(1,2) u that by simp
qed

end

section \<open>The table and the stored schedules\<close>

text \<open>
  The schedules in memory and those in the store agree when the store holds, under the same names,
  what it makes of the ones in memory.
\<close>

definition agree :: "('s \<Rightarrow> (string \<rightharpoonup> ScheduleConfig)) \<Rightarrow> (ScheduleConfig \<Rightarrow> ScheduleConfig) \<Rightarrow>
    ('s, 'q) Engine \<Rightarrow> bool" where
  "agree scheds normS e \<longleftrightarrow> (\<forall>k. scheds (en_store e) k = map_option normS (en_schedules e k))"

lemma agree_frame [simp]:
  "agree scheds normS (e\<lparr>en_log := l\<rparr>) = agree scheds normS e"
  "agree scheds normS (e\<lparr>en_inflight := f\<rparr>) = agree scheds normS e"
  by (simp_all add: agree_def)

lemma saveTarget_ok:
  assumes "saveTarget e n s = Inr (s', old)"
  shows "sc_Name s' = sc_Name s" "normalised s \<Longrightarrow> normalised s'"
    "\<exists>t. s' = s\<lparr>sc_CompletedAt := t\<rparr>"
    "n \<noteq> [] \<Longrightarrow> old = en_schedules e n" "n = [] \<Longrightarrow> old = None"
    "n = [] \<or> n \<noteq> sc_Name s \<Longrightarrow> en_schedules e (sc_Name s) = None"
proof -
  have same: "\<exists>t. s = s\<lparr>sc_CompletedAt := t\<rparr>" by (rule exI [of _ "sc_CompletedAt s"]) simp
  have *: "sc_Name s' = sc_Name s \<and> (\<exists>t. s' = s\<lparr>sc_CompletedAt := t\<rparr>) \<and>
    (n \<noteq> [] \<longrightarrow> old = en_schedules e n) \<and> (n = [] \<longrightarrow> old = None) \<and>
    (n = [] \<or> n \<noteq> sc_Name s \<longrightarrow> en_schedules e (sc_Name s) = None)"
  proof (cases "n = []")
    case True
    then have "s' = s \<and> old = None \<and> en_schedules e (sc_Name s) = None"
      using assms by (auto simp: saveTarget_def bindE_def split: if_splits)
    then show ?thesis using True same by blast
  next
    case False
    then obtain a where a: "en_schedules e n = Some a"
      using assms by (cases "en_schedules e n") (simp_all add: saveTarget_def bindE_def)
    define q where "q = (if sc_ScheduleType s = ''once'' \<and> sc_ScheduleType a = ''once'' \<and> sc_RunAt s = sc_RunAt a
                      \<and> sc_Timezone s = sc_Timezone a \<and> sc_CompletedAt s = None
                   then s\<lparr>sc_CompletedAt := sc_CompletedAt a\<rparr> else s)"
    have q: "sc_Name q = sc_Name s" "\<exists>t. q = s\<lparr>sc_CompletedAt := t\<rparr>"
      using same by (auto simp only: q_def split: if_split) simp_all
    have "s' = q" "old = Some a" "n = sc_Name s \<or> en_schedules e (sc_Name s) = None"
      using assms False a q(1) by (auto simp add: saveTarget_def bindE_def q_def [symmetric] split: if_splits)
    then show ?thesis using False a q by auto
  qed
  then show "sc_Name s' = sc_Name s" "\<exists>t. s' = s\<lparr>sc_CompletedAt := t\<rparr>"
    "n \<noteq> [] \<Longrightarrow> old = en_schedules e n" "n = [] \<Longrightarrow> old = None"
    "n = [] \<or> n \<noteq> sc_Name s \<Longrightarrow> en_schedules e (sc_Name s) = None" by simp_all
  show "normalised s \<Longrightarrow> normalised s'" using * by auto
qed

context engine_store
begin

lemma storeSchedule_ok:
  assumes i: "inv (en_store e)" and k: "plainKey (sc_Name s)"
    and s: "storeSchedule env n s old e = (None, e')"
  shows "\<exists>s'. e' = e\<lparr>en_store := s'\<rparr> \<and> inv s' \<and> runs s' = runs (en_store e) \<and>
    scheds s' = (if n \<noteq> [] \<and> n \<noteq> sc_Name s
      then (scheds (en_store e))(sc_Name s \<mapsto> normS s, n := None)
      else (scheds (en_store e))(sc_Name s \<mapsto> normS s))"
proof (rule SaveSchedule_cases [OF i k])
  fix y assume "so_SaveSchedule st s (en_store e) = (Inl y, en_store e)"
  then show ?thesis using s by (simp add: storeSchedule_def onStore_def env_store)
next
  fix u s1 assume a: "so_SaveSchedule st s (en_store e) = (Inr u, s1)" "inv s1"
    "runs s1 = runs (en_store e)" "scheds s1 = (scheds (en_store e))(sc_Name s \<mapsto> normS s)"
  show ?thesis
  proof (cases "n \<noteq> [] \<and> n \<noteq> sc_Name s")
    case False
    then have "e' = e\<lparr>en_store := s1\<rparr>"
      using s a(1) by (auto simp: storeSchedule_def onStore_def env_store)
    then show ?thesis using a False by auto
  next
    case True
    obtain y s2 where d: "so_DeleteSchedule st n s1 = (y, s2)" by fastforce
    obtain v where y: "y = Inr v" and e': "e' = e\<lparr>en_store := s2\<rparr>"
      using s a(1) d True by (cases y) (simp_all add: storeSchedule_def onStore_def env_store Let_def)
    note ok = DeleteSchedule_ok [OF a(2), of n v s2]
    have "inv s2 \<and> runs s2 = runs s1 \<and> scheds s2 = (scheds s1)(n := None)" using ok d y by simp
    then show ?thesis using e' a True by auto
  qed
qed

lemma SaveSchedule_agree:
  assumes i: "inv (en_store e)" and t: "table env entries e" and a: "agree scheds normS e"
    and s: "SaveSchedule env now n s0 e = (None, e')"
  shows "inv (en_store e') \<and> runs (en_store e') = runs (en_store e) \<and> agree scheds normS e' \<and>
    (\<exists>t. en_schedules e' = (if n \<noteq> [] \<and> n \<noteq> sc_Name s0 then (en_schedules e)(n := None) else en_schedules e)
      (sc_Name s0 \<mapsto> (NormalizeSchedule s0)\<lparr>sc_CompletedAt := t\<rparr>))"
proof -
  let ?s1 = "NormalizeSchedule s0"
  obtain v s old e1 where v: "validateSchedule (ca_Parse (ev_cron env)) (ev_loadLocation env) ?s1 (cfg_Faktory (en_cfg e)) = Inr v"
    and sv: "saveTarget e n ?s1 = Inr (s, old)"
    and st: "storeSchedule env n s old e = (None, e1)" and sw: "swapSchedule env now n s old e1 = (None, e')"
    using s by (auto simp: SaveSchedule_def Let_def split: sum.splits prod.splits option.splits)
  note tg = saveTarget_ok [OF sv]
  have "validEntry env (en_cfg e) ?s1" using v validEntry_validate [of env ?s1 "en_cfg e"] by simp
  then have k: "plainKey (sc_Name s)" using validEntry_plainKey tg(1) by metis
  obtain c where c: "s = ?s1\<lparr>sc_CompletedAt := c\<rparr>" using tg(3) by blast
  have ns: "NormalizeSchedule s = s"
    using tg(2) normalised_NormalizeSchedule NormalizeSchedule_id by blast
  obtain s' where e1: "e1 = e\<lparr>en_store := s'\<rparr>" "inv s'" "runs s' = runs (en_store e)"
    "scheds s' = (if n \<noteq> [] \<and> n \<noteq> sc_Name s
      then (scheds (en_store e))(sc_Name s \<mapsto> normS s, n := None)
      else (scheds (en_store e))(sc_Name s \<mapsto> normS s))"
    using storeSchedule_ok [OF i k st] by blast
  have t1: "table env entries e1" using t e1(1) by simp
  have e': "en_store e' = en_store e1"
    "en_schedules e' = (if n \<noteq> [] \<and> n \<noteq> sc_Name s then (en_schedules e1)(n := None) else en_schedules e1)
         (sc_Name s \<mapsto> NormalizeSchedule s)"
    using swapSchedule_table(2) [OF t1 sw] by simp_all
  have "agree scheds normS e'"
    using a e1 unfolding agree_def e' ns by (cases "n \<noteq> [] \<and> n \<noteq> sc_Name s") (auto simp: fun_upd_apply)
  moreover have "en_schedules e' = (if n \<noteq> [] \<and> n \<noteq> sc_Name s0 then (en_schedules e)(n := None) else en_schedules e)
      (sc_Name s0 \<mapsto> ?s1\<lparr>sc_CompletedAt := c\<rparr>)"
    using e'(2) tg(1) c ns e1(1) by simp
  ultimately show ?thesis using e'(1) e1 by auto
qed

lemma removeScheduleLocked_fields:
  "en_schedules (removeScheduleLocked env n e) = (en_schedules e)(n := None)"
  "en_store (removeScheduleLocked env n e) = en_store e"
  by (simp_all add: removeScheduleLocked_def removeEntryLocked_def Let_def split: option.split)

lemma DeleteSchedule_agree:
  assumes i: "inv (en_store e)" and a: "agree scheds normS e" and n: "en_schedules e n \<noteq> None"
    and d: "DeleteSchedule env n e = (err, e')"
  shows "en_schedules e' = (en_schedules e)(n := None)" "inv (en_store e')" "runs (en_store e') = runs (en_store e)"
    "err = None \<Longrightarrow> agree scheds normS e'"
    "err \<noteq> None \<Longrightarrow> en_store e' = en_store e \<and> scheds (en_store e') n \<noteq> None"
proof -
  obtain s where s: "en_schedules e n = Some s" using n by blast
  obtain y s' where y: "so_DeleteSchedule st n (en_store e) = (y, s')" by fastforce
  have e': "e' = (removeScheduleLocked env n e)\<lparr>en_store := s'\<rparr>" "err = (case y of Inl x \<Rightarrow> Some x | Inr _ \<Rightarrow> None)"
    using d s y by (auto simp: DeleteSchedule_def onStore_def env_store removeScheduleLocked_fields split: sum.splits)
  have sch: "en_schedules e' = (en_schedules e)(n := None)" "en_store e' = s'"
    by (simp_all add: e' removeScheduleLocked_fields)
  have "inv s' \<and> runs s' = runs (en_store e) \<and> (err = None \<longrightarrow> agree scheds normS e') \<and>
      (err \<noteq> None \<longrightarrow> s' = en_store e \<and> scheds s' n \<noteq> None)"
  proof (cases y)
    case (Inl x)
    then have "s' = en_store e" using DeleteSchedule_err y by blast
    moreover have "scheds (en_store e) n \<noteq> None" using a s by (simp add: agree_def)
    ultimately show ?thesis using i e'(2) Inl by simp
  next
    case (Inr u)
    then have ok: "inv s'" "runs s' = runs (en_store e)" "scheds s' = (scheds (en_store e))(n := None)"
      using DeleteSchedule_ok [OF i, of n u s'] y by simp_all
    have "agree scheds normS e'" using a unfolding agree_def sch ok by simp
    then show ?thesis using ok e'(2) Inr by simp
  qed
  then show "en_schedules e' = (en_schedules e)(n := None)" "inv (en_store e')" "runs (en_store e') = runs (en_store e)"
    "err = None \<Longrightarrow> agree scheds normS e'"
    "err \<noteq> None \<Longrightarrow> en_store e' = en_store e \<and> scheds (en_store e') n \<noteq> None"
    unfolding sch by (elim conjE, auto)
qed

lemma registerScheduleLocked_store:
  "registerScheduleLocked env now1 now2 s e = (err, e') \<Longrightarrow> en_store e' = en_store e \<and> en_schedules e' = en_schedules e"
  by (auto simp: registerScheduleLocked_def removeEntryLocked_def Let_def
      split: option.splits if_splits sum.splits prod.splits)

lemma TogglePause_agree:
  assumes i: "inv (en_store e)" and t: "table env entries e" and a: "agree scheds normS e"
    and s: "en_schedules e n = Some s" and p: "TogglePause env now n e = ((b, None), e')"
  shows "inv (en_store e') \<and> runs (en_store e') = runs (en_store e) \<and> b = (\<not> sc_Paused s) \<and>
    en_schedules e' = (en_schedules e)(n \<mapsto> s\<lparr>sc_Paused := b\<rparr>) \<and> agree scheds normS e'"
proof -
  let ?s = "s\<lparr>sc_Paused := \<not> sc_Paused s\<rparr>"
  have v: "sc_Name s = n" "plainKey n" using tableD_valid [OF t s] validEntry_plainKey by auto
  then have k: "plainKey (sc_Name ?s)" by simp
  show ?thesis
  proof (rule SaveSchedule_cases [OF i k])
    fix y assume "so_SaveSchedule st ?s (en_store e) = (Inl y, en_store e)"
    then show ?thesis using p s by (simp add: TogglePause_def Let_def onStore_def env_store)
  next
    fix u s' assume sv: "so_SaveSchedule st ?s (en_store e) = (Inr u, s')" "inv s'" "runs s' = runs (en_store e)"
      "scheds s' = (scheds (en_store e))(sc_Name ?s \<mapsto> normS ?s)"
    have "b = (\<not> sc_Paused s) \<and> en_store e' = s' \<and> en_schedules e' = (en_schedules e)(n \<mapsto> ?s)"
    proof (cases "sc_Paused s")
      case False
      then show ?thesis using p s sv(1)
        by (auto simp: TogglePause_def Let_def onStore_def env_store removeEntryLocked_def split: option.splits)
    next
      case True
      obtain x e2 where 2: "registerScheduleLocked env (now 0) (now 1) ?s (e\<lparr>en_store := s'\<rparr>) = (x, e2)" by fastforce
      show ?thesis using p s sv(1) True 2 registerScheduleLocked_store [OF 2]
        by (cases x) (auto simp: TogglePause_def Let_def onStore_def env_store)
    qed
    moreover have "agree scheds normS e'" if "en_store e' = s'" "en_schedules e' = (en_schedules e)(n \<mapsto> ?s)"
      using a unfolding agree_def that sv(4) using v by simp
    ultimately show ?thesis using sv by auto
  qed
qed

end

end
