(* ===== verification/EngineInstances.thy ===== *)
theory EngineInstances
  imports EngineRuns BoltContract StoreProperties
begin

text \<open>
  The interfaces of the engine met by the program's own parts: the reference cron library, the
  in-memory store and the bbolt store; and the small engine at which properties are applied.
\<close>

section \<open>Interpretations\<close>

definition engineEnv ::
    "'s Store \<Rightarrow> (string \<Rightarrow> 'c result) \<Rightarrow> nat \<Rightarrow> (string \<Rightarrow> location result) \<Rightarrow> 'k Network \<Rightarrow>
     ('s, 'c refEntries, 'c, 'k) Env" where
  "engineEnv st parse limit loc net =
     \<lparr>ev_store = st, ev_cron = refCron parse limit, ev_loadLocation = loc, ev_net = net\<rparr>"

lemma engineEnv_fields [simp]:
  "ev_store (engineEnv st parse limit loc net) = st"
  "ev_cron (engineEnv st parse limit loc net) = refCron parse limit"
  "ev_loadLocation (engineEnv st parse limit loc net) = loc"
  "ev_net (engineEnv st parse limit loc net) = net"
  by (simp_all add: engineEnv_def)

interpretation et: cron_table "refCron parse limit" map_of "engineEnv st parse limit loc net"
  by unfold_locales simp

text \<open>The engine over the in-memory store and over the bbolt store.\<close>

interpretation em: engine_store "memoryStore keyOrder keyOrder" ms_inv ms_runs ms_schedules "\<lambda>r. r"
    NormalizeSchedule "refCron parse limit" map_of "engineEnv (memoryStore keyOrder keyOrder) parse limit loc net"
  by unfold_locales simp

interpretation eb: engine_store "boltStore refBolt (Inr ())" "boltInv refBolt" "runsOf refBolt"
    "schedsOf refBolt" jsonRun "\<lambda>s. jsonSchedule (NormalizeSchedule s)" "refCron parse limit" map_of
    "engineEnv (boltStore refBolt (Inr ())) parse limit loc net"
  by unfold_locales simp

section \<open>A small engine\<close>

definition utcOnly :: "string \<Rightarrow> location result" where
  "utcOnly name = (if name = ''UTC'' then Inr UTC else Inl (External (''unknown time zone '' @ name)))"

definition sampleNetwork :: "unit Network" where
  "sampleNetwork =
     \<lparr>nw_marshal = (\<lambda>_. Inr ()), nw_newRequest = (\<lambda>_ _. Inr ()),
      nw_Do = (\<lambda>_ _. Inr \<lparr>rp_StatusCode = 200, rp_Status = ''200 OK'', rp_Body = Inr ''done''\<rparr>),
      nw_parseURL = (\<lambda>_. Inr (''localhost:7419'', '''')), nw_Getenv = (\<lambda>_. ''''),
      nw_defaultServer = \<lparr>fs_Network = ''tcp'', fs_Address = ''localhost:7419'', fs_Password = '''',
        fs_Timeout = Second, fs_TLS = False\<rparr>,
      nw_newJid = ''jid-1'', nw_Open = (\<lambda>_. Inr ()), nw_Push = (\<lambda>_ _. Inr ()),
      nw_QueueSizes = (\<lambda>_. Inr [(''default'', 0)])\<rparr>"

abbreviation memStore where "memStore \<equiv> memoryStore keyOrder keyOrder"

definition memEnv :: "(MemoryStore, string refEntries, string, unit) Env" where
  "memEnv = engineEnv memStore Inr 1000 utcOnly sampleNetwork"

definition nightly :: ScheduleConfig where
  "nightly = NormalizeSchedule (zeroSchedule\<lparr>sc_Name := ''nightly'', sc_Cron := ''0 2 * * *'',
     sc_Target := zeroTarget\<lparr>tc_Type := ''http'', tc_URL := ''http://localhost/run''\<rparr>\<rparr>)"

definition oneTime :: ScheduleConfig where
  "oneTime = NormalizeSchedule (zeroSchedule\<lparr>sc_Name := ''launch'', sc_ScheduleType := ''once'',
     sc_RunAt := ''2026-05-10T09:00'',
     sc_Target := zeroTarget\<lparr>tc_Type := ''http'', tc_URL := ''http://localhost/run''\<rparr>\<rparr>)"

definition engineWith :: "ScheduleConfig \<Rightarrow> 's \<Rightarrow> ('s, string refEntries) Engine" where
  "engineWith s m = (newEngine (ApplyDefaults zeroConfig) m [(1, SpecSchedule (cronSpec s), s)])
     \<lparr>en_schedules := [sc_Name s \<mapsto> s], en_entryIDs := [sc_Name s \<mapsto> 1]\<rparr>"

lemma engineWith_fields [simp]:
  "en_store (engineWith s m) = m" "en_schedules (engineWith s m) = [sc_Name s \<mapsto> s]"
  "en_entryIDs (engineWith s m) = [sc_Name s \<mapsto> 1]" "en_inflight (engineWith s m) = []"
  "en_cfg (engineWith s m) = ApplyDefaults zeroConfig"
  by (simp_all add: engineWith_def newEngine_def)

lemma engineWith_table:
  assumes "validEntry env (ApplyDefaults zeroConfig) s" "activeSchedule s"
  shows "table env map_of (engineWith s m)"
  by (rule tableI)
    (use assms in \<open>auto simp: engineWith_def newEngine_def split: if_splits\<close>)

lemma nightly_valid:
  "validEntry memEnv (ApplyDefaults zeroConfig) nightly" "activeSchedule nightly" "sc_Name nightly = ''nightly''"
  "AllowsConcurrentRuns nightly = False" "sc_ScheduleType nightly = ''cron''" "plainKey ''nightly''"
proof -
  have "normalised nightly" unfolding nightly_def by (rule normalised_NormalizeSchedule)
  moreover have "isOk (validateSchedule Inr utcOnly nightly (cfg_Faktory (ApplyDefaults zeroConfig)))"
    by code_simp
  ultimately show "validEntry memEnv (ApplyDefaults zeroConfig) nightly"
    by (simp add: validEntry_def memEnv_def refCron_def)
  show "activeSchedule nightly" "sc_Name nightly = ''nightly''" "AllowsConcurrentRuns nightly = False"
    "sc_ScheduleType nightly = ''cron''" "plainKey ''nightly''"
    by code_simp+
qed

lemma oneTime_valid:
  "validEntry memEnv (ApplyDefaults zeroConfig) oneTime" "activeSchedule oneTime" "sc_Name oneTime = ''launch''"
  "AllowsConcurrentRuns oneTime = False" "sc_ScheduleType oneTime = ''once''" "sc_CompletedAt oneTime = None"
  "plainKey ''launch''"
proof -
  have "normalised oneTime" unfolding oneTime_def by (rule normalised_NormalizeSchedule)
  moreover have "isOk (validateSchedule Inr utcOnly oneTime (cfg_Faktory (ApplyDefaults zeroConfig)))"
    by code_simp
  ultimately show "validEntry memEnv (ApplyDefaults zeroConfig) oneTime"
    by (simp add: validEntry_def memEnv_def refCron_def)
  show "activeSchedule oneTime" "sc_Name oneTime = ''launch''" "AllowsConcurrentRuns oneTime = False"
    "sc_ScheduleType oneTime = ''once''" "sc_CompletedAt oneTime = None" "plainKey ''launch''"
    by code_simp+
qed

lemma memEnv_store [simp]: "ev_store memEnv = memStore"
  by (simp add: memEnv_def)

lemma memEnv_engine:
  "engine_store memStore ms_inv ms_runs ms_schedules (\<lambda>r. r) NormalizeSchedule (refCron Inr 1000) map_of memEnv"
  unfolding memEnv_def by (rule em.engine_store_axioms)

lemma nightly_table: "table memEnv map_of (engineWith nightly m)"
  by (rule engineWith_table) (rule nightly_valid)+

lemma oneTime_table: "table memEnv map_of (engineWith oneTime m)"
  by (rule engineWith_table) (rule oneTime_valid)+

end
