(* ===== verification/EngineHistory.thy ===== *)
theory EngineHistory
  imports EngineRuns
begin

text \<open>
  What the handlers that deal with schedules leave alone, and the bound on the run history: between
  two prunings at most as many completed runs are added as the counter of the engine says, so the
  store never holds more than the configured number plus 99.
\<close>

section \<open>The part of the engine that belongs to the runs\<close>

definition sameRuns :: "('s \<Rightarrow> (string \<rightharpoonup> Run)) \<Rightarrow> ('s, 'q) Engine \<Rightarrow> ('s, 'q) Engine \<Rightarrow> bool" where
  "sameRuns runs e e' \<longleftrightarrow> runs (en_store e') = runs (en_store e) \<and> en_cfg e' = en_cfg e \<and>
     en_inflight e' = en_inflight e \<and> en_runsSincePrune e' = en_runsSincePrune e \<and>
     en_runPruneEveryN e' = en_runPruneEveryN e"

lemma sameRuns_refl [simp]: "sameRuns runs e e"
  by (simp add: sameRuns_def)

lemma sameRuns_trans: "sameRuns runs e e1 \<Longrightarrow> sameRuns runs e1 e2 \<Longrightarrow> sameRuns runs e e2"
  by (simp add: sameRuns_def)

lemma sameRuns_upd [simp]:
  "sameRuns runs e (e'\<lparr>en_schedules := m\<rparr>) = sameRuns runs e e'"
  "sameRuns runs e (e'\<lparr>en_log := l\<rparr>) = sameRuns runs e e'"
  by (simp_all add: sameRuns_def)

lemma sameRuns_cronOnly: "cronOnly e e' \<Longrightarrow> sameRuns runs e e'"
  using cronOnly_fields [of e e'] by (simp add: sameRuns_def)

lemma removeEntryLocked_cronOnly: "cronOnly e (removeEntryLocked env n e)"
  by (simp add: removeEntryLocked_def split: option.split)

lemma removeScheduleLocked_same [simp]: "sameRuns runs e (removeScheduleLocked env n e)"
  using sameRuns_cronOnly [OF removeEntryLocked_cronOnly] by (simp add: removeScheduleLocked_def Let_def)

lemma registerScheduleLocked_cronOnly:
  assumes "registerScheduleLocked env now1 now2 s e = (err, e')"
  shows "cronOnly e e'"
proof -
  have "cronOnly (removeEntryLocked env (sc_Name s) e) e'"
    using assms by (auto simp: registerScheduleLocked_def Let_def split: option.splits if_splits sum.splits prod.splits)
  then show ?thesis using cronOnly_trans removeEntryLocked_cronOnly by blast
qed

lemma registerSchedule_same:
  assumes "registerSchedule env now1 now2 s e = (err, e')"
  shows "sameRuns runs e e' \<and> en_store e' = en_store e"
proof -
  let ?s = "NormalizeSchedule s"
  let ?e = "e\<lparr>en_schedules := (en_schedules e)(sc_Name ?s \<mapsto> ?s)\<rparr>"
  obtain x e1 where 1: "registerScheduleLocked env now1 now2 ?s ?e = (x, e1)" by fastforce
  then have c: "cronOnly ?e e1" by (rule registerScheduleLocked_cronOnly)
  then have "sameRuns runs e e1 \<and> en_store e1 = en_store e"
    using cronOnly_fields [OF c] by (simp add: sameRuns_def)
  then show ?thesis using assms 1
    by (cases x) (auto simp: registerSchedule_def Let_def split: sum.splits)
qed

context engine_store
begin

text \<open>A schedule operation on the store, whatever its outcome.\<close>

lemma onStore_SaveSchedule:
  assumes "inv (en_store e)" "plainKey (sc_Name x)" "onStore (so_SaveSchedule (ev_store env) x) e = (y, e')"
  shows "inv (en_store e') \<and> sameRuns runs e e'"
  by (rule SaveSchedule_cases [OF assms(1,2)])
    (use assms(1,3) in \<open>auto simp: onStore_def env_store sameRuns_def\<close>)

lemma onStore_DeleteSchedule:
  assumes "inv (en_store e)" "onStore (so_DeleteSchedule (ev_store env) n) e = (y, e')"
  shows "inv (en_store e') \<and> sameRuns runs e e'"
proof -
  obtain z s' where d: "so_DeleteSchedule st n (en_store e) = (z, s')" by fastforce
  then have e': "e' = e\<lparr>en_store := s'\<rparr>" using assms(2) by (simp add: onStore_def env_store)
  have "inv s' \<and> runs s' = runs (en_store e)"
    using DeleteSchedule_ok [OF assms(1)] DeleteSchedule_err d assms(1) by (cases z) fastforce+
  then show ?thesis using e' by (auto simp: sameRuns_def)
qed

lemma storeSchedule_same:
  assumes i: "inv (en_store e)" and k: "plainKey (sc_Name s)"
    and o': "\<And>x. old = Some x \<Longrightarrow> plainKey (sc_Name x)" and n: "n \<noteq> [] \<Longrightarrow> old \<noteq> None"
    and s: "storeSchedule env n s old e = (err, e')"
  shows "inv (en_store e') \<and> sameRuns runs e e'"
proof -
  obtain y1 e1 where 1: "onStore (so_SaveSchedule (ev_store env) s) e = (y1, e1)" by fastforce
  note s1 = onStore_SaveSchedule [OF i k 1]
  obtain y2 e2 where 2: "onStore (so_DeleteSchedule (ev_store env) n) e1 = (y2, e2)" by fastforce
  note s2 = onStore_DeleteSchedule [OF conjunct1 [OF s1] 2]
  show ?thesis
  proof (cases "\<exists>u v. y1 = Inr u \<and> n \<noteq> [] \<and> n \<noteq> sc_Name s \<and> y2 = Inl v")
    case False
    then have "e' = e1 \<or> e' = e2"
      using s 1 2 by (auto simp: storeSchedule_def split: sum.splits if_splits)
    then show ?thesis using s1 s2 sameRuns_trans by blast
  next
    case True
    then obtain u v x where c: "y1 = Inr u" "n \<noteq> []" "n \<noteq> sc_Name s" "y2 = Inl v" "old = Some x" using n by blast
    obtain y3 e3 where 3: "onStore (so_DeleteSchedule (ev_store env) (sc_Name s)) e2 = (y3, e3)" by fastforce
    note s3 = onStore_DeleteSchedule [OF conjunct1 [OF s2] 3]
    obtain y4 e4 where 4: "onStore (so_SaveSchedule (ev_store env) x) e3 = (y4, e4)" by fastforce
    note s4 = onStore_SaveSchedule [OF conjunct1 [OF s3] o' [OF c(5)] 4]
    have "e' = e4" using s 1 2 3 4 c by (simp add: storeSchedule_def Let_def)
    then show ?thesis using s1 s2 s3 s4 sameRuns_trans by blast
  qed
qed

lemma swapSchedule_same:
  assumes i: "inv (en_store e)" and k: "plainKey (sc_Name s)"
    and o': "\<And>x. old = Some x \<Longrightarrow> plainKey (sc_Name x)"
    and s: "swapSchedule env now n s old e = (err, e')"
  shows "inv (en_store e') \<and> sameRuns runs e e'"
proof -
  define e2 where "e2 = removeScheduleLocked env (sc_Name s)
    (if n \<noteq> [] \<and> n \<noteq> sc_Name s then removeScheduleLocked env n e else e)"
  have s2: "sameRuns runs e e2" "en_store e2 = en_store e"
    using sameRuns_trans [OF removeScheduleLocked_same removeScheduleLocked_same, of runs e env "sc_Name s" env n]
    by (auto simp: e2_def removeScheduleLocked_fields)
  obtain x e3 where 3: "registerSchedule env (now 0) (now 1) s e2 = (x, e3)" by fastforce
  note s3 = registerSchedule_same [OF 3, of runs]
  have i3: "inv (en_store e3)" "sameRuns runs e e3" using s2 s3 i sameRuns_trans by auto
  show ?thesis
  proof (cases x)
    case None
    then have "e' = e3" using s 3 by (simp add: swapSchedule_def Let_def e2_def)
    then show ?thesis using i3 by simp
  next
    case (Some er)
    let ?e4 = "removeScheduleLocked env (sc_Name s) e3"
    have i4: "inv (en_store ?e4)" "sameRuns runs e ?e4"
      using i3 sameRuns_trans [OF i3(2) removeScheduleLocked_same] by (simp_all add: removeScheduleLocked_fields)
    obtain y5 e5 where 5: "onStore (so_DeleteSchedule (ev_store env) (sc_Name s)) ?e4 = (y5, e5)" by fastforce
    have i5: "inv (en_store e5)" "sameRuns runs e e5"
      using onStore_DeleteSchedule [OF i4(1) 5] i4(2) sameRuns_trans by blast+
    show ?thesis
    proof (cases old)
      case None
      then have "e' = e5" using s 3 5 Some by (simp add: swapSchedule_def Let_def e2_def)
      then show ?thesis using i5 by simp
    next
      case o: (Some q)
      obtain y6 e6 where 6: "onStore (so_SaveSchedule (ev_store env) q) e5 = (y6, e6)" by fastforce
      note s6 = onStore_SaveSchedule [OF i5(1) o' [OF o] 6]
      obtain y7 e7 where 7: "registerSchedule env (now 2) (now 3) q e6 = (y7, e7)" by fastforce
      note s7 = registerSchedule_same [OF 7, of runs]
      have "e' = e7" using s 3 5 6 7 Some o by (simp add: swapSchedule_def Let_def e2_def)
      moreover have "sameRuns runs e e7" using s6 s7 i5(2) sameRuns_trans by metis
      ultimately show ?thesis using s6 s7 by simp
    qed
  qed
qed

text \<open>The names of the schedules that \<open>SaveSchedule\<close> writes.\<close>

lemma savedKeys:
  assumes t: "table env entries e"
    and v: "validateSchedule (ca_Parse (ev_cron env)) (ev_loadLocation env) (NormalizeSchedule s0) (cfg_Faktory (en_cfg e)) = Inr v"
    and sv: "saveTarget e n (NormalizeSchedule s0) = Inr (q, old)"
  shows "plainKey (sc_Name q)" "old = Some x \<Longrightarrow> plainKey (sc_Name x)" "n \<noteq> [] \<Longrightarrow> old \<noteq> None"
proof -
  note tg = saveTarget_ok [OF sv]
  have "validEntry env (en_cfg e) (NormalizeSchedule s0)"
    using v validEntry_validate [of env "NormalizeSchedule s0" "en_cfg e"] by simp
  then show "plainKey (sc_Name q)" using validEntry_plainKey tg(1) by metis
  show "n \<noteq> [] \<Longrightarrow> old \<noteq> None"
    using sv tg(4) by (cases "en_schedules e n") (auto simp: saveTarget_def bindE_def)
  show "plainKey (sc_Name x)" if "old = Some x"
  proof (cases "n = []")
    case True
    then show ?thesis using tg(5) that by simp
  next
    case False
    then have "en_schedules e n = Some x" using tg(4) that by simp
    then show ?thesis using tableD_valid [OF t] validEntry_plainKey by blast
  qed
qed

lemma SaveSchedule_same:
  assumes i: "inv (en_store e)" and t: "table env entries e"
    and s: "SaveSchedule env now n s0 e = (err, e')"
  shows "inv (en_store e') \<and> sameRuns runs e e'"
proof -
  let ?s1 = "NormalizeSchedule s0"
  consider "e' = e"
    | q v old where "validateSchedule (ca_Parse (ev_cron env)) (ev_loadLocation env) ?s1 (cfg_Faktory (en_cfg e)) = Inr v"
      "saveTarget e n ?s1 = Inr (q, old)" "\<exists>x. storeSchedule env n q old e = (Some x, e')"
    | q v old e1 where "validateSchedule (ca_Parse (ev_cron env)) (ev_loadLocation env) ?s1 (cfg_Faktory (en_cfg e)) = Inr v"
      "saveTarget e n ?s1 = Inr (q, old)" "storeSchedule env n q old e = (None, e1)"
      "swapSchedule env now n q old e1 = (err, e')"
    using s by (auto simp: SaveSchedule_def Let_def split: sum.splits prod.splits option.splits)
  then show ?thesis
  proof cases
    case 1
    then show ?thesis using i by simp
  next
    case (2 q v old)
    note k = savedKeys [OF t 2(1,2)]
    show ?thesis using 2(3) storeSchedule_same [OF i k(1) k(2) k(3)] by blast
  next
    case (3 q v old e1)
    note k = savedKeys [OF t 3(1,2)]
    have 1: "inv (en_store e1)" "sameRuns runs e e1"
      using storeSchedule_same [OF i k(1) k(2) k(3) 3(3)] by simp_all
    show ?thesis using swapSchedule_same [OF 1(1) k(1) k(2) 3(4)] 1(2) sameRuns_trans by blast
  qed
qed

end

context engine_store
begin

lemma DeleteSchedule_same:
  assumes i: "inv (en_store e)" and d: "DeleteSchedule env n e = (err, e')"
  shows "inv (en_store e') \<and> sameRuns runs e e'"
proof (cases "en_schedules e n")
  case None
  then show ?thesis using d i by (simp add: DeleteSchedule_def)
next
  case (Some s)
  obtain y e1 where 1: "onStore (so_DeleteSchedule (ev_store env) n) (removeScheduleLocked env n e) = (y, e1)" by fastforce
  have "inv (en_store (removeScheduleLocked env n e))" using i by (simp add: removeScheduleLocked_fields)
  note o = onStore_DeleteSchedule [OF this 1]
  have "e' = e1" using d Some 1 by (cases y) (simp_all add: DeleteSchedule_def)
  then show ?thesis using o sameRuns_trans [OF removeScheduleLocked_same] by blast
qed

lemma TogglePause_same:
  assumes i: "inv (en_store e)" and t: "table env entries e" and p: "TogglePause env now n e = (res, e')"
  shows "inv (en_store e') \<and> sameRuns runs e e'"
proof (cases "en_schedules e n")
  case None
  then show ?thesis using p i by (simp add: TogglePause_def)
next
  case (Some s)
  have k: "plainKey (sc_Name (s\<lparr>sc_Paused := b\<rparr>))" for b
    using validEntry_plainKey [OF conjunct2 [OF tableD_valid [OF t Some]]] tableD_valid [OF t Some] by simp
  let ?s = "s\<lparr>sc_Paused := \<not> sc_Paused s\<rparr>"
  obtain y1 e1 where 1: "onStore (so_SaveSchedule (ev_store env) ?s) e = (y1, e1)" by fastforce
  note s1 = onStore_SaveSchedule [OF i k 1]
  obtain y2 e2 where 2: "registerScheduleLocked env (now 0) (now 1) ?s e1 = (y2, e2)" by fastforce
  have s2: "inv (en_store e2)" "sameRuns runs e1 e2"
    using s1 registerScheduleLocked_cronOnly [OF 2] sameRuns_cronOnly cronOnly_fields(2) by metis+
  obtain y3 e3 where 3: "onStore (so_SaveSchedule (ev_store env) (?s\<lparr>sc_Paused := True\<rparr>)) e2 = (y3, e3)" by fastforce
  have "inv (en_store e3) \<and> sameRuns runs e2 e3"
    by (rule onStore_SaveSchedule [OF s2(1) _ 3]) (use k in simp)
  then have s3: "inv (en_store e3)" "sameRuns runs e e3" using s1 s2 sameRuns_trans by blast+
  have c: "cronOnly e1 (removeEntryLocked env n e1)" by (rule removeEntryLocked_cronOnly)
  have s4: "inv (en_store (removeEntryLocked env n e1))" "sameRuns runs e (removeEntryLocked env n e1)"
    using s1 cronOnly_fields(2) [OF c] sameRuns_trans [OF _ sameRuns_cronOnly [OF c]] by auto
  have s5: "sameRuns runs e e2" using s1 s2 sameRuns_trans by blast
  show ?thesis
    using p Some 1 2 3 s1 s2(1) s3 s4 s5
    by (cases y1; cases "sc_Paused s"; cases y2) (auto simp: TogglePause_def Let_def)
qed

end

section \<open>The bound on the history\<close>

definition history :: "('s \<Rightarrow> (string \<rightharpoonup> Run)) \<Rightarrow> ('s, 'q) Engine \<Rightarrow> bool" where
  "history runs e \<longleftrightarrow>
     0 < rr_MaxRecords (cfg_RunRetention (en_cfg e)) \<and>
     int (card (completedPairs (runs (en_store e)))) \<le>
       rr_MaxRecords (cfg_RunRetention (en_cfg e)) + en_runsSincePrune e \<and>
     0 \<le> en_runsSincePrune e \<and> en_runsSincePrune e < 100 \<and> en_runPruneEveryN e = 100"

lemma history_same: "sameRuns runs e e' \<Longrightarrow> history runs e' = history runs e"
  by (simp add: history_def sameRuns_def)

lemma card_completed_upd: "finite (dom m) \<Longrightarrow> card (completedPairs (m(k \<mapsto> r))) \<le> Suc (card (completedPairs m))"
  by (rule order_trans [OF card_mono [of "insert (k, r) (completedPairs m)"]])
    (auto simp: completedPairs_def finite_completedPairs [unfolded completedPairs_def] card_insert_if split: if_splits)

lemma card_completed_running:
  "finite (dom m) \<Longrightarrow> r_Status r = RunRunning \<Longrightarrow> card (completedPairs (m(k \<mapsto> r))) \<le> card (completedPairs m)"
  by (rule card_mono [OF finite_completedPairs])
    (auto simp: completedPairs_def isCompletedRun_def split: if_splits)

lemma card_completed_le: "finite (dom m) \<Longrightarrow> m' \<subseteq>\<^sub>m m \<Longrightarrow> card (completedPairs m') \<le> card (completedPairs m)"
  by (rule card_mono [OF finite_completedPairs])
    (auto simp: completedPairs_def map_le_def dom_def)

text \<open>A store whose pruning does not fail.\<close>

definition prunes :: "'s Store \<Rightarrow> bool" where
  "prunes st \<longleftrightarrow> (\<forall>ret now s. isOk (fst (so_PruneRuns st ret now s)))"

context engine_store
begin

lemma finite_runs: "inv s \<Longrightarrow> finite (dom (runs s))"
  using keyed by (simp add: keyedRuns_def)

lemma maybePruneRuns_history:
  assumes i: "inv (en_store e)" and p: "prunes st"
    and m: "0 < rr_MaxRecords (cfg_RunRetention (en_cfg e))" "en_runPruneEveryN e = 100"
    and s: "0 \<le> en_runsSincePrune e" "en_runsSincePrune e < 100"
    and b: "int (card (completedPairs (runs (en_store e)))) \<le>
      rr_MaxRecords (cfg_RunRetention (en_cfg e)) + en_runsSincePrune e + 1"
  shows "history runs (maybePruneRuns env now1 now2 e)"
proof -
  let ?e = "e\<lparr>en_runsSincePrune := en_runsSincePrune e + 1\<rparr>" and ?m = "maybePruneRuns env now1 now2 e"
  show ?thesis
  proof (cases "pruneDue now1 ?e")
    case False
    then have "?m = ?e" "en_runsSincePrune e + 1 < 100"
      using m by (simp_all add: maybePruneRuns_def pruneDue_def)
    then show ?thesis using m s b by (simp add: history_def)
  next
    case True
    let ?k = "markRunPruned now1 ?e"
    have k: "en_store ?k = en_store e" "en_runsSincePrune ?k = 0" "en_cfg ?k = en_cfg e"
      "en_runPruneEveryN ?k = en_runPruneEveryN e" by (simp_all add: markRunPruned_def)
    show ?thesis
    proof (rule enginePruneRuns_cases [of env ?k now2])
      fix x s' assume "so_PruneRuns (ev_store env) (cfg_RunRetention (en_cfg ?k)) now2 (en_store ?k) = (Inl x, s')"
      then show ?thesis using p unfolding prunes_def env_store by (metis fst_conv isOk_iff sum.distinct(1))
    next
      fix res s' l
      assume a: "so_PruneRuns (ev_store env) (cfg_RunRetention (en_cfg ?k)) now2 (en_store ?k) = (Inr res, s')"
        "enginePruneRuns env now2 ?k = (None, ?k\<lparr>en_store := s', en_log := l\<rparr>)"
      have "retained (cfg_RunRetention (en_cfg e)) now2 (runs (en_store e)) (runs s')"
        using PruneRuns_ok [OF i] a(1) k unfolding env_store by metis
      then have "int (card (completedPairs (runs s'))) \<le> rr_MaxRecords (cfg_RunRetention (en_cfg e))"
        using m(1) by (simp add: retained_def)
      moreover have "?m = ?k\<lparr>en_store := s', en_log := l\<rparr>" using True a(2) by (simp add: maybePruneRuns_def Let_def)
      ultimately show ?thesis using m k by (simp add: history_def)
    qed
  qed
qed

lemma triggerSkip_history:
  assumes i: "inv (en_store e)" and s: "plainKey (sc_Name s)" and p: "prunes st" and h: "history runs e"
    and t: "triggerSkip env now s by at e = (res, e')"
  shows "history runs e'"
proof -
  let ?r = "skippedRun s by at (now 0) (now 1)"
  note ss = skippedRun_storable [OF s, of "by" at "now 0" "now 1"]
  show ?thesis
  proof (rule SaveRun_cases [OF i conjunct1 [OF ss] conjunct2 [OF ss]])
    fix x assume "so_SaveRun st ?r (en_store e) = (Inl x, en_store e)"
    then show ?thesis using t h by (auto simp: triggerSkip_def Let_def onStore_def env_store)
  next
    fix u s' assume a: "so_SaveRun st ?r (en_store e) = (Inr u, s')" "inv s'"
      "runs s' = (runs (en_store e))(r_ID ?r \<mapsto> normR ?r)"
    let ?l = "logRunEvent ?r (e\<lparr>en_store := s'\<rparr>)"
    have e': "e' = maybePruneRuns env (now 2) (now 3) ?l"
      using t a(1) by (simp add: triggerSkip_def Let_def onStore_def env_store)
    have "card (completedPairs (runs s')) \<le> Suc (card (completedPairs (runs (en_store e))))"
      unfolding a(3) by (rule card_completed_upd [OF finite_runs [OF i]])
    then show ?thesis unfolding e'
      by (intro maybePruneRuns_history p) (use h a(2) in \<open>auto simp: history_def\<close>)
  qed
qed

lemma triggerStart_history:
  assumes i: "inv (en_store e)" and s: "plainKey (sc_Name s)" and h: "history runs e"
    and t: "triggerStart env now s by at e = (res, e')"
  shows "history runs e'"
proof (cases res)
  case (Inl x)
  then show ?thesis using triggerStart_runs(5) [OF i s t] h by simp
next
  case (Inr r)
  let ?r = "newRun s by at now"
  note ts = triggerStart_runs(1,2) [OF i s t] triggerStart_runs(4) [OF i s t Inr]
  have "sameRun ?r (normR ?r)" using normR_same newRun_storable [OF s] by blast
  then have "r_Status (normR ?r) = RunRunning" by (simp add: sameRun_def)
  then have "card (completedPairs (runs (en_store e'))) \<le> card (completedPairs (runs (en_store e)))"
    using card_completed_running [OF finite_runs [OF i]] ts(3) by simp
  then show ?thesis using ts(2) h by (auto simp: history_def)
qed

lemma executeRun_history:
  assumes i: "inv (en_store e)" and r: "storableRun r" and p: "prunes st" and h: "history runs e"
  shows "history runs (executeRun env now s r e)"
proof -
  let ?x = "executed now s r (en_cfg e)" and ?e = "executeRun env now s r e"
  note ss = executed_storable [OF r, of now s "en_cfg e"]
  obtain e1 l where e1: "?e = (let e2 = maybePruneRuns env (now 1) (now 2) (logRunEvent ?x e1)
       in e2\<lparr>en_inflight := remove1 (s, r) (en_inflight e2)\<rparr>)"
    "e1 = e\<lparr>en_store := snd (so_UpdateRun st ?x (en_store e)), en_log := l\<rparr>"
    using executeRun_eq [of now s r e] by blast
  have f: "en_store e1 = snd (so_SaveRun st ?x (en_store e))" "en_cfg e1 = en_cfg e"
      "en_runsSincePrune e1 = en_runsSincePrune e" "en_runPruneEveryN e1 = en_runPruneEveryN e"
    by (simp_all add: e1(2) UpdateRun_SaveRun)
  have "inv (en_store e1) \<and> card (completedPairs (runs (en_store e1))) \<le> Suc (card (completedPairs (runs (en_store e))))"
    by (rule SaveRun_cases [OF i conjunct1 [OF ss] conjunct2 [OF ss]])
      (use i card_completed_upd [OF finite_runs [OF i]] in \<open>simp_all add: f\<close>)
  then have "history runs (maybePruneRuns env (now 1) (now 2) (logRunEvent ?x e1))"
    by (intro maybePruneRuns_history p) (use h f in \<open>auto simp: history_def\<close>)
  then show ?thesis unfolding e1(1) Let_def by (simp add: history_def)
qed

lemma markOneTimeCompleted_same:
  assumes i: "inv (en_store e)" and t: "table env entries e"
    and m: "markOneTimeCompleted env now n e = (err, e')"
  shows "sameRuns runs e e'"
proof (cases "en_schedules e n")
  case None
  then show ?thesis using m by (simp add: markOneTimeCompleted_def)
next
  case (Some s)
  let ?s = "s\<lparr>sc_CompletedAt := Some now\<rparr>"
  have k: "plainKey (sc_Name ?s)" using validEntry_plainKey [OF conjunct2 [OF tableD_valid [OF t Some]]] tableD_valid [OF t Some] by simp
  obtain y e1 where 1: "onStore (so_SaveSchedule (ev_store env) ?s) e = (y, e1)" by fastforce
  note s1 = onStore_SaveSchedule [OF i k 1]
  have "sameRuns runs e (removeEntryLocked env n (e1\<lparr>en_schedules := (en_schedules e1)(n \<mapsto> ?s)\<rparr>))"
    by (rule sameRuns_trans [OF _ sameRuns_cronOnly [OF removeEntryLocked_cronOnly]]) (use s1 in simp)
  then show ?thesis using m Some 1 s1
    by (cases y) (auto simp: markOneTimeCompleted_def split: if_splits)
qed

lemma triggerMark_history:
  assumes i: "inv (en_store e)" and t: "table env entries e" and h: "history runs e"
  shows "history runs (triggerMark env now s r e)"
proof -
  obtain x e1 where 1: "markOneTimeCompleted env now (sc_Name s) e = (x, e1)" by fastforce
  have "sameRuns runs e (triggerMark env now s r e\<lparr>en_inflight := en_inflight e\<rparr>)"
    using markOneTimeCompleted_same [OF i t 1]
    by (auto simp: triggerMark_def Let_def 1 sameRuns_def logLine_def split: option.split)
  from history_same [OF this] show ?thesis using h by (simp add: history_def)
qed

lemma ClearRuns_any:
  assumes i: "inv (en_store e)" and c: "ClearRuns env e = (res, e')"
  shows "inv (en_store e') \<and> (\<exists>s'. e' = e\<lparr>en_store := s'\<rparr> \<and> (runs s' = runs (en_store e) \<or> runs s' = Map.empty))"
proof -
  obtain y s' where y: "so_ClearRuns st (en_store e) = (y, s')" by fastforce
  then have e': "e' = e\<lparr>en_store := s'\<rparr>" using c by (simp add: ClearRuns_def onStore_def env_store)
  have "inv s' \<and> (runs s' = runs (en_store e) \<or> runs s' = Map.empty)"
    using ClearRuns_ok [OF i] ClearRuns_err y i by (cases y) fastforce+
  then show ?thesis using e' by auto
qed

lemma ClearRuns_history:
  assumes i: "inv (en_store e)" and h: "history runs e" and c: "ClearRuns env e = (res, e')"
  shows "history runs e'"
proof -
  have "completedPairs Map.empty = {}" by (simp add: completedPairs_def)
  then show ?thesis using ClearRuns_any [OF i c] h by (auto simp: history_def)
qed

end

section \<open>A new engine\<close>

lemma registerAll_same:
  "registerAll env now ss e = (err, e') \<Longrightarrow> sameRuns runs e e' \<and> en_store e' = en_store e"
proof (induction ss arbitrary: e now)
  case (Cons s ss)
  obtain x e1 where 1: "registerSchedule env (now 0) (now 1) s e = (x, e1)" by fastforce
  note s1 = registerSchedule_same [OF 1, of runs]
  show ?case
  proof (cases x)
    case None
    then have "registerAll env (\<lambda>i. now (i + 2)) ss e1 = (err, e')" using Cons.prems 1 by simp
    then show ?thesis using Cons.IH s1 sameRuns_trans by metis
  next
    case (Some y)
    then show ?thesis using Cons.prems 1 s1 by simp
  qed
qed simp

text \<open>Registered schedules have valid names.\<close>

lemma registerSchedule_name:
  assumes "registerSchedule env now1 now2 s e = (None, e')"
  shows "plainKey (sc_Name s)"
proof -
  have "isOk (validateSchedule (ca_Parse (ev_cron env)) (ev_loadLocation env) (NormalizeSchedule s) (cfg_Faktory (en_cfg e)))"
    using assms by (auto simp: registerSchedule_def Let_def isOk_iff split: sum.splits)
  then have "validEntry env (en_cfg e) (NormalizeSchedule (NormalizeSchedule s))" by (rule validEntry_validate)
  from validEntry_plainKey [OF this] show ?thesis by simp
qed

lemma registerAll_names:
  "registerAll env now ss e = (None, e') \<Longrightarrow> s \<in> set ss \<Longrightarrow> plainKey (sc_Name s)"
proof (induction ss arbitrary: e now)
  case (Cons q ss)
  obtain x e1 where 1: "registerSchedule env (now 0) (now 1) q e = (x, e1)" by fastforce
  then have 2: "x = None" "registerAll env (\<lambda>i. now (i + 2)) ss e1 = (None, e')"
    using Cons.prems(1) by (cases x; simp)+
  then show ?case using Cons.IH [OF 2(2)] Cons.prems(2) registerSchedule_name 1 by auto
qed simp

context engine_store
begin

lemma seedSchedules_runs:
  "inv (en_store e) \<Longrightarrow> \<forall>s \<in> set ss. plainKey (sc_Name s) \<Longrightarrow> seedSchedules env ss e = (err, e') \<Longrightarrow>
   inv (en_store e') \<and> sameRuns runs e e'"
proof (induction ss arbitrary: e)
  case (Cons s ss)
  obtain x e1 where 1: "onStore (so_SaveSchedule (ev_store env) s) e = (x, e1)" by fastforce
  have s1: "inv (en_store e1) \<and> sameRuns runs e e1"
    by (rule onStore_SaveSchedule [OF Cons.prems(1) _ 1]) (use Cons.prems(2) in simp)
  show ?case
  proof (cases x)
    case (Inl y)
    then show ?thesis using Cons.prems(3) 1 s1 by simp
  next
    case (Inr u)
    then have "seedSchedules env ss e1 = (err, e')" using Cons.prems(3) 1 by simp
    then have "inv (en_store e') \<and> sameRuns runs e1 e'"
      using Cons.IH [OF conjunct1 [OF s1]] Cons.prems(2) by simp
    then show ?thesis using s1 sameRuns_trans by blast
  qed
qed simp

text \<open>
  The runs a new engine finds are those of the store, pruned; those that were running stay as they
  are, though nobody executes them.
\<close>

lemma NewEngine_runs:
  assumes i: "inv store0" and n: "NewEngine env now cfg store0 cron0 = (Inr e, store1)"
  shows "inv (en_store e)" "prunedTo (runs store0) (runs (en_store e))" "en_inflight e = []"
    "history runs e" "en_cfg e = ApplyDefaults cfg" "store1 = en_store e"
proof -
  let ?c = "ApplyDefaults cfg" and ?e0 = "newEngine (ApplyDefaults cfg) store0 cron0"
  obtain stored ss e1 e2 where v: "isOk (ValidateRunRetention (cfg_RunRetention ?c))"
    and l: "so_ListSchedules (ev_store env) store0 = Inr stored"
    and f: "if stored = [] \<and> cfg_Schedules ?c \<noteq> []
     then seedSchedules env ss ?e0 = (None, e1) \<and> ss = cfg_Schedules ?c else e1 = ?e0 \<and> ss = stored"
    and p: "enginePruneRuns env (now 0) e1 = (None, e2)"
    and r: "registerAll env (\<lambda>i. now (i + 2)) ss (markRunPruned (now 1) e2) = (None, e)"
    and s1: "store1 = en_store e"
    using NewEngine_stages [OF n] by metis
  have e0: "en_store ?e0 = store0" "en_inflight ?e0 = []" "en_cfg ?e0 = ?c"
    "en_runPruneEveryN ?e0 = 100" by (simp_all add: newEngine_def)
  have "inv (en_store e1) \<and> sameRuns runs ?e0 e1"
  proof (cases "stored = [] \<and> cfg_Schedules ?c \<noteq> []")
    case True
    have k: "\<forall>s \<in> set ss. plainKey (sc_Name s)" using registerAll_names [OF r] by blast
    have "seedSchedules env ss ?e0 = (None, e1)" using f if_P [OF True] by metis
    moreover have "inv (en_store ?e0)" using i e0(1) by simp
    ultimately show ?thesis using seedSchedules_runs [OF _ k] by blast
  next
    case False
    then have "e1 = ?e0" using f if_not_P [OF False] by metis
    then show ?thesis using i e0(1) by simp
  qed
  then have 1: "inv (en_store e1)" "runs (en_store e1) = runs store0" "en_cfg e1 = ?c" "en_inflight e1 = []"
    "en_runPruneEveryN e1 = 100" using e0 by (simp_all add: sameRuns_def)
  have m: "0 < rr_MaxRecords (cfg_RunRetention ?c)"
    using v by (auto simp: ValidateRunRetention_def isOk_iff split: if_splits)
  have 2: "inv (en_store e2)" "retained (cfg_RunRetention ?c) (now 0) (runs store0) (runs (en_store e2))"
    "en_cfg e2 = ?c" "en_inflight e2 = []" "en_runPruneEveryN e2 = 100"
  proof -
    have "inv (en_store e2) \<and> retained (cfg_RunRetention ?c) (now 0) (runs store0) (runs (en_store e2)) \<and>
      en_cfg e2 = ?c \<and> en_inflight e2 = [] \<and> en_runPruneEveryN e2 = 100"
    proof (rule enginePruneRuns_cases [of env e1 "now 0"])
      fix x s' assume "enginePruneRuns env (now 0) e1 = (Some x, e1\<lparr>en_store := s'\<rparr>)"
      then show ?thesis using p by simp
    next
      fix res s' l
      assume a: "so_PruneRuns (ev_store env) (cfg_RunRetention (en_cfg e1)) (now 0) (en_store e1) = (Inr res, s')"
        "enginePruneRuns env (now 0) e1 = (None, e1\<lparr>en_store := s', en_log := l\<rparr>)"
      have "e2 = e1\<lparr>en_store := s', en_log := l\<rparr>" using p a(2) by simp
      then show ?thesis using PruneRuns_ok [OF 1(1)] a(1) 1 unfolding env_store by simp
    qed
    then show "inv (en_store e2)" "retained (cfg_RunRetention ?c) (now 0) (runs store0) (runs (en_store e2))"
      "en_cfg e2 = ?c" "en_inflight e2 = []" "en_runPruneEveryN e2 = 100" by blast+
  qed
  let ?k = "markRunPruned (now 1) e2"
  have k: "en_store ?k = en_store e2" "en_cfg ?k = ?c" "en_inflight ?k = []" "en_runPruneEveryN ?k = 100"
    "en_runsSincePrune ?k = 0" using 2 by (simp_all add: markRunPruned_def)
  note ra = registerAll_same [OF r, of runs]
  show "inv (en_store e)" "en_inflight e = []" "en_cfg e = ?c" "store1 = en_store e"
    using ra k 2(1) s1 by (simp_all add: sameRuns_def)
  show "prunedTo (runs store0) (runs (en_store e))" using ra k prunedTo_retained [OF 2(2)] by simp
  have "int (card (completedPairs (runs (en_store e2)))) \<le> rr_MaxRecords (cfg_RunRetention ?c)"
    using 2(2) m by (simp add: retained_def)
  then have "history runs ?k" using m k by (simp add: history_def)
  then show "history runs e" using ra history_same by blast
qed

end

end
