(* ===== verification/EngineSystem.thy ===== *)
theory EngineSystem
  imports EngineHistory "HOL-Library.Multiset"
begin

text \<open>
  The engine with its callers at work at the same time.  Handlers under \<open>e.mu\<close> are one step; a
  trigger is several, since it holds no lock across the look-up of the schedule, the question for a
  running run, the writing of the record and the completion of a one-time schedule.  What each
  trigger in progress has done so far is a multiset of threads; runs handed to goroutines are in
  \<open>en_inflight\<close> and are executed in any order.
\<close>

section \<open>Steps\<close>

datatype Thread =
    Looked ScheduleConfig string go_time
  | Skipping ScheduleConfig string go_time
  | Starting ScheduleConfig string go_time
  | Started ScheduleConfig Run

type_synonym ('s, 'q) System = "('s, 'q) Engine \<times> Thread multiset"

inductive sysStep :: "('s, 'q, 'c, 'k) Env \<Rightarrow> ('s, 'q) System \<Rightarrow> ('s, 'q) System \<Rightarrow> bool"
  for env :: "('s, 'q, 'c, 'k) Env" where
  save: "SaveSchedule env now n s e = (err, e') \<Longrightarrow> sysStep env (e, T) (e', T)"
| delete: "DeleteSchedule env n e = (err, e') \<Longrightarrow> sysStep env (e, T) (e', T)"
| toggle: "TogglePause env now n e = (res, e') \<Longrightarrow> sysStep env (e, T) (e', T)"
| clear: "ClearRuns env e = (u, e') \<Longrightarrow> sysStep env (e, T) (e', T)"
| arrive: "triggerLookup n e = Inr s \<Longrightarrow> sysStep env (e, T) (e, add_mset (Looked s by at) T)"
| check: "triggerCheck env s e = Inr b \<Longrightarrow>
    sysStep env (e, add_mset (Looked s by at) T) (e, add_mset (if b then Skipping s by at else Starting s by at) T)"
| check_error: "triggerCheck env s e = Inl x \<Longrightarrow> sysStep env (e, add_mset (Looked s by at) T) (e, T)"
| skip: "triggerSkip env now s by at e = (skipped, e') \<Longrightarrow> sysStep env (e, add_mset (Skipping s by at) T) (e', T)"
| start: "triggerStart env now1 s by at e = (Inr r, e') \<Longrightarrow>
    sysStep env (e, add_mset (Starting s by at) T) (e', add_mset (Started s r) T)"
| start_error: "triggerStart env now1 s by at e = (Inl x, e') \<Longrightarrow>
    sysStep env (e, add_mset (Starting s by at) T) (e', T)"
| mark: "sysStep env (e, add_mset (Started s r) T) (triggerMark env now1 s r e, T)"
| execute: "(s, r) \<in> set (en_inflight e) \<Longrightarrow> sysStep env (e, T) (executeRun env now s r e, T)"

abbreviation sysSteps where "sysSteps env \<equiv> (sysStep env)\<^sup>*\<^sup>*"

text \<open>The sequential \<open>Trigger\<close> is one way through the steps.\<close>

lemma Trigger_steps:
  assumes "Trigger env now n by at e = (res, e')"
  shows "sysSteps env (e, T) (e', T)"
proof (cases "triggerLookup n e")
  case (Inl x)
  then show ?thesis using assms by (simp add: Trigger_def)
next
  case (Inr s)
  have 1: "sysSteps env (e, T) (e, add_mset (Looked s by at) T)"
    by (rule r_into_rtranclp) (rule sysStep.arrive [OF Inr])
  show ?thesis
  proof (cases "triggerCheck env s e")
    case (Inl x)
    then have "e' = e" using assms Inr by (simp add: Trigger_def \<open>triggerLookup n e = Inr s\<close>)
    then show ?thesis using sysStep.check_error [OF Inl] rtranclp.rtrancl_into_rtrancl [OF 1] by blast
  next
    case c: (Inr b)
    note 2 = rtranclp.rtrancl_into_rtrancl [OF 1 sysStep.check [OF c]]
    show ?thesis
    proof (cases b)
      case True
      then have "triggerSkip env now s by at e = (res, e')" using assms Inr c by (simp add: Trigger_def)
      from rtranclp.rtrancl_into_rtrancl [OF 2 [unfolded if_P [OF True]] sysStep.skip [OF this]] show ?thesis .
    next
      case False
      note 3 = 2 [unfolded if_not_P [OF False]]
      obtain y e1 where y: "triggerStart env (now 0) s by at e = (y, e1)" by fastforce
      show ?thesis
      proof (cases y)
        case (Inl x)
        then have "e1 = e'" using assms Inr c y False \<open>triggerLookup n e = Inr s\<close> by (simp add: Trigger_def)
        then show ?thesis
          using rtranclp.rtrancl_into_rtrancl [OF 3 sysStep.start_error [of env "now 0" s "by" at e x e1]] y Inl by simp
      next
        case r: (Inr r)
        then have e': "e' = triggerMark env (now 1) s r e1" using assms Inr c y False by (simp add: Trigger_def)
        have "sysSteps env (e, T) (e1, add_mset (Started s r) T)"
          using rtranclp.rtrancl_into_rtrancl [OF 3 sysStep.start [of env "now 0" s "by" at e r e1]] y r by simp
        from rtranclp.rtrancl_into_rtrancl [OF this sysStep.mark] show ?thesis unfolding e' .
      qed
    qed
  qed
qed

section \<open>Invariants of every interleaving\<close>

fun threadOk :: "Thread \<Rightarrow> bool" where
  "threadOk (Looked s by at) = plainKey (sc_Name s)"
| "threadOk (Skipping s by at) = plainKey (sc_Name s)"
| "threadOk (Starting s by at) = plainKey (sc_Name s)"
| "threadOk (Started s r) = storableRun r"

fun startedIds :: "Thread \<Rightarrow> string set" where
  "startedIds (Started s r) = {r_ID r}"
| "startedIds t = {}"

text \<open>The runs that a goroutine or a trigger in progress will finish.\<close>

definition owned :: "('s, 'q) System \<Rightarrow> string set" where
  "owned sys = (\<Union>t \<in> set_mset (snd sys). startedIds t) \<union> (\<lambda>p. r_ID (snd p)) ` set (en_inflight (fst sys))"

definition sysInv :: "('s \<Rightarrow> bool) \<Rightarrow> ('q \<Rightarrow> (EntryID \<rightharpoonup> 'c Schedule \<times> ScheduleConfig)) \<Rightarrow> ('s, 'q, 'c, 'k) Env \<Rightarrow>
    ('s, 'q) System \<Rightarrow> bool" where
  "sysInv ok entries env sys \<longleftrightarrow> ok (en_store (fst sys)) \<and> table env entries (fst sys) \<and>
     (\<forall>t \<in># snd sys. threadOk t) \<and> (\<forall>p \<in> set (en_inflight (fst sys)). storableRun (snd p))"

lemma sysInv_pair:
  "sysInv ok entries env (e, T) \<longleftrightarrow> ok (en_store e) \<and> table env entries e \<and>
     (\<forall>t \<in># T. threadOk t) \<and> (\<forall>p \<in> set (en_inflight e). storableRun (snd p))"
  by (simp add: sysInv_def)

context engine_store
begin

lemma sysStep_inv:
  assumes "sysStep env sys sys'" "sysInv inv entries env sys"
  shows "sysInv inv entries env sys'"
  using assms
proof (cases rule: sysStep.cases)
  case (save now n s e err e' T)
  then show ?thesis using assms(2) SaveSchedule_table SaveSchedule_same
    by (auto simp: sysInv_pair sameRuns_def)
next
  case (delete n e err e' T)
  then show ?thesis using assms(2) DeleteSchedule_table DeleteSchedule_same
    by (auto simp: sysInv_pair sameRuns_def)
next
  case (toggle now n e res e' T)
  then show ?thesis using assms(2) TogglePause_table TogglePause_same
    by (cases res) (auto simp: sysInv_pair sameRuns_def)
next
  case (clear e u e' T)
  then have "inv (en_store e)" using assms(2) by (simp add: sysInv_pair)
  note c = ClearRuns_any [OF this clear(3)]
  have "table env entries e'" using ClearRuns_table [of e] clear assms(2) by (simp add: sysInv_pair)
  moreover have "en_inflight e' = en_inflight e" using c by auto
  ultimately show ?thesis using c clear assms(2) by (simp add: sysInv_pair)
next
  case (arrive n e s T "by" at)
  then have "en_schedules e n = Some s" "table env entries e"
    using assms(2) by (simp_all add: sysInv_pair triggerLookup_def split: option.splits)
  then have "plainKey (sc_Name s)" using tableD_valid validEntry_plainKey by blast
  then show ?thesis using arrive assms(2) by (simp add: sysInv_pair)
next
  case (skip now s "by" at e skipped e' T)
  then have k: "plainKey (sc_Name s)" "inv (en_store e)" using assms(2) by (simp_all add: sysInv_pair)
  have "table env entries e'"
    using triggerSkip_table [of e now s "by" at] skip assms(2) by (simp add: sysInv_pair)
  then show ?thesis using skip assms(2) triggerSkip_runs(1,2) [OF k(2,1) skip(3)] by (simp add: sysInv_pair)
next
  case (start now1 s "by" at e r e' T)
  then have k: "plainKey (sc_Name s)" "inv (en_store e)" using assms(2) by (simp_all add: sysInv_pair)
  note ts = triggerStart_runs [OF k(2,1) start(3)]
  have "table env entries e'"
    using triggerStart_table [of e now1 s "by" at] start assms(2) by (simp add: sysInv_pair)
  moreover have "storableRun r" using ts(4) [OF refl] newRun_storable [OF k(1)] by blast
  moreover have "en_inflight e' = en_inflight e" using ts(2) by auto
  ultimately show ?thesis using start assms(2) ts(1) by (simp add: sysInv_pair)
next
  case (start_error now1 s "by" at e x e' T)
  then have k: "plainKey (sc_Name s)" "inv (en_store e)" using assms(2) by (simp_all add: sysInv_pair)
  then show ?thesis using start_error assms(2) triggerStart_runs(5) [OF k(2,1) start_error(3)]
    by (simp add: sysInv_pair)
next
  case (mark e s r T now1)
  then have k: "inv (en_store e)" "table env entries e" using assms(2) by (simp_all add: sysInv_pair)
  show ?thesis using mark assms(2) triggerMark_runs [OF k, of now1 s r] triggerMark_table [OF k(2)]
    by (simp add: sysInv_pair)
next
  case (execute s r e T now)
  then have k: "inv (en_store e)" "storableRun r" using assms(2) by (auto simp: sysInv_pair)
  have "set (remove1 (s, r) (en_inflight e)) \<subseteq> set (en_inflight e)" by (rule set_remove1_subset)
  then show ?thesis
    using execute assms(2) executeRun_runs(1,2) [OF k] executeRun_table by (auto simp: sysInv_pair)
qed (auto simp: sysInv_pair)

lemma sysSteps_inv:
  "sysSteps env sys sys' \<Longrightarrow> sysInv inv entries env sys \<Longrightarrow> sysInv inv entries env sys'"
  by (induction rule: rtranclp_induct) (auto dest: sysStep_inv)

end

section \<open>The history in every interleaving\<close>

context engine_store
begin

lemma sysStep_history:
  assumes "sysStep env sys sys'" "sysInv inv entries env sys" "prunes st" "history runs (fst sys)"
  shows "history runs (fst sys')"
  using assms
proof (cases rule: sysStep.cases)
  case (save now n s e err e' T)
  then have "sameRuns runs e e'" using assms(2) SaveSchedule_same by (auto simp: sysInv_pair)
  then show ?thesis using save assms(4) history_same by fastforce
next
  case (delete n e err e' T)
  then have "sameRuns runs e e'" using assms(2) DeleteSchedule_same by (auto simp: sysInv_pair)
  then show ?thesis using delete assms(4) history_same by fastforce
next
  case (toggle now n e res e' T)
  then have "sameRuns runs e e'" using assms(2) TogglePause_same by (cases res) (auto simp: sysInv_pair)
  then show ?thesis using toggle assms(4) history_same by fastforce
next
  case (clear e u e' T)
  then show ?thesis using assms(2,4) ClearRuns_history by (auto simp: sysInv_pair)
next
  case (skip now s "by" at e skipped e' T)
  then have "plainKey (sc_Name s)" "inv (en_store e)" using assms(2) by (simp_all add: sysInv_pair)
  then show ?thesis using triggerSkip_history skip assms(3,4) by auto
next
  case (start now1 s "by" at e r e' T)
  then have "plainKey (sc_Name s)" "inv (en_store e)" using assms(2) by (simp_all add: sysInv_pair)
  then show ?thesis using triggerStart_history start assms(4) by auto
next
  case (start_error now1 s "by" at e x e' T)
  then have "plainKey (sc_Name s)" "inv (en_store e)" using assms(2) by (simp_all add: sysInv_pair)
  then show ?thesis using triggerStart_history start_error assms(4) by auto
next
  case (mark e s r T now1)
  then show ?thesis using triggerMark_history assms(2,4) by (simp add: sysInv_pair)
next
  case (execute s r e T now)
  then have "inv (en_store e)" "storableRun r" using assms(2) by (auto simp: sysInv_pair)
  then show ?thesis using executeRun_history execute assms(3,4) by simp
qed (use assms(4) in auto)

lemma sysSteps_history:
  assumes "sysSteps env sys sys'" "sysInv inv entries env sys" "prunes st" "history runs (fst sys)"
  shows "history runs (fst sys')"
  using assms(1)
proof (induction rule: rtranclp_induct)
  case (step y z)
  then show ?case using sysStep_history sysSteps_inv [OF step(1) assms(2)] assms(3) by blast
qed (rule assms(4))

end

section \<open>No run is forgotten\<close>

text \<open>A store that accepts every update of a run.\<close>

definition updates :: "'s Store \<Rightarrow> bool" where
  "updates st \<longleftrightarrow> (\<forall>r s. isOk (fst (so_UpdateRun st r s)))"

definition covered :: "('s \<Rightarrow> (string \<rightharpoonup> Run)) \<Rightarrow> string set \<Rightarrow> ('s, 'q) System \<Rightarrow> bool" where
  "covered runs old sys \<longleftrightarrow> (\<forall>n. runningIds (runs (en_store (fst sys))) n \<subseteq> old \<union> owned sys)"

lemma owned_pair:
  "owned (e, T) = (\<Union>t \<in> set_mset T. startedIds t) \<union> (\<lambda>p. r_ID (snd p)) ` set (en_inflight e)"
  by (simp add: owned_def)

lemma covered_shrink:
  assumes "covered runs old (e, T)" "\<And>n. runningIds (runs (en_store e')) n \<subseteq> runningIds (runs (en_store e)) n"
    "owned (e, T) \<subseteq> owned (e', T')"
  shows "covered runs old (e', T')"
  using assms by (fastforce simp: covered_def)

context engine_store
begin

lemma sysStep_covered:
  assumes "sysStep env sys sys'" "sysInv inv entries env sys" "updates st" "covered runs old sys"
  shows "covered runs old sys'"
  using assms
proof (cases rule: sysStep.cases)
  case (save now n s e err e' T)
  then have "sameRuns runs e e'" using assms(2) SaveSchedule_same by (auto simp: sysInv_pair)
  then show ?thesis using save assms(4) by (simp add: sameRuns_def covered_def owned_pair)
next
  case (delete n e err e' T)
  then have "sameRuns runs e e'" using assms(2) DeleteSchedule_same by (auto simp: sysInv_pair)
  then show ?thesis using delete assms(4) by (simp add: sameRuns_def covered_def owned_pair)
next
  case (toggle now n e res e' T)
  then have "sameRuns runs e e'" using assms(2) TogglePause_same by (cases res) (auto simp: sysInv_pair)
  then show ?thesis using toggle assms(4) by (simp add: sameRuns_def covered_def owned_pair)
next
  case (clear e u e' T)
  then have "inv (en_store e)" using assms(2) by (simp add: sysInv_pair)
  then obtain s' where e': "e' = e\<lparr>en_store := s'\<rparr>" "runs s' = runs (en_store e) \<or> runs s' = Map.empty"
    using ClearRuns_any [OF _ clear(3)] by blast
  then have "runningIds (runs (en_store e')) n \<subseteq> runningIds (runs (en_store e)) n" for n
    by (auto simp: runningIds_def)
  then show ?thesis using clear assms(4) covered_shrink [of runs old e T e' T] e'(1) by (simp add: owned_pair)
next
  case (arrive n e s T "by" at)
  then show ?thesis using assms(4) by (simp add: covered_def owned_pair)
next
  case (check s e b "by" at T)
  then show ?thesis using assms(4) by (simp add: covered_def owned_pair)
next
  case (check_error s e x "by" at T)
  then show ?thesis using assms(4) by (simp add: covered_def owned_pair)
next
  case (skip now s "by" at e skipped e' T)
  then have k: "plainKey (sc_Name s)" "inv (en_store e)" using assms(2) by (simp_all add: sysInv_pair)
  note sk = triggerSkip_runs(2,5) [OF k(2,1) skip(3)]
  then show ?thesis using skip(1,2) assms(4) covered_shrink [of runs old e "add_mset (Skipping s by at) T" e' T]
    by (simp add: owned_pair)
next
  case (start now1 s "by" at e r e' T)
  then have k: "plainKey (sc_Name s)" "inv (en_store e)" using assms(2) by (simp_all add: sysInv_pair)
  note ts = triggerStart_runs [OF k(2,1) start(3)]
  obtain s' where e': "e' = e\<lparr>en_store := s'\<rparr>" using ts(2) by blast
  have R: "runs (en_store e') = (runs (en_store e))(r_ID r \<mapsto> normR r)" "r = newRun s by at now1"
    using ts(4) [OF refl] by auto
  have "sameRun r (normR r)" using normR_same newRun_storable [OF k(1)] R(2) by blast
  then have "runningIds (runs (en_store e')) n \<subseteq> insert (r_ID r) (runningIds (runs (en_store e)) n)" for n
    unfolding R(1) by (auto simp: runningIds_upd)
  moreover have "owned (e', add_mset (Started s r) T) = insert (r_ID r) (owned (e, add_mset (Starting s by at) T))"
    by (auto simp: owned_pair e')
  ultimately show ?thesis using start(1,2) assms(4) by (fastforce simp: covered_def)
next
  case (start_error now1 s "by" at e x e' T)
  then have k: "plainKey (sc_Name s)" "inv (en_store e)" using assms(2) by (simp_all add: sysInv_pair)
  then show ?thesis using start_error assms(4) triggerStart_runs(5) [OF k(2,1) start_error(3)]
    by (simp add: covered_def owned_pair)
next
  case (mark e s r T now1)
  then have k: "inv (en_store e)" "table env entries e" using assms(2) by (simp_all add: sysInv_pair)
  have "owned (e, add_mset (Started s r) T) \<subseteq> owned (triggerMark env now1 s r e, T)"
    using triggerMark_runs [OF k, of now1 s r] by (auto simp: owned_pair)
  then show ?thesis using mark assms(4) triggerMark_runs [OF k, of now1 s r]
      covered_shrink [of runs old e "add_mset (Started s r) T" "triggerMark env now1 s r e" T] by simp
next
  case (execute s r e T now)
  then have k: "inv (en_store e)" "storableRun r" using assms(2) by (auto simp: sysInv_pair)
  have "isOk (fst (so_UpdateRun st (executed now s r (en_cfg e)) (en_store e)))"
    using assms(3) by (simp add: updates_def)
  then have "fst (so_UpdateRun st (executed now s r (en_cfg e)) (en_store e)) = Inr ()"
    by (auto simp: isOk_iff)
  note ex = executeRun_runs(2) [OF k] conjunct2 [OF executeRun_runs(6) [OF k this]]
  have "owned (e, T) \<subseteq> insert (r_ID r) (owned (executeRun env now s r e, T))"
  proof
    fix k assume "k \<in> owned (e, T)"
    then consider t where "t \<in># T" "k \<in> startedIds t" | p where "p \<in> set (en_inflight e)" "k = r_ID (snd p)"
      by (auto simp: owned_pair)
    then show "k \<in> insert (r_ID r) (owned (executeRun env now s r e, T))"
    proof cases
      case (2 p)
      then have "p = (s, r) \<or> p \<in> set (remove1 (s, r) (en_inflight e))"
        using in_set_remove1 [of p "(s, r)" "en_inflight e"] by blast
      then show ?thesis using 2(2) by (auto simp: owned_pair ex(1))
    qed (auto simp: owned_pair)
  qed
  then show ?thesis using execute(1,2) assms(4) by (fastforce simp: covered_def ex(2))
qed

lemma sysSteps_covered:
  assumes "sysSteps env sys sys'" "sysInv inv entries env sys" "updates st" "covered runs old sys"
  shows "covered runs old sys'"
  using assms(1)
proof (induction rule: rtranclp_induct)
  case (step y z)
  then show ?case using sysStep_covered sysSteps_inv [OF step(1) assms(2)] assms(3) by blast
qed (rule assms(4))

end

end
