(* ===== verification/EngineProperties.thy ===== *)
theory EngineProperties
  imports EngineInstances EngineSystem
begin

text \<open>
  The properties of the engine's handlers, for any store that keeps the store contract and any cron
  library that keeps the library contract; each is applied to an engine over the in-memory store.
\<close>

section \<open>The sample engine\<close>

definition idleStore :: MemoryStore where
  "idleStore = \<lparr>ms_runs = Map.empty, ms_schedules = [''nightly'' \<mapsto> nightly]\<rparr>"

definition idleEngine :: "(MemoryStore, string refEntries) Engine" where
  "idleEngine = engineWith nightly idleStore"

definition busyEngine :: "(MemoryStore, string refEntries) Engine" where
  "busyEngine = engineWith nightly sampleMemory"

text \<open>A clock that advances by a second at each reading.\<close>

definition clock :: "nat \<Rightarrow> go_time" where
  "clock i = 1000000000 * int i"

lemma idleEngine_ok:
  "ms_inv (en_store idleEngine)" "table memEnv map_of idleEngine" "en_schedules idleEngine ''nightly'' = Some nightly"
  "runningIds (ms_runs (en_store idleEngine)) n = {}" "hasRunning (ms_runs (en_store idleEngine)) n = False"
  "agree ms_schedules NormalizeSchedule idleEngine"
  using nightly_table [of idleStore] nightly_valid(3) validEntry_normalised [OF nightly_valid(1)]
  by (auto simp: idleEngine_def idleStore_def ms_inv_def keyedRuns_def keyedSchedules_def runningIds_def
      hasRunning_def agree_def)

lemma busyEngine_ok:
  "ms_inv (en_store busyEngine)" "table memEnv map_of busyEngine" "en_schedules busyEngine ''nightly'' = Some nightly"
  "runningIds (ms_runs (en_store busyEngine)) ''nightly'' \<noteq> {}"
  using nightly_table [of sampleMemory] nightly_valid(3) sampleMemory_inv(1) sampleMemory_running [of "''nightly''"]
  by (simp_all add: busyEngine_def hasRunning_runningIds)

lemma memory_SaveRun [simp]: "so_SaveRun memStore r m = (Inr (), m\<lparr>ms_runs := (ms_runs m)(r_ID r \<mapsto> r)\<rparr>)"
  by (simp add: memoryStore_def ms_SaveRun_def)

lemma memory_UpdateRun [simp]: "so_UpdateRun memStore r m = (Inr (), m\<lparr>ms_runs := (ms_runs m)(r_ID r \<mapsto> r)\<rparr>)"
  by (simp add: memoryStore_def ms_UpdateRun_def ms_SaveRun_def)

text \<open>A trigger over the in-memory store always succeeds for a schedule of the table.\<close>

lemma memory_trigger:
  assumes i: "ms_inv (en_store e)" and t: "table memEnv map_of e" and n: "en_schedules e n = Some s"
  obtains r e' where "Trigger memEnv now n by at e = ((r, None), e')"
proof -
  obtain r err e' where tr: "Trigger memEnv now n by at e = ((r, err), e')" by (metis prod.exhaust)
  have "err = None"
  proof (rule engine_store.Trigger_cases [OF memEnv_engine i t tr])
    fix s assume "triggerSkip memEnv now s by at e = ((r, err), e')"
    then show "err = None" by (simp add: triggerSkip_def Let_def onStore_def)
  next
    fix s x assume "triggerStart memEnv (now 0) s by at e = (Inl x, e)"
    then show "err = None" by (simp add: triggerStart_def Let_def onStore_def)
  qed (use n in simp_all)
  then show thesis using that tr by simp
qed

section \<open>Triggering\<close>

text \<open>C6: a schedule that allows no concurrent runs.  \<open>Trigger\<close>, run to its end, either records a
  skipped run because a run of the schedule is stored as running, and starts nothing; or no run of
  it was running, the new one is the only running one afterwards, and exactly that run is handed to
  a goroutine.\<close>

theorem Trigger_exclusive:
  assumes "engine_store st ok runs scheds normR normS cr live env"
    and "ok (en_store e)" "table env live e"
    and "en_schedules e n = Some s" "\<not> AllowsConcurrentRuns s"
    and "Trigger env now n by at e = ((r, None), e')"
  shows "(r = skippedRun s by at (now 0) (now 1) \<and> runningIds (runs (en_store e)) n \<noteq> {} \<and>
       en_inflight e' = en_inflight e \<and>
       runningIds (runs (en_store e')) n = runningIds (runs (en_store e)) n - {runID n by at}) \<or>
    (r = newRun s by at (now 0) \<and> runningIds (runs (en_store e)) n = {} \<and>
       en_inflight e' = (s, r) # en_inflight e \<and> runningIds (runs (en_store e')) n = {runID n by at})"
  by (rule engine_store.Trigger_effect [OF assms(1-3,6)]) (use assms(4,5) in auto)

theorem Trigger_exclusive_witness:
  "(\<exists>r e'. Trigger memEnv clock ''nightly'' ''manual'' 9 idleEngine = ((r, None), e') \<and>
      r = newRun nightly ''manual'' 9 (clock 0) \<and> en_inflight e' = [(nightly, r)]) \<and>
   (\<exists>r e'. Trigger memEnv clock ''nightly'' ''manual'' 9 busyEngine = ((r, None), e') \<and>
      r = skippedRun nightly ''manual'' 9 (clock 0) (clock 1) \<and> en_inflight e' = [])"
proof
  obtain r e' where 1: "Trigger memEnv clock ''nightly'' ''manual'' 9 idleEngine = ((r, None), e')"
    by (rule memory_trigger [OF idleEngine_ok(1-3), of clock "''manual''" 9])
  have nc: "\<not> AllowsConcurrentRuns nightly" by (simp add: nightly_valid(4))
  have "en_inflight idleEngine = []" by (simp add: idleEngine_def)
  then show "\<exists>r e'. Trigger memEnv clock ''nightly'' ''manual'' 9 idleEngine = ((r, None), e') \<and>
      r = newRun nightly ''manual'' 9 (clock 0) \<and> en_inflight e' = [(nightly, r)]"
    using Trigger_exclusive [OF memEnv_engine idleEngine_ok(1-3) nc 1] 1 by (simp add: idleEngine_ok(4))
next
  obtain r e' where 1: "Trigger memEnv clock ''nightly'' ''manual'' 9 busyEngine = ((r, None), e')"
    by (rule memory_trigger [OF busyEngine_ok(1-3), of clock "''manual''" 9])
  have nc: "\<not> AllowsConcurrentRuns nightly" by (simp add: nightly_valid(4))
  have "en_inflight busyEngine = []" by (simp add: busyEngine_def)
  then show "\<exists>r e'. Trigger memEnv clock ''nightly'' ''manual'' 9 busyEngine = ((r, None), e') \<and>
      r = skippedRun nightly ''manual'' 9 (clock 0) (clock 1) \<and> en_inflight e' = []"
    using Trigger_exclusive [OF memEnv_engine busyEngine_ok(1-3) nc 1] 1 by (simp add: busyEngine_ok(4))
qed

text \<open>C7: a trigger that reports an error (unknown schedule, a store that cannot be read or written)
  has changed nothing: no run is stored, none is handed to a goroutine, no schedule is completed.\<close>

theorem Trigger_error_atomic:
  assumes "engine_store st ok runs scheds normR normS cr live env"
    and "ok (en_store e)" "table env live e"
    and "Trigger env now n by at e = ((r, Some err), e')"
  shows "e' = e \<and> r = zeroRun"
  by (rule engine_store.Trigger_error_frame [OF assms])

theorem Trigger_error_atomic_witness:
  "\<exists>r err e'. Trigger memEnv clock ''other'' ''manual'' 9 idleEngine = ((r, Some err), e') \<and> e' = idleEngine \<and> r = zeroRun"
proof -
  have "en_schedules idleEngine ''other'' = None" by (simp add: idleEngine_def nightly_valid(3))
  then have 1: "Trigger memEnv clock ''other'' ''manual'' 9 idleEngine =
      ((zeroRun, Some (ConfigError (''schedule not found: '' @ ''other''))), idleEngine)"
    by (simp add: Trigger_def triggerLookup_def)
  then show ?thesis using Trigger_error_atomic [OF memEnv_engine idleEngine_ok(1,2) 1] by blast
qed

section \<open>Execution\<close>

text \<open>C8: \<open>executeRun\<close> writes the outcome of the target into the run and takes it off the running
  runs; when the store accepts the update, no other run of any schedule stops or starts running,
  and no running run is lost to pruning.\<close>

theorem executeRun_finishes:
  assumes "engine_store st ok runs scheds normR normS cr live env"
    and "ok (en_store e)" "storableRun r"
    and "x = finishedRun r (TriggerTarget (ev_net env) (runContext (sc_Timeout s)) s r (cfg_Faktory (en_cfg e))) (now 0)"
    and "so_UpdateRun st x (en_store e) = (Inr (), s')"
  shows "ok (en_store (executeRun env now s r e)) \<and>
    prunedTo ((runs (en_store e))(r_ID r \<mapsto> normR x)) (runs (en_store (executeRun env now s r e))) \<and>
    runningIds (runs (en_store (executeRun env now s r e))) n = runningIds (runs (en_store e)) n - {r_ID r} \<and>
    en_inflight (executeRun env now s r e) = remove1 (s, r) (en_inflight e)"
proof -
  note ex = engine_store.executeRun_runs [OF assms(1-3)]
  have x: "engine_store.executed env now s r (en_cfg e) = x"
    by (simp add: engine_store.executed_def [OF assms(1)] assms(4))
  have "fst (so_UpdateRun st (engine_store.executed env now s r (en_cfg e)) (en_store e)) = Inr ()"
    by (simp add: x assms(5))
  from ex(6) [OF this] ex(1,2) show ?thesis unfolding x by blast
qed

definition sampleStarted :: Run where
  "sampleStarted = sampleRun ''run-2'' 7 RunRunning"

theorem executeRun_finishes_witness:
  "runningIds (ms_runs (en_store (executeRun memEnv clock nightly sampleStarted busyEngine))) ''nightly'' =
    runningIds (ms_runs sampleMemory) ''nightly'' - {''run-2''}"
proof -
  have s: "storableRun sampleStarted" using sampleRun_ok(3) by (simp add: sampleStarted_def)
  have st: "en_store busyEngine = sampleMemory" by (simp add: busyEngine_def)
  show ?thesis
    using executeRun_finishes [OF memEnv_engine busyEngine_ok(1) s refl memory_UpdateRun,
        where now = clock and s = nightly and n = "''nightly''"]
    by (simp add: st sampleStarted_def sampleRun_def)
qed

section \<open>Schedules in memory, in the store and in the cron library\<close>









text \<open>C11: \<open>TogglePause\<close>, when it reports success, has flipped exactly the paused flag of that schedule in
  memory and in the store and reports the new value; a schedule that is now paused has no entry in
  the cron library, one that is not has exactly one if it is still to run.\<close>

theorem TogglePause_flips:
  assumes "engine_store st ok runs scheds normR normS cr live env"
    and "ok (en_store e)" "table env live e" "agree scheds normS e"
    and "en_schedules e n = Some s" "TogglePause env now n e = ((b, None), e')"
  shows "b = (\<not> sc_Paused s) \<and> en_schedules e' = (en_schedules e)(n \<mapsto> s\<lparr>sc_Paused := b\<rparr>) \<and>
    agree scheds normS e' \<and> runs (en_store e') = runs (en_store e) \<and>
    (en_entryIDs e' n \<noteq> None \<longleftrightarrow> activeSchedule (s\<lparr>sc_Paused := b\<rparr>))"
proof -
  have c: "cron_table cr live env" using assms(1) by (simp add: engine_store_def)
  note t = engine_store.TogglePause_agree [OF assms]
  have t': "table env live e'" by (rule cron_table.TogglePause_table [OF c assms(3,6)])
  let ?s = "s\<lparr>sc_Paused := b\<rparr>"
  have s': "en_schedules e' n = Some ?s" using t by simp
  have "en_entryIDs e' n \<noteq> None \<Longrightarrow> activeSchedule ?s"
    using tableD(1) [OF t', of n] tableD(3) [OF t'] s' by fastforce
  moreover have "activeSchedule ?s \<Longrightarrow> en_entryIDs e' n \<noteq> None" using tableD(4) [OF t' _ s'] by auto
  ultimately show ?thesis using t by blast
qed

theorem TogglePause_flips_witness:
  "\<exists>e'. TogglePause memEnv clock ''nightly'' idleEngine = ((True, None), e') \<and> en_entryIDs e' ''nightly'' = None"
proof -
  obtain b err e' where p: "TogglePause memEnv clock ''nightly'' idleEngine = ((b, err), e')" by (metis prod.exhaust)
  have np: "sc_Paused nightly = False" by code_simp
  then have "err = None"
    using p by (auto simp: TogglePause_def Let_def idleEngine_ok(3) onStore_def memoryStore_def ms_SaveSchedule_def)
  then have p': "TogglePause memEnv clock ''nightly'' idleEngine = ((b, None), e')" using p by simp
  note tp = TogglePause_flips [OF memEnv_engine idleEngine_ok(1,2,6,3) p']
  have b: "b = True" using conjunct1 [OF tp] np by simp
  then have "en_entryIDs e' ''nightly'' = None"
    using conjunct2 [OF conjunct2 [OF conjunct2 [OF conjunct2 [OF tp]]]] by (simp add: activeSchedule_def)
  then show ?thesis using p' b by blast
qed




end
