(* ===== verification/SystemProperties.thy ===== *)
theory SystemProperties
  imports EngineProperties
begin

text \<open>
  The properties of the engine with its callers interleaved, from its construction on, and what a
  restart makes of the runs and schedules a store holds.
\<close>

section \<open>From the start\<close>

lemma NewEngine_system:
  assumes "engine_store st ok runs scheds normR normS cr live env" "live cron0 = Map.empty" "ok store0"
    and "NewEngine env now cfg store0 cron0 = (Inr e0, store1)"
  shows "sysInv ok live env (e0, {#})" "history runs e0" "covered runs (\<Union>n. runningIds (runs store0) n) (e0, {#})"
    "runningIds (runs (en_store e0)) n = runningIds (runs store0) n" "en_cfg e0 = ApplyDefaults cfg"
proof -
  have ct: "cron_table cr live env" using assms(1) by (simp add: engine_store_def)
  note n = engine_store.NewEngine_runs [OF assms(1,3,4)]
  show "sysInv ok live env (e0, {#})"
    using n cron_table.NewEngine_table [OF ct assms(4,2)] by (simp add: sysInv_pair)
  show "history runs e0" "en_cfg e0 = ApplyDefaults cfg" by (rule n(4), rule n(5))
  show r: "runningIds (runs (en_store e0)) n = runningIds (runs store0) n" for n
    by (rule runningIds_pruned [OF n(2)])
  show "covered runs (\<Union>n. runningIds (runs store0) n) (e0, {#})"
    unfolding covered_def by (auto simp: r)
qed


text \<open>A start of the sample program: the in-memory store, one schedule in the configuration.\<close>

definition sampleConfig :: Config where
  "sampleConfig = zeroConfig\<lparr>cfg_Schedules := [nightly]\<rparr>"

text \<open>What the consistency of the table says of the entries of the cron library.\<close>

lemma entries_of_table:
  assumes "table env live e"
  shows "(live (en_cron e) i = Some (c, s) \<longrightarrow> en_schedules e (sc_Name s) = Some s \<and> activeSchedule s) \<and>
    (en_schedules e k = Some q \<and> activeSchedule q \<longrightarrow>
       (\<exists>!j. \<exists>d p. live (en_cron e) j = Some (d, p) \<and> sc_Name p = k))"
proof -
  have "\<exists>!j. \<exists>d p. live (en_cron e) j = Some (d, p) \<and> sc_Name p = k" if q: "en_schedules e k = Some q" "activeSchedule q"
  proof -
    obtain j where j: "en_entryIDs e k = Some j" using tableD(4) [OF assms _ q] by auto
    then have "\<exists>d p. live (en_cron e) j = Some (d, p) \<and> sc_Name p = k" using tableD(1) [OF assms, of k j] by blast
    moreover have "j' = j" if "\<exists>d p. live (en_cron e) j' = Some (d, p) \<and> sc_Name p = k" for j'
      using tableD(1) [OF assms, of k j'] that j by auto
    ultimately show ?thesis by blast
  qed
  then show ?thesis using tableD(3) [OF assms, of i c s] by blast
qed

lemma memory_prunes: "prunes memStore"
  by (simp add: prunes_def memoryStore_def ms_PruneRuns_def split: prod.split)

lemma memory_updates: "updates memStore"
  by (simp add: updates_def)

lemma memory_lists_nothing: "so_ListSchedules memStore NewMemoryStore = Inr []"
  by (simp add: memoryStore_def ms_ListSchedules_def NewMemoryStore_def keyOrder_def sortSchedules_def)



lemma memory_enginePruneRuns:
  assumes "ev_store env = memStore"
  shows "fst (enginePruneRuns env now e) = None"
proof -
  have "isOk (fst (so_PruneRuns memStore (cfg_RunRetention (en_cfg e)) now (en_store e)))"
    using memory_prunes by (simp add: prunes_def)
  then show ?thesis
    by (auto simp: enginePruneRuns_def onStore_def isOk_iff assms split: prod.splits sum.splits)
qed

lemma nightly_registers:
  assumes "cfg_Faktory (en_cfg e) = []" "en_schedules e = Map.empty" "en_entryIDs e = Map.empty" "en_cron e = []"
  shows "\<exists>e'. registerSchedule memEnv now1 now2 nightly e = (None, e') \<and> en_schedules e' = [''nightly'' \<mapsto> nightly]"
proof -
  have env: "ca_Parse (ev_cron memEnv) = Inr" "ev_loadLocation memEnv = utcOnly"
    "ca_ScheduleJob (ev_cron memEnv) c j [] = (Inr 1, [(1, c, j)])" for c j
    by (simp_all add: memEnv_def refCron_def freshID_def)
  have nv: "validateSchedule Inr utcOnly nightly [] = Inr ()"
    using nightly_valid(1) by (auto simp: validEntry_def memEnv_def refCron_def isOk_iff zeroConfig_def)
  have np: "sc_Paused nightly = False" by code_simp
  let ?e = "e\<lparr>en_schedules := [''nightly'' \<mapsto> nightly]\<rparr>"
  have "registerScheduleLocked memEnv now1 now2 nightly ?e =
      (None, ?e\<lparr>en_cron := [(1, SpecSchedule (cronSpec nightly), nightly)], en_entryIDs := [''nightly'' \<mapsto> 1]\<rparr>)"
    using assms np
    by (simp add: registerScheduleLocked_def removeEntryLocked_def env nightly_valid(3,5) cronSchedule_def bindE_def)
  then show ?thesis
    using assms nv by (simp add: registerSchedule_def env nightly_valid(3) validEntry_normalised [OF nightly_valid(1)])
qed

lemma start_with:
  assumes l: "so_ListSchedules memStore m = Inr stored" "stored = [] \<or> stored = [nightly]"
  shows "\<exists>e0 store1. NewEngine memEnv clock sampleConfig m [] = (Inr e0, store1) \<and>
    en_schedules e0 = [''nightly'' \<mapsto> nightly]"
proof -
  let ?c = "ApplyDefaults sampleConfig"
  have c: "cfg_Schedules ?c = [nightly]" "cfg_Faktory ?c = []"
    by (simp_all add: sampleConfig_def zeroConfig_def validEntry_normalised [OF nightly_valid(1)])
  have "isOk (ValidateRunRetention (cfg_RunRetention ?c))" "isOk (ValidateRunLogging (cfg_RunLogging ?c))"
    by code_simp+
  then have v: "bindE (ValidateRunRetention (cfg_RunRetention ?c)) (\<lambda>_.
      bindE (ValidateRunLogging (cfg_RunLogging ?c)) (\<lambda>_. so_ListSchedules (ev_store memEnv) m)) = Inr stored"
    using l(1) by (auto simp: isOk_iff bindE_def)
  have "\<exists>e1. (if stored = [] \<and> cfg_Schedules ?c \<noteq> []
        then (seedSchedules memEnv (cfg_Schedules ?c) (newEngine ?c m []), cfg_Schedules ?c)
        else ((None, newEngine ?c m []), stored)) = ((None, e1), [nightly]) \<and>
      en_cfg e1 = ?c \<and> en_schedules e1 = Map.empty \<and> en_entryIDs e1 = Map.empty \<and> en_cron e1 = []"
    using l(2) unfolding c(1) by (auto simp: onStore_def memoryStore_def ms_SaveSchedule_def newEngine_def)
  then obtain e1 where sd: "(if stored = [] \<and> cfg_Schedules ?c \<noteq> []
        then (seedSchedules memEnv (cfg_Schedules ?c) (newEngine ?c m []), cfg_Schedules ?c)
        else ((None, newEngine ?c m []), stored)) = ((None, e1), [nightly])"
      "en_cfg e1 = ?c" "en_schedules e1 = Map.empty" "en_entryIDs e1 = Map.empty" "en_cron e1 = []"
    by blast
  obtain e2 where p: "enginePruneRuns memEnv (clock 0) e1 = (None, e2)"
    using memory_enginePruneRuns [OF memEnv_store] by (metis prod.collapse)
  have e2: "en_cfg e2 = ?c" "en_schedules e2 = Map.empty" "en_entryIDs e2 = Map.empty" "en_cron e2 = []"
    by (rule enginePruneRuns_cases [of memEnv e1 "clock 0"], use p sd in auto)+
  let ?e3 = "markRunPruned (clock 1) e2"
  have e3: "en_cfg ?e3 = ?c" "en_schedules ?e3 = Map.empty" "en_entryIDs ?e3 = Map.empty" "en_cron ?e3 = []"
    using e2 by (simp_all add: markRunPruned_def)
  have "cfg_Faktory (en_cfg ?e3) = []" using e3(1) c(2) by simp
  from nightly_registers [OF this e3(2-4), of "clock 2" "clock 3"]
  have "\<exists>e. registerAll memEnv (\<lambda>i. clock (i + 2)) [nightly] ?e3 = (None, e) \<and> en_schedules e = [''nightly'' \<mapsto> nightly]"
    by (auto simp: numeral_2_eq_2 numeral_3_eq_3)
  then obtain e where r: "registerAll memEnv (\<lambda>i. clock (i + 2)) [nightly] ?e3 = (None, e)"
      "en_schedules e = [''nightly'' \<mapsto> nightly]" by blast
  have "NewEngine memEnv clock sampleConfig m [] = (Inr e, en_store e)"
    unfolding NewEngine_def Let_def v sum.case sd(1) prod.case option.case p r(1) ..
  then show ?thesis using r(2) by blast
qed

lemma sample_start:
  obtains e0 store1 where "NewEngine memEnv clock sampleConfig NewMemoryStore [] = (Inr e0, store1)"
    "en_schedules e0 = [''nightly'' \<mapsto> nightly]"
  using start_with [OF memory_lists_nothing] by blast


section \<open>Every interleaving\<close>

text \<open>C13: in every state the engine can reach, with handlers, triggers and executions interleaved in any
  way, the cron library holds entries of active schedules only, each with the schedule as it is in the
  table now, and every active schedule has exactly one entry: a paused, deleted or completed schedule
  does not fire, an edited one does not fire by its old definition.\<close>

theorem entries_follow_schedules:
  assumes "engine_store st ok runs scheds normR normS cr live env" "live cron0 = Map.empty" "ok store0"
    and "NewEngine env now cfg store0 cron0 = (Inr e0, store1)" "sysSteps env (e0, {#}) (e, T)"
  shows "(live (en_cron e) i = Some (c, s) \<longrightarrow> en_schedules e (sc_Name s) = Some s \<and> activeSchedule s) \<and>
    (en_schedules e k = Some q \<and> activeSchedule q \<longrightarrow>
       (\<exists>!j. \<exists>d p. live (en_cron e) j = Some (d, p) \<and> sc_Name p = k))"
proof -
  have "sysInv ok live env (e, T)"
    by (rule engine_store.sysSteps_inv [OF assms(1,5) NewEngine_system(1) [OF assms(1-4)]])
  then have "table env live e" by (simp add: sysInv_pair)
  then show ?thesis by (rule entries_of_table)
qed

theorem entries_follow_schedules_witness:
  "\<exists>e0 store1. NewEngine memEnv clock sampleConfig NewMemoryStore [] = (Inr e0, store1) \<and>
    (\<exists>!j. \<exists>d p. map_of (en_cron e0) j = Some (d, p) \<and> sc_Name p = ''nightly'')"
proof (rule sample_start)
  fix e0 store1
  assume n: "NewEngine memEnv clock sampleConfig NewMemoryStore [] = (Inr e0, store1)"
    and s: "en_schedules e0 = [''nightly'' \<mapsto> nightly]"
  have live: "map_of ([] :: string refEntries) = Map.empty" by simp
  have "en_schedules e0 ''nightly'' = Some nightly \<and> activeSchedule nightly" by (simp add: s nightly_valid(2))
  then show ?thesis
    using entries_follow_schedules [OF memEnv_engine live ms_inv_init n rtranclp.rtrancl_refl,
        where k = "''nightly''" and q = nightly] n by blast
qed





text \<open>C16: \<open>Trigger\<close> asks for a running run and records the new one in two steps, with no lock across
  them.  Two triggers of a schedule that allows no concurrent runs (the cron library and a manual
  one), interleaved, both find none running, and both runs are executed.\<close>

theorem trigger_race:
  "\<not> AllowsConcurrentRuns nightly \<and>
   (\<exists>e r1 r2. sysSteps memEnv (idleEngine, {#}) (e, {#}) \<and> en_inflight e = [(nightly, r2), (nightly, r1)] \<and>
      r_TriggeredBy r1 = ''scheduler'' \<and> r_TriggeredBy r2 = ''manual'')"
proof
  show "\<not> AllowsConcurrentRuns nightly" by (simp add: nightly_valid(4))
  define L where "L = Looked nightly ''scheduler'' 9"
  define M where "M = Looked nightly ''manual'' 9"
  define L' where "L' = Starting nightly ''scheduler'' 9"
  define M' where "M' = Starting nightly ''manual'' 9"
  define r1 where "r1 = newRun nightly ''scheduler'' 9 (clock 0)"
  define r2 where "r2 = newRun nightly ''manual'' 9 (clock 1)"
  define e1 where "e1 = snd (triggerStart memEnv (clock 0) nightly ''scheduler'' 9 idleEngine)"
  define e2 where "e2 = snd (triggerStart memEnv (clock 1) nightly ''manual'' 9 e1)"
  define e3 where "e3 = triggerMark memEnv (clock 2) nightly r1 e2"
  define e4 where "e4 = triggerMark memEnv (clock 3) nightly r2 e3"
  have look: "triggerLookup ''nightly'' idleEngine = Inr nightly"
    by (simp add: triggerLookup_def idleEngine_ok(3))
  have k: "plainKey (sc_Name nightly)" using nightly_valid(3,6) by simp
  have ck: "triggerCheck memEnv nightly idleEngine = Inr False"
    using engine_store.triggerCheck_exact [OF memEnv_engine idleEngine_ok(1) k] idleEngine_ok(5) by simp
  have st1: "triggerStart memEnv (clock 0) nightly ''scheduler'' 9 idleEngine = (Inr r1, e1)"
    by (simp add: e1_def r1_def triggerStart_def onStore_def Let_def)
  have st2: "triggerStart memEnv (clock 1) nightly ''manual'' 9 e1 = (Inr r2, e2)"
    by (simp add: e2_def r2_def triggerStart_def onStore_def Let_def)
  let ?R = "sysSteps memEnv"
  have "?R (idleEngine, {#}) (idleEngine, {#L#})"
    unfolding L_def by (rule r_into_rtranclp) (rule sysStep.arrive [OF look])
  also have "?R \<dots> (idleEngine, {#M, L#})"
    unfolding M_def by (rule r_into_rtranclp) (rule sysStep.arrive [OF look])
  also have "?R \<dots> (idleEngine, {#M', L#})"
    using sysStep.check [OF ck, of "''manual''" 9 "{#L#}"] unfolding M_def M'_def by simp
  also have "?R \<dots> (idleEngine, {#L', M'#})"
    using sysStep.check [OF ck, of "''scheduler''" 9 "{#M'#}"] unfolding L_def L'_def by (simp add: add_mset_commute)
  also have "?R \<dots> (e1, {#M', Started nightly r1#})"
    using sysStep.start [OF st1, of "{#M'#}"] unfolding L'_def by (simp add: add_mset_commute)
  also have "?R \<dots> (e2, {#Started nightly r1, Started nightly r2#})"
    using sysStep.start [OF st2, of "{#Started nightly r1#}"] unfolding M'_def by (simp add: add_mset_commute)
  also have "?R \<dots> (e3, {#Started nightly r2#})"
    unfolding e3_def by (rule r_into_rtranclp) (rule sysStep.mark)
  also have "?R \<dots> (e4, {#})"
    unfolding e4_def by (rule r_into_rtranclp) (rule sysStep.mark)
  finally have steps: "?R (idleEngine, {#}) (e4, {#})" .
  have nt: "sc_ScheduleType nightly \<noteq> ''once''" by (simp add: nightly_valid(5))
  have "en_inflight e2 = []"
    by (simp add: e2_def e1_def triggerStart_def onStore_def Let_def idleEngine_def)
  then have "en_inflight e4 = [(nightly, r2), (nightly, r1)]"
    using nt by (simp add: e4_def e3_def triggerMark_def)
  then show "\<exists>e r1 r2. ?R (idleEngine, {#}) (e, {#}) \<and> en_inflight e = [(nightly, r2), (nightly, r1)] \<and>
      r_TriggeredBy r1 = ''scheduler'' \<and> r_TriggeredBy r2 = ''manual''"
    using steps by (intro exI [of _ e4] exI [of _ r1] exI [of _ r2]) (simp add: r1_def r2_def)
qed

section \<open>Restarts\<close>








end
