(* ===== verification/ConfigProperties.thy ===== *)
theory ConfigProperties
  imports SystemProperties
begin

text \<open>
  Properties of the configuration, of the schedules handed to the cron library, of the targets and
  of the keys of the store.
\<close>

section \<open>Configuration\<close>

text \<open>C18: \<open>Validate\<close> accepts exactly the configurations with retention bounds that are not negative, a
  known logging mode, distinct named Faktory instances, and schedules with distinct valid names, a
  known time zone, a complete timing and a complete target: the loops, the early returns and the map
  of names seen so far decide this and nothing else.\<close>

theorem Validate_exact:
  "isOk (Validate loadLocation c) =
     (0 \<le> rr_MaxRecords (cfg_RunRetention c) \<and> 0 \<le> rr_MaxAgeDays (cfg_RunRetention c) \<and>
     rl_Stdout (cfg_RunLogging c) \<in> {[], ''off'', ''summary'', ''full''} \<and>
     instancesOk (cfg_Faktory c) \<and> distinct (map sc_Name (cfg_Schedules c)) \<and>
     list_all (\<lambda>s. scheduleOk loadLocation (fi_Name ` set (cfg_Faktory c)) (NormalizeSchedule s))
       (cfg_Schedules c))"
  unfolding list_all_iff by (rule Validate_iff)

lemma ApplyDefaults_idem: "ApplyDefaults (ApplyDefaults c) = ApplyDefaults c"
  by (intro Config.equality ServerConfig.equality StoreConfig.equality RunRetentionConfig.equality
      RunLoggingConfig.equality) simp_all

text \<open>Applying the defaults twice is applying them once, and defaults neither repair nor break a
  configuration: \<open>NewEngine\<close> and \<open>LoadConfig\<close> may both apply them.\<close>

lemma ApplyDefaults_stable:
  "ApplyDefaults (ApplyDefaults c) = ApplyDefaults c \<and>
   Validate loadLocation (ApplyDefaults c) = Validate loadLocation c"
  by (simp add: ApplyDefaults_idem Validate_ApplyDefaults)

section \<open>When a schedule fires\<close>

text \<open>C19: the next instant of a rate schedule is the least instant of its grid after the given one, as
  long as the distance from its start and the interval fit a duration.\<close>

theorem rateNext_is_least:
  assumes "0 < sint (rs_interval s)" "t - rs_start s + sint (rs_interval s) < 2 ^ 63"
  shows "t < rateNext s t \<and> (\<exists>k \<ge> 0. rateNext s t = rs_start s + k * sint (rs_interval s)) \<and>
    (\<forall>k. 0 \<le> k \<and> t < rs_start s + k * sint (rs_interval s) \<longrightarrow>
       rateNext s t \<le> rs_start s + k * sint (rs_interval s))"
  using rateNext_least [OF assms] by blast

text \<open>Every ten minutes from nanosecond 5 on: after 25 minutes comes the third time.\<close>

definition tenMinutes :: rateSchedule where
  "tenMinutes = \<lparr>rs_start = 5, rs_interval = 10 * Minute\<rparr>"

theorem rateNext_is_least_witness:
  "0 < sint (rs_interval tenMinutes) \<and> rateNext tenMinutes 1500000000000 = 1800000000005 \<and>
   1500000000000 < rateNext tenMinutes 1500000000000"
proof -
  have 1: "0 < sint (rs_interval tenMinutes)" "1500000000000 - rs_start tenMinutes + sint (rs_interval tenMinutes) < 2 ^ 63"
    "rateNext tenMinutes 1500000000000 = 1800000000005" by code_simp+
  from rateNext_is_least [OF 1(1,2)] 1 show ?thesis by blast
qed

text \<open>C20: a validated schedule can be converted for the cron library, and a converted one-time schedule
  has one instant: \<open>Next\<close> answers it for every earlier time and never again; if that instant had
  passed at the conversion, it is one second after the second reading of the clock.\<close>

theorem validated_schedule_converts:
  assumes "isOk (validateSchedule parse loadLocation s insts)"
  shows "\<exists>c. cronSchedule parse loadLocation now1 now2 (NormalizeSchedule s) = Inr c \<and>
    (\<forall>q. c = OnceSchedule q \<longrightarrow>
       (\<forall>t. onceNext q t = (if t < os_runAt q then os_runAt q else zeroTime)) \<and>
       (now1 < os_runAt q \<or> os_runAt q = now2 + 1000000000))"
proof -
  obtain c where c: "cronSchedule parse loadLocation now1 now2 (NormalizeSchedule s) = Inr c"
    using valid_cronSchedule [OF assms] by (auto simp: isOk_iff)
  have "now1 < os_runAt q \<or> os_runAt q = now2 + 1000000000" if "c = OnceSchedule q" for q
    using c that
    by (auto simp: cronSchedule_def bindE_eq_Inr Let_def timeAdd_def Second_def split: if_splits)
  then show ?thesis using c by (auto simp: onceNext_def)
qed

theorem validated_schedule_converts_witness:
  "\<exists>c. cronSchedule Inr utcOnly (10 ^ 20) (10 ^ 20 + 1) (NormalizeSchedule oneTime) = Inr c \<and>
     (\<forall>q. c = OnceSchedule q \<longrightarrow> 10 ^ 20 < os_runAt q)"
proof -
  have v: "isOk (validateSchedule Inr utcOnly oneTime [])" by code_simp
  show ?thesis using validated_schedule_converts [OF v, of "10 ^ 20" "10 ^ 20 + 1"] by force
qed



section \<open>Targets\<close>


text \<open>Whatever an HTTP target answers, the run records at most 64 KiB of it, and its status code; a
  configured header reaches the target under its canonical name, unless another spelling of it has
  another value.\<close>

lemma triggerHTTP_recorded:
  assumes "triggerHTTP net ctx s r = (Some out, err)" "(''raw'', AnyString v) \<in> set out"
    and "(k, h) \<in> set hs" "\<forall>kv \<in> set hs. CanonicalHeaderKey (fst kv) = CanonicalHeaderKey k \<longrightarrow> snd kv = h"
  shows "length v \<le> maxOutputBytes \<and> (\<exists>code. (''status_code'', AnyInt code) \<in> set out \<and>
      (err = None \<longleftrightarrow> 200 \<le> code \<and> code < 300)) \<and> requestHeader hs (CanonicalHeaderKey k) = Some h"
proof -
  have "\<exists>code. (''status_code'', AnyInt code) \<in> set out \<and> (err = None \<longleftrightarrow> 200 \<le> code \<and> code < 300)"
    using assms(1) by (auto simp: triggerHTTP_def Let_def split: sum.splits if_splits)
  then show ?thesis
    using triggerHTTP_output_bound [OF assms(1,2)] requestHeader_configured [OF assms(3,4)] by blast
qed

section \<open>Keys of the store\<close>

text \<open>C23: the keys of the index by start time are in the order of the start times, then of the
  identifiers, byte by byte, and the start time can be read back from a key: pruning by age may stop
  at the first key that is young enough.\<close>

theorem index_keys_ordered:
  assumes "yearOk (r_StartedAt r)" "yearOk (r_StartedAt q)"
  shows "(runStartedAtIndexKey r < runStartedAtIndexKey q) =
      (r_StartedAt r < r_StartedAt q \<or> r_StartedAt r = r_StartedAt q \<and> r_ID r < r_ID q) \<and>
    startedAtFromRunIndexKey (runStartedAtIndexKey r) = Inr (r_StartedAt r)"
  using runStartedAtIndexKey_less [OF assms] startedAt_indexKey [OF assms(1)] by simp

theorem index_keys_ordered_witness:
  "runStartedAtIndexKey (sampleRun ''run-9'' 5 RunSucceeded) < runStartedAtIndexKey (sampleRun ''run-1'' 7 RunSucceeded)"
proof -
  have "yearOk 5" "yearOk 7" by code_simp+
  then show ?thesis
    using index_keys_ordered [of "sampleRun ''run-9'' 5 RunSucceeded" "sampleRun ''run-1'' 7 RunSucceeded"]
    by (simp add: sampleRun_def)
qed

text \<open>Run identifiers are the schedule's name, a dash and twelve hexadecimal digits of a SHA-1 sum:
  two schedules never share one, and it fits the keys of the store if the name does.\<close>

lemma runID_shape:
  assumes "plainKey name"
  shows "plainKey (runID name by at) \<and> length (runID name by at) = length name + 13 \<and>
    (runID name by at = runID name' by' at' \<longrightarrow> name = name')"
  using runID_plainKey [OF assms] length_runID runID_schedule by blast

lemma runID_shape_witness: "plainKey (runID ''nightly'' ''manual'' 9) \<and> length (runID ''nightly'' ''manual'' 9) = 20"
  using runID_shape [OF nightly_valid(6), of "''manual''" 9] by simp

end
