(* ===== verification/Labels.thy ===== *)
theory Labels
  imports RunModel
begin

text \<open>
  internal/server/http.go, what the pages show: summaries of schedules, labels of days, months and
  times, and the spans that the browser turns into local times.  A \<open>template.HTML\<close> is a string that
  \<open>html/template\<close> inserts as it is, so what these functions leave unescaped reaches the browser;
  \<open>labelMarkup\<close> is the grammar they stay in.
\<close>

named_theorems plain_texts \<open>texts without markup\<close>
named_theorems markups \<open>values in the grammar of labels\<close>

section \<open>fmt, strings and html/template\<close>

definition bytesOf :: "nat list \<Rightarrow> string" where
  "bytesOf = map char_of"

text \<open>\<open>template.HTMLEscapeString\<close>; NUL becomes U+FFFD.\<close>

definition escapeChar :: "char \<Rightarrow> string" where
  "escapeChar c =
     (if byte c = 0 then bytesOf [0xEF, 0xBF, 0xBD]
      else if byte c = 34 then ''&#34;'' else if byte c = 39 then ''&#39;''
      else if byte c = 38 then ''&amp;'' else if byte c = 60 then ''&lt;''
      else if byte c = 62 then ''&gt;'' else [c])"

definition HTMLEscapeString :: "string \<Rightarrow> string" where
  "HTMLEscapeString s = concat (map escapeChar s)"

text \<open>The verb \<open>%02d\<close>: the sign counts for the width.\<close>

definition fmt02d :: "int \<Rightarrow> string" where
  "fmt02d i = (if i < 0 then ''-'' @ padded 1 (nat (- i)) else padded 2 (nat i))"

text \<open>\<open>t.UTC().Format(time.RFC3339)\<close>.\<close>

definition formatRFC3339 :: "go_time \<Rightarrow> string" where
  "formatRFC3339 t =
     padInt 4 (yearOf t) @ ''-'' @ padInt 2 (monthNoOf t) @ ''-'' @ padInt 2 (mdayOf t) @ ''T'' @
     padInt 2 (hourOf t) @ '':'' @ padInt 2 (minuteOf t) @ '':'' @ padInt 2 (secondOf t) @ ''Z''"

text \<open>\<open>strings.Fields\<close>: the maximal stretches without a space rune.\<close>

definition spacePrefix :: "string \<Rightarrow> string option" where
  "spacePrefix s = find (\<lambda>p. p \<noteq> [] \<and> HasPrefix s p) spaceRunes"

definition flushField :: "string \<Rightarrow> string list" where
  "flushField cur = (if cur = [] then [] else [cur])"

function fieldsFrom :: "string \<Rightarrow> string \<Rightarrow> string list" where
  "fieldsFrom cur [] = flushField cur"
| "fieldsFrom cur (c # cs) =
     (case spacePrefix (c # cs) of
        None \<Rightarrow> fieldsFrom (cur @ [c]) cs
      | Some p \<Rightarrow> flushField cur @ fieldsFrom [] (drop (length p) (c # cs)))"
  by pat_completeness auto
termination
  by (relation "measure (\<lambda>(cur, s). length s)")
     (auto simp: spacePrefix_def dest!: find_SomeD)

definition Fields :: "string \<Rightarrow> string list" where
  "Fields s = fieldsFrom [] s"

section \<open>Numbers, days and months\<close>

definition isCronNumber :: "string \<Rightarrow> bool" where
  "isCronNumber value' = isOk (Atoi value')"

definition minuteLabel :: "string \<Rightarrow> string" where
  "minuteLabel minute =
     (case Atoi minute of Inl _ \<Rightarrow> '':'' @ minute | Inr v \<Rightarrow> '':'' @ fmt02d v)"

definition timeLabel :: "string \<Rightarrow> string \<Rightarrow> string" where
  "timeLabel hour minute =
     (case (Atoi hour, Atoi minute) of
        (Inr h, Inr mi) \<Rightarrow>
          (let period = (if 12 \<le> h then ''PM'' else ''AM'');
               displayHour = (if h smod 12 = 0 then 12 else h smod 12)
           in Itoa displayHour @ '':'' @ fmt02d mi @ '' '' @ period)
      | _ \<Rightarrow> hour @ '':'' @ minute)"

definition weekdayLabel :: "string \<Rightarrow> string" where
  "weekdayLabel day =
     (if day = ''0'' \<or> day = ''7'' then ''Sunday''
      else if day = ''1'' then ''Monday'' else if day = ''2'' then ''Tuesday''
      else if day = ''3'' then ''Wednesday'' else if day = ''4'' then ''Thursday''
      else if day = ''5'' then ''Friday'' else if day = ''6'' then ''Saturday''
      else ''day '' @ day)"

definition monthLabel :: "string \<Rightarrow> string" where
  "monthLabel month =
     (if month = ''1'' then ''Jan'' else if month = ''2'' then ''Feb'' else if month = ''3'' then ''Mar''
      else if month = ''4'' then ''Apr'' else if month = ''5'' then ''May'' else if month = ''6'' then ''Jun''
      else if month = ''7'' then ''Jul'' else if month = ''8'' then ''Aug'' else if month = ''9'' then ''Sep''
      else if month = ''10'' then ''Oct'' else if month = ''11'' then ''Nov'' else if month = ''12'' then ''Dec''
      else ''month '' @ month)"

text \<open>The code's \<open>dayNumber\<close>.\<close>

definition dayNumberLabel :: "string \<Rightarrow> string" where
  "dayNumberLabel day = (case Atoi day of Inl _ \<Rightarrow> day | Inr v \<Rightarrow> Itoa v)"

definition ordinalSuffix :: "string \<Rightarrow> string" where
  "ordinalSuffix day =
     (case Atoi day of
        Inl _ \<Rightarrow> []
      | Inr v \<Rightarrow>
          if 11 \<le> v smod 100 \<and> v smod 100 \<le> 13 then ''th''
          else if v smod 10 = 1 then ''st'' else if v smod 10 = 2 then ''nd''
          else if v smod 10 = 3 then ''rd'' else ''th'')"

definition ordinal :: "string \<Rightarrow> string" where
  "ordinal day = dayNumberLabel day @ ordinalSuffix day"

section \<open>Labels of schedules and runs\<close>

type_synonym HTML = string

definition cronTimeSpan :: "string \<Rightarrow> string \<Rightarrow> string \<Rightarrow> HTML" where
  "cronTimeSpan hourStr minuteStr timezone =
     (case (Atoi hourStr, Atoi minuteStr) of
        (Inr hour, Inr minute) \<Rightarrow>
          ''<span class=\"wall-time\" data-hour=\"'' @ HTMLEscapeString (Itoa hour) @
          ''\" data-minute=\"'' @ HTMLEscapeString (Itoa minute) @
          ''\" data-source-tz=\"'' @ HTMLEscapeString timezone @ ''\"></span>''
      | _ \<Rightarrow> HTMLEscapeString (hourStr @ '':'' @ minuteStr))"

definition dateTimeSpan :: "(string \<Rightarrow> location result) \<Rightarrow> string \<Rightarrow> string \<Rightarrow> HTML" where
  "dateTimeSpan loadLocation datetimeStr timezone =
     (case ParseLocalDateTime loadLocation datetimeStr timezone of
        Inl _ \<Rightarrow> HTMLEscapeString datetimeStr
      | Inr t \<Rightarrow>
          ''<span class=\"local-time\" data-time=\"'' @ HTMLEscapeString (formatRFC3339 t) @
          ''\" data-source-tz=\"'' @ HTMLEscapeString timezone @ ''\"></span>'')"

definition scheduleTimezoneContext :: "string \<Rightarrow> HTML" where
  "scheduleTimezoneContext timezone =
     (let escaped = HTMLEscapeString (if timezone = [] then ''UTC'' else timezone)
      in ''<span class=\"timezone-context\" data-source-tz=\"'' @ escaped @ ''\" hidden></span>'')"

text \<open>The five fields of a cron expression.\<close>

definition cronSummary :: "string \<Rightarrow> string \<Rightarrow> string \<Rightarrow> string \<Rightarrow> string \<Rightarrow> string \<Rightarrow> string \<Rightarrow> HTML" where
  "cronSummary cron tz minute hour mday month dow =
     (if HasPrefix minute ''*/'' \<and> hour = ''*'' \<and> mday = ''*'' \<and> month = ''*'' \<and> dow = ''*''
      then (let interval = TrimPrefix minute ''*/'' in
            if interval = ''1'' then ''Every minute''
            else ''Every '' @ HTMLEscapeString interval @ '' minutes'')
      else if isCronNumber minute \<and> hour = ''*'' \<and> mday = ''*'' \<and> month = ''*'' \<and> dow = ''*''
      then ''Hourly at '' @ minuteLabel minute
      else if isCronNumber minute \<and> isCronNumber hour \<and> mday = ''*'' \<and> month = ''*'' \<and> dow = ''*''
      then ''Daily at '' @ cronTimeSpan hour minute tz
      else if isCronNumber minute \<and> isCronNumber hour \<and> mday = ''*'' \<and> month = ''*'' \<and> isCronNumber dow
      then ''Weekly on '' @ weekdayLabel dow @ '' at '' @ cronTimeSpan hour minute tz
      else if isCronNumber minute \<and> isCronNumber hour \<and> isCronNumber mday \<and> month = ''*'' \<and> dow = ''*''
      then ''Monthly on the '' @ ordinal mday @ '' at '' @ cronTimeSpan hour minute tz
      else if isCronNumber minute \<and> isCronNumber hour \<and> isCronNumber mday \<and> isCronNumber month \<and> dow = ''*''
      then ''Every '' @ monthLabel month @ '' '' @ dayNumberLabel mday @ '' at '' @ cronTimeSpan hour minute tz
      else ''Cron: '' @ HTMLEscapeString cron)"

definition scheduleSummary :: "(string \<Rightarrow> location result) \<Rightarrow> ScheduleConfig \<Rightarrow> HTML" where
  "scheduleSummary loadLocation s =
     (if sc_ScheduleType s = ''once''
      then (if sc_CompletedAt s \<noteq> None then ''Completed one-time schedule''
            else ''Once at '' @ dateTimeSpan loadLocation (sc_RunAt s) (sc_Timezone s))
      else if sc_ScheduleType s = ''rate''
      then (let unit = (if sc_RateInterval s = 1 then TrimSuffix (sc_RateUnit s) ''s'' else sc_RateUnit s)
            in ''Every '' @ Itoa (sint (sc_RateInterval s)) @ '' '' @ HTMLEscapeString unit)
      else (case Fields (sc_Cron s) of
          [minute, hour, mday, month, dow] \<Rightarrow> cronSummary (sc_Cron s) (sc_Timezone s) minute hour mday month dow
        | _ \<Rightarrow> HTMLEscapeString (sc_Cron s)))"

text \<open>The parts are joined with a middle dot, U+00B7, between spaces.\<close>

definition middleDot :: HTML where
  "middleDot = '' '' @ bytesOf [0xC2, 0xB7] @ '' ''"

fun joinParts :: "HTML list \<Rightarrow> HTML" where
  "joinParts [] = []"
| "joinParts [p] = p"
| "joinParts (p # q # ps) = p @ middleDot @ joinParts (q # ps)"

definition scheduleDetails :: "(string \<Rightarrow> location result) \<Rightarrow> ScheduleConfig \<Rightarrow> HTML" where
  "scheduleDetails loadLocation s =
     (let parts =
        (if sc_ScheduleType s = ''once'' then []
         else if sc_ScheduleType s = ''rate''
         then (if sc_StartsAt s \<noteq> []
               then [''Starts '' @ dateTimeSpan loadLocation (sc_StartsAt s) (sc_Timezone s)] else [])
         else (if sc_Cron s \<noteq> [] then [HTMLEscapeString (sc_Cron s)] else []))
      in joinParts parts @ scheduleTimezoneContext (sc_Timezone s))"

definition concurrencyLabel :: "ScheduleConfig \<Rightarrow> string" where
  "concurrencyLabel s = (if AllowsConcurrentRuns s then ''Can overlap'' else ''No overlap'')"

definition localTimeSpan :: "go_time \<Rightarrow> string \<Rightarrow> HTML" where
  "localTimeSpan t timezone =
     ''<span class=\"local-time\" data-time=\"'' @ HTMLEscapeString (formatRFC3339 t) @
     ''\" data-source-tz=\"'' @ HTMLEscapeString timezone @ ''\"></span>''"

definition nextRunLabel :: "ScheduleConfig \<Rightarrow> HTML" where
  "nextRunLabel s =
     (if sc_Paused s then ''<span class=\"status status-paused\">paused</span>''
      else if sc_NextRun s \<noteq> zeroTime then localTimeSpan (sc_NextRun s) (sc_Timezone s)
      else if sc_ScheduleType s = ''once'' \<and> sc_CompletedAt s \<noteq> None
      then ''<span class=\"status status-succeeded\">completed</span>''
      else ''<span class=\"muted\">no upcoming run</span>'')"

record runView =
  rv_Run :: Run
  rv_DisplayTimezone :: string

definition displayRunTime :: "runView \<Rightarrow> HTML" where
  "displayRunTime v =
     (if r_StartedAt (rv_Run v) = zeroTime then []
      else localTimeSpan (r_StartedAt (rv_Run v)) (rv_DisplayTimezone v))"

text \<open>\<open>displayTime\<close>: \<open>zoneClock\<close> is \<open>time.LoadLocation\<close> with \<open>Time.In\<close>, the wall clock of a zone.\<close>

definition displayTime :: "(string \<Rightarrow> (go_time \<Rightarrow> go_time) result) \<Rightarrow> go_time \<Rightarrow> string \<Rightarrow> string" where
  "displayTime zoneClock t timezone =
     (if t = zeroTime then []
      else (let (clock, name) = (case zoneClock timezone of Inl _ \<Rightarrow> (\<lambda>u. u, ''UTC'') | Inr f \<Rightarrow> (f, timezone));
                w = clock t;
                h = (if hourOf w mod 12 = 0 then 12 else hourOf w mod 12)
            in monthLabel (Itoa (monthNoOf w)) @ '' '' @ Itoa (mdayOf w) @ '', '' @ padInt 4 (yearOf w) @ '' '' @
               Itoa h @ '':'' @ padInt 2 (minuteOf w) @ '' '' @ (if 12 \<le> hourOf w then ''PM'' else ''AM'') @
               '' '' @ name))"

definition localDateTimeString :: "go_time \<Rightarrow> string" where
  "localDateTimeString w =
     padInt 4 (yearOf w) @ ''-'' @ padInt 2 (monthNoOf w) @ ''-'' @ padInt 2 (mdayOf w) @ ''T'' @
     padInt 2 (hourOf w) @ '':'' @ padInt 2 (minuteOf w)"

section \<open>Time zones of the forms\<close>

definition timezoneOptions :: "string list" where
  "timezoneOptions =
     [''UTC'', ''America/New_York'', ''America/Chicago'', ''America/Denver'', ''America/Los_Angeles'',
      ''America/Phoenix'', ''America/Anchorage'', ''Pacific/Honolulu'', ''America/Toronto'',
      ''America/Vancouver'', ''America/Mexico_City'', ''America/Sao_Paulo'', ''Europe/London'',
      ''Europe/Dublin'', ''Europe/Paris'', ''Europe/Berlin'', ''Europe/Amsterdam'', ''Europe/Madrid'',
      ''Europe/Rome'', ''Europe/Stockholm'', ''Europe/Warsaw'', ''Europe/Istanbul'',
      ''Africa/Johannesburg'', ''Asia/Dubai'', ''Asia/Jerusalem'', ''Asia/Kolkata'', ''Asia/Bangkok'',
      ''Asia/Singapore'', ''Asia/Hong_Kong'', ''Asia/Shanghai'', ''Asia/Tokyo'', ''Asia/Seoul'',
      ''Australia/Perth'', ''Australia/Sydney'', ''Pacific/Auckland'']"

definition timezonesWithCurrent :: "string \<Rightarrow> string list" where
  "timezonesWithCurrent current =
     (if current \<in> set timezoneOptions then timezoneOptions
      else if current = [] then timezoneOptions else current # timezoneOptions)"

section \<open>The grammar of labels\<close>

text \<open>Text that cannot leave an element's text or a quoted attribute value.\<close>

definition plainText :: "string \<Rightarrow> bool" where
  "plainText s \<longleftrightarrow> list_all (\<lambda>c. byte c \<notin> {0, 34, 39, 60, 62}) s"

definition labelAttributes :: "string list" where
  "labelAttributes = [''class'', ''data-hour'', ''data-minute'', ''data-time'', ''data-source-tz'']"

fun attributes :: "(string \<times> string) list \<Rightarrow> string" where
  "attributes [] = []"
| "attributes ((n, v) # as) = '' '' @ n @ ''=\"'' @ v @ ''\"'' @ attributes as"

definition attributesOk :: "(string \<times> string) list \<Rightarrow> bool" where
  "attributesOk as \<longleftrightarrow> list_all (\<lambda>(n, v). n \<in> set labelAttributes \<and> plainText v) as"

definition spanElement :: "(string \<times> string) list \<Rightarrow> bool \<Rightarrow> string \<Rightarrow> HTML" where
  "spanElement as hidden body =
     ''<span'' @ attributes as @ (if hidden then '' hidden'' else []) @ ''>'' @ body @ ''</span>''"

inductive labelMarkup :: "HTML \<Rightarrow> bool" where
  plain: "plainText s \<Longrightarrow> labelMarkup s"
| span: "attributesOk as \<Longrightarrow> plainText body \<Longrightarrow> labelMarkup (spanElement as hidden body)"
| seq: "labelMarkup s \<Longrightarrow> labelMarkup t \<Longrightarrow> labelMarkup (s @ t)"

lemma plainText_append [simp]: "plainText (s @ t) \<longleftrightarrow> plainText s \<and> plainText t"
  by (simp add: plainText_def)

lemma plainText_Nil [simp]: "plainText []"
  by (simp add: plainText_def)

lemma plainText_Cons: "plainText (c # s) \<longleftrightarrow> byte c \<notin> {0, 34, 39, 60, 62} \<and> plainText s"
  by (simp add: plainText_def)

lemma plainText_escapeChar: "plainText (escapeChar c)"
  by (auto simp: escapeChar_def plainText_def bytesOf_def byte_def)

lemma plainText_escape [plain_texts]: "plainText (HTMLEscapeString s)"
  unfolding HTMLEscapeString_def by (induction s) (simp_all add: plainText_escapeChar)

lemma plainText_digits: "list_all isDigit s \<Longrightarrow> plainText s"
  by (induction s) (auto simp: plainText_def isDigit_def)

lemma plainText_utoa [plain_texts]: "plainText (utoa n)"
  by (rule plainText_digits [OF utoa_all_digits])

lemma plainText_Itoa [plain_texts]: "plainText (Itoa i)"
  by (simp add: Itoa_def plainText_utoa plainText_Cons byte_def)

lemma plainText_padded [plain_texts]: "plainText (padded w n)"
  by (auto simp: padded_def plain_texts) (auto simp: plainText_def byte_def list_all_iff)

lemma plainText_fmt02d [plain_texts]: "plainText (fmt02d i)"
  by (simp add: fmt02d_def plain_texts plainText_Cons byte_def)

lemma plainText_cronNumber [plain_texts]:
  assumes "isCronNumber s"
  shows "plainText s"
proof -
  from assms have "list_all isDigit s \<or> (\<exists>c cs. s = c # cs \<and> (c = CHR ''-'' \<or> c = CHR ''+'') \<and> list_all isDigit cs)"
    by (cases s) (auto simp: isCronNumber_def Atoi_def Let_def split: if_splits)
  then show ?thesis by (auto simp: plainText_digits plainText_Cons byte_def)
qed

lemma text_labels [plain_texts]:
  "plainText s \<Longrightarrow> plainText (weekdayLabel s)" "plainText s \<Longrightarrow> plainText (monthLabel s)"
  "plainText s \<Longrightarrow> plainText (dayNumberLabel s)" "plainText (ordinalSuffix s)"
  "plainText s \<Longrightarrow> plainText (minuteLabel s)"
  by (auto simp: weekdayLabel_def monthLabel_def dayNumberLabel_def ordinalSuffix_def minuteLabel_def
      plain_texts plainText_Cons byte_def split: sum.splits)

lemma plainText_ordinal [plain_texts]: "plainText s \<Longrightarrow> plainText (ordinal s)"
  by (simp add: ordinal_def plain_texts)

lemma plainText_middleDot [plain_texts]: "plainText middleDot"
  by (simp add: middleDot_def bytesOf_def plainText_def byte_def)

text \<open>The spans are elements of the grammar.\<close>

lemma attributesOk_simps [simp]:
  "attributesOk []" "attributesOk ((n, v) # as) \<longleftrightarrow> n \<in> set labelAttributes \<and> plainText v \<and> attributesOk as"
  by (auto simp: attributesOk_def)

lemma labelMarkup_attributes:
  assumes "attributesOk as" "plainText body" "s = spanElement as hidden body"
  shows "labelMarkup s"
  using assms labelMarkup.span by simp

lemma localTimeSpan_markup [markups]: "labelMarkup (localTimeSpan t z)"
  by (rule labelMarkup_attributes [of "[(''class'', ''local-time''), (''data-time'', HTMLEscapeString (formatRFC3339 t)),
        (''data-source-tz'', HTMLEscapeString z)]" "[]" _ False])
     (simp_all add: localTimeSpan_def spanElement_def labelAttributes_def plain_texts plainText_Cons byte_def)

lemma dateTimeSpan_markup [markups]: "labelMarkup (dateTimeSpan loadLocation d z)"
  using localTimeSpan_markup
  by (auto simp: dateTimeSpan_def localTimeSpan_def labelMarkup.plain plain_texts split: sum.split)

lemma cronTimeSpan_markup [markups]: "labelMarkup (cronTimeSpan h m z)"
proof (cases "isOk (Atoi h) \<and> isOk (Atoi m)")
  case True
  then obtain hv mv where v: "Atoi h = Inr hv" "Atoi m = Inr mv" by (auto simp: isOk_iff)
  show ?thesis
    by (rule labelMarkup_attributes [of "[(''class'', ''wall-time''), (''data-hour'', HTMLEscapeString (Itoa hv)),
          (''data-minute'', HTMLEscapeString (Itoa mv)), (''data-source-tz'', HTMLEscapeString z)]" "[]" _ False])
       (simp_all add: cronTimeSpan_def v spanElement_def labelAttributes_def plain_texts plainText_Cons byte_def)
next
  case False
  then show ?thesis
    by (auto simp: cronTimeSpan_def labelMarkup.plain plain_texts isOk_iff split: sum.split)
qed

lemma scheduleTimezoneContext_markup [markups]: "labelMarkup (scheduleTimezoneContext z)"
  by (rule labelMarkup_attributes [of "[(''class'', ''timezone-context''),
        (''data-source-tz'', HTMLEscapeString (if z = [] then ''UTC'' else z))]" "[]" _ True])
     (simp_all add: scheduleTimezoneContext_def Let_def spanElement_def labelAttributes_def plain_texts
       plainText_Cons byte_def)

lemma status_markup [markups]:
  "labelMarkup ''<span class=\"status status-paused\">paused</span>''"
  "labelMarkup ''<span class=\"status status-succeeded\">completed</span>''"
  "labelMarkup ''<span class=\"muted\">no upcoming run</span>''"
  by (rule labelMarkup_attributes [of "[(''class'', ''status status-paused'')]" "''paused''" _ False]
      labelMarkup_attributes [of "[(''class'', ''status status-succeeded'')]" "''completed''" _ False]
      labelMarkup_attributes [of "[(''class'', ''muted'')]" "''no upcoming run''" _ False];
    simp add: spanElement_def labelAttributes_def plainText_Cons byte_def)+

lemma literal_markup: "plainText s \<Longrightarrow> labelMarkup t \<Longrightarrow> labelMarkup (s @ t)"
  by (simp add: labelMarkup.plain labelMarkup.seq)

lemma cronSummary_markup: "labelMarkup (cronSummary cron tz minute hour mday month dow)"
proof -
  have lit: "plainText ''Every minute''" "plainText ''Every ''" "plainText '' minutes''" "plainText ''Hourly at ''"
    "plainText ''Daily at ''" "plainText ''Weekly on ''" "plainText '' at ''" "plainText ''Monthly on the ''"
    "plainText '' ''" "plainText ''Cron: ''"
    by (simp_all add: plainText_Cons byte_def)
  show ?thesis
    unfolding cronSummary_def Let_def
    by (simp only: split: if_splits) (intro conjI impI literal_markup lit markups labelMarkup.plain; simp add: lit plain_texts)
qed

lemma joinParts_markup: "(\<And>p. p \<in> set ps \<Longrightarrow> labelMarkup p) \<Longrightarrow> labelMarkup (joinParts ps)"
proof (induction ps rule: joinParts.induct)
  case (3 p q ps)
  then show ?case by (simp add: labelMarkup.seq literal_markup plainText_middleDot)
qed (simp_all add: labelMarkup.plain)

lemma scheduleSummary_markup: "labelMarkup (scheduleSummary loadLocation s)"
proof -
  have cron: "labelMarkup (case Fields (sc_Cron s) of
          [minute, hour, mday, month, dow] \<Rightarrow> cronSummary (sc_Cron s) (sc_Timezone s) minute hour mday month dow
        | _ \<Rightarrow> HTMLEscapeString (sc_Cron s))"
    by (simp add: cronSummary_markup labelMarkup.plain plain_texts split: list.split)
  have lit: "plainText ''Completed one-time schedule''" "plainText ''Once at ''" "plainText ''Every ''" "plainText '' ''"
    by (simp_all add: plainText_Cons byte_def)
  show ?thesis
    unfolding scheduleSummary_def Let_def
    by (simp only: split: if_splits) (intro conjI impI cron literal_markup lit markups labelMarkup.plain; simp add: lit plain_texts)
qed

lemma scheduleDetails_markup: "labelMarkup (scheduleDetails loadLocation s)"
proof -
  have "labelMarkup (''Starts '' @ dateTimeSpan loadLocation (sc_StartsAt s) (sc_Timezone s))"
    by (rule literal_markup [OF _ dateTimeSpan_markup]) (simp add: plainText_Cons byte_def)
  then show ?thesis
    unfolding scheduleDetails_def Let_def
    by (intro labelMarkup.seq joinParts_markup scheduleTimezoneContext_markup)
       (auto simp: labelMarkup.plain plain_texts split: if_splits)
qed

lemma nextRunLabel_markup: "labelMarkup (nextRunLabel s)"
  by (simp add: nextRunLabel_def markups)

lemma displayRunTime_markup: "labelMarkup (displayRunTime v)"
  by (simp add: displayRunTime_def markups labelMarkup.plain)

text \<open>What the grammar excludes: an angle bracket that opens anything but these spans.\<close>

lemma plainText_no_bracket: "plainText s \<Longrightarrow> CHR ''<'' \<notin> set s \<and> CHR ''>'' \<notin> set s \<and> CHR ''\"'' \<notin> set s"
  by (induction s) (auto simp: plainText_Cons byte_def)

text \<open>The escaped text still is the text: nothing is lost but NUL.\<close>

lemma escapeChar_inject:
  assumes "byte c \<noteq> 0" "byte d \<noteq> 0" "escapeChar c @ s = escapeChar d @ t"
  shows "c = d \<and> s = t"
proof -
  have inj: "of_char c = k \<Longrightarrow> of_char d = k \<Longrightarrow> c = d" for k :: nat by (metis byte_def byte_inject)
  show ?thesis
    using assms by (auto simp: escapeChar_def byte_def split: if_splits) (erule inj, assumption)+
qed

lemma HTMLEscapeString_inject:
  assumes "list_all (\<lambda>c. byte c \<noteq> 0) s" "list_all (\<lambda>c. byte c \<noteq> 0) t"
  shows "HTMLEscapeString s = HTMLEscapeString t \<longleftrightarrow> s = t"
  using assms
proof (induction s arbitrary: t)
  case Nil
  then show ?case by (cases t) (auto simp: HTMLEscapeString_def escapeChar_def bytesOf_def split: if_splits)
next
  case (Cons c s)
  have ne: "escapeChar x \<noteq> []" for x by (simp add: escapeChar_def bytesOf_def)
  show ?case
  proof (cases t)
    case Nil
    then show ?thesis using ne by (simp add: HTMLEscapeString_def)
  next
    case (Cons d u)
    then show ?thesis using Cons.IH [of u] Cons.prems escapeChar_inject [of c d "HTMLEscapeString s" "HTMLEscapeString u"]
      by (auto simp: HTMLEscapeString_def)
  qed
qed

end
