(* ===== verification/Urls.thy ===== *)
theory Urls
  imports GoStrings
begin

text \<open>
  The parts of net/url that internal/server calls: percent encoding of path segments and of query
  values, and the parser of queries and form bodies.  The properties are the round trips the
  server's links and redirects rest on.
\<close>

named_theorems url_chars \<open>which characters an escaped text consists of\<close>

section \<open>Escaping\<close>

definition isAlnum :: "char \<Rightarrow> bool" where
  "isAlnum c \<longleftrightarrow> 97 \<le> byte c \<and> byte c \<le> 122 \<or> 65 \<le> byte c \<and> byte c \<le> 90 \<or> isDigit c"

definition unreserved :: "char \<Rightarrow> bool" where
  "unreserved c \<longleftrightarrow> isAlnum c \<or> c \<in> set ''-_.~''"

definition hexChar :: "nat \<Rightarrow> char" where
  "hexChar n = (if n < 10 then char_of (48 + n) else char_of (55 + n))"

definition percent :: "char \<Rightarrow> string" where
  "percent c = [CHR ''%'', hexChar (byte c div 16), hexChar (byte c mod 16)]"

text \<open>In a path segment \<open>$ & + : = @\<close> stay as they are; in a query value nothing reserved does and
  a blank becomes a plus sign.\<close>

definition PathEscape :: "string \<Rightarrow> string" where
  "PathEscape s = concat (map (\<lambda>c. if unreserved c \<or> c \<in> set ''$&+:=@'' then [c] else percent c) s)"

definition queryEscapeChar :: "char \<Rightarrow> string" where
  "queryEscapeChar c = (if unreserved c then [c] else if c = CHR '' '' then ''+'' else percent c)"

definition QueryEscape :: "string \<Rightarrow> string" where
  "QueryEscape s = concat (map queryEscapeChar s)"

section \<open>Unescaping\<close>

definition unhex :: "char \<Rightarrow> nat option" where
  "unhex c =
     (if isDigit c then Some (byte c - 48)
      else if 97 \<le> byte c \<and> byte c \<le> 102 then Some (byte c - 87)
      else if 65 \<le> byte c \<and> byte c \<le> 70 then Some (byte c - 55) else None)"

definition hexPair :: "string \<Rightarrow> char option" where
  "hexPair s = (case s of a # b # _ \<Rightarrow>
       (case (unhex a, unhex b) of (Some m, Some n) \<Rightarrow> Some (char_of (16 * m + n)) | _ \<Rightarrow> None)
     | _ \<Rightarrow> None)"

fun unescape :: "bool \<Rightarrow> string \<Rightarrow> string result" where
  "unescape blank [] = Inr []"
| "unescape blank (c # s) =
     (if c = CHR ''%''
      then (case hexPair s of
          None \<Rightarrow> Inl (External ''invalid URL escape'')
        | Some d \<Rightarrow> bindE (unescape blank (drop 2 s)) (\<lambda>r. Inr (d # r)))
      else bindE (unescape blank s) (\<lambda>r. Inr ((if blank \<and> c = CHR ''+'' then CHR '' '' else c) # r)))"

definition PathUnescape :: "string \<Rightarrow> string result" where
  "PathUnescape = unescape False"

definition QueryUnescape :: "string \<Rightarrow> string result" where
  "QueryUnescape = unescape True"

section \<open>Queries\<close>

text \<open>
  \<open>url.ParseQuery\<close>: the decoded pairs in their order, and the first error.  The limit on the number
  of parameters of recent releases is left out.
\<close>

type_synonym Values = "(string \<times> string) list"

definition semicolonError :: go_error where
  "semicolonError = External ''invalid semicolon separator in query''"

definition parsePiece :: "string \<Rightarrow> (string \<times> string) result" where
  "parsePiece p =
     (if CHR '';'' \<in> set p then Inl semicolonError
      else (case Cut p CHR ''='' of (k, v, _) \<Rightarrow>
         bindE (QueryUnescape k) (\<lambda>k'. bindE (QueryUnescape v) (\<lambda>v'. Inr (k', v')))))"

fun accepted :: "'a result list \<Rightarrow> 'a list" where
  "accepted [] = []"
| "accepted (Inl _ # rs) = accepted rs"
| "accepted (Inr x # rs) = x # accepted rs"

fun firstError :: "'a result list \<Rightarrow> go_error option" where
  "firstError [] = None"
| "firstError (Inl e # rs) = Some e"
| "firstError (Inr _ # rs) = firstError rs"

definition ParseQuery :: "string \<Rightarrow> Values \<times> go_error option" where
  "ParseQuery q =
     (let rs = map parsePiece (filter (\<lambda>p. p \<noteq> []) (Split q CHR ''&''))
      in (accepted rs, if Inl semicolonError \<in> set rs then Some semicolonError else firstError rs))"

text \<open>\<open>Values.Get\<close>: the first value of a key.\<close>

definition valuesGet :: "Values \<Rightarrow> string \<Rightarrow> string" where
  "valuesGet vs k = (case map_of vs k of None \<Rightarrow> [] | Some v \<Rightarrow> v)"

text \<open>\<open>r.URL.Query().Get(k)\<close>, which drops the error.\<close>

definition queryGet :: "string \<Rightarrow> string \<Rightarrow> string" where
  "queryGet q k = valuesGet (fst (ParseQuery q)) k"

section \<open>Round trips\<close>

lemma all_below: "list_all P [0..<k] \<Longrightarrow> n < k \<Longrightarrow> P n"
  by (simp add: list_all_iff)

lemma unhex_hexChar: "n < 16 \<Longrightarrow> unhex (hexChar n) = Some n"
proof (rule all_below)
  show "list_all (\<lambda>n. unhex (hexChar n) = Some n) [0..<16]" by code_simp
qed

lemma byte_less: "byte c < 256"
  by (simp add: byte_def)

lemma hexPair_percent: "hexPair (hexChar (byte c div 16) # hexChar (byte c mod 16) # s) = Some c"
proof -
  have "byte c div 16 < 16" using byte_less [of c] by simp
  moreover have "char_of (16 * (byte c div 16) + byte c mod 16) = c" by (simp add: byte_def)
  ultimately show ?thesis by (simp add: hexPair_def unhex_hexChar)
qed

lemma unescape_percent: "unescape blank (percent c @ s) = bindE (unescape blank s) (\<lambda>r. Inr (c # r))"
  by (simp add: percent_def hexPair_percent)

lemma unreserved_plain: "unreserved c \<Longrightarrow> c \<noteq> CHR ''%'' \<and> c \<noteq> CHR ''+''"
  by (auto simp: unreserved_def isAlnum_def isDigit_def byte_def)

lemma QueryUnescape_char: "unescape True (queryEscapeChar c @ s) = bindE (unescape True s) (\<lambda>r. Inr (c # r))"
  by (simp add: queryEscapeChar_def unescape_percent unreserved_plain)

lemma QueryUnescape_QueryEscape: "QueryUnescape (QueryEscape s) = Inr s"
proof (induction s)
  case (Cons c s)
  then show ?case using QueryUnescape_char [of c "QueryEscape s"]
    by (simp add: QueryUnescape_def QueryEscape_def)
qed (simp add: QueryUnescape_def QueryEscape_def)

lemma PathUnescape_PathEscape: "PathUnescape (PathEscape s) = Inr s"
proof (induction s)
  case (Cons c s)
  have "unescape False ((if unreserved c \<or> c \<in> set ''$&+:=@'' then [c] else percent c) @ PathEscape s) =
      bindE (unescape False (PathEscape s)) (\<lambda>r. Inr (c # r))"
    using unreserved_plain [of c] by (auto simp: unescape_percent)
  then show ?case using Cons by (simp add: PathUnescape_def PathEscape_def)
qed (simp add: PathUnescape_def PathEscape_def)

lemma hexChar_separators: "n < 16 \<Longrightarrow> hexChar n \<notin> set ''&=;#?%/''"
proof (rule all_below)
  show "list_all (\<lambda>n. hexChar n \<notin> set ''&=;#?%/'') [0..<16]" by code_simp
qed

lemma unreserved_separators: "unreserved c \<Longrightarrow> c \<notin> set ''&=;#?/''"
  by (auto simp: unreserved_def isAlnum_def isDigit_def byte_def)

lemma queryEscapeChar_separators: "set (queryEscapeChar c) \<inter> set ''&=;#?/'' = {}"
proof (cases "unreserved c \<or> c = CHR '' ''")
  case True
  then show ?thesis using unreserved_separators [of c] by (auto simp: queryEscapeChar_def)
next
  case False
  have "hexChar (byte c div 16) \<notin> set ''&=;#?%/''" "hexChar (byte c mod 16) \<notin> set ''&=;#?%/''"
    by (rule hexChar_separators; use byte_less [of c] in simp)+
  then show ?thesis using False by (simp add: queryEscapeChar_def percent_def)
qed

lemma QueryEscape_separators [url_chars]: "x \<in> set ''&=;#?/'' \<Longrightarrow> x \<notin> set (QueryEscape s)"
  using queryEscapeChar_separators by (fastforce simp: QueryEscape_def)

text \<open>A text of unreserved characters is its own encoding.\<close>

lemma unescape_plain: "list_all unreserved s \<Longrightarrow> unescape blank s = Inr s"
  by (induction s) (auto simp: unreserved_plain)

lemma PathEscape_plain: "list_all unreserved s \<Longrightarrow> PathEscape s = s"
  unfolding PathEscape_def by (induction s) simp_all

section \<open>A parameter at the end of a query\<close>

lemma Split_snoc:
  "d \<notin> set t \<Longrightarrow> Split (s @ d # t) d = Split s d @ [t]"
  by (induction s d rule: Split.induct) (auto simp: Split_absent split: list.splits)

lemma accepted_append: "accepted (rs @ qs) = accepted rs @ accepted qs"
  by (induction rs rule: accepted.induct) simp_all

text \<open>A parameter as the program builds it.\<close>

definition parameter :: "string \<Rightarrow> string \<Rightarrow> string" where
  "parameter k v = k @ ''='' @ QueryEscape v"

lemma parameter_piece:
  assumes "list_all unreserved k"
  shows "parsePiece (parameter k v) = Inr (k, v)" "CHR ''&'' \<notin> set (parameter k v)"
proof -
  have k: "x \<in> set ''&=;#?/'' \<Longrightarrow> x \<notin> set k" for x
    using assms by (auto simp: list_all_iff unreserved_def isAlnum_def isDigit_def byte_def)
  have "Cut (k @ CHR ''='' # QueryEscape v) CHR ''='' = (k, QueryEscape v, True)"
    by (rule Cut_first) (simp add: k)
  moreover have "QueryUnescape k = Inr k" by (simp add: QueryUnescape_def unescape_plain assms)
  ultimately show "parsePiece (parameter k v) = Inr (k, v)"
    using k [of "CHR '';''"] QueryEscape_separators [of "CHR '';''" v] QueryUnescape_QueryEscape [of v]
    by (simp add: parsePiece_def parameter_def)
  show "CHR ''&'' \<notin> set (parameter k v)"
    using k [of "CHR ''&''"] QueryEscape_separators [of "CHR ''&''" v] by (simp add: parameter_def)
qed

lemma parameter_nonempty [simp]: "parameter k v \<noteq> []"
  by (simp add: parameter_def)

lemma ParseQuery_single:
  "list_all unreserved k \<Longrightarrow> fst (ParseQuery (parameter k v)) = [(k, v)]"
  by (simp add: ParseQuery_def Let_def Split_absent parameter_piece)

lemma ParseQuery_snoc:
  "list_all unreserved k \<Longrightarrow> fst (ParseQuery (q @ CHR ''&'' # parameter k v)) = fst (ParseQuery q) @ [(k, v)]"
  by (simp add: ParseQuery_def Let_def Split_snoc accepted_append parameter_piece)

end
