(* ===== verification/Json.thy ===== *)
theory Json
  imports RunCodec Labels Urls
begin

text \<open>
  encoding/json for values of type \<open>any\<close>: \<open>json.MarshalIndent\<close> with two blanks, and a decoder that uses
  \<open>json.Number\<close>, as the form of Faktory jobs uses them for the arguments of a job.  The decoder is a machine
  over the tokens with the stack of the open arrays and objects, the shape of Go's scanner; a map is an
  association list in the order of its keys, which is the order \<open>Marshal\<close> writes.  The text that strconv
  prints for a float64 is an argument.
\<close>

section \<open>Strings\<close>

definition utf8 :: "nat \<Rightarrow> string" where
  "utf8 n = map char_of
     (if n < 0x80 then [n]
      else if n < 0x800 then [0xC0 + n div 64, 0x80 + n mod 64]
      else if n < 0x10000 then [0xE0 + n div 4096, 0x80 + n div 64 mod 64, 0x80 + n mod 64]
      else [0xF0 + n div 262144, 0x80 + n div 4096 mod 64, 0x80 + n div 64 mod 64, 0x80 + n mod 64])"

definition replacement :: string where
  "replacement = bytesOf [0xEF, 0xBF, 0xBD]"

definition hexLower :: "nat \<Rightarrow> char" where
  "hexLower n = (if n < 10 then char_of (48 + n) else char_of (87 + n))"

text \<open>The escapes of \<open>appendString\<close> with HTML escaping.\<close>

definition escapeByte :: "char \<Rightarrow> string" where
  "escapeByte c =
     (if c = CHR 0x22 \<or> c = CHR 0x5C then [CHR 0x5C, c]
      else if byte c = 8 then [CHR 0x5C, CHR ''b''] else if byte c = 9 then [CHR 0x5C, CHR ''t'']
      else if byte c = 10 then [CHR 0x5C, CHR ''n''] else if byte c = 12 then [CHR 0x5C, CHR ''f'']
      else if byte c = 13 then [CHR 0x5C, CHR ''r'']
      else if byte c < 32 \<or> c \<in> set ''<>&''
      then [CHR 0x5C, CHR ''u'', CHR ''0'', CHR ''0'', hexLower (byte c div 16), hexLower (byte c mod 16)]
      else [c])"

definition escapeRune :: "string \<Rightarrow> string" where
  "escapeRune r =
     (case r of [c] \<Rightarrow> escapeByte c
      | _ \<Rightarrow> if r = bytesOf [0xE2, 0x80, 0xA8] then CHR 0x5C # ''u2028''
             else if r = bytesOf [0xE2, 0x80, 0xA9] then CHR 0x5C # ''u2029'' else r)"

function escapeString :: "string \<Rightarrow> string" where
  "escapeString s =
     (case s of [] \<Rightarrow> []
      | c # cs \<Rightarrow> if runeLen s = 0 then CHR 0x5C # ''ufffd'' @ escapeString cs
                  else escapeRune (take (runeLen s) s) @ escapeString (drop (runeLen s) s))"
  by pat_completeness auto
termination by (relation "measure length") auto

declare escapeString.simps [simp del]

definition quoteString :: "string \<Rightarrow> string" where
  "quoteString s = ''\"'' @ escapeString s @ ''\"''"

text \<open>The value of four hexadecimal digits; a surrogate needs its other half.\<close>

definition hex4 :: "string \<Rightarrow> nat option" where
  "hex4 s =
     (case s of a # b # c # d # _ \<Rightarrow>
        (case (unhex a, unhex b, unhex c, unhex d) of
           (Some w, Some x, Some y, Some z) \<Rightarrow> Some (((w * 16 + x) * 16 + y) * 16 + z) | _ \<Rightarrow> None)
      | _ \<Rightarrow> None)"

definition highSurrogate :: "nat \<Rightarrow> bool" where
  "highSurrogate n \<longleftrightarrow> 0xD800 \<le> n \<and> n < 0xDC00"

definition lowSurrogate :: "nat \<Rightarrow> bool" where
  "lowSurrogate n \<longleftrightarrow> 0xDC00 \<le> n \<and> n < 0xE000"

text \<open>What an escape \<open>\u\<close> stands for, from its number and the text behind it, and how much more it takes.\<close>

definition unescapeRune :: "nat \<Rightarrow> string \<Rightarrow> string \<times> nat" where
  "unescapeRune n rest =
     (if highSurrogate n
      then (case (if HasPrefix rest [CHR 0x5C, CHR ''u''] then hex4 (drop 2 rest) else None) of
              Some m \<Rightarrow> if lowSurrogate m then (utf8 (0x10000 + (n - 0xD800) * 1024 + (m - 0xDC00)), 6) else (replacement, 0)
            | None \<Rightarrow> (replacement, 0))
      else if lowSurrogate n then (replacement, 0)
      else (utf8 n, 0))"

definition simpleEscape :: "char \<Rightarrow> string option" where
  "simpleEscape c =
     (if c \<in> {CHR 0x22, CHR 0x5C, CHR ''/''} then Some [c]
      else if c = CHR ''b'' then Some [char_of (8::nat)] else if c = CHR ''t'' then Some [char_of (9::nat)]
      else if c = CHR ''n'' then Some [char_of (10::nat)] else if c = CHR ''f'' then Some [char_of (12::nat)]
      else if c = CHR ''r'' then Some [char_of (13::nat)] else None)"

text \<open>After the opening quote: the content, and what follows the closing quote.\<close>

function readString :: "string \<Rightarrow> (string \<times> string) option" where
  "readString [] = None"
| "readString (c # cs) =
     (if c = CHR 0x22 then Some ([], cs)
      else if byte c < 32 then None
      else if c = CHR 0x5C then
        (if HasPrefix cs ''u''
         then (case hex4 (drop 1 cs) of
                 None \<Rightarrow> None
               | Some n \<Rightarrow> (case unescapeRune n (drop 5 cs) of
                   (r, k) \<Rightarrow> map_option (\<lambda>(s, t). (r @ s, t)) (readString (drop (5 + k) cs))))
         else (case cs of
                 [] \<Rightarrow> None
               | e # es \<Rightarrow> (case simpleEscape e of
                   None \<Rightarrow> None | Some r \<Rightarrow> map_option (\<lambda>(s, t). (r @ s, t)) (readString es))))
      else if runeLen (c # cs) = 0 then map_option (\<lambda>(s, t). (replacement @ s, t)) (readString cs)
      else map_option (\<lambda>(s, t). (take (runeLen (c # cs)) (c # cs) @ s, t)) (readString (drop (runeLen (c # cs)) (c # cs))))"
  by pat_completeness auto
termination by (relation "measure length") auto

declare readString.simps(2) [simp del]

section \<open>Numbers\<close>

text \<open>The longest literal at the head, \<open>None\<close> if there is none or a part of it lacks its digits.\<close>

definition readDigits :: "string \<Rightarrow> (string \<times> string) option" where
  "readDigits s = (let ds = takeWhile isDigit s in if ds = [] then None else Some (ds, dropWhile isDigit s))"

definition readInteger :: "string \<Rightarrow> (string \<times> string) option" where
  "readInteger s = (if HasPrefix s ''0'' then Some (''0'', drop 1 s) else readDigits s)"

definition readFraction :: "string \<Rightarrow> (string \<times> string) option" where
  "readFraction s =
     (if HasPrefix s ''.'' then map_option (\<lambda>(ds, r). (CHR ''.'' # ds, r)) (readDigits (drop 1 s)) else Some ([], s))"

definition readExponent :: "string \<Rightarrow> (string \<times> string) option" where
  "readExponent s =
     (case s of
        e # t \<Rightarrow>
          if e \<in> set ''eE''
          then (let sign = takeWhile (\<lambda>c. c \<in> set ''+-'') (take 1 t)
                in map_option (\<lambda>(ds, r). (e # sign @ ds, r)) (readDigits (drop (length sign) t)))
          else Some ([], s)
      | [] \<Rightarrow> Some ([], s))"

definition readNumber :: "string \<Rightarrow> (string \<times> string) option" where
  "readNumber s =
     (let sign = (if HasPrefix s ''-'' then ''-'' else []) in
      Option.bind (readInteger (drop (length sign) s)) (\<lambda>(i, r1).
      Option.bind (readFraction r1) (\<lambda>(f, r2).
      Option.bind (readExponent r2) (\<lambda>(x, r3). Some (sign @ i @ f @ x, r3)))))"

definition validNumber :: "string \<Rightarrow> bool" where
  "validNumber s \<longleftrightarrow> (case readNumber s of Some (l, []) \<Rightarrow> True | _ \<Rightarrow> False)"

section \<open>Tokens\<close>

datatype jtoken = LeftBrack | RightBrack | LeftBrace | RightBrace | Comma | Colon | Str string | Lit any

definition jsonSpace :: "char \<Rightarrow> bool" where
  "jsonSpace c \<longleftrightarrow> byte c \<in> {9, 10, 13, 32}"

definition literalToken :: "string \<Rightarrow> (jtoken \<times> string) option" where
  "literalToken s =
     (if HasPrefix s ''null'' then Some (Lit AnyNil, drop 4 s)
      else if HasPrefix s ''true'' then Some (Lit (AnyBool True), drop 4 s)
      else if HasPrefix s ''false'' then Some (Lit (AnyBool False), drop 5 s)
      else map_option (\<lambda>(l, r). (Lit (AnyNumber l), r)) (readNumber s))"

definition nextToken :: "string \<Rightarrow> (jtoken \<times> string) option" where
  "nextToken s0 =
     (case dropWhile jsonSpace s0 of
        [] \<Rightarrow> None
      | c # cs \<Rightarrow>
          if c = CHR ''['' then Some (LeftBrack, cs) else if c = CHR '']'' then Some (RightBrack, cs)
          else if c = CHR 0x7B then Some (LeftBrace, cs) else if c = CHR 0x7D then Some (RightBrace, cs)
          else if c = CHR '','' then Some (Comma, cs) else if c = CHR '':'' then Some (Colon, cs)
          else if c = CHR 0x22 then map_option (\<lambda>(s, r). (Str s, r)) (readString cs)
          else literalToken (c # cs))"

section \<open>The decoder\<close>

text \<open>An open array with its elements, an open object with its entries, one with the key of a value to come.\<close>

datatype frame = InArray "any list" | InObject "(string \<times> any) list" | AtKey "(string \<times> any) list" string

datatype expecting = Value | ValueOrEnd | Key | KeyOrEnd | ColonSign | CommaOrEnd

fun insertKey :: "string \<Rightarrow> any \<Rightarrow> (string \<times> any) list \<Rightarrow> (string \<times> any) list" where
  "insertKey k v [] = [(k, v)]"
| "insertKey k v ((l, w) # kvs) =
     (if k = l then (k, v) # kvs else if k < l then (k, v) # (l, w) # kvs else (l, w) # insertKey k v kvs)"

text \<open>A complete value: the result, or the next entry of what is open.\<close>

fun deliverValue :: "any \<Rightarrow> frame list \<Rightarrow> any + expecting \<times> frame list" where
  "deliverValue v [] = Inl v"
| "deliverValue v (InArray xs # fs) = Inr (CommaOrEnd, InArray (xs @ [v]) # fs)"
| "deliverValue v (AtKey kvs k # fs) = Inr (CommaOrEnd, InObject (insertKey k v kvs) # fs)"
| "deliverValue v (InObject kvs # fs) = Inr (CommaOrEnd, InObject kvs # fs)"

definition maxNestingDepth :: nat where "maxNestingDepth = 10000"

definition openToken :: "expecting \<Rightarrow> frame \<Rightarrow> frame list \<Rightarrow> (any + expecting \<times> frame list) option" where
  "openToken ex f fs = (if length fs < maxNestingDepth then Some (Inr (ex, f # fs)) else None)"

fun closeToken :: "frame list \<Rightarrow> jtoken \<Rightarrow> (any + expecting \<times> frame list) option" where
  "closeToken (InArray xs # fs) RightBrack = Some (deliverValue (AnyList xs) fs)"
| "closeToken (InObject kvs # fs) RightBrace = Some (deliverValue (AnyMap kvs) fs)"
| "closeToken fs t = None"

fun valueToken :: "frame list \<Rightarrow> jtoken \<Rightarrow> (any + expecting \<times> frame list) option" where
  "valueToken fs LeftBrack = openToken ValueOrEnd (InArray []) fs"
| "valueToken fs LeftBrace = openToken KeyOrEnd (InObject []) fs"
| "valueToken fs (Str s) = Some (deliverValue (AnyString s) fs)"
| "valueToken fs (Lit v) = Some (deliverValue v fs)"
| "valueToken fs t = None"

fun keyToken :: "frame list \<Rightarrow> jtoken \<Rightarrow> (any + expecting \<times> frame list) option" where
  "keyToken (InObject kvs # fs) (Str k) = Some (Inr (ColonSign, AtKey kvs k # fs))"
| "keyToken fs t = None"

fun afterComma :: "frame list \<Rightarrow> expecting" where
  "afterComma (InObject kvs # fs) = Key"
| "afterComma fs = Value"

fun jsonStep :: "expecting \<Rightarrow> frame list \<Rightarrow> jtoken \<Rightarrow> (any + expecting \<times> frame list) option" where
  "jsonStep Value fs t = valueToken fs t"
| "jsonStep ValueOrEnd fs t = (if t = RightBrack then closeToken fs t else valueToken fs t)"
| "jsonStep Key fs t = keyToken fs t"
| "jsonStep KeyOrEnd fs t = (if t = RightBrace then closeToken fs t else keyToken fs t)"
| "jsonStep ColonSign fs t = (if t = Colon then Some (Inr (Value, fs)) else None)"
| "jsonStep CommaOrEnd fs t = (if t = Comma then Some (Inr (afterComma fs, fs)) else closeToken fs t)"

lemma readString_length: "readString s = Some (t, r) \<Longrightarrow> length r < length s"
proof (induction s arbitrary: t r rule: readString.induct)
  case (2 c cs)
  show ?case
    using 2 by (auto simp: readString.simps(2) split: if_splits option.splits list.splits prod.splits; fastforce)
qed simp

lemma readDigits_split: "readDigits s = Some (ds, r) \<Longrightarrow> s = ds @ r \<and> ds \<noteq> []"
  by (auto simp: readDigits_def Let_def split: if_splits)

lemma HasPrefix_drop: "HasPrefix s p \<Longrightarrow> s = p @ drop (length p) s"
  unfolding HasPrefix_def by (metis append_take_drop_id)

lemma readExponent_split:
  assumes "readExponent s = Some (x, r)"
  shows "s = x @ r"
proof (cases s)
  case (Cons e t)
  define sign where "sign = takeWhile (\<lambda>c. c \<in> set ''+-'') (take 1 t)"
  have t: "t = sign @ drop (length sign) t" by (cases t) (auto simp: sign_def)
  have "s = x @ r \<or> (\<exists>ds. readDigits (drop (length sign) t) = Some (ds, r) \<and> x = e # sign @ ds)"
    using assms by (auto simp: readExponent_def Cons sign_def Let_def split: if_splits)
  then show ?thesis using readDigits_split t Cons by (metis append_Cons append_assoc)
qed (use assms in \<open>simp add: readExponent_def\<close>)

lemma readNumber_split:
  assumes "readNumber s = Some (l, r)"
  shows "s = l @ r \<and> l \<noteq> []"
proof -
  have i: "readInteger s = Some (i, r) \<Longrightarrow> s = i @ r \<and> i \<noteq> []" for s i r
    using readDigits_split [of s i r] HasPrefix_drop [of s "''0''"] by (auto simp: readInteger_def split: if_splits)
  have f: "readFraction s = Some (f, r) \<Longrightarrow> s = f @ r" for s f r
    using HasPrefix_drop [of s "''.''"] by (auto simp: readFraction_def dest!: readDigits_split split: if_splits)
  define sign where "sign = (if HasPrefix s ''-'' then ''-'' else [])"
  have "s = sign @ drop (length sign) s" using HasPrefix_drop [of s "''-''"] by (simp add: sign_def)
  moreover obtain a r1 b r2 x where "readInteger (drop (length sign) s) = Some (a, r1)" "readFraction r1 = Some (b, r2)"
    "readExponent r2 = Some (x, r)" "l = sign @ a @ b @ x"
    using assms by (auto simp: readNumber_def sign_def [symmetric] Let_def bind_eq_Some_conv)
  ultimately show ?thesis using i f readExponent_split by fastforce
qed

lemma nonempty_prefix_length: "c # cs = l @ r \<Longrightarrow> l \<noteq> [] \<Longrightarrow> length r < Suc (length cs)"
  by (cases l) auto

lemma nextToken_length: "nextToken s = Some (t, r) \<Longrightarrow> length r < length s"
proof -
  assume n: "nextToken s = Some (t, r)"
  obtain c cs where d: "dropWhile jsonSpace s = c # cs" using n by (auto simp: nextToken_def split: list.splits)
  have "length (c # cs) \<le> length s" using length_dropWhile_le [of jsonSpace s] d by simp
  moreover have "literalToken (c # cs) = Some (t, r) \<Longrightarrow> length r < length (c # cs)"
    using nonempty_prefix_length readNumber_split [of "c # cs"] by (auto simp: literalToken_def split: if_splits)
  ultimately show ?thesis
    using n d readString_length [of cs] by (fastforce simp: nextToken_def split: if_splits)
qed

function decodeFrom :: "expecting \<Rightarrow> frame list \<Rightarrow> string \<Rightarrow> (any \<times> string) option" where
  "decodeFrom ex fs s =
     (case nextToken s of
        None \<Rightarrow> None
      | Some (t, r) \<Rightarrow>
          (case jsonStep ex fs t of
             None \<Rightarrow> None
           | Some (Inl v) \<Rightarrow> Some (v, r)
           | Some (Inr (ex', fs')) \<Rightarrow> decodeFrom ex' fs' r))"
  by pat_completeness auto
termination by (relation "measure (\<lambda>(ex, fs, s). length s)") (auto simp: nextToken_length)

declare decodeFrom.simps [simp del]

text \<open>
  \<open>decoder.Decode(&args)\<close> for a slice: an array or \<open>null\<close>; what follows it is left.  Whether another value is
  refused for its type or for its syntax makes no difference to the caller.
\<close>

definition decodeArgs :: "string \<Rightarrow> (any list option \<times> string) option" where
  "decodeArgs s =
     (case nextToken s of
        Some (Lit AnyNil, r) \<Rightarrow> Some (None, r)
      | Some (LeftBrack, r) \<Rightarrow>
          (case decodeFrom Value [] s of Some (AnyList vs, r) \<Rightarrow> Some (Some vs, r) | _ \<Rightarrow> None)
      | _ \<Rightarrow> None)"

section \<open>The encoder\<close>

fun depthOf :: "any \<Rightarrow> nat" where
  "depthOf (AnyList xs) = Suc (Max (set (0 # map depthOf xs)))"
| "depthOf (AnyMap kvs) = Suc (Max (set (0 # map (\<lambda>(k, v). depthOf v) kvs)))"
| "depthOf v = 0"

text \<open>
  What \<open>json.Marshal\<close> writes; an empty number is written as 0.  The text of an infinity or a NaN is no
  number.
\<close>

fun encodable :: "(string \<Rightarrow> string) \<Rightarrow> any \<Rightarrow> bool" where
  "encodable floatText (AnyNumber l) = (l = [] \<or> validNumber l)"
| "encodable floatText (AnyFloat l) = validNumber (floatText l)"
| "encodable floatText (AnyTime t) = yearOk t"
| "encodable floatText (AnyList xs) = list_all (encodable floatText) xs"
| "encodable floatText (AnyMap kvs) = list_all (\<lambda>(k, v). encodable floatText v) kvs"
| "encodable floatText v = True"

definition bracketed :: "string \<Rightarrow> nat \<Rightarrow> char \<Rightarrow> string list \<Rightarrow> char \<Rightarrow> string" where
  "bracketed eol d left parts right =
     (let line = (\<lambda>n. eol @ replicate (2 * n) CHR '' '') in
      if parts = [] then [left, right] else left # line (Suc d) @ Join parts ('','' @ line (Suc d)) @ line d @ [right])"

text \<open>\<open>eol\<close> is the end of a line, \<open>d\<close> the number of open brackets.\<close>

fun encodeAny :: "(string \<Rightarrow> string) \<Rightarrow> string \<Rightarrow> nat \<Rightarrow> any \<Rightarrow> string" where
  "encodeAny floatText eol d AnyNil = ''null''"
| "encodeAny floatText eol d (AnyBool b) = (if b then ''true'' else ''false'')"
| "encodeAny floatText eol d (AnyInt i) = Itoa i"
| "encodeAny floatText eol d (AnyFloat l) = floatText l"
| "encodeAny floatText eol d (AnyNumber l) = (if l = [] then ''0'' else l)"
| "encodeAny floatText eol d (AnyString s) = quoteString s"
| "encodeAny floatText eol d (AnyTime t) = quoteString (formatRFC3339Nano t)"
| "encodeAny floatText eol d (AnyList xs) = bracketed eol d CHR ''['' (map (encodeAny floatText eol (Suc d)) xs) CHR '']''"
| "encodeAny floatText eol d (AnyMap kvs) =
     bracketed eol d CHR 0x7B
       (map (\<lambda>(k, text). quoteString k @ '': '' @ text)
         (sort_key fst (map (\<lambda>(k, v). (k, encodeAny floatText eol (Suc d) v)) kvs))) CHR 0x7D"

definition marshalIndent :: "(string \<Rightarrow> string) \<Rightarrow> any list \<Rightarrow> string result" where
  "marshalIndent floatText vs =
     (if encodable floatText (AnyList vs) then Inr (encodeAny floatText [char_of (10::nat)] 0 (AnyList vs))
      else Inl (External ''json: unsupported value''))"

end
