(* ===== verification/Requests.thy ===== *)
theory Requests
  imports Json "HOL-Library.AList"
begin

text \<open>
  internal/server/http.go, reading a request: the name and the action in a path, the schedule in a
  form or a JSON body, headers and arguments as text, and the way back from a schedule to the fields
  of the form.
\<close>

section \<open>Requests\<close>

text \<open>
  What net/http hands to a handler.  \<open>hq_EscapedPath\<close> is \<open>r.URL.EscapedPath()\<close>, \<open>hq_Header\<close>
  is \<open>Header.Get\<close>, \<open>hq_MediaType\<close> what \<open>mime.ParseMediaType\<close> makes of the content type.
\<close>

record HTTPRequest =
  hq_Method :: string
  hq_EscapedPath :: string
  hq_RawQuery :: string
  hq_Header :: "string \<Rightarrow> string"
  hq_MediaType :: "string \<times> go_error option"
  hq_Body :: string

definition hq_Path :: "HTTPRequest \<Rightarrow> string" where
  "hq_Path q = (case PathUnescape (hq_EscapedPath q) of Inl _ \<Rightarrow> [] | Inr p \<Rightarrow> p)"

text \<open>
  \<open>ParseForm\<close> reads at most ten megabytes of a form body; the values of the body come before those
  of the query.
\<close>

definition maxFormSize :: nat where "maxFormSize = 10 * 1024 * 1024"

definition parsePostForm :: "HTTPRequest \<Rightarrow> Values \<times> go_error option" where
  "parsePostForm q =
     (if hq_Method q \<in> {''POST'', ''PUT'', ''PATCH''} \<and> fst (hq_MediaType q) = ''application/x-www-form-urlencoded''
      then (if maxFormSize < length (hq_Body q) then ([], Some (External ''http: POST too large''))
            else (case ParseQuery (hq_Body q) of (vs, err) \<Rightarrow>
               (vs, case snd (hq_MediaType q) of None \<Rightarrow> err | Some e \<Rightarrow> Some e)))
      else ([], if hq_Method q \<in> {''POST'', ''PUT'', ''PATCH''} then snd (hq_MediaType q) else None))"

definition ParseForm :: "HTTPRequest \<Rightarrow> Values \<times> go_error option" where
  "ParseForm q =
     (case parsePostForm q of (post, err) \<Rightarrow> (case ParseQuery (hq_RawQuery q) of (query, err') \<Rightarrow>
        (post @ query, case err of None \<Rightarrow> err' | Some e \<Rightarrow> Some e)))"

text \<open>
  What is left to the standard library: the decoder of the JSON payload of a save (from the bytes of the
  body and the error, if any, that follows them), and the text strconv prints for the float64 nearest to
  a literal.
\<close>

record Decoders =
  dc_Payload :: "string \<Rightarrow> go_error option \<Rightarrow> (string \<times> ScheduleConfig) result"
  dc_Float :: "string \<Rightarrow> string"

section \<open>Paths\<close>

definition actionOf :: "string \<Rightarrow> string \<Rightarrow> string \<times> string \<times> bool" where
  "actionOf rest action =
     (case PathUnescape (TrimSuffix rest (''/'' @ action)) of
        Inl _ \<Rightarrow> ([], action, False) | Inr name \<Rightarrow> (name, action, name \<noteq> []))"

definition scheduleActionFromPath :: "string \<Rightarrow> string \<times> string \<times> bool" where
  "scheduleActionFromPath path =
     (if \<not> HasPrefix path ''/v1/schedules/'' then ([], [], False)
      else (let rest = TrimChar (TrimPrefix path ''/v1/schedules/'') CHR ''/'' in
        if HasSuffix rest ''/run'' then actionOf rest ''run''
        else if HasSuffix rest ''/delete'' then actionOf rest ''delete''
        else if HasSuffix rest ''/pause'' then actionOf rest ''pause''
        else ([], [], False)))"

definition editScheduleNameFromPath :: "string \<Rightarrow> string \<times> bool" where
  "editScheduleNameFromPath path =
     (if \<not> HasPrefix path ''/schedules/'' \<or> \<not> HasSuffix path ''/edit'' then ([], False)
      else (let name = TrimChar (TrimSuffix (TrimPrefix path ''/schedules/'') ''/edit'') CHR ''/'' in
        if name = [] then ([], False)
        else (case PathUnescape name of Inl _ \<Rightarrow> ([], False) | Inr decoded \<Rightarrow> (decoded, True))))"

section \<open>Headers and arguments as text\<close>

definition newline :: char where "newline = char_of (10 :: nat)"

text \<open>One line of a header list: the first equals sign separates, else the first colon.\<close>

definition keyValueOfLine :: "string \<Rightarrow> (string \<times> string) option" where
  "keyValueOfLine line =
     (if line = [] then None
      else (case Cut line CHR ''='' of
          (k, v, True) \<Rightarrow> Some (TrimSpace k, TrimSpace v)
        | (_, _, False) \<Rightarrow> (case Cut line CHR '':'' of
              (k, v, True) \<Rightarrow> Some (TrimSpace k, TrimSpace v)
            | (_, _, False) \<Rightarrow> None)))"

definition putLine :: "(string \<times> string) list \<Rightarrow> string \<Rightarrow> (string \<times> string) list" where
  "putLine values line =
     (case keyValueOfLine (TrimSpace line) of None \<Rightarrow> values | Some (k, v) \<Rightarrow> AList.update k v values)"

definition parseKeyValues :: "string \<Rightarrow> (string \<times> string) list option" where
  "parseKeyValues raw =
     (let values = foldl putLine [] (Split raw newline) in if values = [] then None else Some values)"

definition keyValues :: "(string \<times> string) list option \<Rightarrow> string" where
  "keyValues values =
     (case values of None \<Rightarrow> []
      | Some hs \<Rightarrow> Join (map (\<lambda>k. k @ ''='' @ valuesGet hs k) (sort (map fst hs))) [newline])"

definition rawOutput :: "(string \<times> any) list option \<Rightarrow> string" where
  "rawOutput output =
     (case output of None \<Rightarrow> []
      | Some out \<Rightarrow> (case map_of out ''raw'' of Some (AnyString v) \<Rightarrow> v | _ \<Rightarrow> []))"

definition jsonArgs :: "Decoders \<Rightarrow> any list option \<Rightarrow> string" where
  "jsonArgs dec values =
     (case values of None \<Rightarrow> ''[]'' | Some [] \<Rightarrow> ''[]''
      | Some vs \<Rightarrow> (case marshalIndent (dc_Float dec) vs of Inl _ \<Rightarrow> ''[]'' | Inr raw \<Rightarrow> raw))"

definition targetJSONArgs :: "Decoders \<Rightarrow> TargetConfig \<Rightarrow> string" where
  "targetJSONArgs dec t = (if tc_Type t \<noteq> ''faktory'' then ''[]'' else jsonArgs dec (tc_Args t))"

definition parseJSONArgs :: "string \<Rightarrow> any list option result" where
  "parseJSONArgs raw0 =
     (let raw = TrimSpace raw0 in
      if raw = [] then Inr None
      else (case decodeArgs raw of
          None \<Rightarrow> Inl (ConfigError ''faktory args must be a JSON array'')
        | Some (args, rest) \<Rightarrow>
            if TrimSpace rest \<noteq> [] then Inl (ConfigError ''faktory args must contain one JSON array'')
            else Inr args))"

section \<open>The schedule of a request\<close>

definition formField :: "Values \<Rightarrow> string \<Rightarrow> string" where
  "formField form k = TrimSpace (valuesGet form k)"

definition allowConcurrentFromForm :: "Values \<Rightarrow> bool" where
  "allowConcurrentFromForm form =
     (formField form ''allow_concurrent_runs'' \<in> {''true'', ''on'', ''1'', ''yes''})"

definition formTimeout :: "Values \<Rightarrow> duration result" where
  "formTimeout form =
     (let raw = formField form ''timeout'' in if raw \<noteq> [] then ParseDuration raw else Inr 0)"

definition formTarget :: "Values \<Rightarrow> TargetConfig result" where
  "formTarget form =
     (let targetType = formField form ''target_type''; t = zeroTarget\<lparr>tc_Type := targetType\<rparr> in
      if targetType = ''http''
      then Inr (t\<lparr>tc_URL := formField form ''target_url'', tc_Method := formField form ''target_method'',
                  tc_Headers := parseKeyValues (valuesGet form ''target_headers'')\<rparr>)
      else if targetType = ''faktory''
      then bindE (parseJSONArgs (valuesGet form ''target_faktory_args'')) (\<lambda>args.
        Inr (t\<lparr>tc_Instance := formField form ''target_faktory_instance'',
               tc_Queue := formField form ''target_faktory_queue'',
               tc_JobType := formField form ''target_faktory_job_type'', tc_Args := args\<rparr>))
      else Inr t)"

definition formRateInterval :: "Values \<Rightarrow> 64 word result" where
  "formRateInterval form =
     (let raw = formField form ''rate_interval'' in
      if raw \<noteq> [] then bindE (Atoi raw) (\<lambda>i. Inr (word_of_int i)) else Inr 0)"

definition scheduleFromForm :: "Values \<Rightarrow> (ScheduleConfig \<times> string) result" where
  "scheduleFromForm form =
     bindE (formTimeout form) (\<lambda>timeout.
     bindE (formTarget form) (\<lambda>target.
     bindE (formRateInterval form) (\<lambda>rateInterval.
       Inr (zeroSchedule\<lparr>sc_Name := formField form ''name'', sc_Description := formField form ''description'',
              sc_ScheduleType := formField form ''schedule_type'', sc_Cron := formField form ''cron'',
              sc_Timezone := formField form ''timezone'', sc_RunAt := formField form ''run_at'',
              sc_StartsAt := formField form ''starts_at'', sc_RateInterval := rateInterval,
              sc_RateUnit := formField form ''rate_unit'', sc_Timeout := timeout,
              sc_AllowConcurrent := allowConcurrentFromForm form, sc_Target := target\<rparr>,
            formField form ''original_name''))))"

text \<open>The reader of a JSON body stops with an error after \<open>1 << 20\<close> bytes.\<close>

definition maxJSONBody :: nat where "maxJSONBody = 1024 * 1024"

definition scheduleFromRequest :: "Decoders \<Rightarrow> HTTPRequest \<Rightarrow> (ScheduleConfig \<times> string) result" where
  "scheduleFromRequest dec q =
     (if Contains (hq_Header q ''Content-Type'') ''application/json''
      then bindE (dc_Payload dec (take maxJSONBody (hq_Body q))
                    (if maxJSONBody < length (hq_Body q) then Some (External ''http: request body too large'') else None))
             (\<lambda>(originalName, s). Inr (s, originalName))
      else (case ParseForm q of
          (form, Some err) \<Rightarrow> Inl err
        | (form, None) \<Rightarrow> scheduleFromForm form))"

definition wantsHTML :: "HTTPRequest \<Rightarrow> bool" where
  "wantsHTML q = Contains (hq_Header q ''Accept'') ''text/html''"

section \<open>Paths of valid names\<close>

lemma nameChar_unreserved: "nameChar c \<Longrightarrow> unreserved c"
  by (auto simp: nameChar_def unreserved_def isAlnum_def)

lemma nameOk_unreserved: "nameOk n \<Longrightarrow> list_all unreserved n"
  by (auto simp: nameOk_def list_all_iff nameChar_unreserved)

lemma nameOk_no_slash:
  assumes "nameOk n"
  shows "n \<noteq> []" "hd n \<noteq> CHR ''/''" "last n \<noteq> CHR ''/''" "CHR ''/'' \<notin> set n"
proof -
  show "n \<noteq> []" using assms by (simp add: nameOk_def)
  moreover show "CHR ''/'' \<notin> set n" using assms by (auto simp: nameOk_def list_all_iff dest: nameChar_byte)
  ultimately show "hd n \<noteq> CHR ''/''" "last n \<noteq> CHR ''/''" by (metis list.set_sel(1), metis last_in_set)
qed

lemma TrimChar_id: "s \<noteq> [] \<Longrightarrow> hd s \<noteq> c \<Longrightarrow> last s \<noteq> c \<Longrightarrow> TrimChar s c = s"
proof -
  assume s: "s \<noteq> []" "hd s \<noteq> c" "last s \<noteq> c"
  have "dropWhile (\<lambda>x. x = c) s = s" using s by (cases s) simp_all
  moreover have "dropWhile (\<lambda>x. x = c) (rev s) = rev s" using s by (cases s rule: rev_cases) simp_all
  ultimately show "TrimChar s c = s" by (simp add: TrimChar_def)
qed

lemma HasSuffix_append [simp]: "HasSuffix (r @ p) p"
  by (auto simp: HasSuffix_iff)

lemma HasSuffix_rev: "HasSuffix s p \<longleftrightarrow> HasPrefix (rev s) (rev p)"
  unfolding HasSuffix_iff HasPrefix_iff by (metis rev_append rev_rev_ident)

lemma HasSuffix_last: "HasSuffix s p \<Longrightarrow> p \<noteq> [] \<Longrightarrow> s \<noteq> [] \<and> last s = last p"
  by (auto simp: HasSuffix_iff)

lemma actionOf_name:
  assumes "nameOk n"
  shows "actionOf (n @ ''/'' @ action) action = (n, action, True)"
proof -
  have "TrimSuffix (n @ ''/'' @ action) (''/'' @ action) = n" by (rule TrimSuffix_append)
  moreover have "PathUnescape n = Inr n" by (simp add: PathUnescape_def unescape_plain nameOk_unreserved assms)
  ultimately show ?thesis using nameOk_no_slash(1) [OF assms] by (simp add: actionOf_def)
qed

lemma scheduleActionFromPath_name:
  assumes "nameOk n" "action \<in> {''run'', ''delete'', ''pause''}"
  shows "scheduleActionFromPath (''/v1/schedules/'' @ PathEscape n @ ''/'' @ action) = (n, action, True)"
proof -
  have e: "PathEscape n = n" by (simp add: PathEscape_plain nameOk_unreserved assms(1))
  define R where "R = n @ ''/'' @ action"
  have "TrimChar R CHR ''/'' = R"
    unfolding R_def by (rule TrimChar_id) (use nameOk_no_slash [OF assms(1)] assms(2) in auto)
  then have path: "scheduleActionFromPath (''/v1/schedules/'' @ R) =
      (if HasSuffix R ''/run'' then actionOf R ''run'' else if HasSuffix R ''/delete'' then actionOf R ''delete''
       else if HasSuffix R ''/pause'' then actionOf R ''pause'' else ([], [], False))"
    by (simp only: scheduleActionFromPath_def HasPrefix_append TrimPrefix_append Let_def not_True_eq_False if_False)
  have at: "actionOf R action = (n, action, True)" unfolding R_def by (rule actionOf_name [OF assms(1)])
  have suffix: "HasSuffix R (''/'' @ action)" unfolding R_def by (rule HasSuffix_append)
  have other: "\<not> HasSuffix R (''/'' @ b)" if "b \<in> {''run'', ''delete'', ''pause''}" "b \<noteq> action" for b
    using assms(2) that unfolding R_def by (auto simp: HasSuffix_rev HasPrefix_def)
  from assms(2) consider "action = ''run''" | "action = ''delete''" | "action = ''pause''" by auto
  then have "scheduleActionFromPath (''/v1/schedules/'' @ R) = (n, action, True)"
    using at suffix other [of "''run''"] other [of "''delete''"] unfolding path by cases simp_all
  then show ?thesis unfolding e R_def .
qed

lemma editScheduleNameFromPath_name:
  assumes "nameOk n"
  shows "editScheduleNameFromPath (''/schedules/'' @ PathEscape n @ ''/edit'') = (n, True)"
proof -
  have e: "PathEscape n = n" by (simp add: PathEscape_plain nameOk_unreserved assms)
  have "TrimChar n CHR ''/'' = n" by (rule TrimChar_id) (simp_all add: nameOk_no_slash [OF assms])
  moreover have "PathUnescape n = Inr n" by (simp add: PathUnescape_def unescape_plain nameOk_unreserved assms)
  moreover have "HasSuffix (''/schedules/'' @ n @ ''/edit'') ''/edit''"
    using HasSuffix_append [of "''/schedules/'' @ n" "''/edit''"] by (simp only: append_assoc)
  ultimately show ?thesis
    unfolding e using nameOk_no_slash(1) [OF assms]
    by (simp only: editScheduleNameFromPath_def HasPrefix_append TrimPrefix_append TrimSuffix_append Let_def
        not_True_eq_False if_False simp_thms sum.case)
qed

end
