(* ===== verification/FormText.thy ===== *)
theory FormText
  imports Requests
begin

text \<open>
  Headers as the text of the form: what \<open>keyValues\<close> prints, a browser sends back with the line ends
  of a form, and \<open>parseKeyValues\<close> reads.
\<close>

section \<open>Trimmed texts\<close>

lemma trimWith_suffix: "\<exists>p. s = p @ trimWith ps s"
proof (induction ps s rule: trimWith.induct)
  case (1 ps s)
  show ?case
  proof (cases "find (\<lambda>p. p \<noteq> [] \<and> HasPrefix s p) ps")
    case None
    then show ?thesis by (simp add: trimWith.simps [of ps s])
  next
    case (Some p)
    then obtain q where "drop (length p) s = q @ trimWith ps (drop (length p) s)" using 1 by blast
    moreover have "trimWith ps s = trimWith ps (drop (length p) s)"
      using Some by (simp add: trimWith.simps [of ps s])
    ultimately have "s = (take (length p) s @ q) @ trimWith ps s"
      by (metis append.assoc append_take_drop_id)
    then show ?thesis by blast
  qed
qed

lemma trimWith_same_length: "length (trimWith ps s) = length s \<Longrightarrow> trimWith ps s = s"
  using trimWith_suffix [of s ps] by (metis append_self_conv2 length_0_conv length_append add_diff_cancel_right' diff_self_eq_0)

lemma trimWith_id_iff: "trimWith ps s = s \<longleftrightarrow> (\<forall>p \<in> set ps. p \<noteq> [] \<longrightarrow> \<not> HasPrefix s p)"
proof
  assume id: "trimWith ps s = s"
  have "find (\<lambda>p. p \<noteq> [] \<and> HasPrefix s p) ps = None"
  proof (rule ccontr)
    assume "find (\<lambda>p. p \<noteq> [] \<and> HasPrefix s p) ps \<noteq> None"
    then obtain p where p: "find (\<lambda>p. p \<noteq> [] \<and> HasPrefix s p) ps = Some p" by auto
    then have "p \<noteq> []" "HasPrefix s p" by (auto dest: find_SomeD)
    then have "length (drop (length p) s) < length s" by (cases p; cases s) (auto simp: HasPrefix_def)
    moreover have "s = trimWith ps (drop (length p) s)" using id p by (simp add: trimWith.simps [of ps s])
    ultimately show False using trimWith_length [of ps "drop (length p) s"] by simp
  qed
  then show "\<forall>p \<in> set ps. p \<noteq> [] \<longrightarrow> \<not> HasPrefix s p" by (auto simp: find_eq_None_iff)
qed (rule trimWith_stop, blast)

lemma TrimSpace_fixed:
  assumes "TrimSpace s = s"
  shows "trimWith spaceRunes s = s" "trimWith (map rev spaceRunes) (rev s) = rev s"
proof -
  have "length (TrimSpace s) \<le> length (trimWith spaceRunes s)"
    using trimWith_length [of "map rev spaceRunes" "rev (trimWith spaceRunes s)"]
    by (simp add: TrimSpace_def TrimRightSpace_def TrimLeftSpace_def)
  then show l: "trimWith spaceRunes s = s"
    using assms trimWith_length [of spaceRunes s] by (intro trimWith_same_length) simp
  show "trimWith (map rev spaceRunes) (rev s) = rev s"
    using assms by (simp add: TrimSpace_def TrimRightSpace_def TrimLeftSpace_def l) (metis rev_rev_ident)
qed

lemma TrimSpace_fixedI:
  "trimWith spaceRunes s = s \<Longrightarrow> trimWith (map rev spaceRunes) (rev s) = rev s \<Longrightarrow> TrimSpace s = s"
  by (simp add: TrimSpace_def TrimRightSpace_def TrimLeftSpace_def)

text \<open>A separator that is no part of a space rune does not let a trimmed text open up.\<close>

lemma trimWith_append:
  assumes "\<forall>p \<in> set ps. d \<notin> set p" "trimWith ps s = s"
  shows "trimWith ps (s @ d # t) = s @ d # t"
  unfolding trimWith_id_iff
proof (intro ballI impI notI)
  fix p assume p: "p \<in> set ps" "p \<noteq> []" "HasPrefix (s @ d # t) p"
  have "length p \<le> length s"
  proof (rule ccontr)
    assume "\<not> length p \<le> length s"
    then have l: "length s < length p" by simp
    have "take (length p) (s @ d # t) = p" using p(3) by (simp add: HasPrefix_def)
    then have "p ! length s = take (length p) (s @ d # t) ! length s" by simp
    also have "\<dots> = d" using l by (simp add: nth_append)
    finally have "d \<in> set p" using l nth_mem by metis
    with assms(1) p(1) show False by blast
  qed
  then have "HasPrefix s p" using p(3) by (simp add: HasPrefix_def)
  with assms(2) p show False by (simp add: trimWith_id_iff)
qed

lemma equals_no_space: "\<forall>p \<in> set spaceRunes. CHR ''='' \<notin> set p"
proof -
  have "list_all (\<lambda>p. CHR ''='' \<notin> set p) spaceRunes" by code_simp
  then show ?thesis by (simp add: list_all_iff)
qed

lemma TrimSpace_pair:
  assumes "TrimSpace k = k" "TrimSpace v = v"
  shows "TrimSpace (k @ ''='' @ v) = k @ ''='' @ v"
proof (rule TrimSpace_fixedI)
  show "trimWith spaceRunes (k @ ''='' @ v) = k @ ''='' @ v"
    using trimWith_append [OF equals_no_space TrimSpace_fixed(1) [OF assms(1)]] by simp
  have "\<forall>p \<in> set (map rev spaceRunes). CHR ''='' \<notin> set p" using equals_no_space by simp
  from trimWith_append [OF this TrimSpace_fixed(2) [OF assms(2)]]
  show "trimWith (map rev spaceRunes) (rev (k @ ''='' @ v)) = rev (k @ ''='' @ v)" by simp
qed

text \<open>A carriage return at the end is a space.\<close>

definition carriageReturn :: char where "carriageReturn = char_of (13 :: nat)"

lemma trimWith_space:
  assumes "[c] \<in> set ps" "\<forall>p \<in> set ps. p \<noteq> [] \<and> hd p = c \<longrightarrow> p = [c]"
  shows "trimWith ps (c # s) = trimWith ps s"
proof -
  have "find (\<lambda>p. p \<noteq> [] \<and> HasPrefix (c # s) p) ps = Some [c]"
  proof (cases "find (\<lambda>p. p \<noteq> [] \<and> HasPrefix (c # s) p) ps")
    case None
    then show ?thesis using assms(1) by (auto simp: find_eq_None_iff HasPrefix_def)
  next
    case (Some p)
    then have "p \<noteq> []" "HasPrefix (c # s) p" "p \<in> set ps" by (auto dest: find_SomeD)
    moreover have "hd p = c" using calculation by (cases p) (auto simp: HasPrefix_def)
    ultimately have "p = [c]" using assms(2) by simp
    then show ?thesis using Some by simp
  qed
  then show ?thesis by (simp add: trimWith.simps [of ps "c # s"])
qed

lemma TrimRightSpace_return: "TrimRightSpace (s @ [carriageReturn]) = TrimRightSpace s"
proof -
  have "trimWith (map rev spaceRunes) (carriageReturn # rev s) = trimWith (map rev spaceRunes) (rev s)"
  proof (rule trimWith_space)
    have "list_all (\<lambda>p. hd (rev p) = carriageReturn \<longrightarrow> rev p = [carriageReturn]) spaceRunes" by code_simp
    then show "\<forall>p \<in> set (map rev spaceRunes). p \<noteq> [] \<and> hd p = carriageReturn \<longrightarrow> p = [carriageReturn]"
      by (auto simp: list_all_iff)
    show "[carriageReturn] \<in> set (map rev spaceRunes)" by code_simp
  qed
  then show ?thesis by (simp add: TrimRightSpace_def)
qed

lemma TrimSpace_line:
  assumes "TrimSpace k = k" "TrimSpace v = v"
  shows "TrimSpace ((k @ ''='' @ v) @ [carriageReturn]) = k @ ''='' @ v"
proof -
  have "trimWith spaceRunes ((k @ ''='' @ v) @ [carriageReturn]) = (k @ ''='' @ v) @ [carriageReturn]"
    using trimWith_append [OF equals_no_space TrimSpace_fixed(1) [OF assms(1)]] by simp
  then have "TrimSpace ((k @ ''='' @ v) @ [carriageReturn]) = TrimRightSpace (k @ ''='' @ v)"
    using TrimRightSpace_return by (simp only: TrimSpace_def TrimLeftSpace_def)
  moreover have "trimWith (map rev spaceRunes) (rev (k @ ''='' @ v)) = rev (k @ ''='' @ v)"
    by (rule TrimSpace_fixed(2) [OF TrimSpace_pair [OF assms]])
  ultimately show ?thesis by (simp add: TrimRightSpace_def)
qed

section \<open>Headers survive the form\<close>

text \<open>A text area is submitted with CRLF line ends.\<close>

definition formLineEnds :: "string \<Rightarrow> string" where
  "formLineEnds s = concat (map (\<lambda>c. if c = newline then [carriageReturn, newline] else [c]) s)"

definition headerText :: "string \<Rightarrow> bool" where
  "headerText s \<longleftrightarrow> newline \<notin> set s \<and> TrimSpace s = s"

definition headerOk :: "string \<times> string \<Rightarrow> bool" where
  "headerOk kv \<longleftrightarrow> headerText (fst kv) \<and> headerText (snd kv) \<and> CHR ''='' \<notin> set (fst kv)"

definition headerMap :: "(string \<times> string) list option \<Rightarrow> string \<Rightarrow> string option" where
  "headerMap hs = (case hs of None \<Rightarrow> Map.empty | Some kvs \<Rightarrow> map_of kvs)"

definition headerLine :: "string \<times> string \<Rightarrow> string" where
  "headerLine kv = fst kv @ ''='' @ snd kv"

lemma formLineEnds_simps [simp]:
  "formLineEnds [] = []" "formLineEnds (s @ t) = formLineEnds s @ formLineEnds t"
  "formLineEnds (newline # s) = carriageReturn # newline # formLineEnds s"
  by (simp_all add: formLineEnds_def)

lemma formLineEnds_line: "newline \<notin> set s \<Longrightarrow> formLineEnds s = s"
  unfolding formLineEnds_def by (induction s) auto

lemma headerLine_line: "headerOk kv \<Longrightarrow> newline \<notin> set (headerLine kv)"
proof -
  have "newline \<noteq> CHR ''=''" by code_simp
  then show "headerOk kv \<Longrightarrow> ?thesis" by (auto simp: headerOk_def headerText_def headerLine_def)
qed

lemma TrimSpace_headerLine:
  "headerOk kv \<Longrightarrow> TrimSpace (headerLine kv) = headerLine kv"
  "headerOk kv \<Longrightarrow> TrimSpace (headerLine kv @ [carriageReturn]) = headerLine kv"
  using TrimSpace_pair TrimSpace_line by (auto simp: headerOk_def headerText_def headerLine_def)

lemma keyValueOfLine_headerLine: "headerOk kv \<Longrightarrow> keyValueOfLine (headerLine kv) = Some kv"
  by (auto simp: keyValueOfLine_def headerLine_def headerOk_def headerText_def Cut_first)

lemma putLine_header:
  assumes "headerOk kv"
  shows "putLine vs (headerLine kv) = AList.update (fst kv) (snd kv) vs"
    "putLine vs (headerLine kv @ [carriageReturn]) = AList.update (fst kv) (snd kv) vs"
  by (simp_all add: putLine_def TrimSpace_headerLine keyValueOfLine_headerLine assms split: prod.split)

lemma foldl_putLine:
  assumes "list_all headerOk kvs" "kvs \<noteq> []"
  shows "foldl putLine vs (Split (formLineEnds (Join (map headerLine kvs) [newline])) newline) =
    foldl (\<lambda>vs kv. AList.update (fst kv) (snd kv) vs) vs kvs"
  using assms
proof (induction kvs arbitrary: vs)
  case (Cons kv kvs)
  show ?case
  proof (cases kvs)
    case Nil
    then show ?thesis using Cons.prems
      by (simp add: formLineEnds_line headerLine_line Split_absent putLine_header)
  next
    case (Cons kv' kvs')
    have ok: "headerOk kv" "list_all headerOk kvs" using Cons.prems by simp_all
    have "formLineEnds (Join (map headerLine (kv # kvs)) [newline]) =
        (headerLine kv @ [carriageReturn]) @ newline # formLineEnds (Join (map headerLine kvs) [newline])"
      using ok by (simp add: Cons formLineEnds_line headerLine_line)
    moreover have "newline \<notin> set (headerLine kv @ [carriageReturn])"
      using headerLine_line [OF ok(1)] by (simp add: newline_def carriageReturn_def)
    ultimately have "Split (formLineEnds (Join (map headerLine (kv # kvs)) [newline])) newline =
        (headerLine kv @ [carriageReturn]) # Split (formLineEnds (Join (map headerLine kvs) [newline])) newline"
      by (metis Split_append)
    then show ?thesis
      using Cons.IH [OF ok(2)] by (simp only: foldl_Cons putLine_header(2) [OF ok(1)]) (simp add: Cons)
  qed
qed simp

lemma map_of_foldl_update:
  "map_of (foldl (\<lambda>vs kv. AList.update (fst kv) (snd kv) vs) vs kvs) = map_of vs ++ map_of (rev kvs)"
  by (induction kvs arbitrary: vs) (auto simp: AList.update_conv' map_add_upd_left fun_eq_iff map_add_def split: option.split)

lemma foldl_update_Nil: "foldl (\<lambda>vs kv. AList.update (fst kv) (snd kv) vs) vs kvs = [] \<longleftrightarrow> vs = [] \<and> kvs = []"
  by (induction kvs arbitrary: vs) (auto simp: AList.update_nonempty)

lemma parseKeyValues_keyValues:
  assumes "distinct (map fst hs)" "list_all headerOk hs"
  shows "headerMap (parseKeyValues (formLineEnds (keyValues (Some hs)))) = map_of hs"
proof (cases "hs = []")
  case True
  then show ?thesis
    by (simp add: keyValues_def parseKeyValues_def headerMap_def Split_absent putLine_def keyValueOfLine_def TrimSpace_id)
next
  case False
  define kvs where "kvs = map (\<lambda>k. (k, valuesGet hs k)) (sort (map fst hs))"
  have d: "distinct (map fst kvs)" by (simp add: kvs_def o_def assms(1))
  have set_kvs: "set kvs = set hs"
  proof -
    have "(k, valuesGet hs k) = (k, v)" if "(k, v) \<in> set hs" for k v
      using that assms(1) by (simp add: valuesGet_def)
    then show ?thesis by (force simp: kvs_def)
  qed
  then have ok: "list_all headerOk kvs" "kvs \<noteq> []" using assms(2) False by (auto simp: list_all_iff)
  have kv: "keyValues (Some hs) = Join (map headerLine kvs) [newline]"
    by (simp add: keyValues_def kvs_def headerLine_def o_def)
  have "headerMap (parseKeyValues (formLineEnds (keyValues (Some hs)))) = map_of (rev kvs)"
    by (simp add: parseKeyValues_def Let_def kv foldl_putLine [OF ok] foldl_update_Nil ok(2) headerMap_def map_of_foldl_update)
  also have "\<dots> = map_of hs"
  proof
    fix x
    have d': "distinct (map fst (rev kvs))" using d by (simp add: rev_map [symmetric])
    have "map_of (rev kvs) x = Some y \<longleftrightarrow> map_of hs x = Some y" for y
      using map_of_eq_Some_iff [OF d'] map_of_eq_Some_iff [OF assms(1)] set_kvs by simp
    then show "map_of (rev kvs) x = map_of hs x" by (metis option.exhaust)
  qed
  finally show ?thesis .
qed

end
