(* ===== verification/Server.thy ===== *)
theory Server
  imports Engine Labels FormText
begin

text \<open>
  internal/server/http.go, the handlers: each takes the environment of the engine, the decoders, the
  readings of the clock, the order in which Go visits the map of schedules, the request and the
  engine, and answers a reply and the engine it leaves.  \<open>serve\<close> is the handler that
  \<open>NewHTTPServer\<close> builds: the patterns of its mux and the rules by which net/http picks one.
\<close>

section \<open>Replies\<close>

datatype JSONBody =
    JSchedules "ScheduleConfig list"
  | JSchedule ScheduleConfig
  | JRuns "Run list"
  | JRun Run
  | JQueues "string list"
  | JFields "(string \<times> string) list"

record IndexPage =
  ip_Schedules :: "ScheduleConfig list"
  ip_Runs :: "runView list"
  ip_Timezones :: "string list"
  ip_JobFilter :: string
  ip_Notice :: string
  ip_Error :: string

record FormPage =
  fp_Title :: string
  fp_SubmitLabel :: string
  fp_OriginalName :: string
  fp_IsNew :: bool
  fp_Schedule :: ScheduleConfig
  fp_Timezones :: "string list"
  fp_FaktoryInstances :: "string list"
  fp_Error :: string

text \<open>A page is the name of a template and its data.\<close>

datatype Page =
    PageIndex IndexPage
  | PageForm string FormPage
  | PagePicker bool

datatype Reply =
    ReplyJSON int JSONBody
  | ReplyPage Page
  | ReplyRedirect string int
  | ReplyError string int
  | ReplyNotFound
  | ReplyText string
  | ReplyNone

text \<open>A status of an error, or a redirect that carries one.\<close>

definition writeJSON :: "int \<Rightarrow> JSONBody \<Rightarrow> Reply" where
  "writeJSON status body = ReplyJSON status body"

definition jsonError :: "int \<Rightarrow> go_error \<Rightarrow> Reply" where
  "jsonError status err = writeJSON status (JFields [(''error'', Error err)])"

definition errorLocation :: "HTTPRequest \<Rightarrow> go_error \<Rightarrow> string" where
  "errorLocation q err =
     (let redirectTo = (if hq_Header q ''Referer'' = [] then ''/'' else hq_Header q ''Referer'');
          separator = (if Contains redirectTo ''?'' then ''&'' else ''?'')
      in redirectTo @ separator @ ''error='' @ QueryEscape (Error err))"

definition respondScheduleError :: "HTTPRequest \<Rightarrow> go_error \<Rightarrow> Reply" where
  "respondScheduleError q err =
     (if wantsHTML q then ReplyRedirect (errorLocation q err) 303 else jsonError 400 err)"

type_synonym ('s, 'q) handled = "Reply \<times> ('s, 'q) Engine"

section \<open>Pages\<close>

definition runViews :: "Run list \<Rightarrow> ScheduleConfig list \<Rightarrow> runView list" where
  "runViews runs schedules =
     (let timezones = foldl (\<lambda>m s. m(sc_Name s \<mapsto> sc_Timezone s)) Map.empty schedules;
          zone = (\<lambda>r. case timezones (r_ScheduleName r) of None \<Rightarrow> [] | Some z \<Rightarrow> z)
      in map (\<lambda>r. \<lparr>rv_Run = r, rv_DisplayTimezone = (if zone r = [] then ''UTC'' else zone r)\<rparr>) runs)"

definition index ::
    "('s, 'q, 'c, 'k) Env \<Rightarrow> string list \<Rightarrow> HTTPRequest \<Rightarrow> ('s, 'q) Engine \<Rightarrow> ('s, 'q) handled" where
  "index env ord q e =
     (let schedules = Schedules env ord e; jobFilter = queryGet (hq_RawQuery q) ''job'' in
      case Runs env 100 e of
        Inl err \<Rightarrow> (ReplyError (Error err) 500, e)
      | Inr all \<Rightarrow>
          (let runs = (if jobFilter \<noteq> [] then filter (\<lambda>r. r_ScheduleName r = jobFilter) all else all)
           in (ReplyPage (PageIndex \<lparr>ip_Schedules = schedules, ip_Runs = runViews runs schedules,
                 ip_Timezones = timezoneOptions, ip_JobFilter = jobFilter,
                 ip_Notice = queryGet (hq_RawQuery q) ''notice'', ip_Error = queryGet (hq_RawQuery q) ''error''\<rparr>), e)))"

definition engineInstances :: "('s, 'q) Engine \<Rightarrow> string list" where
  "engineInstances e = FaktoryInstanceNames (en_cfg e)"

definition renderScheduleForm ::
    "HTTPRequest \<Rightarrow> string \<Rightarrow> string \<Rightarrow> string \<Rightarrow> ScheduleConfig \<Rightarrow> ('s, 'q) Engine \<Rightarrow> Page" where
  "renderScheduleForm q title submitLabel originalName s e =
     PageForm (if tc_Type (sc_Target s) = ''faktory'' then ''faktory_form'' else ''schedule_form'')
       \<lparr>fp_Title = title, fp_SubmitLabel = submitLabel, fp_OriginalName = originalName,
        fp_IsNew = (originalName = []), fp_Schedule = s, fp_Timezones = timezonesWithCurrent (sc_Timezone s),
        fp_FaktoryInstances = engineInstances e, fp_Error = queryGet (hq_RawQuery q) ''error''\<rparr>"

text \<open>
  The one action of the templates that can fail: \<open>{{index .FaktoryInstances 0}}\<close> in the branch for
  at most one instance.
\<close>

definition renders :: "Page \<Rightarrow> bool" where
  "renders p = (case p of PageForm name d \<Rightarrow> name = ''faktory_form'' \<longrightarrow> fp_FaktoryInstances d \<noteq> [] | _ \<Rightarrow> True)"

definition renderNewJobPicker :: "('s, 'q) Engine \<Rightarrow> Page" where
  "renderNewJobPicker e = PagePicker (engineInstances e \<noteq> [])"

definition newFaktorySchedule :: "string list \<Rightarrow> ScheduleConfig" where
  "newFaktorySchedule instances =
     zeroSchedule\<lparr>sc_ScheduleType := ''rate'', sc_Cron := ''*/5 * * * *'', sc_Timezone := ''UTC'',
       sc_RateInterval := 5, sc_RateUnit := ''minutes'', sc_Timeout := 5 * Second, sc_AllowConcurrent := True,
       sc_Target := zeroTarget\<lparr>tc_Type := ''faktory'',
         tc_Instance := (case instances of [i] \<Rightarrow> i | _ \<Rightarrow> [])\<rparr>\<rparr>"

definition newSchedule :: "HTTPRequest \<Rightarrow> ('s, 'q) Engine \<Rightarrow> ('s, 'q) handled" where
  "newSchedule q e =
     (if queryGet (hq_RawQuery q) ''type'' = ''faktory''
      then (ReplyPage (renderScheduleForm q ''New Faktory Job'' ''Add job'' []
              (newFaktorySchedule (engineInstances e)) e), e)
      else (ReplyPage (renderNewJobPicker e), e))"

definition findSchedule ::
    "('s, 'q, 'c, 'k) Env \<Rightarrow> string list \<Rightarrow> string \<Rightarrow> ('s, 'q) Engine \<Rightarrow> ScheduleConfig option" where
  "findSchedule env ord name e = find (\<lambda>s. sc_Name s = name) (Schedules env ord e)"

definition editSchedule ::
    "('s, 'q, 'c, 'k) Env \<Rightarrow> string list \<Rightarrow> HTTPRequest \<Rightarrow> ('s, 'q) Engine \<Rightarrow> ('s, 'q) handled" where
  "editSchedule env ord q e =
     (case editScheduleNameFromPath (hq_Path q) of
        (_, False) \<Rightarrow> (ReplyNotFound, e)
      | (name, True) \<Rightarrow>
          (case findSchedule env ord name e of
             None \<Rightarrow> (ReplyNotFound, e)
           | Some s \<Rightarrow>
               if tc_Type (sc_Target s) \<noteq> ''http'' \<and> tc_Type (sc_Target s) \<noteq> ''faktory''
               then (ReplyRedirect (''/?error='' @ QueryEscape (''target type '' @ tc_Type (sc_Target s) @
                      '' is not editable in the UI yet'')) 303, e)
               else (ReplyPage (renderScheduleForm q ''Edit Job'' ''Save job'' name s e), e)))"

section \<open>The API\<close>

definition healthz :: "('s, 'q) Engine \<Rightarrow> ('s, 'q) handled" where
  "healthz e = (ReplyText (''ok'' @ [newline]), e)"

definition apiSchedules ::
    "('s, 'q, 'c, 'k) Env \<Rightarrow> string list \<Rightarrow> ('s, 'q) Engine \<Rightarrow> ('s, 'q) handled" where
  "apiSchedules env ord e = (writeJSON 200 (JSchedules (Schedules env ord e)), e)"

definition apiSaveSchedule ::
    "('s, 'q, 'c, 'k) Env \<Rightarrow> Decoders \<Rightarrow> (nat \<Rightarrow> go_time) \<Rightarrow> HTTPRequest \<Rightarrow> ('s, 'q) Engine \<Rightarrow> ('s, 'q) handled" where
  "apiSaveSchedule env dec now q e =
     (case scheduleFromRequest dec q of
        Inl err \<Rightarrow> (respondScheduleError q err, e)
      | Inr (s, originalName) \<Rightarrow>
          (case SaveSchedule env now originalName s e of
             (Some err, e) \<Rightarrow> (respondScheduleError q err, e)
           | (None, e) \<Rightarrow>
               (if wantsHTML q then ReplyRedirect ''/?notice=job+saved'' 303 else writeJSON 200 (JSchedule s), e)))"

definition runsLimit :: "HTTPRequest \<Rightarrow> int" where
  "runsLimit q =
     (let raw = queryGet (hq_RawQuery q) ''limit'' in
      if raw \<noteq> [] then (case Atoi raw of Inl _ \<Rightarrow> 50 | Inr n \<Rightarrow> n) else 50)"

definition apiRuns ::
    "('s, 'q, 'c, 'k) Env \<Rightarrow> HTTPRequest \<Rightarrow> ('s, 'q) Engine \<Rightarrow> ('s, 'q) handled" where
  "apiRuns env q e =
     (case Runs env (runsLimit q) e of
        Inl err \<Rightarrow> (jsonError 500 err, e) | Inr runs \<Rightarrow> (writeJSON 200 (JRuns runs), e))"

definition apiClearRuns ::
    "('s, 'q, 'c, 'k) Env \<Rightarrow> HTTPRequest \<Rightarrow> ('s, 'q) Engine \<Rightarrow> ('s, 'q) handled" where
  "apiClearRuns env q e =
     (case ClearRuns env e of
        (Inl err, e) \<Rightarrow> (jsonError 500 err, e)
      | (Inr _, e) \<Rightarrow>
          (if wantsHTML q then ReplyRedirect ''/?notice=run+log+cleared'' 303
           else writeJSON 200 (JFields [(''status'', ''cleared'')]), e))"

definition apiFaktoryQueues ::
    "('s, 'q, 'c, 'k) Env \<Rightarrow> HTTPRequest \<Rightarrow> ('s, 'q) Engine \<Rightarrow> ('s, 'q) handled" where
  "apiFaktoryQueues env q e =
     (let instanceName = queryGet (hq_RawQuery q) ''instance'' in
      if instanceName = [] then (jsonError 400 (External ''instance parameter is required''), e)
      else (case engineFaktoryQueues env (runContext (5 * Second)) instanceName e of
          Inl err \<Rightarrow> (jsonError 502 err, e) | Inr queues \<Rightarrow> (writeJSON 200 (JQueues queues), e)))"

definition formatBool :: "bool \<Rightarrow> string" where
  "formatBool b = (if b then ''true'' else ''false'')"

definition apiScheduleAction ::
    "('s, 'q, 'c, 'k) Env \<Rightarrow> (nat \<Rightarrow> go_time) \<Rightarrow> HTTPRequest \<Rightarrow> ('s, 'q) Engine \<Rightarrow> ('s, 'q) handled" where
  "apiScheduleAction env now q e =
     (case scheduleActionFromPath (hq_Path q) of (name, action, ok) \<Rightarrow>
        if \<not> ok then (jsonError 404 (External ''not found''), e)
        else if action = ''delete''
        then (case DeleteSchedule env name e of
            (Some err, e) \<Rightarrow> (respondScheduleError q err, e)
          | (None, e) \<Rightarrow>
              (if wantsHTML q then ReplyRedirect ''/?notice=job+deleted'' 303
               else writeJSON 200 (JFields [(''status'', ''deleted'')]), e))
        else if action = ''pause''
        then (case TogglePause env now name e of
            ((_, Some err), e) \<Rightarrow> (respondScheduleError q err, e)
          | ((paused, None), e) \<Rightarrow>
              (let status = (if paused then ''paused'' else ''resumed'') in
               (if wantsHTML q then ReplyRedirect (''/?notice=job+'' @ status) 303
                else writeJSON 200 (JFields [(''status'', status), (''paused'', formatBool paused)]), e)))
        else if action = ''run''
        then (case TriggerManual env now name e of
            ((_, Some err), e) \<Rightarrow> (jsonError 400 err, e)
          | ((r, None), e) \<Rightarrow>
              (if wantsHTML q then ReplyRedirect ''/?notice=job+triggered'' 303 else writeJSON 202 (JRun r), e))
        else (ReplyNone, e))"

section \<open>The mux\<close>

text \<open>\<open>path.Clean\<close> on a rooted path, with the final slash kept as net/http keeps it.\<close>

definition pushSegment :: "string list \<Rightarrow> string \<Rightarrow> string list" where
  "pushSegment out seg =
     (if seg = [] \<or> seg = ''.'' then out else if seg = ''..'' then butlast out else out @ [seg])"

definition cleanPath :: "string \<Rightarrow> string" where
  "cleanPath p =
     (if p = [] then ''/''
      else (let np = ''/'' @ Join (foldl pushSegment [] (Split p CHR ''/'')) ''/''
            in if last p = CHR ''/'' \<and> np \<noteq> ''/'' then np @ ''/'' else np))"

definition pathSegments :: "string \<Rightarrow> string list" where
  "pathSegments p = map (\<lambda>s. case PathUnescape s of Inl _ \<Rightarrow> s | Inr d \<Rightarrow> d) (Split (drop 1 p) CHR ''/'')"

datatype Route =
    RouteIndex | RouteNew | RouteEdit | RouteHealth | RouteQueues | RouteSchedules | RouteSave
  | RouteRuns | RouteClear | RouteAction

text \<open>Method, segments, whether the pattern ends in a slash, handler; the most specific first.\<close>

definition patterns :: "(string \<times> string list \<times> bool \<times> Route) list" where
  "patterns =
     [(''GET'', [''schedules'', ''new''], False, RouteNew),
      (''GET'', [''healthz''], False, RouteHealth),
      (''GET'', [''v1'', ''faktory'', ''queues''], False, RouteQueues),
      (''GET'', [''v1'', ''schedules''], False, RouteSchedules),
      (''POST'', [''v1'', ''schedules''], False, RouteSave),
      (''GET'', [''v1'', ''runs''], False, RouteRuns),
      (''POST'', [''v1'', ''runs'', ''clear''], False, RouteClear),
      (''POST'', [''v1'', ''schedules''], True, RouteAction),
      (''GET'', [''schedules''], True, RouteEdit),
      (''GET'', [], True, RouteIndex)]"

definition matches :: "string \<Rightarrow> string list \<Rightarrow> string \<times> string list \<times> bool \<times> Route \<Rightarrow> bool" where
  "matches meth segs pat = (case pat of (pm, ps, multi, _) \<Rightarrow>
     pm = (if meth = ''HEAD'' then ''GET'' else meth) \<and>
     (if multi then length ps < length segs \<and> take (length ps) segs = ps else segs = ps))"

definition matchPattern :: "string \<Rightarrow> string \<Rightarrow> (string \<times> string list \<times> bool \<times> Route) option" where
  "matchPattern meth path = find (matches meth (pathSegments path)) patterns"

text \<open>A match is exact unless a pattern that ends in a slash stands for more than its own path.\<close>

definition exactMatch :: "(string \<times> string list \<times> bool \<times> Route) option \<Rightarrow> string \<Rightarrow> bool" where
  "exactMatch found path = (case found of None \<Rightarrow> False
     | Some (_, ps, multi, _) \<Rightarrow> \<not> multi \<or> pathSegments path = ps @ [[]])"

definition locationOf :: "string \<Rightarrow> string \<Rightarrow> string" where
  "locationOf path rawQuery =
     concat (map (\<lambda>c. if unreserved c \<or> c \<in> set ''$&+,/:;=@'' then [c] else percent c) path) @
     (if rawQuery = [] then [] else ''?'' @ rawQuery)"

text \<open>The redirects of the mux keep the method since Go 1.26, the release of go.mod (301 before).\<close>

definition muxRedirect :: int where "muxRedirect = 307"

definition route :: "HTTPRequest \<Rightarrow> Reply + Route" where
  "route q =
     (let path = cleanPath (hq_EscapedPath q); found = matchPattern (hq_Method q) path in
      if \<not> exactMatch found path \<and> last path \<noteq> CHR ''/'' \<and>
         exactMatch (matchPattern (hq_Method q) (path @ ''/'')) (path @ ''/'')
      then Inl (ReplyRedirect (locationOf (cleanPath (hq_Path q) @ ''/'') (hq_RawQuery q)) muxRedirect)
      else if path \<noteq> hq_EscapedPath q then Inl (ReplyRedirect (locationOf path (hq_RawQuery q)) muxRedirect)
      else (case found of
          None \<Rightarrow> Inl (ReplyError ''Method Not Allowed'' 405)
        | Some (_, _, _, h) \<Rightarrow> Inr h))"

definition handle ::
    "('s, 'q, 'c, 'k) Env \<Rightarrow> Decoders \<Rightarrow> (nat \<Rightarrow> go_time) \<Rightarrow> string list \<Rightarrow> HTTPRequest \<Rightarrow> Route \<Rightarrow>
     ('s, 'q) Engine \<Rightarrow> ('s, 'q) handled" where
  "handle env dec now ord q h e =
     (case h of
        RouteIndex \<Rightarrow> index env ord q e
      | RouteNew \<Rightarrow> newSchedule q e
      | RouteEdit \<Rightarrow> editSchedule env ord q e
      | RouteHealth \<Rightarrow> healthz e
      | RouteQueues \<Rightarrow> apiFaktoryQueues env q e
      | RouteSchedules \<Rightarrow> apiSchedules env ord e
      | RouteSave \<Rightarrow> apiSaveSchedule env dec now q e
      | RouteRuns \<Rightarrow> apiRuns env q e
      | RouteClear \<Rightarrow> apiClearRuns env q e
      | RouteAction \<Rightarrow> apiScheduleAction env now q e)"

text \<open>Requests with the method CONNECT, whose paths the mux does not clean, are left out.\<close>

definition serve ::
    "('s, 'q, 'c, 'k) Env \<Rightarrow> Decoders \<Rightarrow> (nat \<Rightarrow> go_time) \<Rightarrow> string list \<Rightarrow> HTTPRequest \<Rightarrow>
     ('s, 'q) Engine \<Rightarrow> ('s, 'q) handled" where
  "serve env dec now ord q e =
     (case route q of Inl reply \<Rightarrow> (reply, e) | Inr h \<Rightarrow> handle env dec now ord q h e)"

end
