(* ===== verification/ServerSystem.thy ===== *)
theory ServerSystem
  imports Server EngineSystem
begin

text \<open>
  The server as a caller of the engine: what a request can do is what the engine's handlers and
  triggers do, so the invariants of the system hold under any traffic; which requests change nothing;
  and which paths lead to which handler.
\<close>

named_theorems handler_defs \<open>the handlers and what they reply\<close>

declare index_def [handler_defs] newSchedule_def [handler_defs] editSchedule_def [handler_defs]
  healthz_def [handler_defs] apiFaktoryQueues_def [handler_defs] apiSchedules_def [handler_defs]
  apiRuns_def [handler_defs]

section \<open>Requests as steps\<close>

lemma TriggerManual_steps:
  assumes "TriggerManual env now n e = (res, e')"
  shows "sysSteps env (e, T) (e', T)"
proof (cases "\<exists>s. en_schedules e n = Some s \<and> \<not> sc_Paused s")
  case True
  then have "Trigger env (\<lambda>i. now (i + 1)) n ''manual'' (now 0) e = (res, e')"
    using assms by (auto simp: TriggerManual_def)
  then show ?thesis by (rule Trigger_steps)
next
  case False
  then have "e' = e" using assms by (auto simp: TriggerManual_def split: option.splits if_splits)
  then show ?thesis by simp
qed

lemma readers_keep:
  "h \<in> {RouteIndex, RouteNew, RouteEdit, RouteHealth, RouteQueues, RouteSchedules, RouteRuns} \<Longrightarrow>
    snd (handle env dec now ord q h e) = e"
  by (auto simp: handle_def handler_defs Let_def split: sum.splits option.splits prod.splits bool.splits)

lemma apiSaveSchedule_steps: "sysSteps env (e, T) (snd (apiSaveSchedule env dec now q e), T)"
proof (cases "scheduleFromRequest dec q")
  case (Inr p)
  obtain s n where p: "p = (s, n)" by (cases p)
  obtain err e' where s: "SaveSchedule env now n s e = (err, e')" by fastforce
  have "snd (apiSaveSchedule env dec now q e) = e'"
    by (simp add: apiSaveSchedule_def Inr p s split: option.split)
  then show ?thesis using sysStep.save [OF s] by (simp add: r_into_rtranclp)
qed (simp add: apiSaveSchedule_def)

lemma apiClearRuns_steps: "sysSteps env (e, T) (snd (apiClearRuns env q e), T)"
proof -
  obtain u e' where c: "ClearRuns env e = (u, e')" by fastforce
  have "snd (apiClearRuns env q e) = e'" by (simp add: apiClearRuns_def c split: sum.split)
  then show ?thesis using sysStep.clear [OF c] by (simp add: r_into_rtranclp)
qed

lemma apiScheduleAction_steps: "sysSteps env (e, T) (snd (apiScheduleAction env now q e), T)"
proof -
  obtain n action ok where a: "scheduleActionFromPath (hq_Path q) = (n, action, ok)" by (metis prod.exhaust)
  obtain err e1 where d: "DeleteSchedule env n e = (err, e1)" by fastforce
  obtain b err' e2 where t: "TogglePause env now n e = ((b, err'), e2)" by (metis prod.exhaust)
  obtain r err'' e3 where m: "TriggerManual env now n e = ((r, err''), e3)" by (metis prod.exhaust)
  have "snd (apiScheduleAction env now q e) =
      (if \<not> ok then e else if action = ''delete'' then e1 else if action = ''pause'' then e2
       else if action = ''run'' then e3 else e)"
    by (simp add: apiScheduleAction_def a d t m Let_def split: option.split)
  then show ?thesis
    using sysStep.delete [OF d] sysStep.toggle [OF t] TriggerManual_steps [OF m] by (simp add: r_into_rtranclp)
qed

lemma handle_steps: "sysSteps env (e, T) (snd (handle env dec now ord q h e), T)"
proof (cases "h \<in> {RouteSave, RouteClear, RouteAction}")
  case True
  then show ?thesis
    using apiSaveSchedule_steps apiClearRuns_steps apiScheduleAction_steps by (auto simp: handle_def)
next
  case False
  then have "snd (handle env dec now ord q h e) = e" by (intro readers_keep) (cases h; simp)
  then show ?thesis by simp
qed

lemma serve_steps: "sysSteps env (e, T) (snd (serve env dec now ord q e), T)"
  by (simp add: serve_def handle_steps split: sum.split)

section \<open>Methods\<close>

lemma matchPattern_method:
  "matchPattern meth path = Some (pm, ps, multi, h) \<Longrightarrow>
    (pm, ps, multi, h) \<in> set patterns \<and> pm = (if meth = ''HEAD'' then ''GET'' else meth)"
  unfolding matchPattern_def by (drule find_SomeD) (auto simp: matches_def)

lemma route_method:
  assumes "route q = Inr h" "hq_Method q \<noteq> ''POST''"
  shows "h \<notin> {RouteSave, RouteClear, RouteAction}"
proof -
  obtain pm ps multi where m: "matchPattern (hq_Method q) (cleanPath (hq_EscapedPath q)) = Some (pm, ps, multi, h)"
    using assms(1) by (auto simp: route_def Let_def split: if_splits option.splits prod.splits)
  have "list_all (\<lambda>(pm, ps, multi, h). h \<in> {RouteSave, RouteClear, RouteAction} \<longrightarrow> pm = ''POST'') patterns"
    by code_simp
  then show ?thesis using matchPattern_method [OF m] assms(2) by (auto simp: list_all_iff split: if_splits)
qed

lemma serve_reads:
  assumes "hq_Method q \<noteq> ''POST''"
  shows "snd (serve env dec now ord q e) = e"
proof (cases "route q")
  case (Inr h)
  then have "h \<notin> {RouteSave, RouteClear, RouteAction}" using route_method assms by blast
  then have "snd (handle env dec now ord q h e) = e" by (intro readers_keep) (cases h; simp)
  then show ?thesis by (simp add: serve_def Inr)
qed (simp add: serve_def)

section \<open>The links of a job\<close>

lemma cleanPath_segments:
  assumes "segs \<noteq> []" "list_all (\<lambda>s. s \<noteq> [] \<and> s \<noteq> ''.'' \<and> s \<noteq> ''..'' \<and> CHR ''/'' \<notin> set s) segs"
  shows "cleanPath (''/'' @ Join segs ''/'') = ''/'' @ Join segs ''/''"
proof -
  have push: "foldl pushSegment out segs = out @ segs" for out
    using assms(2) by (induction segs arbitrary: out) (auto simp: pushSegment_def)
  have "Split (Join segs ''/'') CHR ''/'' = segs"
    by (rule Split_Join) (use assms in \<open>auto simp: list_all_iff\<close>)
  then have "foldl pushSegment [] (Split (''/'' @ Join segs ''/'') CHR ''/'') = segs"
    by (simp add: push) (simp add: pushSegment_def push)
  moreover have "last (''/'' @ Join segs ''/'') \<noteq> CHR ''/''"
  proof -
    have "Join segs ''/'' \<noteq> [] \<and> last (Join segs ''/'') \<noteq> CHR ''/''"
      using assms
    proof (induction segs)
      case (Cons s segs)
      show ?case
      proof (cases segs)
        case Nil
        then show ?thesis using Cons.prems by auto (metis last_in_set)
      next
        case c: (Cons s' segs')
        then have "Join segs ''/'' \<noteq> [] \<and> last (Join segs ''/'') \<noteq> CHR ''/''" using Cons by simp
        then show ?thesis by (simp add: c)
      qed
    qed simp
    then show ?thesis by simp
  qed
  ultimately show ?thesis by (simp add: cleanPath_def Let_def)
qed

lemma PathUnescape_no_percent: "CHR ''%'' \<notin> set s \<Longrightarrow> PathUnescape s = Inr s"
  unfolding PathUnescape_def by (induction s) auto

lemma nameOk_no_percent: "nameOk n \<Longrightarrow> CHR ''%'' \<notin> set n"
  by (auto simp: nameOk_def list_all_iff dest: nameChar_byte)

lemma nameOk_not_dots: "nameOk n \<Longrightarrow> n \<noteq> ''..''"
  by (auto simp: nameOk_def HasPrefix_def)

lemma pathSegments_Join:
  assumes "segs \<noteq> []" "list_all (\<lambda>s. CHR ''/'' \<notin> set s \<and> CHR ''%'' \<notin> set s) segs"
  shows "pathSegments (''/'' @ Join segs ''/'') = segs"
proof -
  have "Split (Join segs ''/'') CHR ''/'' = segs"
    by (rule Split_Join) (use assms in \<open>auto simp: list_all_iff\<close>)
  moreover have "map (\<lambda>s. case PathUnescape s of Inl _ \<Rightarrow> s | Inr d \<Rightarrow> d) segs = segs"
    by (rule map_idI) (use assms(2) PathUnescape_no_percent in \<open>auto simp: list_all_iff\<close>)
  ultimately show ?thesis by (simp add: pathSegments_def)
qed

lemma pathSegments_slash:
  assumes "segs \<noteq> []" "list_all (\<lambda>s. CHR ''/'' \<notin> set s \<and> CHR ''%'' \<notin> set s) segs"
  shows "pathSegments (''/'' @ Join segs ''/'' @ ''/'') = segs @ [[]]"
proof -
  have "Join segs ''/'' @ ''/'' = Join (segs @ [[]]) ''/''"
    using assms(1) by (induction segs rule: induct_list012) simp_all
  then show ?thesis using pathSegments_Join [of "segs @ [[]]"] assms by simp
qed

text \<open>A clean path of plain segments is taken as it is.\<close>

lemma route_plain:
  assumes "hq_EscapedPath q = ''/'' @ Join segs ''/''" "segs \<noteq> []"
    and "list_all (\<lambda>s. s \<noteq> [] \<and> s \<noteq> ''.'' \<and> s \<noteq> ''..'' \<and> CHR ''/'' \<notin> set s \<and> CHR ''%'' \<notin> set s) segs"
    and "find (matches (hq_Method q) segs) patterns = Some (pm, ps, multi, h)"
    and "\<not> exactMatch (find (matches (hq_Method q) (segs @ [[]])) patterns) (''/'' @ Join segs ''/'' @ ''/'')"
  shows "route q = Inr h"
proof -
  have plain: "list_all (\<lambda>s. CHR ''/'' \<notin> set s \<and> CHR ''%'' \<notin> set s) segs"
    and plain': "list_all (\<lambda>s. s \<noteq> [] \<and> s \<noteq> ''.'' \<and> s \<noteq> ''..'' \<and> CHR ''/'' \<notin> set s) segs"
    using assms(3) by (auto simp: list_all_iff)
  have clean: "cleanPath (hq_EscapedPath q) = hq_EscapedPath q"
    unfolding assms(1) by (rule cleanPath_segments [OF assms(2) plain'])
  have m: "matchPattern (hq_Method q) (hq_EscapedPath q) = Some (pm, ps, multi, h)"
    unfolding matchPattern_def assms(1) pathSegments_Join [OF assms(2) plain] by (rule assms(4))
  have "\<not> exactMatch (matchPattern (hq_Method q) (hq_EscapedPath q @ ''/'')) (hq_EscapedPath q @ ''/'')"
    using assms(5) pathSegments_slash [OF assms(2) plain] by (simp add: matchPattern_def assms(1))
  then show ?thesis unfolding route_def clean Let_def m by simp
qed

lemma nameOk_segment:
  "nameOk n \<Longrightarrow> n \<noteq> ''.'' \<Longrightarrow> n \<noteq> [] \<and> n \<noteq> ''.'' \<and> n \<noteq> ''..'' \<and> CHR ''/'' \<notin> set n \<and> CHR ''%'' \<notin> set n"
  using nameOk_no_slash nameOk_not_dots nameOk_no_percent by blast

lemma action_route:
  assumes "nameOk n" "n \<noteq> ''.''" "action \<in> {''run'', ''delete'', ''pause''}" "hq_Method q = ''POST''"
    and "hq_EscapedPath q = ''/v1/schedules/'' @ PathEscape n @ ''/'' @ action"
  shows "route q = Inr RouteAction" "hq_Path q = hq_EscapedPath q"
proof -
  have e: "PathEscape n = n" by (simp add: PathEscape_plain nameOk_unreserved assms(1))
  define segs where "segs = [''v1'', ''schedules'', n, action]"
  have path: "hq_EscapedPath q = ''/'' @ Join segs ''/''" by (simp add: assms(5) e segs_def)
  have len: "segs \<noteq> [''v1'', ''schedules'']" "segs \<noteq> [''v1'', ''runs'', ''clear'']"
    "segs @ [[]] \<noteq> [''v1'', ''schedules'']" "segs @ [[]] \<noteq> [''v1'', ''runs'', ''clear'']"
    by (auto simp: segs_def)
  show "route q = Inr RouteAction"
  proof (rule route_plain [OF path])
    show "list_all (\<lambda>s. s \<noteq> [] \<and> s \<noteq> ''.'' \<and> s \<noteq> ''..'' \<and> CHR ''/'' \<notin> set s \<and> CHR ''%'' \<notin> set s) segs"
      using nameOk_segment [OF assms(1,2)] assms(3) by (auto simp: segs_def)
    show "find (matches (hq_Method q) segs) patterns = Some (''POST'', [''v1'', ''schedules''], True, RouteAction)"
      unfolding assms(4) by (simp add: patterns_def matches_def len) (simp add: segs_def)
    have "find (matches ''POST'' (segs @ [[]])) patterns = Some (''POST'', [''v1'', ''schedules''], True, RouteAction)"
      by (simp add: patterns_def matches_def len) (simp add: segs_def)
    moreover have "pathSegments (''/'' @ Join segs ''/'' @ ''/'') = segs @ [[]]"
      by (rule pathSegments_slash) (use nameOk_segment [OF assms(1,2)] assms(3) in \<open>auto simp: segs_def\<close>)
    ultimately show "\<not> exactMatch (find (matches (hq_Method q) (segs @ [[]])) patterns) (''/'' @ Join segs ''/'' @ ''/'')"
      unfolding assms(4) by (simp add: exactMatch_def) (simp add: segs_def)
  qed (simp add: segs_def)
  have "CHR ''%'' \<notin> set (hq_EscapedPath q)"
    using nameOk_no_percent [OF assms(1)] assms(3) by (auto simp: assms(5) e)
  then show "hq_Path q = hq_EscapedPath q" by (simp add: hq_Path_def PathUnescape_no_percent)
qed

lemma edit_route:
  assumes "nameOk n" "n \<noteq> ''.''" "hq_Method q = ''GET''"
    and "hq_EscapedPath q = ''/schedules/'' @ PathEscape n @ ''/edit''"
  shows "route q = Inr RouteEdit" "hq_Path q = hq_EscapedPath q"
proof -
  have e: "PathEscape n = n" by (simp add: PathEscape_plain nameOk_unreserved assms(1))
  define segs where "segs = [''schedules'', n, ''edit'']"
  have path: "hq_EscapedPath q = ''/'' @ Join segs ''/''" by (simp add: assms(4) e segs_def)
  show "route q = Inr RouteEdit"
  proof (rule route_plain [OF path])
    show "list_all (\<lambda>s. s \<noteq> [] \<and> s \<noteq> ''.'' \<and> s \<noteq> ''..'' \<and> CHR ''/'' \<notin> set s \<and> CHR ''%'' \<notin> set s) segs"
      using nameOk_segment [OF assms(1,2)] by (auto simp: segs_def)
    show "find (matches (hq_Method q) segs) patterns = Some (''GET'', [''schedules''], True, RouteEdit)"
      unfolding assms(3) by (simp add: patterns_def matches_def segs_def)
    have "find (matches ''GET'' (segs @ [[]])) patterns = Some (''GET'', [''schedules''], True, RouteEdit)"
      by (simp add: patterns_def matches_def segs_def)
    moreover have "pathSegments (''/'' @ Join segs ''/'' @ ''/'') = segs @ [[]]"
      by (rule pathSegments_slash) (use nameOk_segment [OF assms(1,2)] in \<open>auto simp: segs_def\<close>)
    ultimately show "\<not> exactMatch (find (matches (hq_Method q) (segs @ [[]])) patterns) (''/'' @ Join segs ''/'' @ ''/'')"
      unfolding assms(3) by (simp add: exactMatch_def) (simp add: segs_def)
  qed (simp add: segs_def)
  have "CHR ''%'' \<notin> set (hq_EscapedPath q)"
    using nameOk_no_percent [OF assms(1)] by (simp add: assms(4) e)
  then show "hq_Path q = hq_EscapedPath q" by (simp add: hq_Path_def PathUnescape_no_percent)
qed

end
