(* ===== verification/Html.thy ===== *)
theory Html
  imports Labels Urls
begin

text \<open>
  Pages as lists of tags and texts, and what html/template and a browser make of them.  html/template
  escapes each value by the place it stands in; here the place is the constructor: an attribute value,
  a text, or an element whose content is a \<open>template.HTML\<close>, which is inserted as it is.  \<open>readHtml\<close> is
  the tokenizer of a browser for what a page can contain: tags with double-quoted attributes or
  attributes without value, texts, character references.  The round trip says that a browser finds
  the tags of the template and no others, whatever the values are.  Blanks and line ends between the
  tags of a template are left out.
\<close>

section \<open>Tags and texts\<close>

type_synonym attrs = "(string \<times> string option) list"

datatype token = Open string attrs | Close string | Chars string

text \<open>What a template consists of; \<open>Label n as m\<close> is an element whose content is a label.\<close>

datatype node = Tag string attrs | EndTag string | Txt string | Label string attrs HTML

section \<open>html/template\<close>

text \<open>The escaper of texts and of quoted attribute values escapes the plus sign, too.\<close>

definition templateChar :: "char \<Rightarrow> string" where
  "templateChar c = (if c = CHR ''+'' then ''&#43;'' else escapeChar c)"

definition templateEscape :: "string \<Rightarrow> string" where
  "templateEscape s = concat (map templateChar s)"

text \<open>The normaliser of a URL attribute, for a value within the path: reserved characters and percent
  signs of an escape stay.\<close>

definition percentLower :: "char \<Rightarrow> string" where
  "percentLower c = (let hex = (\<lambda>n. if n < 10 then char_of (48 + n) else char_of (87 + n)) in
     [CHR ''%'', hex (byte c div 16), hex (byte c mod 16)])"

fun urlNormalize :: "string \<Rightarrow> string" where
  "urlNormalize [] = []"
| "urlNormalize (c # cs) =
     (if unreserved c \<or> c \<in> set ''!#$&*+,/:;=?@[]'' then [c]
      else if c = CHR ''%'' \<and> hexPair cs \<noteq> None then [c] else percentLower c) @ urlNormalize cs"

fun printAttrs :: "attrs \<Rightarrow> string" where
  "printAttrs [] = []"
| "printAttrs ((n, None) # as) = '' '' @ n @ printAttrs as"
| "printAttrs ((n, Some v) # as) = '' '' @ n @ ''=\"'' @ templateEscape v @ ''\"'' @ printAttrs as"

definition printTag :: "string \<Rightarrow> attrs \<Rightarrow> string" where
  "printTag n as = ''<'' @ n @ printAttrs as @ ''>''"

definition printEnd :: "string \<Rightarrow> string" where
  "printEnd n = ''</'' @ n @ ''>''"

fun printNode :: "node \<Rightarrow> string" where
  "printNode (Tag n as) = printTag n as"
| "printNode (EndTag n) = printEnd n"
| "printNode (Txt s) = templateEscape s"
| "printNode (Label n as m) = printTag n as @ m @ printEnd n"

definition printHtml :: "node list \<Rightarrow> string" where
  "printHtml ns = concat (map printNode ns)"

section \<open>The browser\<close>

text \<open>The character references that html/template and a browser's serializer produce.\<close>

definition references :: "(string \<times> string) list" where
  "references = [(''#34;'', [CHR 0x22]), (''#39;'', [CHR 0x27]), (''#43;'', ''+''), (''amp;'', ''&''),
     (''lt;'', ''<''), (''gt;'', ''>''), (''nbsp;'', bytesOf [0xC2, 0xA0])]"

function decodeText :: "string \<Rightarrow> string" where
  "decodeText [] = []"
| "decodeText (c # cs) =
     (case (if c = CHR ''&'' then find (\<lambda>(p, _). HasPrefix cs p) references else None) of
        None \<Rightarrow> c # decodeText cs
      | Some (p, d) \<Rightarrow> d @ decodeText (drop (length p) cs))"
  by pat_completeness auto
termination by (relation "measure length") auto

definition tagChar :: "char \<Rightarrow> bool" where
  "tagChar c \<longleftrightarrow> c \<in> set ''abcdefghijklmnopqrstuvwxyzABCDEFGHIJKLMNOPQRSTUVWXYZ0123456789-_''"

definition valueEnd :: "string \<Rightarrow> string" where
  "valueEnd r = drop 1 (dropWhile (\<lambda>d. d \<noteq> CHR 0x22) (drop 2 r))"

lemma valueEnd_length: "length (valueEnd r) \<le> length r"
  using length_dropWhile_le [of "\<lambda>d. d \<noteq> CHR 0x22" "drop 2 r"] by (simp add: valueEnd_def)

lemma valueEnd_dropWhile_length: "length (valueEnd (dropWhile P r)) \<le> length r"
  using valueEnd_length length_dropWhile_le le_trans by blast

function readAttrs :: "string \<Rightarrow> (attrs \<times> string) option" where
  "readAttrs [] = None"
| "readAttrs (c # cs) =
     (let n = takeWhile tagChar cs; r = dropWhile tagChar cs in
      if c = CHR ''>'' then Some ([], cs)
      else if c \<noteq> CHR '' '' \<or> n = [] then None
      else if HasPrefix r ''=\"'' then
        map_option (\<lambda>(as, t). ((n, Some (decodeText (takeWhile (\<lambda>d. d \<noteq> CHR 0x22) (drop 2 r)))) # as, t))
          (readAttrs (valueEnd r))
      else map_option (\<lambda>(as, t). ((n, None) # as, t)) (readAttrs r))"
  by pat_completeness auto
termination
  by (relation "measure length") (auto simp: less_Suc_eq_le length_dropWhile_le valueEnd_dropWhile_length)

text \<open>After a start tag is read the rest is shorter, which is why the reader ends.\<close>

lemma readAttrs_length: "readAttrs s = Some (as, r) \<Longrightarrow> length r < length s"
proof (induction s arbitrary: as r rule: readAttrs.induct)
  case (2 c cs)
  define d where "d = dropWhile tagChar cs"
  have d: "length d \<le> length cs" "length (valueEnd d) \<le> length cs"
    by (simp_all add: d_def length_dropWhile_le valueEnd_dropWhile_length)
  consider "r = cs" | t bs where "length t \<le> length cs" "readAttrs t = Some (bs, r)" "length r < length t"
    using 2 d unfolding readAttrs.simps(2) Let_def d_def [symmetric] by (auto split: if_splits)
  then show ?case by cases simp_all
qed simp

function readHtml :: "string \<Rightarrow> token list option" where
  "readHtml [] = Some []"
| "readHtml (c # cs) =
     (let n = takeWhile tagChar cs; r = dropWhile tagChar cs in
      if c \<noteq> CHR ''<''
      then map_option (Cons (Chars (decodeText (takeWhile (\<lambda>c. c \<noteq> CHR ''<'') (c # cs)))))
             (readHtml (dropWhile (\<lambda>c. c \<noteq> CHR ''<'') (c # cs)))
      else if HasPrefix cs ''/''
      then (let e = drop 1 cs in
            if HasPrefix (dropWhile tagChar e) ''>''
            then map_option (Cons (Close (takeWhile tagChar e))) (readHtml (drop 1 (dropWhile tagChar e))) else None)
      else (case readAttrs r of
              None \<Rightarrow> None
            | Some (as, t) \<Rightarrow> map_option (Cons (Open n as)) (readHtml t)))"
  by pat_completeness auto
termination
proof (relation "measure length", goal_cases)
  case (3 c cs n r e)
  then show ?case using length_dropWhile_le [of tagChar "drop 1 cs"] by auto
next
  case (4 c cs n r p as t)
  then show ?case using length_dropWhile_le [of tagChar cs] readAttrs_length [of r as t] by auto
qed (auto simp: less_Suc_eq_le length_dropWhile_le)

declare decodeText.simps(2) [simp del] readAttrs.simps(2) [simp del] readHtml.simps(2) [simp del]

text \<open>What a browser shows of a text: html/template replaces NUL.\<close>

definition visible :: "string \<Rightarrow> string" where
  "visible s = concat (map (\<lambda>c. if byte c = 0 then bytesOf [0xEF, 0xBF, 0xBD] else [c]) s)"

lemma visible_append [simp]: "visible (s @ t) = visible s @ visible t"
  by (simp add: visible_def)

lemma visible_id [simp]: "CHR 0x00 \<notin> set s \<Longrightarrow> visible s = s"
proof (induction s)
  case (Cons c s)
  then have "byte c \<noteq> 0" using byte_inject [of c "CHR 0x00"] by (auto simp: byte_def)
  then show ?case using Cons by (simp add: visible_def)
qed (simp add: visible_def)

fun mergeTexts :: "token list \<Rightarrow> token list" where
  "mergeTexts [] = []"
| "mergeTexts (Chars s # ts) =
     (case mergeTexts ts of Chars t # us \<Rightarrow> Chars (s @ t) # us
      | us \<Rightarrow> if s = [] then us else Chars s # us)"
| "mergeTexts (t # ts) = t # mergeTexts ts"

definition viewAttr :: "string \<times> string option \<Rightarrow> string \<times> string option" where
  "viewAttr a = (fst a, map_option visible (snd a))"

definition labelTokens :: "HTML \<Rightarrow> token list" where
  "labelTokens m = (case readHtml m of None \<Rightarrow> [] | Some ts \<Rightarrow> ts)"

fun viewNode :: "node \<Rightarrow> token list" where
  "viewNode (Tag n as) = [Open n (map viewAttr as)]"
| "viewNode (EndTag n) = [Close n]"
| "viewNode (Txt s) = [Chars (visible s)]"
| "viewNode (Label n as m) = Open n (map viewAttr as) # labelTokens m @ [Close n]"

definition viewHtml :: "node list \<Rightarrow> token list" where
  "viewHtml ns = mergeTexts (concat (map viewNode ns))"

section \<open>Reading what was printed\<close>

definition nameWord :: "string \<Rightarrow> bool" where
  "nameWord n \<longleftrightarrow> n \<noteq> [] \<and> list_all tagChar n"

fun nodeOk :: "node \<Rightarrow> bool" where
  "nodeOk (Tag n as) = (nameWord n \<and> list_all (\<lambda>a. nameWord (fst a)) as)"
| "nodeOk (EndTag n) = nameWord n"
| "nodeOk (Txt s) = True"
| "nodeOk (Label n as m) = (nameWord n \<and> list_all (\<lambda>a. nameWord (fst a)) as \<and> labelMarkup m)"

lemma templateChar_cases:
  "byte c = 0 \<and> templateChar c = bytesOf [0xEF, 0xBF, 0xBD] \<or> (\<exists>p. (p, [c]) \<in> set references \<and> templateChar c = CHR ''&'' # p) \<or>
   byte c \<noteq> 0 \<and> [c] \<notin> snd ` set references \<and> templateChar c = [c]"
proof (cases "byte c \<in> {0, 34, 38, 39, 43, 60, 62}")
  case True
  moreover have "byte ` {CHR 0x00, CHR 0x22, CHR ''&'', CHR 0x27, CHR ''+'', CHR ''<'', CHR ''>''} = {0, 34, 38, 39, 43, 60, 62}"
    by (simp add: byte_def)
  ultimately have "byte c \<in> byte ` {CHR 0x00, CHR 0x22, CHR ''&'', CHR 0x27, CHR ''+'', CHR ''<'', CHR ''>''}" by simp
  then have "c \<in> {CHR 0x00, CHR 0x22, CHR ''&'', CHR 0x27, CHR ''+'', CHR ''<'', CHR ''>''}" by (auto simp only: image_iff byte_inject)
  then show ?thesis by (elim insertE emptyE; simp add: templateChar_def escapeChar_def references_def byte_def)
next
  case False
  then have "[c] \<notin> snd ` set references" "c \<noteq> CHR ''+''" by (auto simp: references_def byte_def bytesOf_def)
  then show ?thesis using False by (simp add: templateChar_def escapeChar_def)
qed

lemma references_find:
  "(p, d) \<in> set references \<Longrightarrow> find (\<lambda>(q, _). HasPrefix (p @ r) q) references = Some (p, d)"
  unfolding references_def by (simp add: HasPrefix_def) (elim disjE conjE; simp)

lemma decodeText_nonempty: "decodeText (c # cs) \<noteq> []"
proof -
  have "(p, []) \<notin> set references" for p by (simp add: references_def bytesOf_def)
  then have "find (\<lambda>(q, _). HasPrefix cs q) references \<noteq> Some (p, [])" for p by (auto dest: find_SomeD)
  then show ?thesis by (auto simp: decodeText.simps(2) split: option.split)
qed

lemma decodeText_templateChar: "decodeText (templateChar c @ r) = visible [c] @ decodeText r"
  using templateChar_cases [of c]
proof (elim disjE exE conjE)
  fix p assume "(p, [c]) \<in> set references" "templateChar c = CHR ''&'' # p"
  moreover from this have "byte c \<noteq> 0" by (auto simp: references_def byte_def bytesOf_def)
  ultimately show ?thesis using references_find by (simp add: visible_def decodeText.simps(2))
next
  assume "[c] \<notin> snd ` set references" "byte c \<noteq> 0" "templateChar c = [c]"
  then show ?thesis by (auto simp: visible_def references_def decodeText.simps(2))
qed (simp add: visible_def bytesOf_def char_of_def decodeText.simps(2))

lemma decodeText_escape: "decodeText (templateEscape s @ r) = visible s @ decodeText r"
  by (induction s) (simp_all add: templateEscape_def visible_def decodeText_templateChar [unfolded visible_def])

lemma templateChar_inert: "templateChar c \<noteq> []" "CHR ''<'' \<notin> set (templateChar c)" "CHR 0x22 \<notin> set (templateChar c)"
  using templateChar_cases [of c] by (auto simp: bytesOf_def char_of_def references_def)

lemma templateEscape_inert: "CHR ''<'' \<notin> set (templateEscape s)" "CHR 0x22 \<notin> set (templateEscape s)"
  by (auto simp: templateEscape_def templateChar_inert)

lemma templateEscape_Nil [simp]: "templateEscape s = [] \<longleftrightarrow> s = []"
  by (cases s) (simp_all add: templateEscape_def templateChar_inert)

lemma takeWhile_word:
  assumes "nameWord n" "r \<noteq> []" "\<not> tagChar (hd r)"
  shows "takeWhile tagChar (n @ r) = n" "dropWhile tagChar (n @ r) = r"
  using assms by (cases r; simp add: nameWord_def list_all_iff)+

lemma takeWhile_quote:
  assumes "CHR 0x22 \<notin> set v"
  shows "takeWhile (\<lambda>d. d \<noteq> CHR 0x22) (v @ CHR 0x22 # r) = v" "dropWhile (\<lambda>d. d \<noteq> CHR 0x22) (v @ CHR 0x22 # r) = CHR 0x22 # r"
  using assms by (induction v) auto

fun printRaw :: "attrs \<Rightarrow> string" where
  "printRaw [] = []"
| "printRaw ((n, None) # as) = '' '' @ n @ printRaw as"
| "printRaw ((n, Some v) # as) = '' '' @ n @ ''=\"'' @ v @ ''\"'' @ printRaw as"

definition rawAttr :: "string \<times> string option \<Rightarrow> bool" where
  "rawAttr a \<longleftrightarrow> nameWord (fst a) \<and> (case snd a of None \<Rightarrow> True | Some v \<Rightarrow> CHR 0x22 \<notin> set v)"

lemma printRaw_hd: "hd (printRaw as @ CHR ''>'' # r) \<in> {CHR '' '', CHR ''>''}" "printRaw as @ CHR ''>'' # r \<noteq> []"
  by (cases as rule: printRaw.cases; simp)+

lemma readAttrs_raw:
  "list_all rawAttr as \<Longrightarrow>
    readAttrs (printRaw as @ CHR ''>'' # r) = Some (map (\<lambda>(n, v). (n, map_option decodeText v)) as, r)"
proof (induction as rule: printRaw.induct)
  case 1
  then show ?case by (simp add: readAttrs.simps(2))
next
  case (2 n as)
  have w: "nameWord n" using 2 by (simp add: rawAttr_def)
  have h: "hd (printRaw as @ CHR ''>'' # r) \<in> {CHR '' '', CHR ''>''}" "printRaw as @ CHR ''>'' # r \<noteq> []"
    using printRaw_hd by blast+
  have "\<not> tagChar (hd (printRaw as @ CHR ''>'' # r))" using h(1) by (auto simp: tagChar_def)
  moreover have "\<not> HasPrefix (printRaw as @ CHR ''>'' # r) ''=\"''"
    using h by (cases "printRaw as @ CHR ''>'' # r") (auto simp: HasPrefix_def)
  ultimately show ?case
    using 2 w h takeWhile_word [OF w h(2)] by (simp add: readAttrs.simps(2) nameWord_def)
next
  case (3 n v as)
  have w: "nameWord n" and q: "CHR 0x22 \<notin> set v" using 3 by (auto simp: rawAttr_def)
  let ?r = "''=\"'' @ v @ ''\"'' @ printRaw as @ CHR ''>'' # r"
  have "?r \<noteq> []" "\<not> tagChar (hd ?r)" by (simp_all add: tagChar_def)
  note n = takeWhile_word [OF w this]
  have "valueEnd ?r = printRaw as @ CHR ''>'' # r" by (simp add: valueEnd_def takeWhile_quote [OF q])
  moreover have "takeWhile (\<lambda>d. d \<noteq> CHR 0x22) (drop 2 ?r) = v" by (simp add: takeWhile_quote [OF q])
  moreover have "HasPrefix ?r ''=\"''" by (simp add: HasPrefix_def)
  ultimately show ?case
    using 3 w n by (simp add: readAttrs.simps(2) nameWord_def)
qed

lemma printAttrs_raw: "printAttrs as = printRaw (map (\<lambda>(n, v). (n, map_option templateEscape v)) as)"
  by (induction as rule: printAttrs.induct) simp_all

lemma decodeText_whole: "decodeText (templateEscape s) = visible s"
  using decodeText_escape [of s "[]"] by simp

lemma readAttrs_printed:
  assumes "list_all (\<lambda>a. nameWord (fst a)) as"
  shows "readAttrs (printAttrs as @ CHR ''>'' # r) = Some (map viewAttr as, r)"
proof -
  have "list_all rawAttr (map (\<lambda>(n, v). (n, map_option templateEscape v)) as)"
    using assms by (auto simp: rawAttr_def list_all_iff templateEscape_inert split: option.split)
  note readAttrs_raw [OF this, of r]
  moreover have "(\<lambda>(n, v). (n, map_option decodeText v)) \<circ> (\<lambda>(n, v). (n, map_option templateEscape v)) = viewAttr"
    by (auto simp: viewAttr_def fun_eq_iff option.map_comp comp_def decodeText_whole)
  ultimately show ?thesis by (simp add: printAttrs_raw)
qed

text \<open>One piece in front of a rest.\<close>

lemma readHtml_open:
  assumes "nameWord n" "list_all rawAttr as"
  shows "readHtml (''<'' @ n @ printRaw as @ ''>'' @ r) =
    map_option (Cons (Open n (map (\<lambda>(n, v). (n, map_option decodeText v)) as))) (readHtml r)"
proof -
  have h: "hd (printRaw as @ CHR ''>'' # r) \<in> {CHR '' '', CHR ''>''}" "printRaw as @ CHR ''>'' # r \<noteq> []"
    using printRaw_hd by blast+
  then have "\<not> tagChar (hd (printRaw as @ CHR ''>'' # r))" by (auto simp: tagChar_def)
  note w = takeWhile_word [OF assms(1) h(2) this]
  have "\<not> HasPrefix (n @ printRaw as @ CHR ''>'' # r) ''/''"
    using assms(1) by (cases n) (auto simp: nameWord_def HasPrefix_def tagChar_def)
  then show ?thesis by (simp add: readHtml.simps(2) w readAttrs_raw [OF assms(2)])
qed

lemma readHtml_tag:
  assumes "nameWord n" "list_all (\<lambda>a. nameWord (fst a)) as"
  shows "readHtml (printTag n as @ r) = map_option (Cons (Open n (map viewAttr as))) (readHtml r)"
proof -
  have "list_all rawAttr (map (\<lambda>(n, v). (n, map_option templateEscape v)) as)"
    using assms(2) by (auto simp: rawAttr_def list_all_iff templateEscape_inert split: option.split)
  note readHtml_open [OF assms(1) this, of r]
  moreover have "(\<lambda>(n, v). (n, map_option decodeText v)) \<circ> (\<lambda>(n, v). (n, map_option templateEscape v)) = viewAttr"
    by (auto simp: viewAttr_def fun_eq_iff option.map_comp comp_def decodeText_whole)
  ultimately show ?thesis by (simp add: printTag_def printAttrs_raw)
qed

lemma readHtml_end:
  assumes "nameWord n"
  shows "readHtml (printEnd n @ r) = map_option (Cons (Close n)) (readHtml r)"
proof -
  have "takeWhile tagChar (n @ CHR ''>'' # r) = n" "dropWhile tagChar (n @ CHR ''>'' # r) = CHR ''>'' # r"
    using takeWhile_word [OF assms, of "CHR ''>'' # r"] by (simp_all add: tagChar_def)
  then show ?thesis by (simp add: readHtml.simps(2) printEnd_def HasPrefix_def)
qed

definition startsTag :: "string \<Rightarrow> bool" where
  "startsTag r \<longleftrightarrow> r = [] \<or> hd r = CHR ''<''"

lemma readHtml_text:
  assumes "CHR ''<'' \<notin> set t" "t \<noteq> []" "startsTag r"
  shows "readHtml (t @ r) = map_option (Cons (Chars (decodeText t))) (readHtml r)"
proof -
  obtain c t' where t: "t = c # t'" using assms(2) by (cases t) simp_all
  have "takeWhile (\<lambda>c. c \<noteq> CHR ''<'') (t' @ r) = t'" "dropWhile (\<lambda>c. c \<noteq> CHR ''<'') (t' @ r) = r"
    using assms(1,3) unfolding t by (induction t') (cases r; auto simp: startsTag_def)+
  then show ?thesis using assms(1) by (auto simp: t readHtml.simps(2))
qed

definition addText :: "string \<Rightarrow> token list \<Rightarrow> token list" where
  "addText s ts = (case ts of Chars t # us \<Rightarrow> Chars (s @ t) # us | _ \<Rightarrow> if s = [] then ts else Chars s # ts)"

lemma mergeTexts_Chars: "mergeTexts (Chars s # ts) = addText s (mergeTexts ts)"
  by (simp add: addText_def split: list.split token.split)

lemma readHtml_head:
  assumes "hd r = CHR ''<''" "r \<noteq> []" "readHtml r = Some ts"
  shows "addText s ts = (if s = [] then ts else Chars s # ts)"
  using assms by (cases r) (auto simp: readHtml.simps(2) Let_def addText_def split: if_splits option.splits)

lemma addText_Nil [simp]: "addText [] ts = ts"
  by (simp add: addText_def split: list.split token.split)

lemma map_option_prepend [simp]:
  "map_option ((@) []) x = x" "map_option ((@) [t]) x = map_option (Cons t) x" "map_option (addText []) y = y"
  by (cases x; cases y; simp)+

lemma readHtml_escape:
  "readHtml (templateEscape s @ u) = map_option (addText (visible s)) (readHtml u)"
proof -
  define x where "x = takeWhile (\<lambda>c. c \<noteq> CHR ''<'') u"
  define y where "y = dropWhile (\<lambda>c. c \<noteq> CHR ''<'') u"
  have u: "u = x @ y" by (simp add: x_def y_def)
  have x: "CHR ''<'' \<notin> set x" by (auto simp: x_def dest: set_takeWhileD)
  have y: "startsTag y" using hd_dropWhile [of "\<lambda>c. c \<noteq> CHR ''<''" u] by (auto simp: startsTag_def y_def)
  have v: "visible s = [] \<longleftrightarrow> s = []" by (cases s) (simp_all add: visible_def bytesOf_def)
  consider "s = []" | "s \<noteq> []" "x = []" | "s \<noteq> []" "x \<noteq> []" by blast
  then show ?thesis
  proof cases
    case 1
    then show ?thesis by (simp add: templateEscape_def visible_def)
  next
    case 2
    have "readHtml (templateEscape s @ y) = map_option (Cons (Chars (visible s))) (readHtml y)"
      using readHtml_text [OF templateEscape_inert(1) _ y, of s] 2 by (simp add: decodeText_whole)
    moreover have "addText (visible s) ts = Chars (visible s) # ts" if "readHtml y = Some ts" for ts
      using that y readHtml_head [of y ts "visible s"] 2 v by (cases "y = []") (auto simp: startsTag_def addText_def)
    ultimately show ?thesis using 2 u by (cases "readHtml y") simp_all
  next
    case 3
    have "readHtml (x @ y) = map_option (Cons (Chars (decodeText x))) (readHtml y)"
      using readHtml_text [OF x _ y] 3 by simp
    moreover have "readHtml ((templateEscape s @ x) @ y) = map_option (Cons (Chars (visible s @ decodeText x))) (readHtml y)"
      using readHtml_text [OF _ _ y, of "templateEscape s @ x"] x templateEscape_inert 3 by (simp add: decodeText_escape)
    ultimately show ?thesis using u by (cases "readHtml y") (simp_all add: addText_def)
  qed
qed

section \<open>Labels\<close>

text \<open>What a label can put into a page: texts, and spans with the attributes of labels.\<close>

fun labelToken :: "token \<Rightarrow> bool" where
  "labelToken (Open n as) = (n = ''span'' \<and> fst ` set as \<subseteq> insert ''hidden'' (set labelAttributes))"
| "labelToken (Close n) = (n = ''span'')"
| "labelToken (Chars s) = True"

text \<open>Every element is closed further on.\<close>

fun allClosed :: "token list \<Rightarrow> bool" where
  "allClosed [] = True"
| "allClosed (Open n as # ts) = (Close n \<in> set ts \<and> allClosed ts)"
| "allClosed (t # ts) = allClosed ts"

lemma allClosed_append: "allClosed ts \<Longrightarrow> allClosed us \<Longrightarrow> allClosed (ts @ us)"
  by (induction ts rule: allClosed.induct) simp_all

datatype piece = Plain string | Span "(string \<times> string) list" bool string

fun printPiece :: "piece \<Rightarrow> HTML" where
  "printPiece (Plain s) = s"
| "printPiece (Span as hidden body) = spanElement as hidden body"

fun pieceOk :: "piece \<Rightarrow> bool" where
  "pieceOk (Plain s) = plainText s"
| "pieceOk (Span as hidden body) = (attributesOk as \<and> plainText body)"

lemma labelMarkup_pieces: "labelMarkup m \<Longrightarrow> \<exists>ps. m = concat (map printPiece ps) \<and> list_all pieceOk ps"
proof (induction rule: labelMarkup.induct)
  case (plain s)
  then show ?case by (intro exI [of _ "[Plain s]"]) simp
next
  case (span as body hidden)
  then show ?case by (intro exI [of _ "[Span as hidden body]"]) simp
next
  case (seq s t)
  then obtain ps qs where "s = concat (map printPiece ps) \<and> list_all pieceOk ps" "t = concat (map printPiece qs) \<and> list_all pieceOk qs"
    by blast
  then show ?case by (intro exI [of _ "ps @ qs"]) simp
qed

lemma plainText_inert: "plainText s \<Longrightarrow> CHR ''<'' \<notin> set s" "plainText s \<Longrightarrow> CHR 0x22 \<notin> set s"
  by (auto simp: plainText_def list_all_iff byte_def)

definition spanAttrs :: "(string \<times> string) list \<Rightarrow> bool \<Rightarrow> attrs" where
  "spanAttrs as hidden = map (\<lambda>(n, v). (n, Some v)) as @ (if hidden then [(''hidden'', None)] else [])"

lemma spanElement_raw:
  "spanElement as hidden body = ''<'' @ ''span'' @ printRaw (spanAttrs as hidden) @ ''>'' @ body @ printEnd ''span''"
proof -
  have "attributes as @ (if hidden then '' hidden'' else []) = printRaw (spanAttrs as hidden)"
    by (induction as rule: attributes.induct) (simp_all add: spanAttrs_def)
  then show ?thesis by (simp add: spanElement_def printEnd_def)
qed

lemma labelAttributes_words: "list_all nameWord (''span'' # ''hidden'' # labelAttributes)"
  by code_simp

lemma spanAttrs_raw: "attributesOk as \<Longrightarrow> list_all rawAttr (spanAttrs as hidden)"
  using labelAttributes_words plainText_inert(2)
  by (auto simp: spanAttrs_def attributesOk_def rawAttr_def list_all_iff)

definition yields :: "string \<Rightarrow> token list \<Rightarrow> bool" where
  "yields m ts \<longleftrightarrow> list_all labelToken ts \<and> allClosed ts \<and> (\<forall>r. startsTag r \<longrightarrow> readHtml (m @ r) = map_option ((@) ts) (readHtml r))"

lemma yields_plain: "plainText x \<Longrightarrow> \<exists>ts. yields x ts"
proof (cases "x = []")
  case True
  then show ?thesis by (intro exI [of _ "[]"]) (simp add: yields_def)
next
  case False
  moreover assume "plainText x"
  ultimately show ?thesis using readHtml_text plainText_inert
    by (intro exI [of _ "[Chars (decodeText x)]"]) (simp add: yields_def fun_eq_iff)
qed

lemma map_option_append: "map_option ((@) ts) (map_option ((@) us) x) = map_option ((@) (ts @ us)) x"
  "map_option (Cons t) (map_option ((@) us) x) = map_option ((@) (t # us)) x"
  by (cases x; simp)+

lemma yields_append:
  assumes "yields m ts" "yields m' us" "startsTag m'"
  shows "yields (m @ m') (ts @ us)"
  using assms by (cases m') (auto simp: yields_def startsTag_def map_option_append allClosed_append simp del: option.map_comp)

text \<open>A tag is read whatever follows.\<close>

lemma yields_tag:
  assumes "\<And>r. readHtml (m @ r) = map_option (Cons t) (readHtml r)" "labelToken t" "yields m' ts" "allClosed (t # ts)"
  shows "yields (m @ m') (t # ts)"
  using assms by (auto simp: yields_def map_option_append simp del: option.map_comp)

lemma yields_span:
  assumes "attributesOk as" "plainText body" "yields m ts"
  shows "\<exists>us. yields (spanElement as hidden body @ m) us"
proof -
  obtain tb where b: "yields body tb" using yields_plain assms(2) by blast
  have w: "nameWord ''span''" using labelAttributes_words by simp
  have "yields (printEnd ''span'' @ m) (Close ''span'' # ts)"
    by (rule yields_tag [OF readHtml_end [OF w] _ assms(3)]) (use assms(3) in \<open>simp_all add: yields_def\<close>)
  then have "yields (body @ printEnd ''span'' @ m) (tb @ Close ''span'' # ts)"
    by (rule yields_append [OF b]) (simp add: startsTag_def printEnd_def)
  moreover have "readHtml ((''<span'' @ printRaw (spanAttrs as hidden) @ ''>'') @ r) =
      map_option (Cons (Open ''span'' (map (\<lambda>(n, v). (n, map_option decodeText v)) (spanAttrs as hidden)))) (readHtml r)" for r
    using readHtml_open [OF w spanAttrs_raw [OF assms(1)], of hidden r] by simp
  moreover have "labelToken (Open ''span'' (map (\<lambda>(n, v). (n, map_option decodeText v)) (spanAttrs as hidden)))"
    using assms(1) by (auto simp: spanAttrs_def attributesOk_def list_all_iff)
  ultimately have "yields ((''<span'' @ printRaw (spanAttrs as hidden) @ ''>'') @ body @ printEnd ''span'' @ m)
      (Open ''span'' (map (\<lambda>(n, v). (n, map_option decodeText v)) (spanAttrs as hidden)) # tb @ Close ''span'' # ts)"
    by (intro yields_tag) (auto simp: yields_def)
  then show ?thesis by (auto simp: spanElement_raw)
qed

lemma yields_pieces: "list_all pieceOk ps \<Longrightarrow> plainText x \<Longrightarrow> \<exists>ts. yields (x @ concat (map printPiece ps)) ts"
proof (induction ps arbitrary: x)
  case Nil
  then show ?case using yields_plain by simp
next
  case (Cons p ps)
  show ?case
  proof (cases p)
    case (Plain s)
    then show ?thesis using Cons.IH [of "x @ s"] Cons.prems by simp
  next
    case (Span as hidden body)
    obtain ts where ts: "yields (concat (map printPiece ps)) ts" using Cons.IH [of "[]"] Cons.prems by auto
    obtain tx where "yields x tx" using yields_plain Cons.prems by auto
    moreover have "attributesOk as" "plainText body" using Cons.prems Span by simp_all
    then obtain us where "yields (spanElement as hidden body @ concat (map printPiece ps)) us"
      using yields_span ts by blast
    moreover have "startsTag (spanElement as hidden body @ concat (map printPiece ps))"
      by (simp add: startsTag_def spanElement_def)
    ultimately show ?thesis using yields_append Span by fastforce
  qed
qed

text \<open>A label reads as its tokens wherever a tag follows.\<close>

lemma readHtml_label:
  assumes "labelMarkup m"
  shows "list_all labelToken (labelTokens m)" "startsTag r \<Longrightarrow> readHtml (m @ r) = map_option ((@) (labelTokens m)) (readHtml r)"
    "allClosed (labelTokens m)"
proof -
  obtain ts where "yields m ts" using labelMarkup_pieces [OF assms] yields_pieces [of _ "[]"] by fastforce
  moreover from this have "readHtml m = Some ts" unfolding yields_def startsTag_def by (metis append_Nil2 option.map(2) readHtml.simps(1))
  ultimately show "list_all labelToken (labelTokens m)" "startsTag r \<Longrightarrow> readHtml (m @ r) = map_option ((@) (labelTokens m)) (readHtml r)"
    "allClosed (labelTokens m)"
    by (simp_all add: labelTokens_def yields_def)
qed

section \<open>Pages\<close>

lemma mergeTexts_Close: "mergeTexts (us @ Close n # ts) = mergeTexts us @ Close n # mergeTexts ts"
  by (induction us rule: mergeTexts.induct) (auto simp: list.case_eq_if split: token.split list.split)

lemma readHtml_merged: "readHtml s = Some ts \<Longrightarrow> mergeTexts ts = ts"
proof (induction s arbitrary: ts rule: readHtml.induct)
  case (2 c cs)
  show ?case
  proof (cases "c = CHR ''<''")
    case True
    then show ?thesis using 2 by (auto simp: readHtml.simps(2) Let_def split: if_splits option.splits)
  next
    case False
    let ?t = "takeWhile (\<lambda>c. c \<noteq> CHR ''<'') (c # cs)" and ?r = "dropWhile (\<lambda>c. c \<noteq> CHR ''<'') (c # cs)"
    obtain us where us: "readHtml ?r = Some us" "ts = Chars (decodeText ?t) # us"
      using "2.prems" False unfolding readHtml.simps(2) Let_def by auto
    moreover have "mergeTexts us = us" using 2 False us(1) by simp
    moreover have "addText (decodeText ?t) us = Chars (decodeText ?t) # us"
    proof -
      have d: "decodeText ?t \<noteq> []" using False decodeText_nonempty by simp
      have "startsTag ?r" using hd_dropWhile [of "\<lambda>c. c \<noteq> CHR ''<''" "c # cs"] by (auto simp: startsTag_def)
      then show ?thesis using readHtml_head [of ?r us] us(1) d by (cases "?r = []") (auto simp: startsTag_def addText_def)
    qed
    ultimately show ?thesis by (simp add: mergeTexts_Chars del: mergeTexts.simps(2))
  qed
qed simp

lemma readHtml_node:
  assumes "nodeOk nd" "readHtml r = Some (mergeTexts ts)"
  shows "readHtml (printNode nd @ r) = Some (mergeTexts (viewNode nd @ ts))"
proof (cases nd)
  case (Label n as m)
  have t: "readHtml (printEnd n @ r) = Some (Close n # mergeTexts ts)"
    using assms Label by (simp add: readHtml_end)
  have "startsTag (printEnd n @ r)" by (simp add: startsTag_def printEnd_def)
  then have "readHtml (m @ printEnd n @ r) = Some (labelTokens m @ Close n # mergeTexts ts)"
    using readHtml_label(2) [of m "printEnd n @ r"] t assms Label by simp
  then have "readHtml (printNode nd @ r) = Some (Open n (map viewAttr as) # labelTokens m @ Close n # mergeTexts ts)"
    using assms Label by (simp add: readHtml_tag)
  moreover have "mergeTexts (labelTokens m) = labelTokens m"
    using readHtml_merged [of m] by (simp add: labelTokens_def split: option.split)
  ultimately show ?thesis by (simp add: Label mergeTexts_Close)
qed (use assms in \<open>simp_all add: readHtml_tag readHtml_end readHtml_escape mergeTexts_Chars del: mergeTexts.simps(2)\<close>)

theorem readHtml_printHtml: "list_all nodeOk ns \<Longrightarrow> readHtml (printHtml ns) = Some (viewHtml ns)"
proof (induction ns)
  case (Cons nd ns)
  then show ?case using readHtml_node [of nd "printHtml ns" "concat (map viewNode ns)"]
    by (simp add: printHtml_def viewHtml_def)
qed (simp add: printHtml_def viewHtml_def)

end
