(* ===== verification/FormFields.thy ===== *)
theory FormFields
  imports Server Html
begin

text \<open>
  The edit forms of internal/server/http.go as a browser with scripts submits them untouched.  In the
  template \<open>schedule_form\<close> the fields of the chosen timing and of the HTTP target are sent, those of
  the other panels are disabled; \<open>faktory_form\<close> sends all it has.  The properties say what of a job
  survives this.
\<close>

section \<open>Controls of a form\<close>

text \<open>A one-line input drops line ends; a select without a selected option sends its first.\<close>

definition textInput :: "string \<Rightarrow> string" where
  "textInput s = filter (\<lambda>c. c \<noteq> newline \<and> c \<noteq> carriageReturn) (visible s)"

definition selectInput :: "string list \<Rightarrow> string \<Rightarrow> string" where
  "selectInput options current = visible (if current \<in> set options then current else hd options)"

definition methodOptions :: "string list" where
  "methodOptions = [''POST'', ''PUT'', ''PATCH'', ''GET'']"

definition unitOptions :: "string list" where
  "unitOptions = [''minutes'', ''hours'', ''days'']"

section \<open>The form of HTTP jobs\<close>

text \<open>\<open>dateInput\<close> is what an input of type \<open>datetime-local\<close> makes of its value.\<close>

definition jobFields :: "FormPage \<Rightarrow> Values" where
  "jobFields d = (let s = fp_Schedule d in
     [(''original_name'', visible (fp_OriginalName d)), (''name'', textInput (sc_Name s)),
      (''timeout'', textInput (DurationString (sc_Timeout s))), (''description'', textInput (sc_Description s)),
      (''allow_concurrent_runs'', if AllowsConcurrentRuns s then ''true'' else ''false'')])"

definition scheduleTypeFields :: "FormPage \<Rightarrow> Values" where
  "scheduleTypeFields d = (let t = sc_ScheduleType (fp_Schedule d) in
     (if t = ''rate'' then [(''schedule_type'', ''rate'')] else if t = ''once'' then [(''schedule_type'', ''once'')]
      else if t = [] \<or> t = ''cron'' then [(''schedule_type'', ''cron'')] else []) @
     [(''timezone'', selectInput (fp_Timezones d) (sc_Timezone (fp_Schedule d)))])"

definition timingFields :: "(string \<Rightarrow> string) \<Rightarrow> FormPage \<Rightarrow> Values" where
  "timingFields dateInput d = (let s = fp_Schedule d; t = sc_ScheduleType s in
     if t = ''once'' then [(''run_at'', dateInput (visible (sc_RunAt s)))]
     else if t = [] \<or> t = ''cron'' then [(''cron'', textInput (sc_Cron s))]
     else [(''rate_interval'', Itoa (sint (sc_RateInterval s))), (''rate_unit'', selectInput unitOptions (sc_RateUnit s)),
           (''starts_at'', dateInput (visible (sc_StartsAt s)))])"

definition httpFields :: "FormPage \<Rightarrow> Values" where
  "httpFields d = (let t = sc_Target (fp_Schedule d) in
     [(''target_type'', ''http''), (''target_url'', textInput (tc_URL t)),
      (''target_method'', selectInput methodOptions (tc_Method t)),
      (''target_headers'', formLineEnds (visible (keyValues (tc_Headers t))))])"

definition scheduleFormFields :: "(string \<Rightarrow> string) \<Rightarrow> FormPage \<Rightarrow> Values" where
  "scheduleFormFields dateInput d =
     jobFields d @ scheduleTypeFields d @ timingFields dateInput d @ httpFields d"

section \<open>The form of Faktory jobs\<close>

text \<open>No field is ever disabled here, the hidden timing fields are sent, too.\<close>

definition faktoryJobFields :: "Decoders \<Rightarrow> FormPage \<Rightarrow> Values" where
  "faktoryJobFields dec d = (let s = fp_Schedule d; t = sc_Target s in
     [(''original_name'', visible (fp_OriginalName d)), (''target_type'', ''faktory''), (''timeout'', ''5s''),
      (''name'', visible (sc_Name s)),
      (''target_faktory_instance'',
        if 1 < length (fp_FaktoryInstances d) then selectInput ([] # fp_FaktoryInstances d) (tc_Instance t)
        else visible (hd (fp_FaktoryInstances d))),
      (''target_faktory_job_type'', textInput (tc_JobType t)), (''target_faktory_queue'', textInput (tc_Queue t)),
      (''description'', textInput (sc_Description s)),
      (''target_faktory_args'', formLineEnds (visible (targetJSONArgs dec t)))])"

definition faktoryTimingFields :: "(string \<Rightarrow> string) \<Rightarrow> FormPage \<Rightarrow> Values" where
  "faktoryTimingFields dateInput d = (let s = fp_Schedule d in
     [(''schedule_type'', visible (sc_ScheduleType s)), (''timezone'', selectInput (fp_Timezones d) (sc_Timezone s)),
      (''allow_concurrent_runs'', if AllowsConcurrentRuns s then ''true'' else ''false''),
      (''rate_interval'', Itoa (sint (sc_RateInterval s))), (''rate_unit'', selectInput unitOptions (sc_RateUnit s)),
      (''starts_at'', dateInput (visible (sc_StartsAt s))), (''run_at'', dateInput (visible (sc_RunAt s))),
      (''cron'', textInput (sc_Cron s))])"

definition faktoryFormFields :: "Decoders \<Rightarrow> (string \<Rightarrow> string) \<Rightarrow> FormPage \<Rightarrow> Values" where
  "faktoryFormFields dec dateInput d = faktoryJobFields dec d @ faktoryTimingFields dateInput d"

section \<open>Submitting\<close>

definition encodeForm :: "Values \<Rightarrow> string" where
  "encodeForm vs = Join (map (\<lambda>(k, v). parameter k v) vs) ''&''"

definition isForm :: "HTTPRequest \<Rightarrow> Values \<Rightarrow> bool" where
  "isForm q vs \<longleftrightarrow> hq_Method q = ''POST'' \<and> hq_EscapedPath q = ''/v1/schedules'' \<and> hq_RawQuery q = [] \<and>
     hq_Header q ''Content-Type'' = ''application/x-www-form-urlencoded'' \<and>
     hq_MediaType q = (''application/x-www-form-urlencoded'', None) \<and> hq_Body q = encodeForm vs \<and>
     length (encodeForm vs) \<le> maxFormSize"

lemma ParseQuery_Nil: "ParseQuery [] = ([], None)"
  by (simp add: ParseQuery_def)

lemma parsePiece_parameters:
  assumes "list_all (\<lambda>(k, v). list_all unreserved k) vs"
  shows "map parsePiece (map (\<lambda>(k, v). parameter k v) vs) = map Inr vs"
  using assms by (induction vs) (auto simp: parameter_piece)

lemma accepted_Inr: "accepted (map Inr vs) = vs"
  by (induction vs) simp_all

lemma firstError_Inr: "firstError (map Inr vs) = None"
  by (induction vs) simp_all

lemma ParseQuery_encodeForm:
  assumes "list_all (\<lambda>(k, v). list_all unreserved k) vs" "vs \<noteq> []"
  shows "ParseQuery (encodeForm vs) = (vs, None)"
proof -
  have "Split (encodeForm vs) CHR ''&'' = map (\<lambda>(k, v). parameter k v) vs"
    unfolding encodeForm_def
    by (rule Split_Join) (use assms in \<open>auto simp: list_all_iff parameter_piece\<close>)
  moreover have "filter (\<lambda>p. p \<noteq> []) (map (\<lambda>(k, v). parameter k v) vs) = map (\<lambda>(k, v). parameter k v) vs"
    by (rule filter_True) auto
  ultimately show ?thesis
    unfolding ParseQuery_def Let_def
    by (simp only: parsePiece_parameters [OF assms(1)] accepted_Inr firstError_Inr) auto
qed

lemma form_scheduleFromRequest:
  assumes "isForm q vs" "list_all (\<lambda>(k, v). list_all unreserved k) vs" "vs \<noteq> []"
  shows "scheduleFromRequest dec q = scheduleFromForm vs"
proof -
  have "\<not> Contains (hq_Header q ''Content-Type'') ''application/json''"
  proof -
    have "\<not> Contains ''application/x-www-form-urlencoded'' ''application/json''" by code_simp
    then show ?thesis using assms(1) by (simp add: isForm_def)
  qed
  moreover have "ParseForm q = (vs, None)"
    using assms ParseQuery_encodeForm [OF assms(2,3)]
    by (simp add: ParseForm_def parsePostForm_def isForm_def ParseQuery_Nil)
  ultimately show ?thesis by (simp add: scheduleFromRequest_def)
qed

section \<open>The untouched form\<close>

text \<open>Texts that the controls, and the trimming of the server, leave alone.\<close>

definition inputText :: "string \<Rightarrow> bool" where
  "inputText s \<longleftrightarrow> newline \<notin> set s \<and> carriageReturn \<notin> set s \<and> CHR 0x00 \<notin> set s \<and> TrimSpace s = s"

definition formable :: "(string \<Rightarrow> string) \<Rightarrow> ScheduleConfig \<Rightarrow> bool" where
  "formable dateInput s \<longleftrightarrow>
     tc_Type (sc_Target s) = ''http'' \<and> tc_Method (sc_Target s) \<in> set methodOptions \<and>
     sc_ScheduleType s \<in> {''rate'', ''once'', ''cron''} \<and> sc_Timezone s \<noteq> [] \<and>
     inputText (sc_Name s) \<and> inputText (sc_Description s) \<and> inputText (sc_Timezone s) \<and> inputText (sc_Cron s) \<and>
     inputText (tc_URL (sc_Target s)) \<and>
     dateInput (sc_RunAt s) = sc_RunAt s \<and> inputText (sc_RunAt s) \<and>
     dateInput (sc_StartsAt s) = sc_StartsAt s \<and> inputText (sc_StartsAt s) \<and>
     (sc_ScheduleType s = ''rate'' \<longrightarrow> sc_RateUnit s \<in> set unitOptions) \<and>
     (case tc_Headers (sc_Target s) of None \<Rightarrow> True
      | Some hs \<Rightarrow> distinct (map fst hs) \<and> list_all headerOk hs \<and> CHR 0x00 \<notin> set (keyValues (Some hs)))"

text \<open>What comes back: one timing, no body, not paused, not completed.\<close>

definition resaved :: "ScheduleConfig \<Rightarrow> (string \<times> string) list option \<Rightarrow> ScheduleConfig" where
  "resaved s headers =
     zeroSchedule\<lparr>sc_Name := sc_Name s, sc_Description := sc_Description s, sc_ScheduleType := sc_ScheduleType s,
       sc_Timezone := sc_Timezone s,
       sc_Cron := (if sc_ScheduleType s = ''cron'' then sc_Cron s else []),
       sc_RunAt := (if sc_ScheduleType s = ''once'' then sc_RunAt s else []),
       sc_StartsAt := (if sc_ScheduleType s = ''rate'' then sc_StartsAt s else []),
       sc_RateInterval := (if sc_ScheduleType s = ''rate'' then sc_RateInterval s else 0),
       sc_RateUnit := (if sc_ScheduleType s = ''rate'' then sc_RateUnit s else []),
       sc_Timeout := sc_Timeout s, sc_AllowConcurrent := sc_AllowConcurrent s,
       sc_Target := zeroTarget\<lparr>tc_Type := ''http'', tc_URL := tc_URL (sc_Target s),
         tc_Method := tc_Method (sc_Target s), tc_Headers := headers\<rparr>\<rparr>"

lemma inputText_visible: "inputText s \<Longrightarrow> visible s = s"
  by (simp add: inputText_def)

lemma textInput_id: "inputText s \<Longrightarrow> textInput s = s"
  unfolding textInput_def by (subst inputText_visible, assumption, rule filter_True) (auto simp: inputText_def)

lemma inputText_trim: "inputText s \<Longrightarrow> TrimSpace s = s"
  by (simp add: inputText_def)

lemma TrimSpace_Itoa: "TrimSpace (Itoa i) = Itoa i"
proof (rule TrimSpace_id)
  have d: "isDigit c \<Longrightarrow> printable c" for c by (auto simp: isDigit_def printable_def)
  have u: "printable (hd (utoa n)) \<and> printable (last (utoa n))" for n
    using utoa_all_digits [of n] utoa_nonempty [of n] by (auto simp: list_all_iff d)
  show "Itoa i = [] \<or> printable (hd (Itoa i)) \<and> printable (last (Itoa i))"
    using u by (auto simp: Itoa_def printable_def byte_def)
qed

lemma Itoa_nonempty: "Itoa i \<noteq> []"
  by (simp add: Itoa_def)

lemma TrimSpace_constants:
  "list_all (\<lambda>s. TrimSpace s = s) ([[], ''true'', ''false'', ''http'', ''rate'', ''once'', ''cron''] @ methodOptions @ unitOptions)"
  by code_simp

lemma TrimSpace_words [simp]:
  "TrimSpace [] = []" "TrimSpace ''true'' = ''true''" "TrimSpace ''false'' = ''false''" "TrimSpace ''http'' = ''http''"
  "TrimSpace ''rate'' = ''rate''" "TrimSpace ''once'' = ''once''" "TrimSpace ''cron'' = ''cron''"
  using TrimSpace_constants by simp_all

lemma options_visible: "list_all (\<lambda>s. visible s = s) (methodOptions @ unitOptions)"
  by code_simp

lemma selectInput_trim:
  "m \<in> set methodOptions \<Longrightarrow> TrimSpace (selectInput methodOptions m) = m"
  "m \<in> set unitOptions \<Longrightarrow> TrimSpace (selectInput unitOptions m) = m"
  using TrimSpace_constants options_visible by (auto simp: selectInput_def list_all_iff)

lemma timezonesWithCurrent_mem: "z \<noteq> [] \<Longrightarrow> z \<in> set (timezonesWithCurrent z)"
  by (simp add: timezonesWithCurrent_def)

text \<open>A printed duration is such a text.\<close>

lemma DurationString_input: "inputText (DurationString d)"
proof -
  have n: "\<not> durationChar newline" "\<not> durationChar carriageReturn" "\<not> durationChar CHR 0x00" by code_simp+
  have "TrimSpace (durationString d) = durationString d"
  proof (rule TrimSpace_id)
    have "isDigit c \<Longrightarrow> printable c" for c by (auto simp: isDigit_def printable_def)
    moreover have "printable CHR ''-''" "printable CHR ''s''" by code_simp+
    ultimately show "durationString d = [] \<or> printable (hd (durationString d)) \<and> printable (last (durationString d))"
      using formatUnits_ends by (simp add: durationString_def)
  qed
  then show ?thesis using n durationString_chars [of d] by (auto simp: inputText_def DurationString_def list_all_iff)
qed

lemma DurationString_back: "TrimSpace (textInput (DurationString d)) = DurationString d"
  by (simp only: textInput_id [OF DurationString_input] inputText_trim [OF DurationString_input])

lemma ParseDuration_5s: "ParseDuration ''5s'' = Inr (5 * Second)"
  by code_simp

text \<open>The fields by name, for each timing.\<close>

lemma valuesGet_simps:
  "valuesGet [] k = []" "valuesGet ((k', v) # vs) k = (if k' = k then v else valuesGet vs k)"
  by (simp_all add: valuesGet_def)

lemmas form_field_defs = scheduleFormFields_def jobFields_def scheduleTypeFields_def timingFields_def httpFields_def Let_def

lemma fields_job:
  "valuesGet (scheduleFormFields dateInput d) ''original_name'' = visible (fp_OriginalName d)"
  "valuesGet (scheduleFormFields dateInput d) ''name'' = textInput (sc_Name (fp_Schedule d))"
  "valuesGet (scheduleFormFields dateInput d) ''timeout'' = textInput (DurationString (sc_Timeout (fp_Schedule d)))"
  "valuesGet (scheduleFormFields dateInput d) ''description'' = textInput (sc_Description (fp_Schedule d))"
  "valuesGet (scheduleFormFields dateInput d) ''allow_concurrent_runs'' =
     (if AllowsConcurrentRuns (fp_Schedule d) then ''true'' else ''false'')"
  by (simp_all add: form_field_defs valuesGet_simps)

lemma fields_http:
  "valuesGet (scheduleFormFields dateInput d) ''target_type'' = ''http''"
  "valuesGet (scheduleFormFields dateInput d) ''target_url'' = textInput (tc_URL (sc_Target (fp_Schedule d)))"
  "valuesGet (scheduleFormFields dateInput d) ''target_method'' = selectInput methodOptions (tc_Method (sc_Target (fp_Schedule d)))"
  "valuesGet (scheduleFormFields dateInput d) ''target_headers'' = formLineEnds (visible (keyValues (tc_Headers (sc_Target (fp_Schedule d)))))"
  by (simp_all add: form_field_defs valuesGet_simps)

lemma fields_timing:
  assumes "sc_ScheduleType (fp_Schedule d) \<in> {''rate'', ''once'', ''cron''}"
  shows
  "valuesGet (scheduleFormFields dateInput d) ''schedule_type'' = sc_ScheduleType (fp_Schedule d)"
  "valuesGet (scheduleFormFields dateInput d) ''timezone'' = selectInput (fp_Timezones d) (sc_Timezone (fp_Schedule d))"
  "valuesGet (scheduleFormFields dateInput d) ''cron'' =
     (if sc_ScheduleType (fp_Schedule d) = ''cron'' then textInput (sc_Cron (fp_Schedule d)) else [])"
  "valuesGet (scheduleFormFields dateInput d) ''run_at'' =
     (if sc_ScheduleType (fp_Schedule d) = ''once'' then dateInput (visible (sc_RunAt (fp_Schedule d))) else [])"
  "valuesGet (scheduleFormFields dateInput d) ''starts_at'' =
     (if sc_ScheduleType (fp_Schedule d) = ''rate'' then dateInput (visible (sc_StartsAt (fp_Schedule d))) else [])"
  "valuesGet (scheduleFormFields dateInput d) ''rate_interval'' =
     (if sc_ScheduleType (fp_Schedule d) = ''rate'' then Itoa (sint (sc_RateInterval (fp_Schedule d))) else [])"
  "valuesGet (scheduleFormFields dateInput d) ''rate_unit'' =
     (if sc_ScheduleType (fp_Schedule d) = ''rate'' then selectInput unitOptions (sc_RateUnit (fp_Schedule d)) else [])"
  using assms by (auto simp: form_field_defs valuesGet_simps)

lemma headers_back:
  assumes "case hs of None \<Rightarrow> True | Some kvs \<Rightarrow> distinct (map fst kvs) \<and> list_all headerOk kvs \<and> CHR 0x00 \<notin> set (keyValues (Some kvs))"
  shows "headerMap (parseKeyValues (formLineEnds (visible (keyValues hs)))) = headerMap hs"
proof (cases hs)
  case None
  then show ?thesis
    by (simp add: keyValues_def parseKeyValues_def headerMap_def putLine_def keyValueOfLine_def)
next
  case (Some kvs)
  then show ?thesis using parseKeyValues_keyValues [of kvs] assms by (simp add: headerMap_def)
qed

lemma untouched_form:
  assumes f: "formable dateInput (fp_Schedule d)" and o: "inputText (fp_OriginalName d)"
    and z: "fp_Timezones d = timezonesWithCurrent (sc_Timezone (fp_Schedule d))"
    and h: "headers = parseKeyValues (formLineEnds (visible (keyValues (tc_Headers (sc_Target (fp_Schedule d))))))"
  shows "scheduleFromForm (scheduleFormFields dateInput d) = Inr (resaved (fp_Schedule d) headers, fp_OriginalName d)"
    "headerMap headers = headerMap (tc_Headers (sc_Target (fp_Schedule d)))"
proof -
  define s where "s = fp_Schedule d"
  note f = f [folded s_def]
  have t: "sc_ScheduleType s \<in> {''rate'', ''once'', ''cron''}" using f by (simp add: formable_def)
  note job = fields_job [of dateInput d, folded s_def] and http = fields_http [of dateInput d, folded s_def]
    and timing = fields_timing [of d dateInput, folded s_def, OF t]
  have tz: "selectInput (fp_Timezones d) (sc_Timezone s) = sc_Timezone s"
    using f timezonesWithCurrent_mem by (simp add: selectInput_def z s_def formable_def inputText_visible)
  have timeout: "formTimeout (scheduleFormFields dateInput d) = Inr (sc_Timeout s)"
    unfolding formTimeout_def formField_def job Let_def DurationString_back s_def
    by (simp add: DurationString_def durationString_nonempty ParseDuration_String)
  have target: "formTarget (scheduleFormFields dateInput d) =
      Inr (zeroTarget\<lparr>tc_Type := ''http'', tc_URL := tc_URL (sc_Target s), tc_Method := tc_Method (sc_Target s),
             tc_Headers := headers\<rparr>)"
    using f by (simp add: formTarget_def formField_def http formable_def textInput_id inputText_trim Let_def
        selectInput_trim h s_def)
  have interval: "formRateInterval (scheduleFormFields dateInput d) =
      Inr (if sc_ScheduleType s = ''rate'' then sc_RateInterval s else 0)"
    using Atoi_Itoa [of "sint (sc_RateInterval s)"] sint_range_size [of "sc_RateInterval s"]
    by (simp add: formRateInterval_def formField_def timing Let_def TrimSpace_Itoa Itoa_nonempty word_size)
  have allow: "allowConcurrentFromForm (scheduleFormFields dateInput d) = sc_AllowConcurrent s"
    by (simp add: allowConcurrentFromForm_def formField_def job AllowsConcurrentRuns_def)
  have texts: "TrimSpace (textInput (sc_Name s)) = sc_Name s" "TrimSpace (textInput (sc_Description s)) = sc_Description s"
    "TrimSpace (textInput (sc_Cron s)) = sc_Cron s" "TrimSpace (dateInput (visible (sc_RunAt s))) = sc_RunAt s"
    "TrimSpace (dateInput (visible (sc_StartsAt s))) = sc_StartsAt s" "TrimSpace (sc_Timezone s) = sc_Timezone s"
    "sc_ScheduleType s = ''rate'' \<Longrightarrow> TrimSpace (selectInput unitOptions (sc_RateUnit s)) = sc_RateUnit s"
    using f by (simp_all add: formable_def textInput_id inputText_trim inputText_visible selectInput_trim)
  have types: "TrimSpace (sc_ScheduleType s) = sc_ScheduleType s" using t by auto
  have sched: "scheduleFromForm (scheduleFormFields dateInput d) = Inr (resaved s headers, fp_OriginalName d)"
    unfolding scheduleFromForm_def timeout target interval allow bindE_Inr
    by (simp add: formField_def job timing tz texts types inputText_visible [OF o] inputText_trim [OF o] resaved_def)
  then show "scheduleFromForm (scheduleFormFields dateInput d) = Inr (resaved (fp_Schedule d) headers, fp_OriginalName d)"
    by (simp add: s_def)
  show "headerMap headers = headerMap (tc_Headers (sc_Target (fp_Schedule d)))"
    unfolding h by (rule headers_back) (use f in \<open>simp add: formable_def s_def\<close>)
qed

lemma scheduleFormFields_keys: "list_all (\<lambda>(k, v). list_all unreserved k) (scheduleFormFields dateInput d)"
proof -
  have "list_all (list_all unreserved) [''original_name'', ''name'', ''timeout'', ''description'', ''allow_concurrent_runs'',
      ''schedule_type'', ''timezone'', ''run_at'', ''cron'', ''rate_interval'', ''rate_unit'', ''starts_at'',
      ''target_type'', ''target_url'', ''target_method'', ''target_headers'']" by code_simp
  then show ?thesis
    by (auto simp only: form_field_defs list_all_append list.pred_inject prod.case split: if_split)
qed

section \<open>The untouched form of a Faktory job\<close>

definition faktoryFormable :: "(string \<Rightarrow> string) \<Rightarrow> ScheduleConfig \<Rightarrow> bool" where
  "faktoryFormable dateInput s \<longleftrightarrow>
     tc_Type (sc_Target s) = ''faktory'' \<and> sc_ScheduleType s \<in> {''rate'', ''once'', ''cron''} \<and> sc_Timezone s \<noteq> [] \<and>
     list_all inputText [sc_Name s, sc_Description s, sc_Timezone s, sc_Cron s, sc_RunAt s, sc_StartsAt s,
       tc_Instance (sc_Target s), tc_JobType (sc_Target s), tc_Queue (sc_Target s)] \<and>
     dateInput (sc_RunAt s) = sc_RunAt s \<and> dateInput (sc_StartsAt s) = sc_StartsAt s"

text \<open>What comes back: every timing field, a timeout of five seconds, not paused, not completed.\<close>

definition resavedFaktory :: "ScheduleConfig \<Rightarrow> any list option \<Rightarrow> ScheduleConfig" where
  "resavedFaktory s args =
     zeroSchedule\<lparr>sc_Name := sc_Name s, sc_Description := sc_Description s, sc_ScheduleType := sc_ScheduleType s,
       sc_Timezone := sc_Timezone s, sc_Cron := sc_Cron s, sc_RunAt := sc_RunAt s, sc_StartsAt := sc_StartsAt s,
       sc_RateInterval := sc_RateInterval s,
       sc_RateUnit := (if sc_RateUnit s \<in> set unitOptions then sc_RateUnit s else ''minutes''),
       sc_Timeout := 5 * Second, sc_AllowConcurrent := sc_AllowConcurrent s,
       sc_Target := zeroTarget\<lparr>tc_Type := ''faktory'', tc_Instance := tc_Instance (sc_Target s),
         tc_Queue := tc_Queue (sc_Target s), tc_JobType := tc_JobType (sc_Target s), tc_Args := args\<rparr>\<rparr>"

lemma TrimSpace_faktory [simp]: "TrimSpace ''faktory'' = ''faktory''" "TrimSpace ''5s'' = ''5s''"
  by code_simp+

lemma selectInput_unit:
  "TrimSpace (selectInput unitOptions u) = (if u \<in> set unitOptions then u else ''minutes'')"
proof (cases "u \<in> set unitOptions")
  case True
  then show ?thesis using selectInput_trim(2) by simp
next
  case False
  have "TrimSpace (visible (hd unitOptions)) = ''minutes''" by code_simp
  then show ?thesis using False by (simp add: selectInput_def)
qed

lemmas faktory_field_defs = faktoryFormFields_def faktoryJobFields_def faktoryTimingFields_def Let_def valuesGet_simps

lemma untouched_faktory:
  assumes f: "faktoryFormable dateInput (fp_Schedule d)" and o: "inputText (fp_OriginalName d)"
    and z: "fp_Timezones d = timezonesWithCurrent (sc_Timezone (fp_Schedule d))"
    and i: "tc_Instance (sc_Target (fp_Schedule d)) \<in> set (fp_FaktoryInstances d)"
    and a: "parseJSONArgs (formLineEnds (visible (targetJSONArgs dec (sc_Target (fp_Schedule d))))) = Inr args"
  shows "scheduleFromForm (faktoryFormFields dec dateInput d) = Inr (resavedFaktory (fp_Schedule d) args, fp_OriginalName d)"
proof -
  define s where "s = fp_Schedule d"
  note f = f [folded s_def, unfolded faktoryFormable_def list.pred_inject]
  define v where "v = faktoryFormFields dec dateInput d"
  have inst: "(if 1 < length (fp_FaktoryInstances d) then selectInput ([] # fp_FaktoryInstances d) (tc_Instance (sc_Target s))
        else visible (hd (fp_FaktoryInstances d))) = tc_Instance (sc_Target s)"
  proof (cases "1 < length (fp_FaktoryInstances d)")
    case True
    then show ?thesis using i f by (simp add: selectInput_def s_def inputText_visible)
  next
    case False
    then have "fp_FaktoryInstances d = [tc_Instance (sc_Target s)]"
      using i by (cases "fp_FaktoryInstances d") (auto simp: s_def)
    then show ?thesis using f by (simp add: inputText_visible)
  qed
  have zone: "selectInput (fp_Timezones d) (sc_Timezone s) = sc_Timezone s"
    using f timezonesWithCurrent_mem by (simp add: selectInput_def z s_def inputText_visible)
  have texts: "formField v ''original_name'' = fp_OriginalName d" "formField v ''name'' = sc_Name s"
    "formField v ''description'' = sc_Description s" "formField v ''schedule_type'' = sc_ScheduleType s"
    "formField v ''cron'' = sc_Cron s" "formField v ''timezone'' = sc_Timezone s" "formField v ''run_at'' = sc_RunAt s"
    "formField v ''starts_at'' = sc_StartsAt s" "formField v ''timeout'' = ''5s''" "formField v ''target_type'' = ''faktory''"
    "formField v ''target_faktory_instance'' = tc_Instance (sc_Target s)" "formField v ''target_faktory_queue'' = tc_Queue (sc_Target s)"
    "formField v ''target_faktory_job_type'' = tc_JobType (sc_Target s)"
    "formField v ''rate_unit'' = (if sc_RateUnit s \<in> set unitOptions then sc_RateUnit s else ''minutes'')"
    "formField v ''rate_interval'' = Itoa (sint (sc_RateInterval s))"
    "formField v ''allow_concurrent_runs'' = (if AllowsConcurrentRuns s then ''true'' else ''false'')"
    "valuesGet v ''target_faktory_args'' = formLineEnds (visible (targetJSONArgs dec (sc_Target s)))"
    using f inst zone o
    by (auto simp: v_def formField_def faktory_field_defs s_def [symmetric] textInput_id inputText_trim inputText_visible
        selectInput_unit TrimSpace_Itoa)
  have "formTimeout v = Inr (5 * Second)" by (simp add: formTimeout_def texts ParseDuration_5s Let_def)
  moreover have "formTarget v = Inr (zeroTarget\<lparr>tc_Type := ''faktory'', tc_Instance := tc_Instance (sc_Target s),
         tc_Queue := tc_Queue (sc_Target s), tc_JobType := tc_JobType (sc_Target s), tc_Args := args\<rparr>)"
    using a by (simp add: formTarget_def texts Let_def s_def)
  moreover have "formRateInterval v = Inr (sc_RateInterval s)"
    using Atoi_Itoa [of "sint (sc_RateInterval s)"] sint_range_size [of "sc_RateInterval s"]
    by (simp add: formRateInterval_def texts Let_def Itoa_nonempty word_size)
  moreover have "allowConcurrentFromForm v = sc_AllowConcurrent s"
    by (simp add: allowConcurrentFromForm_def texts AllowsConcurrentRuns_def)
  ultimately have "scheduleFromForm v = Inr (resavedFaktory s args, fp_OriginalName d)"
    by (simp add: scheduleFromForm_def texts resavedFaktory_def)
  then show ?thesis by (simp add: v_def s_def)
qed

lemma faktoryFormFields_keys: "list_all (\<lambda>(k, v). list_all unreserved k) (faktoryFormFields dec dateInput d)"
proof -
  have "list_all (list_all unreserved) [''original_name'', ''target_type'', ''timeout'', ''name'', ''target_faktory_instance'',
      ''target_faktory_job_type'', ''target_faktory_queue'', ''description'', ''target_faktory_args'', ''schedule_type'', ''timezone'',
      ''allow_concurrent_runs'', ''rate_interval'', ''rate_unit'', ''starts_at'', ''run_at'', ''cron'']" by code_simp
  then show ?thesis
    by (simp only: faktoryFormFields_def faktoryJobFields_def faktoryTimingFields_def Let_def list_all_append list.pred_inject prod.case)
qed

end
