(* ===== verification/ServerProperties.thy ===== *)
theory ServerProperties
  imports ServerSystem FormFields EngineProperties
begin

text \<open>
  The properties of the web server: what its requests can do to the engine, which links reach which
  job, what an error or the headers of a form bring back, and which pages render.
\<close>

section \<open>A sample server\<close>

definition sampleDecoders :: Decoders where
  "sampleDecoders =
     \<lparr>dc_Payload = (\<lambda>_ _. Inl (External ''EOF'')), dc_Float = (\<lambda>l. l)\<rparr>"

definition browse :: "string \<Rightarrow> string \<Rightarrow> string \<Rightarrow> HTTPRequest" where
  "browse meth path referer = \<lparr>hq_Method = meth, hq_EscapedPath = path, hq_RawQuery = [],
     hq_Header = (\<lambda>k. if k = ''Accept'' then ''text/html'' else if k = ''Referer'' then referer else []),
     hq_MediaType = ([], None), hq_Body = []\<rparr>"

lemma browse_fields [simp]:
  "hq_Method (browse m p r) = m" "hq_EscapedPath (browse m p r) = p" "hq_Header (browse m p r) ''Referer'' = r"
  "hq_RawQuery (browse m p r) = []"
  by (simp_all add: browse_def)

section \<open>Requests and the engine\<close>

text \<open>C24: whatever request the server handles, what it does to the engine is a sequence of the engine's
  own steps, so the properties of every interleaving hold under any traffic; and only a POST changes
  anything: no link, reload, prefetch or health check runs, edits or deletes a job.\<close>

theorem requests_are_steps:
  "sysSteps env (e, T) (snd (serve env dec now ord q e), T) \<and>
   (hq_Method q \<noteq> ''POST'' \<longrightarrow> snd (serve env dec now ord q e) = e)"
  using serve_steps serve_reads by blast

theorem requests_are_steps_witness:
  "snd (serve memEnv sampleDecoders clock [''nightly''] (browse ''GET'' ''/v1/schedules/nightly/run'' []) idleEngine) = idleEngine"
  using requests_are_steps [of memEnv idleEngine _ sampleDecoders clock "[''nightly'']" "browse ''GET'' ''/v1/schedules/nightly/run'' []"]
  by simp

section \<open>Links\<close>

text \<open>For every valid name but a single dot, the mux takes the path of an action or of the edit page as it
  is, and the handler reads the name back.\<close>

lemma job_links:
  assumes "nameOk n" "n \<noteq> ''.''" "action \<in> {''run'', ''delete'', ''pause''}"
    and "hq_Method q = ''POST''" "hq_EscapedPath q = ''/v1/schedules/'' @ PathEscape n @ ''/'' @ action"
  shows "serve env dec now ord q e = apiScheduleAction env now q e" "scheduleActionFromPath (hq_Path q) = (n, action, True)"
  using action_route [OF assms] scheduleActionFromPath_name [OF assms(1,3)]
  by (simp_all only: serve_def sum.case handle_def Route.case assms(5))

lemma edit_link:
  assumes "nameOk n" "n \<noteq> ''.''" "hq_Method p = ''GET''" "hq_EscapedPath p = ''/schedules/'' @ PathEscape n @ ''/edit''"
  shows "serve env dec now ord p e = editSchedule env ord p e" "editScheduleNameFromPath (hq_Path p) = (n, True)"
  using edit_route [OF assms] editScheduleNameFromPath_name [OF assms(1)]
  by (simp_all only: serve_def sum.case handle_def Route.case assms(4))

text \<open>A single dot is a valid name of a job, but no link reaches that job: the mux cleans the path and
  redirects, to a path that is not found.  The job runs on and cannot be paused, run or deleted.\<close>

theorem dot_job_unreachable:
  "nameOk ''.'' \<and>
   serve env dec now ord (browse ''POST'' ''/v1/schedules/./run'' r) e = (ReplyRedirect ''/v1/schedules/run'' muxRedirect, e) \<and>
   serve env dec now ord (browse ''POST'' ''/v1/schedules/./pause'' r) e = (ReplyRedirect ''/v1/schedules/pause'' muxRedirect, e) \<and>
   serve env dec now ord (browse ''POST'' ''/v1/schedules/./delete'' r) e = (ReplyRedirect ''/v1/schedules/delete'' muxRedirect, e) \<and>
   serve env dec now ord (browse ''POST'' ''/v1/schedules/delete'' r) e = (jsonError 404 (External ''not found''), e)"
proof -
  have n: "nameOk ''.''" by code_simp
  have r: "route (browse m p r) = route (browse m p [])" "hq_Path (browse m p r) = hq_Path (browse m p [])" for m p
    by (unfold route_def hq_Path_def browse_fields) (rule refl)+
  have run: "route (browse ''POST'' ''/v1/schedules/./run'' []) = Inl (ReplyRedirect ''/v1/schedules/run'' muxRedirect)"
    and pause: "route (browse ''POST'' ''/v1/schedules/./pause'' []) = Inl (ReplyRedirect ''/v1/schedules/pause'' muxRedirect)"
    and delete: "route (browse ''POST'' ''/v1/schedules/./delete'' []) = Inl (ReplyRedirect ''/v1/schedules/delete'' muxRedirect)"
    and none: "route (browse ''POST'' ''/v1/schedules/delete'' []) = Inr RouteAction"
      "scheduleActionFromPath (hq_Path (browse ''POST'' ''/v1/schedules/delete'' [])) = ([], [], False)"
    by code_simp+
  show ?thesis
    by (simp add: n serve_def r [of "''POST''"] run pause delete none handle_def apiScheduleAction_def)
qed

section \<open>Errors\<close>

text \<open>The query of a location: behind the question mark, up to a fragment.\<close>

definition locationQuery :: "string \<Rightarrow> string" where
  "locationQuery loc = fst (Cut (fst (snd (Cut loc CHR ''?''))) CHR ''#'')"

lemma Contains_char: "Contains s [c] \<longleftrightarrow> c \<in> set s"
  by (induction s) (auto simp: HasPrefix_def)

lemma locationQuery_split: "CHR ''?'' \<notin> set b \<Longrightarrow> CHR ''#'' \<notin> set a \<Longrightarrow> locationQuery (b @ CHR ''?'' # a) = a"
  by (simp add: locationQuery_def Cut_first Cut_absent)

lemma error_parameter:
  "list_all unreserved ''error''" "CHR ''#'' \<notin> set (parameter ''error'' m)"
proof -
  show "list_all unreserved ''error''" by code_simp
  show "CHR ''#'' \<notin> set (parameter ''error'' m)"
    using QueryEscape_separators [of "CHR ''#''" m] by (simp add: parameter_def)
qed

lemma errorLocation_query:
  assumes "referer = (if hq_Header q ''Referer'' = [] then ''/'' else hq_Header q ''Referer'')" "CHR ''#'' \<notin> set referer"
  shows "fst (ParseQuery (locationQuery (errorLocation q err))) =
    fst (ParseQuery (locationQuery referer)) @ [(''error'', Error err)]"
proof (cases "CHR ''?'' \<in> set referer")
  case True
  then obtain b a where s: "referer = b @ CHR ''?'' # a" "CHR ''?'' \<notin> set b" by (metis split_list_first)
  have h: "CHR ''#'' \<notin> set a" using assms(2) s(1) by simp
  have "errorLocation q err = b @ CHR ''?'' # (a @ CHR ''&'' # parameter ''error'' (Error err))"
    using True assms(1) s(1) by (simp add: errorLocation_def Let_def Contains_char parameter_def split: if_splits)
  then have "locationQuery (errorLocation q err) = a @ CHR ''&'' # parameter ''error'' (Error err)"
    using locationQuery_split [OF s(2)] h error_parameter(2) by simp
  then show ?thesis using ParseQuery_snoc [OF error_parameter(1)] locationQuery_split [OF s(2) h] by (simp add: s(1))
next
  case False
  have "errorLocation q err = referer @ CHR ''?'' # parameter ''error'' (Error err)"
    using False assms(1) by (simp add: errorLocation_def Let_def Contains_char parameter_def split: if_splits)
  then have "locationQuery (errorLocation q err) = parameter ''error'' (Error err)"
    using locationQuery_split [OF False] error_parameter(2) by simp
  moreover have "locationQuery referer = []" by (simp add: locationQuery_def Cut_absent False)
  ultimately show ?thesis using ParseQuery_single [OF error_parameter(1)] by (simp add: ParseQuery_Nil)
qed

text \<open>C26: a refused form goes back to the page it came from, and that page reads the very message of the
  error from its address, unless the address already carried one: then it shows the old message.\<close>

theorem error_reaches_the_page:
  assumes "referer = (if hq_Header q ''Referer'' = [] then ''/'' else hq_Header q ''Referer'')" "CHR ''#'' \<notin> set referer"
  shows "queryGet (locationQuery (errorLocation q err)) ''error'' =
    (case map_of (fst (ParseQuery (locationQuery referer))) ''error'' of None \<Rightarrow> Error err | Some old \<Rightarrow> old)"
  unfolding queryGet_def valuesGet_def errorLocation_query [OF assms] map_of_append
  by (simp add: map_add_def split: option.split)

theorem error_reaches_the_page_witness:
  "queryGet (locationQuery (errorLocation (browse ''POST'' ''/v1/schedules'' ''/schedules/nightly/edit'')
     (ConfigError ''a & b''))) ''error'' = ''a & b'' \<and>
   queryGet (locationQuery (errorLocation (browse ''POST'' ''/v1/schedules'' ''/schedules/nightly/edit?error=first'')
     (ConfigError ''second''))) ''error'' = ''first''"
proof -
  have q: "map_of (fst (ParseQuery (locationQuery ''/schedules/nightly/edit''))) ''error'' = None"
    "map_of (fst (ParseQuery (locationQuery ''/schedules/nightly/edit?error=first''))) ''error'' = Some ''first''"
    by code_simp+
  show ?thesis
    using error_reaches_the_page [of "''/schedules/nightly/edit''" "browse ''POST'' ''/v1/schedules'' ''/schedules/nightly/edit''"
        "ConfigError ''a & b''"]
      error_reaches_the_page [of "''/schedules/nightly/edit?error=first''"
        "browse ''POST'' ''/v1/schedules'' ''/schedules/nightly/edit?error=first''" "ConfigError ''second''"] q
    by simp
qed

section \<open>Pages\<close>



section \<open>Rendering\<close>

lemma Schedules_mem:
  assumes "x \<in> set (Schedules env ord e)"
  obtains k s nr pr where "en_schedules e k = Some s" "x = s\<lparr>sc_NextRun := nr, sc_PreviousRun := pr\<rparr>"
proof -
  obtain k s where ks: "(k, s) \<in> set (visit (en_schedules e) ord)"
    and x: "x = (case en_entryIDs e (sc_Name s) of None \<Rightarrow> s
       | Some i \<Rightarrow> (case ca_Entry (ev_cron env) (en_cron e) i of (next, prev) \<Rightarrow>
           s\<lparr>sc_NextRun := next, sc_PreviousRun := prev\<rparr>))"
    using assms by (auto simp: Schedules_def)
  have "\<exists>nr pr. x = s\<lparr>sc_NextRun := nr, sc_PreviousRun := pr\<rparr>"
  proof (cases "en_entryIDs e (sc_Name s)")
    case None
    then have "x = s\<lparr>sc_NextRun := sc_NextRun s, sc_PreviousRun := sc_PreviousRun s\<rparr>" using x by simp
    then show ?thesis by blast
  next
    case (Some i)
    then show ?thesis using x by (auto split: prod.splits)
  qed
  moreover have "en_schedules e k = Some s" using ks by (simp add: set_visit)
  ultimately show thesis using that by blast
qed

lemma findSchedule_table:
  assumes "table env live e" "findSchedule env ord n e = Some x"
  obtains s nr pr where "en_schedules e n = Some s" "x = s\<lparr>sc_NextRun := nr, sc_PreviousRun := pr\<rparr>"
    "sc_Name s = n" "validEntry env (en_cfg e) s"
proof -
  have x: "x \<in> set (Schedules env ord e)" "sc_Name x = n"
    using assms(2) by (auto simp: findSchedule_def dest: find_SomeD)
  obtain k s nr pr where s: "en_schedules e k = Some s" "x = s\<lparr>sc_NextRun := nr, sc_PreviousRun := pr\<rparr>"
    by (rule Schedules_mem [OF x(1)])
  have "sc_Name s = k" "validEntry env (en_cfg e) s" using tableD_valid [OF assms(1) s(1)] by auto
  then show thesis using that s x(2) by simp
qed

lemma editSchedule_page:
  assumes "editSchedule env ord q e = (ReplyPage p, e')"
  obtains n x where "editScheduleNameFromPath (hq_Path q) = (n, True)" "findSchedule env ord n e = Some x"
    "tc_Type (sc_Target x) \<in> {''http'', ''faktory''}"
    "p = renderScheduleForm q ''Edit Job'' ''Save job'' n x e"
proof -
  obtain n ok where n: "editScheduleNameFromPath (hq_Path q) = (n, ok)" by (cases "editScheduleNameFromPath (hq_Path q)")
  have ok: "ok" using assms n by (cases ok) (simp_all add: editSchedule_def)
  obtain x where x: "findSchedule env ord n e = Some x"
    using assms n ok by (cases "findSchedule env ord n e") (simp_all add: editSchedule_def)
  have "tc_Type (sc_Target x) \<in> {''http'', ''faktory''}" "p = renderScheduleForm q ''Edit Job'' ''Save job'' n x e"
    using assms by (auto simp: editSchedule_def n ok x split: if_splits)
  with n x ok show thesis using that by simp
qed

text \<open>C29: in every state the engine can be in, each page renders to its end, but one: the form for a new
  Faktory job, asked for by its address when no instance is configured, indexes an empty list.\<close>

theorem pages_render:
  assumes "table env live e" "serve env dec now ord q e = (ReplyPage p, e')"
  shows "renders p = (\<not> (route q = Inr RouteNew \<and> queryGet (hq_RawQuery q) ''type'' = ''faktory'' \<and>
    cfg_Faktory (en_cfg e) = []))"
proof (cases "route q")
  case (Inl reply)
  then show ?thesis using assms(2)
    by (auto simp: serve_def route_def Let_def split: if_splits option.splits prod.splits)
next
  case (Inr h)
  then have page: "handle env dec now ord q h e = (ReplyPage p, e')" using assms(2) by (simp add: serve_def)
  then consider "h = RouteIndex" | "h = RouteNew" | "h = RouteEdit"
    by (cases h) (auto simp: handle_def handler_defs apiSaveSchedule_def apiClearRuns_def apiScheduleAction_def
        respondScheduleError_def jsonError_def writeJSON_def Let_def split: sum.splits option.splits prod.splits if_splits)
  then show ?thesis
  proof cases
    case 1
    then show ?thesis using page Inr by (auto simp: handle_def index_def renders_def Let_def split: sum.splits)
  next
    case 2
    then show ?thesis using page Inr
      by (auto simp: handle_def newSchedule_def renders_def renderScheduleForm_def renderNewJobPicker_def
          newFaktorySchedule_def engineInstances_def FaktoryInstanceNames_def split: if_splits)
  next
    case 3
    then have "editSchedule env ord q e = (ReplyPage p, e')" using page by (simp add: handle_def)
    then obtain n x where x: "findSchedule env ord n e = Some x" "p = renderScheduleForm q ''Edit Job'' ''Save job'' n x e"
      using editSchedule_page by metis
    obtain s nr pr where s: "x = s\<lparr>sc_NextRun := nr, sc_PreviousRun := pr\<rparr>" "validEntry env (en_cfg e) s"
      using findSchedule_table [OF assms(1) x(1)] by metis
    have "cfg_Faktory (en_cfg e) \<noteq> []" if "tc_Type (sc_Target x) = ''faktory''"
      using that s by (auto simp: validEntry_iff scheduleOk_def)
    then show ?thesis using 3 Inr x(2)
      by (auto simp: renders_def renderScheduleForm_def engineInstances_def FaktoryInstanceNames_def)
  qed
qed

definition newFaktoryRequest :: HTTPRequest where
  "newFaktoryRequest = (browse ''GET'' ''/schedules/new'' [])\<lparr>hq_RawQuery := ''type=faktory''\<rparr>"

theorem pages_render_witness:
  "\<exists>p. serve memEnv sampleDecoders clock [] newFaktoryRequest idleEngine = (ReplyPage p, idleEngine) \<and> \<not> renders p"
proof -
  have r: "route newFaktoryRequest = Inr RouteNew" "queryGet (hq_RawQuery newFaktoryRequest) ''type'' = ''faktory''"
    by code_simp+
  have f: "cfg_Faktory (en_cfg idleEngine) = []" by (simp add: idleEngine_def zeroConfig_def)
  obtain p where p: "serve memEnv sampleDecoders clock [] newFaktoryRequest idleEngine = (ReplyPage p, idleEngine)"
    by (simp add: serve_def r handle_def newSchedule_def)
  show ?thesis using pages_render [OF idleEngine_ok(2) p] r f p by simp
qed

end
