(* ===== verification/Pages.thy ===== *)
theory Pages
  imports Server Html
begin

text \<open>
  internal/server/http.go, the templates of \<open>uiHTML\<close>: what stands between \<open>main\<close> tags and in the
  headers of the index page, the job picker and the two job forms, as tags and texts.  The head of a
  document, its style sheets and its scripts carry no value but the title and are left out, and so are
  the blanks between tags.  Attributes come in the order of the template, each action is the value
  the template inserts there.
\<close>

section \<open>Elements\<close>

definition attr :: "string \<Rightarrow> string \<Rightarrow> string \<times> string option" where
  "attr n v = (n, Some v)"

definition flag :: "string \<Rightarrow> string \<times> string option" where
  "flag n = (n, None)"

definition cls :: "string \<Rightarrow> string \<times> string option" where
  "cls c = attr ''class'' c"

definition el :: "string \<Rightarrow> attrs \<Rightarrow> node list \<Rightarrow> node list" where
  "el n as body = Tag n as # body @ [EndTag n]"

definition textEl :: "string \<Rightarrow> string \<Rightarrow> node list" where
  "textEl n s = el n [] [Txt s]"

definition flagIf :: "bool \<Rightarrow> string \<Rightarrow> attrs" where
  "flagIf b n = (if b then [flag n] else [])"

text \<open>\<open><option value="v" {{if}}selected{{end}}>\<close>\<close>

definition opt :: "string \<Rightarrow> bool \<Rightarrow> string \<Rightarrow> node list" where
  "opt v chosen s = el ''option'' (attr ''value'' v # flagIf chosen ''selected'') [Txt s]"

definition alert :: "string \<Rightarrow> string \<Rightarrow> node list" where
  "alert kind msg = (if msg = [] then [] else el ''div'' [cls (''alert '' @ kind)] [Txt msg])"

definition pageHeader :: "string \<Rightarrow> node list \<Rightarrow> node list \<Rightarrow> node list" where
  "pageHeader title summary nav =
     el ''header'' [] (el ''div'' [cls ''header-inner'']
       (el ''div'' [] (textEl ''h1'' title @ el ''div'' [cls ''summary''] summary) @ el ''nav'' [] nav))"

definition backLink :: "string \<Rightarrow> node list" where
  "backLink s = el ''a'' [cls ''button secondary'', attr ''href'' ''/''] [Txt s]"

section \<open>The index page\<close>

definition indexHeader :: "IndexPage \<Rightarrow> node list" where
  "indexHeader d =
     pageHeader ''Clock Relay''
       [Txt (Itoa (int (length (ip_Schedules d)))), Txt ('' jobs'' @ middleDot), Txt (Itoa (int (length (ip_Runs d)))),
        Txt '' recent runs'']
       (el ''label'' [cls ''toolbar-field''] (Txt ''My timezone'' #
          el ''select'' [attr ''id'' ''work-tz-select'', cls ''compact'',
              attr ''title'' ''Timezone used to show times and default new jobs'']
            (concat (map (\<lambda>z. opt z False z) (ip_Timezones d)))) @
        el ''label'' [cls ''toolbar-field''] (Txt ''Time format'' #
          el ''select'' [attr ''id'' ''time-format-select'', cls ''compact'', attr ''title'' ''Time display format'']
            (opt ''auto'' False ''Auto'' @ opt ''12h'' False ''12-hour'' @ opt ''24h'' False ''24-hour'')))"

definition uiEditableTarget :: "string \<Rightarrow> bool" where
  "uiEditableTarget t \<longleftrightarrow> t = ''http'' \<or> t = ''faktory''"

definition jobLink :: "string \<Rightarrow> string \<Rightarrow> string \<Rightarrow> string" where
  "jobLink prefix name action = prefix @ urlNormalize (PathEscape name) @ ''/'' @ action"

definition jobActions :: "ScheduleConfig \<Rightarrow> node list" where
  "jobActions s =
     el ''td'' [attr ''data-label'' ''Actions'', cls ''actions'']
       (el ''form'' [cls ''inline'', attr ''action'' (jobLink ''/v1/schedules/'' (sc_Name s) ''pause''), attr ''method'' ''post'']
          (el ''button'' [cls ''secondary'', attr ''type'' ''submit''] [Txt (if sc_Paused s then ''Resume'' else ''Pause'')]) @
        (if \<not> sc_Paused s
         then el ''form'' [cls ''inline'', attr ''action'' (jobLink ''/v1/schedules/'' (sc_Name s) ''run''), attr ''method'' ''post'']
                (el ''button'' [attr ''type'' ''submit''] [Txt ''Run''])
         else []) @
        el ''div'' [cls ''overflow-menu'']
          (el ''button'' [cls ''button secondary overflow-toggle'', attr ''type'' ''button'']
             [Txt (concat (replicate 3 (bytesOf [0xC2, 0xB7])))] @
           el ''div'' [cls ''overflow-items'']
             ((if uiEditableTarget (tc_Type (sc_Target s))
               then el ''a'' [attr ''href'' (jobLink ''/schedules/'' (sc_Name s) ''edit'')] [Txt ''Edit''] else []) @
              el ''form'' [attr ''action'' (jobLink ''/v1/schedules/'' (sc_Name s) ''delete''), attr ''method'' ''post'']
                (el ''button'' [cls ''overflow-danger'', attr ''type'' ''submit''] [Txt ''Delete'']))))"

definition targetCell :: "TargetConfig \<Rightarrow> node list" where
  "targetCell t =
     el ''td'' [attr ''data-label'' ''Target'']
       (textEl ''code'' (tc_Type t) @
        (if tc_Instance t \<noteq> [] then el ''div'' [cls ''muted output''] [Txt (tc_Instance t)]
         else if tc_URL t \<noteq> [] then el ''div'' [cls ''muted output''] [Txt (tc_URL t)] else []))"

definition jobRow :: "(string \<Rightarrow> location result) \<Rightarrow> ScheduleConfig \<Rightarrow> node list" where
  "jobRow loadLocation s =
     el ''tr'' (if sc_Paused s then [cls ''row-paused''] else [])
       (el ''td'' [attr ''data-label'' ''Name'']
          (textEl ''strong'' (sc_Name s) @
           (if sc_Description s \<noteq> [] then el ''div'' [cls ''muted''] [Txt (sc_Description s)] else [])) @
        el ''td'' [attr ''data-label'' ''Schedule'']
          [Label ''strong'' [] (scheduleSummary loadLocation s),
           Label ''div'' [cls ''muted''] (scheduleDetails loadLocation s)] @
        targetCell (sc_Target s) @
        [Label ''td'' [attr ''data-label'' ''Next Run''] (nextRunLabel s)] @
        jobActions s)"

definition tableOf :: "string list \<Rightarrow> node list \<Rightarrow> node list" where
  "tableOf heads rows =
     el ''table'' [] (el ''thead'' [] (el ''tr'' [] (concat (map (textEl ''th'') heads))) @ el ''tbody'' [] rows)"

definition jobsSection :: "(string \<Rightarrow> location result) \<Rightarrow> IndexPage \<Rightarrow> node list" where
  "jobsSection loadLocation d =
     el ''section'' [cls ''table-section jobs-section'', attr ''data-live-section'' ''jobs'']
       (el ''div'' [cls ''section-head'']
          (textEl ''h2'' ''Jobs'' @ el ''a'' [cls ''button primary'', attr ''href'' ''/schedules/new''] [Txt ''New job'']) @
        (if ip_Schedules d \<noteq> []
         then tableOf [''Name'', ''Schedule'', ''Target'', ''Next Run'', []] (concat (map (jobRow loadLocation) (ip_Schedules d)))
         else el ''div'' [cls ''empty''] [Txt ''No jobs are configured.'']))"

definition outputCell :: "Run \<Rightarrow> node list" where
  "outputCell r =
     (let title = r_ScheduleName r @ middleDot @ r_ID r;
          button = (\<lambda>value' s. el ''button'' [cls ''button secondary compact'', attr ''type'' ''button'',
            attr ''data-run-output'' value', attr ''data-run-title'' title] [Txt s])
      in el ''td'' [attr ''data-label'' ''Output'']
           (if r_Error r \<noteq> [] then button (r_Error r) ''View error''
            else if rawOutput (r_StructuredOutput r) \<noteq> [] then button (rawOutput (r_StructuredOutput r)) ''View output''
            else el ''span'' [cls ''muted''] [Txt ''none'']))"

definition runRow :: "runView \<Rightarrow> node list" where
  "runRow v =
     (let r = rv_Run v in
      el ''tr'' []
        (el ''td'' [attr ''data-label'' ''Status'']
           (el ''span'' [cls (''status status-'' @ r_Status r)] [Txt (r_Status r)]) @
         el ''td'' [attr ''data-label'' ''Job'']
           (textEl ''strong'' (r_ScheduleName r) @ el ''div'' [cls ''muted''] [Txt (r_ID r)]) @
         el ''td'' [attr ''data-label'' ''Trigger'']
           (Txt (r_TriggeredBy r) # el ''div'' [cls ''muted''] [Txt (r_TargetType r)]) @
         [Label ''td'' [attr ''data-label'' ''Started''] (displayRunTime v)] @
         outputCell r))"

definition runsSection :: "IndexPage \<Rightarrow> node list" where
  "runsSection d =
     el ''section'' [cls ''table-section runs-section'', attr ''data-live-section'' ''runs'', attr ''data-job-filter'' (ip_JobFilter d)]
       (el ''div'' [cls ''section-head'']
          (textEl ''h2'' ''Run Log'' @
           el ''div'' [cls ''section-actions'']
             (el ''select'' [attr ''id'' ''run-job-filter'', cls ''compact'', attr ''title'' ''Filter runs by job'']
                (opt [] False ''All jobs'' @
                 concat (map (\<lambda>s. opt (sc_Name s) (ip_JobFilter d = sc_Name s) (sc_Name s)) (ip_Schedules d))) @
              el ''form'' [cls ''inline'', attr ''action'' ''/v1/runs/clear'', attr ''method'' ''post'']
                (el ''button'' [cls ''danger'', attr ''type'' ''submit''] [Txt ''Clear run log'']))) @
        (if ip_Runs d \<noteq> []
         then tableOf [''Status'', ''Job'', ''Trigger'', ''Started'', ''Output''] (concat (map runRow (ip_Runs d)))
         else el ''div'' [cls ''empty''] [Txt ''No runs yet.'']))"

definition outputDialog :: "node list" where
  "outputDialog =
     el ''dialog'' [cls ''output-dialog'', attr ''id'' ''run-output-dialog'']
       (el ''div'' [cls ''dialog-head'']
          (el ''div'' [] (textEl ''h2'' ''Run Output'' @ el ''div'' [cls ''muted'', attr ''id'' ''run-output-title''] []) @
           el ''form'' [attr ''method'' ''dialog'']
             (el ''button'' [cls ''button secondary compact'', attr ''type'' ''submit''] [Txt ''Close''])) @
        el ''pre'' [attr ''id'' ''run-output-body''] [])"

definition indexBody :: "(string \<Rightarrow> location result) \<Rightarrow> IndexPage \<Rightarrow> node list" where
  "indexBody loadLocation d =
     indexHeader d @
     el ''main'' [] (alert ''error'' (ip_Error d) @ alert ''notice'' (ip_Notice d) @
       jobsSection loadLocation d @ runsSection d) @
     outputDialog"

section \<open>The job picker\<close>

definition pickerCard :: "string \<Rightarrow> string \<Rightarrow> node list" where
  "pickerCard title hint = textEl ''strong'' title @ textEl ''p'' hint"

definition pickerBody :: "bool \<Rightarrow> node list" where
  "pickerBody available =
     pageHeader ''New Job'' [Txt ''Choose the type of job to create.''] (backLink ''Back'') @
     el ''main'' [] (el ''div'' [cls ''picker-grid'']
       ((if available
         then el ''a'' [cls ''picker-card'', attr ''href'' ''/schedules/new?type=faktory'']
                (pickerCard ''Faktory job''
                   ''Enqueue a native Faktory job. Clock Relay records success when Faktory accepts the job.'')
         else el ''div'' [cls ''picker-card disabled'']
                (textEl ''strong'' ''Faktory job'' @
                 el ''p'' [] ([Txt ''No Faktory instances configured. Add instances to the ''] @ textEl ''code'' ''faktory'' @
                   [Txt '' section of your config file.'']))) @
        el ''div'' [cls ''picker-card disabled'']
          (pickerCard ''Web request''
             ''Send an HTTP request to an app or worker endpoint. Good for triggering work owned by another service.'' @
           el ''span'' [cls ''picker-badge''] [Txt ''Coming soon''])))"

end
