(* ===== verification/FormPages.thy ===== *)
theory FormPages
  imports Pages FormFields
begin

text \<open>
  internal/server/http.go, the templates \<open>schedule_form\<close> and \<open>faktory_form\<close> as tags and texts, and what
  a browser submits from them.
\<close>

section \<open>Controls\<close>

definition inputEl :: "attrs \<Rightarrow> node list" where
  "inputEl as = [Tag ''input'' as]"

definition selectEl :: "attrs \<Rightarrow> string list \<Rightarrow> string \<Rightarrow> node list" where
  "selectEl as options current = el ''select'' as (concat (map (\<lambda>v. opt v (v = current) v) options))"

definition cardHead :: "string \<Rightarrow> string \<Rightarrow> node list" where
  "cardHead title hint =
     el ''div'' [cls ''form-card-head''] (textEl ''h2'' title @ (if hint = [] then [] else textEl ''p'' hint))"

definition radio :: "string \<Rightarrow> string \<Rightarrow> bool \<Rightarrow> string \<Rightarrow> string \<Rightarrow> node list" where
  "radio name value' chosen title hint =
     el ''label'' [cls ''type-option'']
       (inputEl (attr ''type'' ''radio'' # attr ''name'' name # attr ''value'' value' # flagIf chosen ''checked'') @
        el ''span'' [] (textEl ''strong'' title @ textEl ''small'' hint))"

definition timezoneHint :: "string \<Rightarrow> string \<Rightarrow> string \<Rightarrow> node list" where
  "timezoneHint before zone after =
     el ''span'' [cls ''field-hint'']
       (Txt before # el ''strong'' [flag ''data-timezone-summary''] [Txt zone] @ [Txt after])"

section \<open>The form of a job\<close>

definition jobCard :: "FormPage \<Rightarrow> node list" where
  "jobCard d = (let s = fp_Schedule d in
     inputEl [attr ''type'' ''hidden'', attr ''name'' ''original_name'', attr ''value'' (fp_OriginalName d)] @
     el ''section'' [cls ''form-card'']
       (cardHead ''Job Details'' [] @
        el ''div'' [cls ''form-grid'']
          (el ''label'' [] (Txt ''Name'' #
             inputEl [attr ''name'' ''name'', flag ''required'', attr ''value'' (sc_Name s), attr ''placeholder'' ''nightly-sync'']) @
           el ''label'' [] (Txt ''Timeout'' # inputEl [attr ''name'' ''timeout'', attr ''value'' (DurationString (sc_Timeout s))]) @
           el ''label'' [cls ''span-2''] (Txt ''Description'' #
             inputEl [attr ''name'' ''description'', attr ''value'' (sc_Description s)]) @
           el ''label'' [] (Txt ''Allow concurrent runs'' #
             el ''select'' [attr ''name'' ''allow_concurrent_runs'']
               (opt ''false'' (\<not> AllowsConcurrentRuns s) ''No'' @ opt ''true'' (AllowsConcurrentRuns s) ''Yes'')))))"

definition ratePanel :: "ScheduleConfig \<Rightarrow> node list" where
  "ratePanel s =
     el ''div'' [cls ''mode-panel span-4'', attr ''data-schedule-panel'' ''rate'']
       (el ''div'' [cls ''panel-copy'']
          (textEl ''h2'' ''Rate Schedule'' @
           textEl ''p'' ''Days are fixed 24-hour intervals. Use cron for same-local-time daily schedules.'') @
        el ''div'' [cls ''nested-grid'']
          (el ''label'' [] (Txt ''Every'' #
             inputEl [attr ''name'' ''rate_interval'', attr ''type'' ''number'', attr ''min'' ''1'',
               attr ''value'' (Itoa (sint (sc_RateInterval s))), attr ''data-required-for-schedule'' ''rate'']) @
           el ''label'' [] (Txt ''Unit'' #
             selectEl [attr ''name'' ''rate_unit'', attr ''data-required-for-schedule'' ''rate''] unitOptions (sc_RateUnit s)) @
           el ''label'' [cls ''span-2''] (Txt ''Starts At'' #
             inputEl [attr ''name'' ''starts_at'', attr ''type'' ''datetime-local'', attr ''value'' (sc_StartsAt s),
               attr ''data-required-for-schedule'' ''rate''] @
             timezoneHint ''Interpreted in '' (sc_Timezone s) ''.'')))"

definition oncePanel :: "ScheduleConfig \<Rightarrow> node list" where
  "oncePanel s =
     el ''div'' [cls ''mode-panel span-4'', attr ''data-schedule-panel'' ''once'']
       (el ''div'' [cls ''panel-copy'']
          (textEl ''h2'' ''One-Time Schedule'' @
           textEl ''p'' ''After the run is created, the job stays visible as completed.'') @
        el ''div'' [cls ''nested-grid'']
          (el ''label'' [cls ''span-2''] (Txt ''Run At'' #
             inputEl [attr ''name'' ''run_at'', attr ''type'' ''datetime-local'', attr ''value'' (sc_RunAt s),
               attr ''data-required-for-schedule'' ''once''] @
             timezoneHint ''Interpreted in '' (sc_Timezone s) ''.'')))"

definition cronPanel :: "ScheduleConfig \<Rightarrow> node list" where
  "cronPanel s =
     el ''div'' [cls ''mode-panel span-4'', attr ''data-schedule-panel'' ''cron'']
       (el ''div'' [cls ''panel-copy'']
          (textEl ''h2'' ''Cron Schedule'' @
           textEl ''p'' ''Use standard five-field cron: minute, hour, day of month, month, day of week.'') @
        el ''label'' [] (Txt ''Cron Expression'' #
          inputEl [attr ''name'' ''cron'', attr ''value'' (sc_Cron s), attr ''data-required-for-schedule'' ''cron'',
            attr ''placeholder'' ''*/5 * * * *''] @
          timezoneHint ''Evaluated in '' (sc_Timezone s) ''.''))"

definition scheduleCard :: "FormPage \<Rightarrow> node list" where
  "scheduleCard d = (let s = fp_Schedule d; t = sc_ScheduleType s in
     el ''section'' [cls ''form-card'']
       (cardHead ''Schedule'' ''Choose a simple interval, a one-time run, or cron for calendar-based schedules.'' @
        el ''div'' [cls ''form-grid'']
          (el ''fieldset'' [cls ''type-picker schedule-picker span-4'']
             (radio ''schedule_type'' ''rate'' (t = ''rate'') ''Rate'' ''Run every N minutes, hours, or days from a start time.'' @
              radio ''schedule_type'' ''once'' (t = ''once'') ''Once'' ''Run one time at a specific local date and time.'' @
              radio ''schedule_type'' ''cron'' (t = [] \<or> t = ''cron'') ''Cron''
                ''Use a five-field expression for calendar-based schedules.'') @
           el ''label'' [cls ''span-2''] (Txt ''Schedule Timezone'' #
             selectEl [attr ''name'' ''timezone'', flag ''data-timezone-select''] (fp_Timezones d) (sc_Timezone s) @
             timezoneHint ''New jobs default to your saved timezone. This schedule runs in '' (sc_Timezone s) ''.'') @
           ratePanel s @ oncePanel s @ cronPanel s)))"

definition typeCard :: "ScheduleConfig \<Rightarrow> node list" where
  "typeCard s = (let t = tc_Type (sc_Target s) in
     el ''section'' [cls ''form-card'']
       (cardHead ''Job Type'' ''Choose how Clock Relay should trigger this job.'' @
        el ''div'' [cls ''form-grid'']
          (el ''fieldset'' [cls ''type-picker span-4'']
             (radio ''target_type'' ''http'' (t = [] \<or> t = ''http'') ''Web request''
                ''Send an HTTP request to an app or worker endpoint. Good for triggering work owned by another service.'' @
              radio ''target_type'' ''faktory'' (t = ''faktory'') ''Faktory job''
                ''Enqueue a native Faktory job. Clock Relay records success when Faktory accepts the job.''))))"

definition panelGrid :: "node list \<Rightarrow> node list" where
  "panelGrid body =
     el ''div'' [cls ''form-grid''] (el ''div'' [cls ''span-4''] (el ''div'' [cls ''nested-grid''] body))"

definition httpCard :: "TargetConfig \<Rightarrow> node list" where
  "httpCard t =
     el ''section'' [cls ''form-card'', attr ''data-target-panel'' ''http'']
       (cardHead ''Web Request Parameters''
          ''Clock Relay sends JSON by default with the run ID, job name, scheduled time, and trigger source. Add headers for auth or internal routing.'' @
        panelGrid
          (el ''label'' [cls ''span-3''] (Txt ''HTTP URL'' #
             inputEl [attr ''name'' ''target_url'', attr ''value'' (tc_URL t), attr ''data-required-for'' ''http'',
               attr ''placeholder'' ''http://localhost:3000/internal/jobs/nightly-sync'']) @
           el ''label'' [] (Txt ''Method'' # selectEl [attr ''name'' ''target_method''] methodOptions (tc_Method t)) @
           el ''label'' [cls ''span-2''] (Txt ''Headers'' #
             el ''textarea'' [attr ''name'' ''target_headers'', attr ''placeholder'' ''Authorization=Bearer token'']
               [Txt (keyValues (tc_Headers t))])))"

definition faktoryCard :: "Decoders \<Rightarrow> FormPage \<Rightarrow> node list" where
  "faktoryCard dec d = (let t = sc_Target (fp_Schedule d) in
     el ''section'' [cls ''form-card'', attr ''data-target-panel'' ''faktory'']
       (cardHead ''Faktory Job Parameters''
          ''Clock Relay enqueues the job and records the Faktory JID. The worker receives only the configured args.'' @
        panelGrid
          ((if fp_FaktoryInstances d \<noteq> []
            then el ''label'' [cls ''span-2''] (Txt ''Instance'' #
              selectEl [attr ''name'' ''target_faktory_instance'', attr ''data-required-for'' ''faktory'']
                (fp_FaktoryInstances d) (tc_Instance t))
            else el ''div'' [cls ''span-4''] (el ''div'' [cls ''alert error'']
              (Txt ''No Faktory instances configured. Add instances to the '' # textEl ''code'' ''faktory'' @
               [Txt '' section of your config file.'']))) @
           el ''label'' [] (Txt ''Queue'' #
             inputEl [attr ''name'' ''target_faktory_queue'', attr ''value'' (tc_Queue t), attr ''placeholder'' ''default'']) @
           el ''label'' [] (Txt ''Job Type'' #
             inputEl [attr ''name'' ''target_faktory_job_type'', attr ''value'' (tc_JobType t),
               attr ''data-required-for'' ''faktory'', attr ''placeholder'' ''nightly_sync_job'']) @
           el ''label'' [cls ''span-4''] (Txt ''Args JSON'' #
             el ''textarea'' [attr ''name'' ''target_faktory_args'', attr ''data-required-for'' ''faktory'']
               [Txt (targetJSONArgs dec t)]))))"

definition noscriptCard :: "TargetConfig \<Rightarrow> node list" where
  "noscriptCard t =
     el ''noscript'' [] (el ''section'' [cls ''form-card''] (el ''label'' [] (Txt ''Target'' #
       selectEl [attr ''name'' ''target_type''] [''http'', ''faktory''] (tc_Type t))))"

definition scheduleFormBody :: "Decoders \<Rightarrow> FormPage \<Rightarrow> node list" where
  "scheduleFormBody dec d =
     pageHeader (fp_Title d) [Txt ''Define when a job should trigger and what target Clock Relay should call.''] (backLink ''Back'') @
     el ''main'' [] (alert ''error'' (fp_Error d) @
       el ''form'' [cls ''job-form'', attr ''action'' ''/v1/schedules'', attr ''method'' ''post'', flag ''data-job-form'',
           attr ''data-new-job'' (formatBool (fp_IsNew d))]
         (jobCard d @ scheduleCard d @ typeCard (fp_Schedule d) @ httpCard (sc_Target (fp_Schedule d)) @
          faktoryCard dec d @ noscriptCard (sc_Target (fp_Schedule d)) @
          el ''div'' [cls ''form-actions'']
            (el ''button'' [attr ''type'' ''submit''] [Txt (fp_SubmitLabel d)] @ backLink ''Cancel'')))"

section \<open>The guided form of a Faktory job\<close>

definition wizStep :: "string \<Rightarrow> string \<Rightarrow> node list \<Rightarrow> node list" where
  "wizStep active name body = el ''div'' [cls (''wiz-step'' @ active), attr ''data-wiz-step'' name] body"

definition stepHead :: "string \<Rightarrow> attrs \<Rightarrow> string \<Rightarrow> node list" where
  "stepHead title as hint = textEl ''h2'' title @ el ''p'' (cls ''wiz-hint'' # as) [Txt hint]"

definition fragment :: "string \<Rightarrow> string \<Rightarrow> string \<Rightarrow> string \<Rightarrow> node list" where
  "fragment name before tag after =
     el ''span'' [cls ''wiz-frag'', attr ''id'' name]
       (Txt before # el tag [attr ''id'' (name @ ''-val'')] [] @ [Txt after])"

definition narrative :: "node list" where
  "narrative =
     el ''div'' [cls ''wiz-narrative'', attr ''id'' ''wiz-narrative'']
       (el ''span'' [cls ''wiz-frag visible'', attr ''id'' ''nf-base''] [Txt ''You are creating a Faktory job''] @
        fragment ''nf-instance'' '' on the '' ''b'' '' instance'' @ fragment ''nf-job'' '' that runs '' ''b'' [] @
        fragment ''nf-queue'' '' on the '' ''b'' '' queue'' @ fragment ''nf-desc'' '', which '' ''i'' [] @
        fragment ''nf-sched'' '', triggered '' ''b'' [] @
        el ''span'' [cls ''wiz-frag visible'', attr ''id'' ''nf-end''] [Txt ''.''])"

text \<open>\<open>index .FaktoryInstances 0\<close> fails for an empty list: what \<open>renders\<close> excludes.\<close>

definition instanceStep :: "FormPage \<Rightarrow> node list" where
  "instanceStep d =
     (if 1 < length (fp_FaktoryInstances d)
      then wizStep '' active'' ''instance''
        (stepHead ''Which Faktory server?'' [] ''Select the Faktory instance this job should be enqueued to.'' @
         el ''div'' [cls ''wiz-fields'']
           (el ''label'' [cls ''full''] (Txt ''Instance'' #
              el ''select'' [attr ''name'' ''target_faktory_instance'', flag ''required'', attr ''id'' ''wiz-instance'']
                (opt [] False ''Choose an instance'' @
                 concat (map (\<lambda>v. opt v (v = tc_Instance (sc_Target (fp_Schedule d))) v) (fp_FaktoryInstances d))))))
      else inputEl [attr ''type'' ''hidden'', attr ''name'' ''target_faktory_instance'', attr ''id'' ''wiz-instance'',
             attr ''value'' (hd (fp_FaktoryInstances d))])"

definition optionalHint :: "node list" where
  "optionalHint = Txt '' '' # el ''span'' [attr ''style'' ''font-weight:400;text-transform:none''] [Txt ''(optional)'']"

definition jobStep :: "Decoders \<Rightarrow> FormPage \<Rightarrow> node list" where
  "jobStep dec d = (let s = fp_Schedule d; t = sc_Target s in
     wizStep (if length (fp_FaktoryInstances d) \<le> 1 then '' active'' else []) ''job''
       (stepHead ''What should it run?'' [] ''Enter the Faktory job type your worker is registered to handle.'' @
        el ''div'' [cls ''wiz-fields'']
          (el ''label'' [cls ''full''] (Txt ''Job Type'' #
             inputEl [attr ''name'' ''target_faktory_job_type'', flag ''required'', attr ''id'' ''wiz-job-type'',
               attr ''value'' (tc_JobType t), attr ''placeholder'' ''nightly_sync_job'', attr ''autocomplete'' ''off'']) @
           el ''label'' [] (Txt ''Queue'' #
             inputEl [attr ''name'' ''target_faktory_queue'', attr ''id'' ''wiz-queue'', attr ''list'' ''faktory-queues'',
               attr ''value'' (tc_Queue t), attr ''placeholder'' ''default''] @
             el ''datalist'' [attr ''id'' ''faktory-queues''] []) @
           el ''label'' [] (Txt ''Description'' # optionalHint @
             inputEl [attr ''name'' ''description'', attr ''id'' ''wiz-desc'', attr ''value'' (sc_Description s),
               attr ''placeholder'' ''Syncs data from the warehouse'']) @
           el ''label'' [cls ''full''] (Txt ''Args JSON'' # optionalHint @
             el ''textarea'' [attr ''name'' ''target_faktory_args'', attr ''id'' ''wiz-args'', attr ''style'' ''min-height:64px'']
               [Txt (targetJSONArgs dec t)]))))"

definition scheduleButton :: "string \<Rightarrow> bool \<Rightarrow> string \<Rightarrow> string \<Rightarrow> node list" where
  "scheduleButton stype chosen title hint =
     el ''button'' [attr ''type'' ''button'', cls (''wiz-scard'' @ (if chosen then '' selected'' else [])), attr ''data-stype'' stype]
       (textEl ''strong'' title @ textEl ''small'' hint)"

definition scheduleTypeStep :: "ScheduleConfig \<Rightarrow> node list" where
  "scheduleTypeStep s = (let t = sc_ScheduleType s in
     wizStep [] ''schedule-type''
       (stepHead ''When should it run?'' [] ''Pick a scheduling strategy.'' @
        el ''div'' [cls ''wiz-schedule-cards'']
          (scheduleButton ''rate'' (t = ''rate'') ''Rate'' ''Every N minutes, hours, or days.'' @
           scheduleButton ''once'' (t = ''once'') ''Once'' ''One time at a specific date and time.'' @
           scheduleButton ''cron'' (t = ''cron'' \<or> t = []) ''Cron'' ''Five-field expression for calendar schedules.'') @
        inputEl [attr ''type'' ''hidden'', attr ''name'' ''schedule_type'', attr ''id'' ''wiz-schedule-type'', attr ''value'' t]))"

definition wizTiming :: "ScheduleConfig \<Rightarrow> node list" where
  "wizTiming s =
     el ''div'' [cls ''wiz-fields'', attr ''id'' ''wiz-rate-fields'', attr ''style'' ''margin-top:14px;display:none'']
       (el ''label'' [] (Txt ''Every'' #
          inputEl [attr ''name'' ''rate_interval'', attr ''type'' ''number'', attr ''min'' ''1'', attr ''id'' ''wiz-rate-interval'',
            attr ''value'' (Itoa (sint (sc_RateInterval s)))]) @
        el ''label'' [] (Txt ''Unit'' #
          selectEl [attr ''name'' ''rate_unit'', attr ''id'' ''wiz-rate-unit''] unitOptions (sc_RateUnit s)) @
        el ''label'' [cls ''full''] (Txt ''Starting from'' #
          inputEl [attr ''name'' ''starts_at'', attr ''type'' ''datetime-local'', attr ''id'' ''wiz-starts-at'',
            attr ''value'' (sc_StartsAt s)])) @
     el ''div'' [cls ''wiz-fields'', attr ''id'' ''wiz-once-fields'', attr ''style'' ''margin-top:14px;display:none'']
       (el ''label'' [cls ''full''] (Txt ''Run at'' #
          inputEl [attr ''name'' ''run_at'', attr ''type'' ''datetime-local'', attr ''id'' ''wiz-run-at'',
            attr ''value'' (sc_RunAt s)])) @
     el ''div'' [cls ''wiz-fields'', attr ''id'' ''wiz-cron-fields'', attr ''style'' ''margin-top:14px;display:none'']
       (el ''label'' [cls ''full''] (Txt ''Cron expression'' #
          inputEl [attr ''name'' ''cron'', attr ''id'' ''wiz-cron'', attr ''value'' (sc_Cron s),
            attr ''placeholder'' ''*/5 * * * *'']))"

definition scheduleDetailStep :: "FormPage \<Rightarrow> node list" where
  "scheduleDetailStep d = (let s = fp_Schedule d in
     wizStep [] ''schedule-detail''
       (stepHead ''Configure the schedule'' [attr ''id'' ''wiz-detail-hint''] ''Set the timing details.'' @
        el ''div'' [cls ''wiz-fields'']
          (el ''label'' [] (Txt ''Timezone'' #
             selectEl [attr ''name'' ''timezone'', attr ''id'' ''wiz-tz''] (fp_Timezones d) (sc_Timezone s)) @
           el ''label'' [] (Txt ''Allow concurrent runs'' #
             el ''select'' [attr ''name'' ''allow_concurrent_runs'', attr ''id'' ''wiz-allow-concurrent'']
               (opt ''true'' (AllowsConcurrentRuns s) ''Yes'' @ opt ''false'' (\<not> AllowsConcurrentRuns s) ''No''))) @
        wizTiming s))"

definition reviewStep :: "node list" where
  "reviewStep =
     wizStep [] ''review''
       (stepHead ''Review and create'' [] ''Everything look right?'' @
        el ''table'' [cls ''wiz-review-table'', attr ''id'' ''wiz-review-body''] [] @
        el ''div'' [attr ''style'' ''margin-top:20px;text-align:right'']
          (el ''button'' [attr ''type'' ''submit''] [Txt ''Create job'']))"

definition wizNav :: "node list" where
  "wizNav =
     el ''div'' [cls ''wiz-nav'', attr ''id'' ''wiz-nav'']
       (el ''button'' [attr ''type'' ''button'', cls ''wiz-back'', attr ''id'' ''wiz-back'', attr ''style'' ''display:none'']
          [Txt (bytesOf [0xE2, 0x86, 0x90] @ '' Back'')] @
        el ''div'' [cls ''wiz-progress'', attr ''id'' ''wiz-dots''] [] @
        el ''button'' [attr ''type'' ''button'', cls ''button'', attr ''id'' ''wiz-next''] [Txt ''Continue''])"

definition faktoryFormBody :: "Decoders \<Rightarrow> FormPage \<Rightarrow> node list" where
  "faktoryFormBody dec d =
     pageHeader (fp_Title d) [Txt ''Guided setup for a scheduled Faktory job.''] (backLink ''Cancel'') @
     el ''main'' [cls ''wiz''] (alert ''error'' (fp_Error d) @
       el ''form'' [attr ''action'' ''/v1/schedules'', attr ''method'' ''post'', attr ''id'' ''wiz-form'']
         (inputEl [attr ''type'' ''hidden'', attr ''name'' ''original_name'', attr ''value'' (fp_OriginalName d)] @
          inputEl [attr ''type'' ''hidden'', attr ''name'' ''target_type'', attr ''value'' ''faktory''] @
          inputEl [attr ''type'' ''hidden'', attr ''name'' ''timeout'', attr ''value'' ''5s''] @
          inputEl [attr ''type'' ''hidden'', attr ''name'' ''name'', attr ''id'' ''wiz-name'', attr ''value'' (sc_Name (fp_Schedule d))] @
          narrative @ instanceStep d @ jobStep dec d @ scheduleTypeStep (fp_Schedule d) @ scheduleDetailStep d @
          reviewStep @ wizNav))"

section \<open>Pages of the server\<close>

definition pageBody :: "(string \<Rightarrow> location result) \<Rightarrow> Decoders \<Rightarrow> Page \<Rightarrow> node list" where
  "pageBody loadLocation dec p =
     (case p of
        PageIndex d \<Rightarrow> indexBody loadLocation d
      | PagePicker available \<Rightarrow> pickerBody available
      | PageForm name d \<Rightarrow> if name = ''faktory_form'' then faktoryFormBody dec d else scheduleFormBody dec d)"

end
