(* ===== verification/PageReading.thy ===== *)
theory PageReading
  imports FormPages
begin

text \<open>
  What a browser reads from the pages of the server: the tags of the templates and the spans of the
  labels, with the values as texts and attribute values and nowhere else.
\<close>

named_theorems listed_nodes \<open>templates within the tags and attributes of the pages\<close>

section \<open>The tags of the pages\<close>

text \<open>No element that runs or loads anything, no attribute that holds a script.\<close>

definition pageTags :: "string list" where
  "pageTags =
     [''a'', ''b'', ''button'', ''code'', ''datalist'', ''dialog'', ''div'', ''fieldset'', ''form'',
      ''h1'', ''h2'', ''header'', ''i'', ''input'', ''label'', ''main'', ''nav'', ''noscript'',
      ''option'', ''p'', ''pre'', ''section'', ''select'', ''small'', ''span'', ''strong'', ''table'',
      ''tbody'', ''td'', ''textarea'', ''th'', ''thead'', ''tr'']"

definition pageAttrs :: "string list" where
  "pageAttrs =
     [''action'', ''autocomplete'', ''checked'', ''class'', ''data-hour'', ''data-job-filter'',
      ''data-job-form'', ''data-label'', ''data-live-section'', ''data-minute'', ''data-new-job'',
      ''data-required-for'', ''data-required-for-schedule'', ''data-run-output'', ''data-run-title'',
      ''data-schedule-panel'', ''data-source-tz'', ''data-stype'', ''data-target-panel'', ''data-time'',
      ''data-timezone-select'', ''data-timezone-summary'', ''data-wiz-step'', ''hidden'', ''href'',
      ''id'', ''list'', ''method'', ''min'', ''name'', ''placeholder'', ''required'', ''selected'',
      ''style'', ''title'', ''type'', ''value'']"

fun listed :: "node \<Rightarrow> bool" where
  "listed (Tag n as) = (n \<in> set pageTags \<and> list_all (\<lambda>a. fst a \<in> set pageAttrs) as)"
| "listed (EndTag n) = (n \<in> set pageTags)"
| "listed (Txt s) = True"
| "listed (Label n as m) = (n \<in> set pageTags \<and> list_all (\<lambda>a. fst a \<in> set pageAttrs) as \<and> labelMarkup m)"

fun inertToken :: "token \<Rightarrow> bool" where
  "inertToken (Open n as) = (n \<in> set pageTags \<and> list_all (\<lambda>a. fst a \<in> set pageAttrs) as)"
| "inertToken (Close n) = (n \<in> set pageTags)"
| "inertToken (Chars s) = True"

lemma pageWords: "list_all nameWord pageTags" "list_all nameWord pageAttrs"
  by code_simp+

lemma labelWords: "''span'' \<in> set pageTags" "set (''hidden'' # labelAttributes) \<subseteq> set pageAttrs"
proof -
  have "list_all (\<lambda>a. a \<in> set pageAttrs) (''hidden'' # labelAttributes)" "''span'' \<in> set pageTags" by code_simp+
  then show "''span'' \<in> set pageTags" "set (''hidden'' # labelAttributes) \<subseteq> set pageAttrs" by (auto simp: list_all_iff)
qed

lemma listed_nodeOk: "listed nd \<Longrightarrow> nodeOk nd"
  using pageWords by (cases nd) (auto simp: list_all_iff)

lemma labelToken_inert: "labelToken t \<Longrightarrow> inertToken t"
  using labelWords by (cases t) (auto simp: list_all_iff image_subset_iff)

lemma viewNode_inert: "listed nd \<Longrightarrow> list_all inertToken (viewNode nd)"
proof (cases nd)
  case (Label n as m)
  moreover assume "listed nd"
  ultimately show ?thesis
    using readHtml_label(1) [of m] labelToken_inert by (auto simp: list_all_iff viewAttr_def)
qed (auto simp: list_all_iff viewAttr_def)

lemma mergeTexts_inert: "list_all inertToken ts \<Longrightarrow> list_all inertToken (mergeTexts ts)"
  by (induction ts rule: mergeTexts.induct) (auto split: list.split token.split)

lemma viewHtml_inert: "list_all listed ns \<Longrightarrow> list_all inertToken (viewHtml ns)"
  unfolding viewHtml_def
  by (rule mergeTexts_inert, induction ns) (use viewNode_inert in auto)

text \<open>A page within these tags reads as its tags and texts.\<close>

lemma listed_page:
  "list_all listed ns \<Longrightarrow> readHtml (printHtml ns) = Some (viewHtml ns) \<and> list_all inertToken (viewHtml ns)"
  using readHtml_printHtml [of ns] viewHtml_inert listed_nodeOk by (auto simp: list_all_iff)

section \<open>The templates\<close>

lemma listed_el: "list_all listed (el n as body) \<longleftrightarrow> n \<in> set pageTags \<and> list_all (\<lambda>a. fst a \<in> set pageAttrs) as \<and> list_all listed body"
  by (auto simp: el_def)

lemma listed_concat: "(\<And>x. x \<in> set xs \<Longrightarrow> list_all listed (f x)) \<Longrightarrow> list_all listed (concat (map f xs))"
  by (induction xs) auto

lemma page_words:
  "list_all (\<lambda>n. n \<in> set pageTags) pageTags" "list_all (\<lambda>n. n \<in> set pageAttrs) pageAttrs"
  by (simp_all add: list_all_iff)

lemmas page_word = page_words [unfolded pageTags_def pageAttrs_def list.pred_inject, folded pageTags_def pageAttrs_def]

lemma listed_parts [listed_nodes]:
  "list_all listed (textEl n s) \<longleftrightarrow> n \<in> set pageTags"
  "list_all listed (opt v chosen s)"
  "list_all listed (alert kind msg)"
  "list_all listed (backLink s)"
  "list_all listed (pageHeader title summary nav) \<longleftrightarrow> list_all listed summary \<and> list_all listed nav"
  by (auto simp: textEl_def opt_def alert_def backLink_def pageHeader_def listed_el attr_def cls_def flag_def flagIf_def page_word)

lemmas html_parts = listed_el attr_def cls_def flag_def flagIf_def inputEl_def Let_def page_word

lemma listed_controls [listed_nodes]:
  "list_all listed (selectEl as options current) \<longleftrightarrow> list_all (\<lambda>a. fst a \<in> set pageAttrs) as"
  "list_all listed (cardHead title hint)"
  "list_all listed (radio name v chosen title hint)"
  "list_all listed (timezoneHint s z t)"
  "list_all listed (wizStep active name body) \<longleftrightarrow> list_all listed body"
  "list_all listed (stepHead title as hint) \<longleftrightarrow> list_all (\<lambda>a. fst a \<in> set pageAttrs) as"
  "list_all listed (fragment name s n t) \<longleftrightarrow> n \<in> set pageTags"
  "list_all listed (scheduleButton name chosen title hint)"
  "list_all listed (panelGrid body) \<longleftrightarrow> list_all listed body"
  "list_all listed (pickerCard title hint)"
  by (simp_all add: selectEl_def cardHead_def radio_def timezoneHint_def wizStep_def stepHead_def fragment_def scheduleButton_def
      panelGrid_def pickerCard_def listed_nodes html_parts listed_concat)

lemma listed_tableOf: "list_all listed rows \<Longrightarrow> list_all listed (tableOf heads rows)"
  by (simp add: tableOf_def listed_nodes html_parts listed_concat)

lemma listed_jobRow: "list_all listed (jobRow loadLocation s)"
proof -
  have "list_all listed (jobActions s)" "list_all listed (targetCell (sc_Target s))"
    by (simp_all add: jobActions_def targetCell_def listed_nodes html_parts)
  then show ?thesis
    by (simp add: jobRow_def listed_nodes html_parts scheduleSummary_markup scheduleDetails_markup nextRunLabel_markup)
qed

lemma listed_runRow: "list_all listed (runRow v)"
  by (simp add: runRow_def outputCell_def listed_nodes html_parts displayRunTime_markup)

lemma listed_indexBody: "list_all listed (indexBody loadLocation d)"
proof -
  have "list_all listed (indexHeader d)" "list_all listed (jobsSection loadLocation d)" "list_all listed (runsSection d)"
    by (simp_all add: indexHeader_def jobsSection_def runsSection_def listed_nodes html_parts listed_concat listed_tableOf
        listed_jobRow listed_runRow)
  then show ?thesis by (simp add: indexBody_def outputDialog_def listed_nodes html_parts)
qed

lemma listed_pickerBody: "list_all listed (pickerBody available)"
  by (simp add: pickerBody_def listed_nodes html_parts)

lemma listed_scheduleFormBody: "list_all listed (scheduleFormBody dec d)"
proof -
  have "list_all listed (jobCard d)" "list_all listed (scheduleCard d)" "list_all listed (typeCard s)"
    "list_all listed (httpCard t)" "list_all listed (faktoryCard dec d)" "list_all listed (noscriptCard t)" for s t
    by (simp_all add: jobCard_def scheduleCard_def ratePanel_def oncePanel_def cronPanel_def typeCard_def httpCard_def
        faktoryCard_def noscriptCard_def listed_nodes html_parts)
  then show ?thesis by (simp add: scheduleFormBody_def listed_nodes html_parts)
qed

lemma listed_faktoryFormBody: "list_all listed (faktoryFormBody dec d)"
proof -
  have "list_all listed narrative" "list_all listed (instanceStep d)" "list_all listed (jobStep dec d)"
    "list_all listed (scheduleTypeStep s)" "list_all listed (scheduleDetailStep d)" "list_all listed reviewStep"
    "list_all listed wizNav" for s
    by (simp_all add: narrative_def instanceStep_def jobStep_def optionalHint_def scheduleTypeStep_def scheduleDetailStep_def
        wizTiming_def reviewStep_def wizNav_def listed_nodes html_parts listed_concat)
  then show ?thesis by (simp add: faktoryFormBody_def listed_nodes html_parts)
qed

lemma listed_pageBody: "list_all listed (pageBody loadLocation dec p)"
  by (simp add: pageBody_def listed_indexBody listed_pickerBody listed_scheduleFormBody listed_faktoryFormBody split: Page.split)

section \<open>The forms and links of a page\<close>

definition attrValue :: "attrs \<Rightarrow> string \<Rightarrow> string" where
  "attrValue as n = (case map_of as n of Some (Some v) \<Rightarrow> v | _ \<Rightarrow> [])"

fun formActions :: "token list \<Rightarrow> (string \<times> string) list" where
  "formActions [] = []"
| "formActions (Open n as # ts) =
     (if n = ''form'' then (attrValue as ''method'', attrValue as ''action'') # formActions ts else formActions ts)"
| "formActions (t # ts) = formActions ts"

fun linkTargets :: "token list \<Rightarrow> string list" where
  "linkTargets [] = []"
| "linkTargets (Open n as # ts) = (if n = ''a'' then attrValue as ''href'' # linkTargets ts else linkTargets ts)"
| "linkTargets (t # ts) = linkTargets ts"

definition view :: "node list \<Rightarrow> token list" where
  "view ns = concat (map viewNode ns)"

lemma view_simps [simp]:
  "view [] = []" "view (Txt s # ns) = Chars (visible s) # view ns" "view (ns @ ms) = view ns @ view ms"
  "view (Label n as m # ns) = Open n (map viewAttr as) # labelTokens m @ Close n # view ns"
  "view (Tag n as # ns) = Open n (map viewAttr as) # view ns" "view (EndTag n # ns) = Close n # view ns"
  "view (concat (map f xs)) = concat (map (\<lambda>x. view (f x)) xs)"
  by (induction xs) (simp_all add: view_def)

lemma formActions_append [simp]: "formActions (ts @ us) = formActions ts @ formActions us"
  by (induction ts rule: formActions.induct) simp_all

lemma linkTargets_append [simp]: "linkTargets (ts @ us) = linkTargets ts @ linkTargets us"
  by (induction ts rule: linkTargets.induct) simp_all

lemma reads_mergeTexts: "formActions (mergeTexts ts) = formActions ts" "linkTargets (mergeTexts ts) = linkTargets ts"
  by (induction ts rule: mergeTexts.induct) (auto split: list.split token.split)

lemma reads_viewHtml: "formActions (viewHtml ns) = formActions (view ns)" "linkTargets (viewHtml ns) = linkTargets (view ns)"
  by (simp_all add: viewHtml_def view_def reads_mergeTexts)

lemma labelTokens_reads:
  assumes "labelMarkup m"
  shows "formActions (labelTokens m) = []" "linkTargets (labelTokens m) = []"
proof -
  have "list_all labelToken ts \<Longrightarrow> formActions ts = [] \<and> linkTargets ts = []" for ts
    by (induction ts rule: formActions.induct) auto
  then show "formActions (labelTokens m) = []" "linkTargets (labelTokens m) = []"
    using readHtml_label(1) [OF assms] by blast+
qed

lemma reads_concat [simp]:
  "formActions (concat tss) = concat (map formActions tss)" "linkTargets (concat tss) = concat (map linkTargets tss)"
  by (induction tss) simp_all

lemma concat_map_Nil [simp]: "concat (map (\<lambda>x. []) xs) = []"
  by (induction xs) simp_all

lemma urlNormalize_plain: "list_all unreserved s \<Longrightarrow> urlNormalize s = s"
  by (induction s) simp_all

lemma visible_jobLink:
  assumes "nameOk n" "CHR 0x00 \<notin> set prefix" "CHR 0x00 \<notin> set action"
  shows "visible (jobLink prefix n action) = prefix @ PathEscape n @ ''/'' @ action"
proof -
  have u: "list_all unreserved n" using nameOk_unreserved assms(1) by blast
  then have "CHR 0x00 \<notin> set n" by (auto simp: list_all_iff unreserved_def isAlnum_def isDigit_def byte_def)
  then show ?thesis using assms by (simp add: jobLink_def PathEscape_plain u urlNormalize_plain)
qed

lemmas read_parts = el_def textEl_def opt_def alert_def backLink_def pageHeader_def attr_def cls_def flag_def flagIf_def
  viewAttr_def attrValue_def

lemma reads_parts [simp]:
  "formActions (view (textEl n s)) = (if n = ''form'' then [([], [])] else [])"
  "formActions (view (opt v chosen s)) = []" "linkTargets (view (opt v chosen s)) = []"
  "formActions (view (alert kind msg)) = []" "linkTargets (view (alert kind msg)) = []"
  by (simp_all add: read_parts)

definition jobPosts :: "ScheduleConfig \<Rightarrow> (string \<times> string) list" where
  "jobPosts s = map (\<lambda>a. (''post'', ''/v1/schedules/'' @ PathEscape (sc_Name s) @ ''/'' @ a))
     ((''pause'' # (if sc_Paused s then [] else [''run''])) @ [''delete''])"

lemma jobRow_reads:
  assumes "nameOk (sc_Name s)"
  shows "formActions (view (jobRow loadLocation s)) = jobPosts s"
    "linkTargets (view (jobRow loadLocation s)) =
      (if uiEditableTarget (tc_Type (sc_Target s)) then [''/schedules/'' @ PathEscape (sc_Name s) @ ''/edit''] else [])"
proof -
  have w: "visible (jobLink ''/v1/schedules/'' (sc_Name s) ''pause'') = ''/v1/schedules/'' @ PathEscape (sc_Name s) @ ''/pause''"
    "visible (jobLink ''/v1/schedules/'' (sc_Name s) ''run'') = ''/v1/schedules/'' @ PathEscape (sc_Name s) @ ''/run''"
    "visible (jobLink ''/v1/schedules/'' (sc_Name s) ''delete'') = ''/v1/schedules/'' @ PathEscape (sc_Name s) @ ''/delete''"
    "visible (jobLink ''/schedules/'' (sc_Name s) ''edit'') = ''/schedules/'' @ PathEscape (sc_Name s) @ ''/edit''"
    by (simp_all add: visible_jobLink [OF assms])
  have cells: "formActions (view (targetCell t)) = []" "linkTargets (view (targetCell t)) = []"
    "formActions (view (jobActions s)) = jobPosts s"
    "linkTargets (view (jobActions s)) =
      (if uiEditableTarget (tc_Type (sc_Target s)) then [''/schedules/'' @ PathEscape (sc_Name s) @ ''/edit''] else [])" for t
    by (simp_all add: targetCell_def jobActions_def jobPosts_def read_parts w)
  then show "formActions (view (jobRow loadLocation s)) = jobPosts s"
    "linkTargets (view (jobRow loadLocation s)) =
      (if uiEditableTarget (tc_Type (sc_Target s)) then [''/schedules/'' @ PathEscape (sc_Name s) @ ''/edit''] else [])"
    by (simp_all add: jobRow_def read_parts cells labelTokens_reads scheduleSummary_markup scheduleDetails_markup nextRunLabel_markup)
qed

lemma runRow_reads: "formActions (view (runRow v)) = []" "linkTargets (view (runRow v)) = []"
  by (simp_all add: runRow_def outputCell_def Let_def read_parts labelTokens_reads displayRunTime_markup)

lemma indexHeader_reads: "formActions (view (indexHeader d)) = []" "linkTargets (view (indexHeader d)) = []"
  by (simp_all add: indexHeader_def read_parts comp_def)

lemma jobRows_read:
  "list_all (\<lambda>s. nameOk (sc_Name s)) ss \<Longrightarrow>
    map (\<lambda>s. formActions (view (jobRow loadLocation s))) ss = map jobPosts ss"
  "list_all (\<lambda>s. nameOk (sc_Name s)) ss \<Longrightarrow>
    concat (map (\<lambda>s. linkTargets (view (jobRow loadLocation s))) ss) =
      map (\<lambda>s. ''/schedules/'' @ PathEscape (sc_Name s) @ ''/edit'') (filter (\<lambda>s. uiEditableTarget (tc_Type (sc_Target s))) ss)"
  by (induction ss) (simp_all add: jobRow_reads)

lemma indexBody_reads:
  assumes "list_all (\<lambda>s. nameOk (sc_Name s)) (ip_Schedules d)"
  shows "formActions (viewHtml (indexBody loadLocation d)) =
      concat (map jobPosts (ip_Schedules d)) @ [(''post'', ''/v1/runs/clear''), (''dialog'', [])]"
    "linkTargets (viewHtml (indexBody loadLocation d)) =
      ''/schedules/new'' # map (\<lambda>s. ''/schedules/'' @ PathEscape (sc_Name s) @ ''/edit'')
        (filter (\<lambda>s. uiEditableTarget (tc_Type (sc_Target s))) (ip_Schedules d))"
proof -
  note rows = jobRows_read [OF assms]
  show "formActions (viewHtml (indexBody loadLocation d)) =
      concat (map jobPosts (ip_Schedules d)) @ [(''post'', ''/v1/runs/clear''), (''dialog'', [])]"
    "linkTargets (viewHtml (indexBody loadLocation d)) =
      ''/schedules/new'' # map (\<lambda>s. ''/schedules/'' @ PathEscape (sc_Name s) @ ''/edit'')
        (filter (\<lambda>s. uiEditableTarget (tc_Type (sc_Target s))) (ip_Schedules d))"
    by (simp_all add: reads_viewHtml indexBody_def indexHeader_reads jobsSection_def runsSection_def outputDialog_def tableOf_def
        read_parts comp_def rows runRow_reads)
qed

end
