(* ===== verification/FormSubmit.thy ===== *)
theory FormSubmit
  imports PageReading
begin

text \<open>
  What a browser submits from the forms of the pages, computed from the tags and texts it has read:
  the entry list of HTML for inputs, selects and text areas, without the elements that a script has
  disabled.  For both forms it is the fields of \<open>FormFields\<close>.  A form whose enabled controls do not
  all satisfy their constraints is not submitted.
\<close>

section \<open>The entry list\<close>

text \<open>What follows the end tag that belongs to a start tag \<open>n\<close>; \<open>k\<close> counts the open elements of that name.\<close>

fun skipTo :: "string \<Rightarrow> nat \<Rightarrow> token list \<Rightarrow> token list" where
  "skipTo n k [] = []"
| "skipTo n k (Open m as # ts) = skipTo n (if m = n then Suc k else k) ts"
| "skipTo n k (Close m # ts) =
     (if m \<noteq> n then skipTo n k ts else case k of 0 \<Rightarrow> ts | Suc j \<Rightarrow> skipTo n j ts)"
| "skipTo n k (Chars s # ts) = skipTo n k ts"

fun readOptions :: "token list \<Rightarrow> (string \<times> bool) list" where
  "readOptions [] = []"
| "readOptions (Open n as # ts) =
     (if n = ''option'' then (attrValue as ''value'', ''selected'' \<in> fst ` set as) # readOptions ts else readOptions ts)"
| "readOptions (Close n # ts) = (if n = ''select'' then [] else readOptions ts)"
| "readOptions (Chars s # ts) = readOptions ts"

definition selectValue :: "(string \<times> bool) list \<Rightarrow> string" where
  "selectValue os = (case filter snd os of [] \<Rightarrow> fst (hd os) | cs \<Rightarrow> fst (last cs))"

fun textOf :: "token list \<Rightarrow> string" where
  "textOf (Chars s # ts) = s @ textOf ts"
| "textOf ts = []"

definition lineInput :: "string \<Rightarrow> string" where
  "lineInput s = filter (\<lambda>c. c \<noteq> newline \<and> c \<noteq> carriageReturn) s"

text \<open>The sanitization of the types the templates use; a number input holds an integer there.\<close>

definition inputValue :: "(string \<Rightarrow> string) \<Rightarrow> attrs \<Rightarrow> string" where
  "inputValue dateInput as =
     (let t = attrValue as ''type''; v = attrValue as ''value'' in
      if t = ''hidden'' \<or> t = ''radio'' \<or> t = ''number'' then v else if t = ''datetime-local'' then dateInput v else lineInput v)"

definition submits :: "attrs \<Rightarrow> bool" where
  "submits as \<longleftrightarrow> attrValue as ''name'' \<noteq> [] \<and> (attrValue as ''type'' = ''radio'' \<longrightarrow> ''checked'' \<in> fst ` set as)"

definition entry :: "(string \<Rightarrow> string) \<Rightarrow> string \<Rightarrow> attrs \<Rightarrow> token list \<Rightarrow> Values" where
  "entry dateInput n as ts =
     (if \<not> submits as then []
      else if n = ''input'' then [(attrValue as ''name'', inputValue dateInput as)]
      else if n = ''select'' then [(attrValue as ''name'', selectValue (readOptions ts))]
      else if n = ''textarea'' then [(attrValue as ''name'', formLineEnds (textOf ts))]
      else [])"

lemma skipTo_length: "length (skipTo n k ts) \<le> length ts"
  by (induction n k ts rule: skipTo.induct) (auto split: nat.splits)

function formData :: "(string \<Rightarrow> string) \<Rightarrow> (string \<Rightarrow> attrs \<Rightarrow> bool) \<Rightarrow> token list \<Rightarrow> Values" where
  "formData dateInput off [] = []"
| "formData dateInput off (Open n as # ts) =
     (if off n as then formData dateInput off (skipTo n 0 ts)
      else entry dateInput n as ts @ formData dateInput off ts)"
| "formData dateInput off (Close n # ts) = formData dateInput off ts"
| "formData dateInput off (Chars s # ts) = formData dateInput off ts"
  by pat_completeness auto
termination
  by (relation "measure (\<lambda>(f, off, ts). length ts)") (auto simp: less_Suc_eq_le skipTo_length)

section \<open>The scripts of the forms\<close>

text \<open>\<open>input[name=...]:checked\<close>\<close>

fun checkedRadio :: "string \<Rightarrow> token list \<Rightarrow> string option" where
  "checkedRadio name (Open n as # ts) =
     (if n = ''input'' \<and> attrValue as ''name'' = name \<and> ''checked'' \<in> fst ` set as then Some (attrValue as ''value'')
      else checkedRadio name ts)"
| "checkedRadio name (t # ts) = checkedRadio name ts"
| "checkedRadio name [] = None"

definition chosen :: "string \<Rightarrow> string \<Rightarrow> token list \<Rightarrow> string" where
  "chosen name otherwise ts = (case checkedRadio name ts of Some v \<Rightarrow> (if v = [] then otherwise else v) | None \<Rightarrow> otherwise)"

text \<open>\<open>syncSchedule\<close> and \<open>syncType\<close> disable the controls of the panels that are not chosen; with
  scripts the content of \<open>noscript\<close> is no part of the form.\<close>

definition panelOff :: "token list \<Rightarrow> string \<Rightarrow> attrs \<Rightarrow> bool" where
  "panelOff page n as \<longleftrightarrow> n = ''noscript'' \<or>
     (''data-schedule-panel'' \<in> fst ` set as \<and> attrValue as ''data-schedule-panel'' \<noteq> chosen ''schedule_type'' ''rate'' page) \<or>
     (''data-target-panel'' \<in> fst ` set as \<and> attrValue as ''data-target-panel'' \<noteq> chosen ''target_type'' ''http'' page)"

definition submitted :: "(string \<Rightarrow> string) \<Rightarrow> token list \<Rightarrow> Values" where
  "submitted dateInput page = formData dateInput (panelOff page) page"

text \<open>The constraints a browser checks: a required control has a value, a number is not below its minimum.\<close>

definition invalidInput :: "attrs \<Rightarrow> bool" where
  "invalidInput as \<longleftrightarrow> (''required'' \<in> fst ` set as \<and> attrValue as ''value'' = []) \<or>
     (attrValue as ''type'' = ''number'' \<and>
      (case (Atoi (attrValue as ''value''), Atoi (attrValue as ''min'')) of (Inr v, Inr low) \<Rightarrow> v < low | _ \<Rightarrow> False))"

function blocked :: "(string \<Rightarrow> attrs \<Rightarrow> bool) \<Rightarrow> token list \<Rightarrow> bool" where
  "blocked off [] = False"
| "blocked off (Open n as # ts) =
     (if off n as then blocked off (skipTo n 0 ts)
      else if n = ''input'' then invalidInput as \<or> blocked off ts
      else if n = ''select'' then ''required'' \<in> fst ` set as \<and> selectValue (readOptions ts) = [] \<or> blocked off ts
      else blocked off ts)"
| "blocked off (Close n # ts) = blocked off ts"
| "blocked off (Chars s # ts) = blocked off ts"
  by pat_completeness auto
termination
  by (relation "measure (\<lambda>(off, ts). length ts)") (auto simp: less_Suc_eq_le skipTo_length)

section \<open>Texts between the tags do not matter\<close>

lemma skipTo_addText: "skipTo n k (addText s ts) = skipTo n k ts"
  by (cases ts; cases "hd ts") (auto simp: addText_def)

lemma skipTo_mergeTexts: "skipTo n k (mergeTexts ts) = mergeTexts (skipTo n k ts)"
  by (induction n k ts rule: skipTo.induct)
     (auto simp: mergeTexts_Chars skipTo_addText simp del: mergeTexts.simps(2) split: nat.split)

lemma readOptions_addText: "readOptions (addText s ts) = readOptions ts"
  by (cases ts; cases "hd ts") (auto simp: addText_def)

lemma readOptions_mergeTexts: "readOptions (mergeTexts ts) = readOptions ts"
  by (induction ts rule: readOptions.induct)
     (auto simp: mergeTexts_Chars readOptions_addText simp del: mergeTexts.simps(2))

lemma textOf_addText: "textOf (addText s ts) = s @ textOf ts"
  by (cases ts; cases "hd ts") (auto simp: addText_def)

lemma textOf_mergeTexts: "textOf (mergeTexts ts) = textOf ts"
  by (induction ts rule: textOf.induct) (auto simp: mergeTexts_Chars textOf_addText simp del: mergeTexts.simps(2))

lemma entry_mergeTexts: "entry dateInput n as (mergeTexts ts) = entry dateInput n as ts"
  by (simp add: entry_def readOptions_mergeTexts textOf_mergeTexts)

lemma formData_addText: "formData dateInput off (addText s ts) = formData dateInput off ts"
  by (cases ts; cases "hd ts") (auto simp: addText_def)

lemma formData_mergeTexts: "formData dateInput off (mergeTexts ts) = formData dateInput off ts"
  by (induction dateInput off ts rule: formData.induct)
     (simp_all add: mergeTexts_Chars formData_addText skipTo_mergeTexts entry_mergeTexts del: mergeTexts.simps(2))

lemma checkedRadio_addText: "checkedRadio name (addText s ts) = checkedRadio name ts"
  by (cases ts; cases "hd ts") (auto simp: addText_def)

lemma checkedRadio_mergeTexts: "checkedRadio name (mergeTexts ts) = checkedRadio name ts"
  by (induction name ts rule: checkedRadio.induct)
     (simp_all add: mergeTexts_Chars checkedRadio_addText del: mergeTexts.simps(2))

lemma blocked_addText: "blocked off (addText s ts) = blocked off ts"
  by (cases ts; cases "hd ts") (auto simp: addText_def)

lemma blocked_mergeTexts: "blocked off (mergeTexts ts) = blocked off ts"
  by (induction off ts rule: blocked.induct)
     (simp_all add: mergeTexts_Chars blocked_addText skipTo_mergeTexts readOptions_mergeTexts del: mergeTexts.simps(2))

section \<open>The form of HTTP jobs\<close>

lemmas control_defs = el_def textEl_def attr_def cls_def flag_def flagIf_def inputEl_def viewAttr_def attrValue_def opt_def
  entry_def submits_def inputValue_def

definition optionsOpen :: "(string \<Rightarrow> attrs \<Rightarrow> bool) \<Rightarrow> bool" where
  "optionsOpen off \<longleftrightarrow> (\<forall>v c. \<not> off ''option'' (map viewAttr (attr ''value'' v # flagIf c ''selected'')))"

lemma formData_opt:
  "optionsOpen off \<Longrightarrow> formData dateInput off (view (opt v c s) @ ts) = formData dateInput off ts"
  unfolding optionsOpen_def opt_def el_def by (simp add: entry_def submits_def attrValue_def attr_def flagIf_def flag_def viewAttr_def)

lemma formData_opts:
  "optionsOpen off \<Longrightarrow> formData dateInput off (concat (map (\<lambda>v. view (opt (f v) (g v) (h v))) vs) @ ts) = formData dateInput off ts"
  by (induction vs) (simp_all add: formData_opt)

lemma readOptions_opt:
  "readOptions (view (opt v c s) @ ts) = (visible v, c) # readOptions ts"
  by (cases c) (simp_all add: control_defs)

lemma readOptions_opts:
  "readOptions (concat (map (\<lambda>v. view (opt (f v) (g v) (h v))) vs) @ ts) = map (\<lambda>v. (visible (f v), g v)) vs @ readOptions ts"
  by (induction vs) (simp_all add: readOptions_opt)

lemma selectValue_options:
  assumes "options \<noteq> []"
  shows "selectValue (map (\<lambda>v. (visible v, v = current)) options) = selectInput options current"
proof (cases "current \<in> set options")
  case True
  have "filter snd (map (\<lambda>v. (visible v, v = current)) vs) = replicate (count_list vs current) (visible current, True)" for vs
    by (induction vs) auto
  moreover have "count_list options current \<noteq> 0" using True by (simp add: count_list_0_iff)
  then obtain m where "count_list options current = Suc m" using not0_implies_Suc by blast
  ultimately show ?thesis using True by (simp add: selectValue_def selectInput_def)
next
  case False
  then have "filter snd (map (\<lambda>v. (visible v, v = current)) options) = []" by (auto simp: filter_empty_conv)
  then show ?thesis using False assms by (simp add: selectValue_def selectInput_def hd_map)
qed

lemma formData_selectEl:
  assumes "optionsOpen off" "options \<noteq> []" "\<not> off ''select'' (map viewAttr as)" "attrValue (map viewAttr as) ''name'' \<noteq> []"
    and "attrValue (map viewAttr as) ''type'' = []"
  shows "formData dateInput off (view (selectEl as options current) @ ts) =
    (attrValue (map viewAttr as) ''name'', selectInput options current) # formData dateInput off ts"
  using assms by (simp add: selectEl_def el_def entry_def submits_def formData_opts readOptions_opts selectValue_options)

lemma optionsOpen_panelOff: "optionsOpen (panelOff page)"
  by (simp add: optionsOpen_def panelOff_def attr_def flagIf_def flag_def viewAttr_def)

lemma panelOff_plain:
  "n \<noteq> ''noscript'' \<Longrightarrow> ''data-schedule-panel'' \<notin> fst ` set as \<Longrightarrow> ''data-target-panel'' \<notin> fst ` set as \<Longrightarrow> \<not> panelOff page n as"
  by (auto simp: panelOff_def attrValue_def)

lemma jobCard_data:
  "formData dateInput (panelOff page) (view (jobCard d) @ ts) = jobFields d @ formData dateInput (panelOff page) ts"
  by (simp add: jobCard_def cardHead_def Let_def control_defs panelOff_plain jobFields_def textInput_def lineInput_def selectValue_def)

lemmas card_defs = cardHead_def radio_def timezoneHint_def panelGrid_def Let_def control_defs panelOff_plain textInput_def lineInput_def

lemma radios_data:
  "formData dateInput (panelOff page) (view (radio name v c title hint) @ ts) =
    (if visible name \<noteq> [] \<and> c then [(visible name, visible v)] else []) @ formData dateInput (panelOff page) ts"
  by (simp add: card_defs)

lemma timezoneHint_data:
  "formData dateInput (panelOff page) (view (timezoneHint s z t) @ ts) = formData dateInput (panelOff page) ts"
  by (simp add: card_defs)

lemma units: "unitOptions \<noteq> []" "methodOptions \<noteq> []"
  by (simp_all add: unitOptions_def methodOptions_def)

lemma select_data:
  assumes "options \<noteq> []" "CHR 0x00 \<notin> set name" "name \<noteq> []"
    and as: "list_all (\<lambda>a. fst a \<notin> {''name'', ''type'', ''data-schedule-panel'', ''data-target-panel''}) as"
  shows "formData dateInput (panelOff page) (view (selectEl ((''name'', Some name) # as) options current) @ ts) =
    (name, selectInput options current) # formData dateInput (panelOff page) ts"
proof -
  have f: "fst ` set (map viewAttr as) = fst ` set as" by (simp add: image_image viewAttr_def)
  have v: "attrValue (map viewAttr ((''name'', Some name) # as)) ''name'' = name"
    using assms(2) by (simp add: attrValue_def viewAttr_def)
  have "map_of (map viewAttr as) ''type'' = None"
    using as f by (auto simp: map_of_eq_None_iff list_all_iff)
  then have t: "attrValue (map viewAttr ((''name'', Some name) # as)) ''type'' = []"
    by (simp add: attrValue_def viewAttr_def)
  have "\<not> panelOff page ''select'' (map viewAttr ((''name'', Some name) # as))"
    by (rule panelOff_plain) (use as f in \<open>auto simp: viewAttr_def list_all_iff image_iff\<close>)
  from formData_selectEl [OF optionsOpen_panelOff assms(1) this _ t] show ?thesis using v assms(3) by simp
qed

lemma skipTo_selectEl:
  assumes "n \<noteq> ''select''" "n \<noteq> ''option''"
  shows "skipTo n k (view (selectEl as options current) @ ts) = skipTo n k ts"
proof -
  have "skipTo n k (concat (map (\<lambda>v. view (opt v (v = current) v)) vs) @ us) = skipTo n k us" for vs us
    using assms by (induction vs) (simp_all add: opt_def el_def)
  then show ?thesis using assms by (simp add: selectEl_def el_def)
qed

lemma visible_Itoa: "visible (Itoa i) = Itoa i"
proof (rule visible_id)
  have "list_all isDigit (utoa n) \<Longrightarrow> CHR 0x00 \<notin> set (utoa n)" for n by (auto simp: list_all_iff isDigit_def byte_def)
  then show "CHR 0x00 \<notin> set (Itoa i)" using utoa_all_digits by (auto simp: Itoa_def)
qed

lemma ratePanel_data:
  "formData dateInput (panelOff page) (view (ratePanel s) @ ts) =
    (if chosen ''schedule_type'' ''rate'' page = ''rate''
     then [(''rate_interval'', Itoa (sint (sc_RateInterval s))), (''rate_unit'', selectInput unitOptions (sc_RateUnit s)),
           (''starts_at'', dateInput (visible (sc_StartsAt s)))] else []) @ formData dateInput (panelOff page) ts"
  by (simp add: ratePanel_def card_defs select_data units skipTo_selectEl visible_Itoa) (auto simp: panelOff_def attrValue_def)

lemma oncePanel_data:
  "formData dateInput (panelOff page) (view (oncePanel s) @ ts) =
    (if chosen ''schedule_type'' ''rate'' page = ''once'' then [(''run_at'', dateInput (visible (sc_RunAt s)))] else []) @
    formData dateInput (panelOff page) ts"
  by (simp add: oncePanel_def card_defs) (auto simp: panelOff_def attrValue_def)

lemma cronPanel_data:
  "formData dateInput (panelOff page) (view (cronPanel s) @ ts) =
    (if chosen ''schedule_type'' ''rate'' page = ''cron'' then [(''cron'', textInput (sc_Cron s))] else []) @
    formData dateInput (panelOff page) ts"
  by (simp add: cronPanel_def card_defs) (auto simp: panelOff_def attrValue_def)

lemma scheduleCard_data:
  assumes "fp_Timezones d \<noteq> []" "sc_ScheduleType (fp_Schedule d) \<in> {''rate'', ''once'', ''cron''}"
    and "chosen ''schedule_type'' ''rate'' page = sc_ScheduleType (fp_Schedule d)"
  shows "formData dateInput (panelOff page) (view (scheduleCard d) @ ts) =
    scheduleTypeFields d @ timingFields dateInput d @ formData dateInput (panelOff page) ts"
proof -
  have "formData dateInput (panelOff page) (view (scheduleCard d) @ ts) = scheduleTypeFields d @
      formData dateInput (panelOff page) (view (ratePanel (fp_Schedule d)) @ view (oncePanel (fp_Schedule d)) @
        view (cronPanel (fp_Schedule d)) @ Close ''div'' # Close ''section'' # ts)"
    using assms(1) by (simp add: scheduleCard_def cardHead_def Let_def control_defs panelOff_plain radios_data timezoneHint_data
        select_data scheduleTypeFields_def)
  then show ?thesis using assms(2,3)
    by (auto simp: ratePanel_data oncePanel_data cronPanel_data timingFields_def Let_def)
qed

lemma typeCard_data:
  assumes "tc_Type (sc_Target s) = ''http''"
  shows "formData dateInput (panelOff page) (view (typeCard s) @ ts) =
    (''target_type'', ''http'') # formData dateInput (panelOff page) ts"
  using assms by (simp add: typeCard_def cardHead_def Let_def control_defs panelOff_plain radios_data)

lemma httpCard_data:
  assumes "chosen ''target_type'' ''http'' page = ''http''"
  shows "formData dateInput (panelOff page) (view (httpCard (sc_Target (fp_Schedule d))) @ ts) =
    tl (httpFields d) @ formData dateInput (panelOff page) ts"
  using assms by (simp add: httpCard_def card_defs select_data units httpFields_def) (simp add: panelOff_def attrValue_def)

lemma skipped_cards:
  assumes "chosen ''target_type'' ''http'' page = ''http''"
  shows "formData dateInput (panelOff page) (view (faktoryCard dec d) @ ts) = formData dateInput (panelOff page) ts"
    "formData dateInput (panelOff page) (view (noscriptCard t) @ ts) = formData dateInput (panelOff page) ts"
proof -
  have off: "panelOff page ''section'' [(''class'', Some ''form-card''), (''data-target-panel'', Some ''faktory'')]"
    "panelOff page ''noscript'' []"
    using assms by (simp_all add: panelOff_def attrValue_def)
  show "formData dateInput (panelOff page) (view (faktoryCard dec d) @ ts) = formData dateInput (panelOff page) ts"
    using off by (simp add: faktoryCard_def card_defs skipTo_selectEl)
  show "formData dateInput (panelOff page) (view (noscriptCard t) @ ts) = formData dateInput (panelOff page) ts"
    using off by (simp add: noscriptCard_def card_defs skipTo_selectEl)
qed

lemma frame_data:
  "formData dateInput (panelOff page) (view (alert kind msg) @ ts) = formData dateInput (panelOff page) ts"
  "formData dateInput (panelOff page) (view (pageHeader title [Txt s] (backLink b)) @ ts) = formData dateInput (panelOff page) ts"
  "formData dateInput (panelOff page) (view (backLink b) @ ts) = formData dateInput (panelOff page) ts"
  by (simp_all add: alert_def pageHeader_def backLink_def control_defs panelOff_plain)

text \<open>Which radio buttons of the page are checked.\<close>

lemma checkedRadio_parts:
  "checkedRadio name (view (alert kind msg) @ ts) = checkedRadio name ts"
  "checkedRadio name (view (pageHeader title [Txt s] (backLink b)) @ ts) = checkedRadio name ts"
  "checkedRadio name (view (radio name' v c title hint) @ ts) =
    (if visible name' = name \<and> c then Some (visible v) else checkedRadio name ts)"
  by (simp_all add: alert_def pageHeader_def backLink_def radio_def control_defs) (cases c; simp)

lemma checkedRadio_selectEl: "checkedRadio name (view (selectEl as options current) @ ts) = checkedRadio name ts"
proof -
  have "checkedRadio name (concat (map (\<lambda>v. view (opt v (v = current) v)) vs) @ us) = checkedRadio name us" for vs us
    by (induction vs) (simp_all add: opt_def el_def)
  then show ?thesis by (simp add: selectEl_def el_def)
qed

lemma checkedRadio_jobCard:
  "name \<in> {''schedule_type'', ''target_type''} \<Longrightarrow> checkedRadio name (view (jobCard d) @ ts) = checkedRadio name ts"
  by (auto simp: jobCard_def cardHead_def Let_def control_defs)

lemma checkedRadio_scheduleCard:
  "sc_ScheduleType (fp_Schedule d) \<in> {''rate'', ''once'', ''cron''} \<Longrightarrow>
    checkedRadio ''schedule_type'' (view (scheduleCard d) @ ts) = Some (sc_ScheduleType (fp_Schedule d))"
  "checkedRadio ''target_type'' (view (scheduleCard d) @ ts) = checkedRadio ''target_type'' ts"
  by (auto simp: scheduleCard_def ratePanel_def oncePanel_def cronPanel_def cardHead_def timezoneHint_def Let_def control_defs checkedRadio_parts
      checkedRadio_selectEl)

lemma checkedRadio_typeCard:
  "tc_Type (sc_Target s) = ''http'' \<Longrightarrow> checkedRadio ''target_type'' (view (typeCard s) @ ts) = Some ''http''"
  by (simp add: typeCard_def cardHead_def Let_def control_defs checkedRadio_parts)

lemma chosen_panels:
  assumes "sc_ScheduleType (fp_Schedule d) \<in> {''rate'', ''once'', ''cron''}" "tc_Type (sc_Target (fp_Schedule d)) = ''http''"
  shows "chosen ''schedule_type'' ''rate'' (viewHtml (scheduleFormBody dec d)) = sc_ScheduleType (fp_Schedule d)"
    "chosen ''target_type'' ''http'' (viewHtml (scheduleFormBody dec d)) = ''http''"
proof -
  have page: "viewHtml (scheduleFormBody dec d) = mergeTexts (view (scheduleFormBody dec d))" by (simp add: viewHtml_def view_def)
  have "checkedRadio name (view (scheduleFormBody dec d)) =
      checkedRadio name (view (scheduleCard d) @ view (typeCard (fp_Schedule d)) @ ts)"
    if "name \<in> {''schedule_type'', ''target_type''}" "ts = view (httpCard (sc_Target (fp_Schedule d))) @
      view (faktoryCard dec d) @ view (noscriptCard (sc_Target (fp_Schedule d))) @
      view (el ''div'' [cls ''form-actions''] (el ''button'' [attr ''type'' ''submit''] [Txt (fp_SubmitLabel d)] @ backLink ''Cancel'')) @
      [Close ''form'', Close ''main'']" for name ts
    using that(1) unfolding that(2) scheduleFormBody_def el_def [of "''main''"] el_def [of "''form''"]
    by (simp add: checkedRadio_parts checkedRadio_jobCard)
  note whole = this [OF _ refl]
  have "sc_ScheduleType (fp_Schedule d) \<noteq> []" using assms(1) by auto
  then show "chosen ''schedule_type'' ''rate'' (viewHtml (scheduleFormBody dec d)) = sc_ScheduleType (fp_Schedule d)"
    using assms(1) by (simp add: chosen_def page checkedRadio_mergeTexts whole checkedRadio_scheduleCard)
  show "chosen ''target_type'' ''http'' (viewHtml (scheduleFormBody dec d)) = ''http''"
    using assms(2) by (simp add: chosen_def page checkedRadio_mergeTexts whole checkedRadio_scheduleCard checkedRadio_typeCard)
qed

text \<open>A browser submits from the page the fields of \<open>scheduleFormFields\<close>.\<close>

lemma submitted_scheduleForm:
  assumes "sc_ScheduleType (fp_Schedule d) \<in> {''rate'', ''once'', ''cron''}" "tc_Type (sc_Target (fp_Schedule d)) = ''http''"
    and "fp_Timezones d \<noteq> []"
  shows "submitted dateInput (viewHtml (scheduleFormBody dec d)) = scheduleFormFields dateInput d"
proof -
  define page where "page = viewHtml (scheduleFormBody dec d)"
  note ch = chosen_panels [OF assms(1,2), of dec, folded page_def]
  have "submitted dateInput page = formData dateInput (panelOff page) (view (scheduleFormBody dec d))"
    by (simp add: submitted_def formData_mergeTexts) (simp add: page_def viewHtml_def formData_mergeTexts view_def)
  also have "\<dots> = scheduleFormFields dateInput d"
    unfolding scheduleFormBody_def el_def [of "''main''"] el_def [of "''form''"]
    by (simp add: frame_data jobCard_data scheduleCard_data [OF assms(3,1) ch(1)] typeCard_data [OF assms(2)]
        httpCard_data [OF ch(2)] skipped_cards [OF ch(2)] panelOff_plain)
       (simp add: control_defs frame_data panelOff_plain scheduleFormFields_def httpFields_def Let_def)
  finally show ?thesis by (simp add: page_def)
qed

section \<open>The form of Faktory jobs\<close>

lemmas wizard_plain = narrative_def fragment_def wizStep_def stepHead_def optionalHint_def scheduleButton_def
  reviewStep_def wizNav_def panelOff_plain el_def textEl_def attr_def cls_def flag_def flagIf_def inputEl_def viewAttr_def
  attrValue_def entry_def submits_def inputValue_def

lemmas wizard_defs = wizard_plain opt_def

lemma selectValue_placeholder:
  assumes "options \<noteq> []"
  shows "selectValue (([], False) # map (\<lambda>v. (visible v, v = current)) options) = selectInput ([] # options) current"
proof (cases "current \<in> set options")
  case True
  then have "filter snd (map (\<lambda>v. (visible v, v = current)) options) \<noteq> []" by (auto simp: filter_empty_conv)
  then show ?thesis
    using selectValue_options [OF assms, of current] True by (auto simp: selectValue_def selectInput_def split: list.splits)
next
  case False
  then have "filter snd (map (\<lambda>v. (visible v, v = current)) options) = []" by (auto simp: filter_empty_conv)
  then show ?thesis using False by (simp add: selectValue_def selectInput_def)
qed

lemma instanceStep_data:
  assumes "fp_FaktoryInstances d \<noteq> []"
  shows "formData dateInput (panelOff page) (view (instanceStep d) @ ts) =
    (''target_faktory_instance'',
      if 1 < length (fp_FaktoryInstances d) then selectInput ([] # fp_FaktoryInstances d) (tc_Instance (sc_Target (fp_Schedule d)))
      else visible (hd (fp_FaktoryInstances d))) # formData dateInput (panelOff page) ts"
proof (cases "1 < length (fp_FaktoryInstances d)")
  case True
  let ?cur = "tc_Instance (sc_Target (fp_Schedule d))"
  note selectValue_placeholder [OF assms, of ?cur]
  then show ?thesis using True
    by (simp add: instanceStep_def wizard_plain formData_opt formData_opts readOptions_opt readOptions_opts optionsOpen_panelOff)
next
  case False
  then show ?thesis by (simp add: instanceStep_def wizard_defs)
qed

lemma jobStep_data:
  "formData dateInput (panelOff page) (view (jobStep dec d) @ ts) =
    [(''target_faktory_job_type'', textInput (tc_JobType (sc_Target (fp_Schedule d)))),
     (''target_faktory_queue'', textInput (tc_Queue (sc_Target (fp_Schedule d)))),
     (''description'', textInput (sc_Description (fp_Schedule d))),
     (''target_faktory_args'', formLineEnds (visible (targetJSONArgs dec (sc_Target (fp_Schedule d)))))] @
    formData dateInput (panelOff page) ts"
  by (simp add: jobStep_def Let_def wizard_defs textInput_def lineInput_def)

lemma scheduleSteps_data:
  assumes "fp_Timezones d \<noteq> []"
  shows "formData dateInput (panelOff page) (view (scheduleTypeStep (fp_Schedule d)) @ view (scheduleDetailStep d) @ ts) =
    faktoryTimingFields dateInput d @ formData dateInput (panelOff page) ts"
  using assms by (simp add: scheduleTypeStep_def scheduleDetailStep_def wizTiming_def Let_def wizard_defs select_data units
      visible_Itoa faktoryTimingFields_def textInput_def lineInput_def selectValue_def)

lemma submitted_faktoryForm:
  assumes "fp_Timezones d \<noteq> []" "fp_FaktoryInstances d \<noteq> []"
  shows "submitted dateInput (viewHtml (faktoryFormBody dec d)) = faktoryFormFields dec dateInput d"
proof -
  define page where "page = viewHtml (faktoryFormBody dec d)"
  have "submitted dateInput page = formData dateInput (panelOff page) (view (faktoryFormBody dec d))"
    by (simp add: submitted_def formData_mergeTexts) (simp add: page_def viewHtml_def formData_mergeTexts view_def)
  also have "\<dots> = faktoryFormFields dec dateInput d"
    unfolding faktoryFormBody_def el_def [of "''main''"] el_def [of "''form''"]
    by (simp add: frame_data instanceStep_data [OF assms(2)] jobStep_data scheduleSteps_data [OF assms(1)] wizard_defs faktoryFormFields_def faktoryJobFields_def Let_def)
  finally show ?thesis by (simp add: page_def)
qed

text \<open>The form of a valid job is refused by the browser exactly when its hidden rate interval, which a
  cron or one-time job of a configuration file leaves at zero, is below the minimum of the input.\<close>

lemma blocked_opts:
  "optionsOpen off \<Longrightarrow> blocked off (view (opt x y z) @ ts) = blocked off ts"
  "optionsOpen off \<Longrightarrow> blocked off (concat (map (\<lambda>v. view (opt (f v) (g v) (h v))) vs) @ ts) = blocked off ts"
proof -
  have o: "optionsOpen off \<Longrightarrow> blocked off (view (opt x y z) @ ts) = blocked off ts" for x y z ts
    unfolding optionsOpen_def opt_def el_def by simp
  then show "optionsOpen off \<Longrightarrow> blocked off (view (opt x y z) @ ts) = blocked off ts" .
  show "optionsOpen off \<Longrightarrow> blocked off (concat (map (\<lambda>v. view (opt (f v) (g v) (h v))) vs) @ ts) = blocked off ts"
    by (induction vs) (simp_all add: o)
qed

lemma blocked_selectEl:
  assumes "optionsOpen off" "\<not> off ''select'' (map viewAttr as)" "''required'' \<notin> fst ` set as"
  shows "blocked off (view (selectEl as options current) @ ts) = blocked off ts"
proof -
  have "fst ` set (map viewAttr as) = fst ` set as" by (simp add: image_image viewAttr_def)
  then show ?thesis using assms by (simp add: selectEl_def el_def blocked_opts image_image)
qed

lemma visible_Nil: "visible s = [] \<longleftrightarrow> s = []"
  by (cases s) (simp_all add: visible_def bytesOf_def)

lemma rateInput_invalid:
  "(case (Atoi (Itoa (sint w)), Atoi ''1'') of (Inr v, Inr low) \<Rightarrow> v < low | _ \<Rightarrow> False) \<longleftrightarrow> sint (w :: 64 word) < 1"
proof -
  have "Atoi ''1'' = Inr 1" by code_simp
  then show ?thesis using Atoi_Itoa [of "sint w"] sint_range_size [of w] by (simp add: word_size)
qed

lemma blocked_faktoryForm:
  assumes "tc_JobType (sc_Target (fp_Schedule d)) \<noteq> []" "tc_Instance (sc_Target (fp_Schedule d)) \<noteq> []"
    and "tc_Instance (sc_Target (fp_Schedule d)) \<in> set (fp_FaktoryInstances d)"
  shows "blocked (panelOff page) (viewHtml (faktoryFormBody dec d)) \<longleftrightarrow> sint (sc_RateInterval (fp_Schedule d)) < 1"
proof -
  note b = wizard_plain blocked_opts blocked_selectEl optionsOpen_panelOff invalidInput_def visible_Nil
  have i: "blocked (panelOff page) (view (instanceStep d) @ ts) = blocked (panelOff page) ts" for ts
  proof (cases "1 < length (fp_FaktoryInstances d)")
    case True
    have "fp_FaktoryInstances d \<noteq> []" using assms(3) by auto
    then have "selectValue (([], False) # map (\<lambda>v. (visible v, v = tc_Instance (sc_Target (fp_Schedule d)))) (fp_FaktoryInstances d)) \<noteq> []"
      using selectValue_placeholder assms(2,3) by (simp add: selectInput_def visible_Nil)
    then show ?thesis using True by (simp add: instanceStep_def b readOptions_opt readOptions_opts)
  next
    case False
    then show ?thesis by (simp add: instanceStep_def b)
  qed
  have j: "blocked (panelOff page) (view (jobStep dec d) @ ts) = blocked (panelOff page) ts" for ts
    using assms(1) by (simp add: jobStep_def Let_def b)
  have s: "blocked (panelOff page) (view (scheduleTypeStep (fp_Schedule d)) @ view (scheduleDetailStep d) @ ts) =
      (sint (sc_RateInterval (fp_Schedule d)) < 1 \<or> blocked (panelOff page) ts)" for ts
    using rateInput_invalid [of "sc_RateInterval (fp_Schedule d)"]
    by (simp add: scheduleTypeStep_def scheduleDetailStep_def wizTiming_def Let_def b visible_Itoa)
  have "blocked (panelOff page) (view (faktoryFormBody dec d)) = (sint (sc_RateInterval (fp_Schedule d)) < 1)"
    unfolding faktoryFormBody_def el_def [of "''main''"] el_def [of "''form''"]
    by (simp add: alert_def pageHeader_def backLink_def b i j s)
  then show ?thesis by (simp add: viewHtml_def view_def blocked_mergeTexts)
qed

end
