(* ===== verification/JsonRoundtrip.thy ===== *)
theory JsonRoundtrip
  imports Json FormFields
begin

text \<open>
  The text that the encoder of \<open>Json\<close> writes is read back by its decoder, also after a browser has
  made every line end of the text area \<open>CR LF\<close>: strings, numbers, nested values, and the arguments in the
  form of a Faktory job.  What the decoder yields is a value that comes back unchanged.
\<close>

section \<open>Runes\<close>

definition lead2 :: "char \<Rightarrow> char \<Rightarrow> bool" where
  "lead2 a b \<longleftrightarrow> 0xC2 \<le> byte a \<and> byte a \<le> 0xDF \<and> cont b"

definition lead3 :: "char \<Rightarrow> char \<Rightarrow> char \<Rightarrow> bool" where
  "lead3 a b c \<longleftrightarrow> (byte a = 0xE0 \<and> 0xA0 \<le> byte b \<or> byte a = 0xED \<and> byte b \<le> 0x9F \<or>
     0xE1 \<le> byte a \<and> byte a \<le> 0xEF \<and> byte a \<noteq> 0xED) \<and> cont b \<and> cont c"

definition lead4 :: "char \<Rightarrow> char \<Rightarrow> char \<Rightarrow> char \<Rightarrow> bool" where
  "lead4 a b c d \<longleftrightarrow> (byte a = 0xF0 \<and> 0x90 \<le> byte b \<or> 0xF1 \<le> byte a \<and> byte a \<le> 0xF3 \<or> byte a = 0xF4 \<and> byte b \<le> 0x8F) \<and>
     cont b \<and> cont c \<and> cont d"

lemma runeLen_iff:
  "runeLen s = 1 \<longleftrightarrow> (\<exists>a t. s = a # t \<and> byte a < 128)"
  "runeLen s = 2 \<longleftrightarrow> (\<exists>a b t. s = a # b # t \<and> lead2 a b)"
  "runeLen s = 3 \<longleftrightarrow> (\<exists>a b c t. s = a # b # c # t \<and> lead3 a b c)"
  "runeLen s = 4 \<longleftrightarrow> (\<exists>a b c d t. s = a # b # c # d # t \<and> lead4 a b c d)"
  "runeLen s \<in> {0, 1, 2, 3, 4}"
  by (auto simp: runeLen_def lead2_def lead3_def lead4_def split: list.splits)

lemma runeLen_cases:
  obtains "runeLen s = 0" | a t where "s = a # t" "byte a < 128" "runeLen s = 1"
  | a b t where "s = a # b # t" "lead2 a b" "runeLen s = 2"
  | a b c t where "s = a # b # c # t" "lead3 a b c" "runeLen s = 3"
  | a b c d t where "s = a # b # c # d # t" "lead4 a b c d" "runeLen s = 4"
proof -
  note zero = that(1) and one = that(2) and two = that(3) and three = that(4) and four = that(5)
  consider "runeLen s = 0" | "runeLen s = 1" | "runeLen s = 2" | "runeLen s = 3" | "runeLen s = 4"
    using runeLen_iff(5) [of s] by auto
  then show ?thesis
  proof cases
    case 2
    then show ?thesis using runeLen_iff(1) [of s] one by blast
  next
    case 3
    then show ?thesis using runeLen_iff(2) [of s] two by blast
  next
    case 4
    then show ?thesis using runeLen_iff(3) [of s] three by blast
  next
    case 5
    then show ?thesis using runeLen_iff(4) [of s] four by blast
  qed (rule zero)
qed

lemma runeLen_lead:
  "byte a < 128 \<Longrightarrow> runeLen (a # t) = 1" "lead2 a b \<Longrightarrow> runeLen (a # b # t) = 2"
  "lead3 a b c \<Longrightarrow> runeLen (a # b # c # t) = 3" "lead4 a b c d \<Longrightarrow> runeLen (a # b # c # d # t) = 4"
  unfolding runeLen_iff by simp_all

lemma runeLen_prefix: "0 < runeLen s \<Longrightarrow> runeLen (take (runeLen s) s @ t) = runeLen s"
  by (cases s rule: runeLen_cases) (simp_all add: runeLen_lead)

lemma lead_byte: "lead2 a b \<Longrightarrow> 0xC2 \<le> byte a" "lead3 a b c \<Longrightarrow> 0xE0 \<le> byte a" "lead4 a b c d \<Longrightarrow> 0xF0 \<le> byte a"
  by (auto simp: lead2_def lead3_def lead4_def)

section \<open>Strings\<close>

definition gotRune :: "string \<Rightarrow> (string \<times> string) option \<Rightarrow> (string \<times> string) option" where
  "gotRune r = map_option (\<lambda>(s, t). (r @ s, t))"

lemma gotRune_Some [simp]: "gotRune r (Some (s, t)) = Some (r @ s, t)" "gotRune [] x = x"
  by (cases x; auto simp: gotRune_def)+

lemma readString_raw:
  assumes "0 < runeLen s" "s = c # cs" "c \<noteq> CHR 0x22" "c \<noteq> CHR 0x5C" "32 \<le> byte c"
  shows "readString (take (runeLen s) s @ x) = gotRune (take (runeLen s) s) (readString x)"
proof -
  obtain n where n: "runeLen s = Suc n" using assms(1) gr0_implies_Suc by blast
  then have t: "take (runeLen s) s = c # take n cs" by (simp add: assms(2))
  have l: "runeLen (c # take n cs @ x) = Suc n" using runeLen_prefix [OF assms(1), of x] n t by simp
  have k: "n \<le> length cs" using runeLen_iff [of s] n assms(2) by (cases s rule: runeLen_cases) auto
  show ?thesis
    using assms(3-5) by (simp add: t readString.simps(2) l gotRune_def k min_absorb2)
qed

lemma readString_unicode:
  assumes "hex4 (h @ x) = Some n" "length h = 4" "\<not> highSurrogate n" "\<not> lowSurrogate n"
  shows "readString (CHR 0x5C # CHR ''u'' # h @ x) = gotRune (utf8 n) (readString x)"
  using assms by (simp add: readString.simps(2) HasPrefix_def byte_def unescapeRune_def gotRune_def)

lemma hexLower_unhex:
  assumes "n < 16"
  shows "unhex (hexLower n) = Some n"
proof -
  have "list_all (\<lambda>n. unhex (hexLower n) = Some n) [0..<16]" by code_simp
  then show ?thesis using assms by (simp add: list_all_iff)
qed

lemma readString_byte:
  assumes "byte c < 128"
  shows "readString (escapeByte c @ x) = gotRune [c] (readString x)"
proof -
  consider "c = CHR 0x22 \<or> c = CHR 0x5C" | "c \<noteq> CHR 0x22" "c \<noteq> CHR 0x5C" "byte c \<in> {8, 9, 10, 12, 13}"
    | "c \<noteq> CHR 0x22" "c \<noteq> CHR 0x5C" "byte c \<notin> {8, 9, 10, 12, 13}" "byte c < 32 \<or> c \<in> set ''<>&''"
    | "c \<noteq> CHR 0x22" "c \<noteq> CHR 0x5C" "byte c \<notin> {8, 9, 10, 12, 13}" "\<not> (byte c < 32 \<or> c \<in> set ''<>&'')"
    by blast
  then show ?thesis
  proof cases
    case 1
    then show ?thesis by (auto simp: escapeByte_def readString.simps(2) HasPrefix_def simpleEscape_def gotRune_def byte_def)
  next
    case 2
    then have "c = char_of (byte c)" by (simp add: byte_def)
    then show ?thesis using 2
      by (elim insertE emptyE; simp add: escapeByte_def readString.simps(2) HasPrefix_def simpleEscape_def gotRune_def) (simp_all add: byte_def)
  next
    case 3
    have "unhex CHR ''0'' = Some 0" by code_simp
    moreover have "byte c div 16 < 16" "byte c mod 16 < 16" using assms by simp_all
    ultimately have "hex4 ([CHR ''0'', CHR ''0'', hexLower (byte c div 16), hexLower (byte c mod 16)] @ x) = Some (byte c)"
      by (simp add: hex4_def hexLower_unhex)
    from readString_unicode [OF this] show ?thesis
      using 3 assms by (auto simp: escapeByte_def highSurrogate_def lowSurrogate_def utf8_def byte_def)
  next
    case 4
    have "runeLen [c] = 1" using runeLen_lead(1) [OF assms] by simp
    moreover have "escapeByte c = [c]" using 4 by (auto simp: escapeByte_def)
    ultimately show ?thesis using readString_raw [of "[c]" c "[]" x] 4 by simp
  qed
qed

lemma highByte: "128 \<le> byte a \<Longrightarrow> a \<noteq> CHR 0x22 \<and> a \<noteq> CHR 0x5C \<and> 32 \<le> byte a"
  by (auto simp: byte_def)

lemma readString_rune:
  assumes "0 < runeLen s"
  shows "readString (escapeRune (take (runeLen s) s) @ x) = gotRune (take (runeLen s) s) (readString x)"
proof (cases s rule: runeLen_cases)
  case (2 a t)
  then show ?thesis using readString_byte [of a x] by (simp add: escapeRune_def)
next
  case (4 a b c t)
  have raw: "readString ([a, b, c] @ x) = gotRune [a, b, c] (readString x)"
    using readString_raw [OF assms 4(1), of x] lead_byte(2) [OF 4(2)] highByte [of a] 4 by simp
  have "hex4 (''2028'' @ x) = Some 0x2028" "hex4 (''2029'' @ x) = Some 0x2029"
    by (simp_all add: hex4_def unhex_def isDigit_def byte_def)
  note this [THEN readString_unicode]
  moreover have "utf8 0x2028 = bytesOf [0xE2, 0x80, 0xA8]" "utf8 0x2029 = bytesOf [0xE2, 0x80, 0xA9]" by code_simp+
  ultimately show ?thesis using 4 raw by (simp add: escapeRune_def highSurrogate_def lowSurrogate_def)
next
  case (3 a b t)
  then show ?thesis
    using readString_raw [OF assms 3(1), of x] lead_byte(1) [OF 3(2)] highByte [of a] by (simp add: escapeRune_def bytesOf_def)
next
  case (5 a b c d t)
  then show ?thesis
    using readString_raw [OF assms 5(1), of x] lead_byte(3) [OF 5(2)] highByte [of a] by (simp add: escapeRune_def bytesOf_def)
qed (use assms in simp)

lemma readString_escapeString: "readString (escapeString s @ CHR 0x22 # x) = Some (jsonString s, x)"
proof (induction s rule: escapeString.induct)
  case (1 s)
  show ?case
  proof (cases s)
    case Nil
    then show ?thesis by (simp add: escapeString.simps readString.simps(2))
  next
    case (Cons c cs)
    have "hex4 (''fffd'' @ y) = Some 0xFFFD" for y by (simp add: hex4_def unhex_def isDigit_def byte_def)
    note bad = readString_unicode [OF this]
    have "utf8 0xFFFD = map char_of [0xEF, 0xBF, 0xBD :: nat]" by code_simp
    then have "readString (CHR 0x5C # ''ufffd'' @ y) = gotRune (map char_of [0xEF, 0xBF, 0xBD :: nat]) (readString y)" for y
      using bad [of y] by (simp add: highSurrogate_def lowSurrogate_def)
    then show ?thesis
      using 1 Cons readString_rune [of s "escapeString (drop (runeLen s) s) @ CHR 0x22 # x"]
      by (subst escapeString.simps, subst jsonString.simps) auto
  qed
qed

section \<open>Numbers\<close>

text \<open>What may follow a number: not a character that would go on with it.\<close>

definition endsNumber :: "string \<Rightarrow> bool" where
  "endsNumber r \<longleftrightarrow> (case r of [] \<Rightarrow> True | c # cs \<Rightarrow> \<not> isDigit c \<and> c \<notin> set ''.eE+-'')"

lemma endsNumber_word: "endsNumber r \<Longrightarrow> takeWhile isDigit r = [] \<and> dropWhile isDigit r = r"
  by (cases r) (simp_all add: endsNumber_def)

lemma readDigits_more: "readDigits s = Some (ds, q) \<Longrightarrow> endsNumber r \<Longrightarrow> readDigits (s @ r) = Some (ds, q @ r)"
proof -
  assume d: "readDigits s = Some (ds, q)" and r: "endsNumber r"
  have "takeWhile isDigit (s @ r) = takeWhile isDigit s \<and> dropWhile isDigit (s @ r) = dropWhile isDigit s @ r"
    using endsNumber_word [OF r] by (induction s) auto
  then show ?thesis using d by (auto simp: readDigits_def Let_def split: if_splits)
qed

lemma HasPrefix_one: "HasPrefix s [c] \<longleftrightarrow> s \<noteq> [] \<and> hd s = c"
  by (cases s) (auto simp: HasPrefix_def)

lemma readInteger_more: "readInteger s = Some (i, q) \<Longrightarrow> endsNumber r \<Longrightarrow> readInteger (s @ r) = Some (i, q @ r)"
  using readDigits_more [of s i q r] readDigits_split [of s i q]
  by (cases s) (auto simp: readInteger_def HasPrefix_one split: if_splits)

lemma readFraction_more: "readFraction s = Some (f, q) \<Longrightarrow> endsNumber r \<Longrightarrow> readFraction (s @ r) = Some (f, q @ r)"
  using readDigits_more
  by (cases s; cases r) (auto simp: readFraction_def HasPrefix_one endsNumber_def split: if_splits)

lemma readExponent_more: "readExponent s = Some (x, q) \<Longrightarrow> endsNumber r \<Longrightarrow> readExponent (s @ r) = Some (x, q @ r)"
proof (cases s)
  case Nil
  moreover assume "readExponent s = Some (x, q)" "endsNumber r"
  ultimately show ?thesis by (cases r) (auto simp: readExponent_def endsNumber_def)
next
  case (Cons e t)
  moreover assume x: "readExponent s = Some (x, q)" and r: "endsNumber r"
  have "t \<noteq> []" if "e \<in> set ''eE''" using x that Cons by (auto simp: readExponent_def readDigits_def Let_def)
  then have "take 1 (t @ r) = take 1 t" if "e \<in> set ''eE''" using that by (cases t) auto
  moreover have "length (takeWhile P (take 1 t)) \<le> length t" for P
    using length_takeWhile_le [of P "take 1 t"] by (simp add: min_def split: if_splits)
  ultimately show ?thesis
    using x readDigits_more [OF _ r] by (auto simp: readExponent_def Let_def split: if_splits)
qed

lemma readNumber_more:
  assumes "readNumber s = Some (l, q)" "endsNumber r"
  shows "readNumber (s @ r) = Some (l, q @ r)"
proof -
  define sign where "sign = (if HasPrefix s ''-'' then ''-'' else [])"
  obtain a r1 b r2 x where p: "readInteger (drop (length sign) s) = Some (a, r1)" "readFraction r1 = Some (b, r2)"
    "readExponent r2 = Some (x, q)" "l = sign @ a @ b @ x"
    using assms by (auto simp: readNumber_def sign_def [symmetric] Let_def bind_eq_Some_conv)
  have "s \<noteq> []" using readNumber_split [OF assms(1)] by auto
  then have "HasPrefix (s @ r) ''-'' = HasPrefix s ''-''" "drop (length sign) (s @ r) = drop (length sign) s @ r"
    by (cases s; auto simp: HasPrefix_one sign_def)+
  then show ?thesis
    using p readInteger_more [OF p(1) assms(2)] readFraction_more [OF p(2) assms(2)] readExponent_more [OF p(3) assms(2)]
    by (simp add: readNumber_def sign_def [symmetric] Let_def)
qed

lemma readNumber_start: "readNumber (c # cs) = Some p \<Longrightarrow> c = CHR ''-'' \<or> isDigit c"
  by (auto simp: readNumber_def readInteger_def readDigits_def HasPrefix_one Let_def isDigit_def byte_def bind_eq_Some_conv split: if_splits)

lemma validNumber_read:
  assumes "validNumber l" "endsNumber r"
  shows "readNumber (l @ r) = Some (l, r)"
proof -
  obtain l' where l: "readNumber l = Some (l', [])" using assms(1)
    by (cases "readNumber l"; cases "snd (the (readNumber l))") (auto simp: validNumber_def split: list.splits)
  then show ?thesis using readNumber_more [OF l assms(2)] readNumber_split [OF l] by simp
qed

lemma utoa_head: "0 < n \<Longrightarrow> hd (utoa n) \<noteq> CHR ''0''"
proof (induction n rule: utoa.induct)
  case (1 n)
  have "digitChar n \<noteq> CHR ''0''" if "n < 10" using that 1(2) byte_digitChar [of n] by (auto simp: byte_def)
  then show ?case using 1 by (auto simp: utoa.simps [of n] hd_append)
qed

lemma readNumber_digits:
  assumes "list_all isDigit ds" "ds \<noteq> []" "ds = ''0'' \<or> hd ds \<noteq> CHR ''0''"
  shows "readNumber ds = Some (ds, [])" "readNumber (CHR ''-'' # ds) = Some (CHR ''-'' # ds, [])"
proof -
  have w: "takeWhile isDigit ds = ds" "dropWhile isDigit ds = []" using assms(1) by (induction ds) auto
  have d: "readDigits ds = Some (ds, [])" using assms(2) unfolding readDigits_def w Let_def by simp
  then have i: "readInteger ds = Some (ds, [])" using assms(3) by (auto simp: readInteger_def HasPrefix_one)
  have "\<not> HasPrefix ds ''-''" using assms(1,2) minus_not_digit(1) by (cases ds) (auto simp: HasPrefix_one)
  then show "readNumber ds = Some (ds, [])" "readNumber (CHR ''-'' # ds) = Some (CHR ''-'' # ds, [])"
    using i by (auto simp: readNumber_def Let_def HasPrefix_one readFraction_def readExponent_def)
qed

lemma validNumber_Itoa: "validNumber (Itoa i)"
proof -
  have "utoa n = ''0'' \<or> hd (utoa n) \<noteq> CHR ''0''" for n
    using utoa_head [of n] by (cases "n = 0") (auto simp: utoa.simps digitChar_def)
  note readNumber_digits [OF utoa_all_digits utoa_nonempty this]
  then show ?thesis by (simp add: validNumber_def Itoa_def)
qed

section \<open>Tokens\<close>

lemma nextToken_space: "list_all jsonSpace w \<Longrightarrow> nextToken (w @ s) = nextToken s"
  by (induction w) (simp_all add: nextToken_def)

lemma nextToken_sign:
  "nextToken (CHR ''['' # r) = Some (LeftBrack, r)" "nextToken (CHR '']'' # r) = Some (RightBrack, r)"
  "nextToken (CHR 0x7B # r) = Some (LeftBrace, r)" "nextToken (CHR 0x7D # r) = Some (RightBrace, r)"
  "nextToken (CHR '','' # r) = Some (Comma, r)" "nextToken (CHR '':'' # r) = Some (Colon, r)"
  by (simp_all add: nextToken_def jsonSpace_def byte_def)

lemma nextToken_string: "nextToken (quoteString s @ r) = Some (Str (jsonString s), r)"
  by (simp add: nextToken_def jsonSpace_def byte_def quoteString_def readString_escapeString)

lemma nextToken_word:
  "nextToken (''null'' @ r) = Some (Lit AnyNil, r)" "nextToken (''true'' @ r) = Some (Lit (AnyBool True), r)"
  "nextToken (''false'' @ r) = Some (Lit (AnyBool False), r)"
  by (simp_all add: nextToken_def jsonSpace_def byte_def literalToken_def HasPrefix_def)

lemma nextToken_number:
  assumes "validNumber l" "endsNumber r"
  shows "nextToken (l @ r) = Some (Lit (AnyNumber l), r)"
proof -
  note n = validNumber_read [OF assms]
  have "l \<noteq> []" using readNumber_split [OF n] by simp
  then obtain c cs where l: "l = c # cs" by (cases l) auto
  then have "c = CHR ''-'' \<or> isDigit c" using n readNumber_start by simp
  then have c: "c = CHR ''-'' \<or> 48 \<le> byte c \<and> byte c \<le> 57" by (simp add: isDigit_def)
  then have "\<not> jsonSpace c" "c \<notin> set ''[]{},:ntf''" "c \<noteq> CHR 0x22" by (auto simp: jsonSpace_def byte_def)
  then show ?thesis using n l by (auto simp: nextToken_def literalToken_def HasPrefix_def)
qed

section \<open>Values\<close>

text \<open>
  What comes back: every number as its literal, times and strings as strings, maps in the order of their
  keys.
\<close>

fun formArg :: "(string \<Rightarrow> string) \<Rightarrow> any \<Rightarrow> any" where
  "formArg floatText (AnyInt i) = AnyNumber (Itoa i)"
| "formArg floatText (AnyFloat l) = AnyNumber (floatText l)"
| "formArg floatText (AnyNumber l) = AnyNumber (if l = [] then ''0'' else l)"
| "formArg floatText (AnyString s) = AnyString (jsonString s)"
| "formArg floatText (AnyTime t) = AnyString (jsonString (formatRFC3339Nano t))"
| "formArg floatText (AnyList xs) = AnyList (map (formArg floatText) xs)"
| "formArg floatText (AnyMap kvs) =
     AnyMap (foldl (\<lambda>m (k, w). insertKey (jsonString k) w m) [] (sort_key fst (map (\<lambda>(k, v). (k, formArg floatText v)) kvs)))"
| "formArg floatText v = v"

definition resumeFrom :: "any + expecting \<times> frame list \<Rightarrow> string \<Rightarrow> (any \<times> string) option" where
  "resumeFrom res r = (case res of Inl v \<Rightarrow> Some (v, r) | Inr (ex, fs) \<Rightarrow> decodeFrom ex fs r)"

lemma resumeFrom_simps [simp]: "resumeFrom (Inl v) r = Some (v, r)" "resumeFrom (Inr (ex, fs)) r = decodeFrom ex fs r"
  by (simp_all add: resumeFrom_def)

lemma decodeFrom_token: "nextToken s = Some (t, r) \<Longrightarrow> jsonStep ex fs t = Some res \<Longrightarrow> decodeFrom ex fs s = resumeFrom res r"
  by (subst decodeFrom.simps) (simp add: resumeFrom_def split: sum.split prod.split)

lemma decodeFrom_space: "list_all jsonSpace w \<Longrightarrow> decodeFrom ex fs (w @ s) = decodeFrom ex fs s"
  by (subst (1 2) decodeFrom.simps) (simp add: nextToken_space)

lemma decodeFrom_value:
  assumes "nextToken s = Some (t, r)" "t \<noteq> RightBrack" "ex \<in> {Value, ValueOrEnd}" "valueToken fs t = Some res"
  shows "decodeFrom ex fs s = resumeFrom res r"
  using assms(2-4) by (intro decodeFrom_token [OF assms(1)]) auto

text \<open>A line of the printer, and what it puts behind a value.\<close>

definition blankEnd :: "string \<Rightarrow> bool" where
  "blankEnd w \<longleftrightarrow> w \<noteq> [] \<and> list_all jsonSpace w"

lemma blankEnd_ends: "blankEnd w \<Longrightarrow> endsNumber (w @ r)"
  by (cases w) (auto simp: blankEnd_def endsNumber_def jsonSpace_def isDigit_def byte_def)

lemma endsNumber_comma: "endsNumber (CHR '','' # r)"
  by (simp add: endsNumber_def isDigit_def byte_def)

definition decodes :: "(string \<Rightarrow> string) \<Rightarrow> any \<Rightarrow> string \<Rightarrow> frame list \<Rightarrow> bool" where
  "decodes floatText v text fs \<longleftrightarrow> (\<forall>ex r. ex \<in> {Value, ValueOrEnd} \<and> endsNumber r \<longrightarrow>
     decodeFrom ex fs (text @ r) = resumeFrom (deliverValue (formArg floatText v) fs) r)"

lemma decodesD: "decodes ft v x fs \<Longrightarrow> ex \<in> {Value, ValueOrEnd} \<Longrightarrow> endsNumber r \<Longrightarrow>
    decodeFrom ex fs (x @ r) = resumeFrom (deliverValue (formArg ft v) fs) r"
  by (auto simp: decodes_def)

text \<open>The elements of an array, one after the other.\<close>

lemma decode_elements:
  assumes "list_all2 (\<lambda>v x. \<forall>ys. decodes ft v x (InArray ys # fs)) vs xs" "vs \<noteq> []" "blankEnd w" "blankEnd w'"
    and "ex \<in> {Value, ValueOrEnd}"
  shows "decodeFrom ex (InArray ys # fs) (w @ Join xs (CHR '','' # w) @ w' @ CHR '']'' # r) =
    resumeFrom (deliverValue (AnyList (ys @ map (formArg ft) vs)) fs) r"
  using assms
proof (induction vs xs arbitrary: ys ex rule: list_all2_induct)
  case (Cons v vs x xs)
  have w: "list_all jsonSpace w" "list_all jsonSpace w'" using Cons.prems by (simp_all add: blankEnd_def)
  show ?case
  proof (cases vs)
    case Nil
    then have "xs = []" using Cons.hyps by simp
    have "decodeFrom ex (InArray ys # fs) (x @ w' @ CHR '']'' # r) = decodeFrom CommaOrEnd (InArray (ys @ [formArg ft v]) # fs) (w' @ CHR '']'' # r)"
      using decodesD [of ft v x "InArray ys # fs"] Cons.hyps(1) blankEnd_ends [OF Cons.prems(3)] Cons.prems(4) by simp
    moreover have "decodeFrom CommaOrEnd (InArray (ys @ [formArg ft v]) # fs) (CHR '']'' # r) = resumeFrom (deliverValue (AnyList (ys @ [formArg ft v])) fs) r"
      by (rule decodeFrom_token [OF nextToken_sign(2)]) simp
    ultimately show ?thesis using w by (simp add: Nil \<open>xs = []\<close> decodeFrom_space)
  next
    case (Cons v' vs')
    then obtain x' xs' where xs: "xs = x' # xs'" using Cons.hyps by (auto simp: list_all2_Cons1)
    let ?rest = "w @ Join xs (CHR '','' # w) @ w' @ CHR '']'' # r"
    have "decodeFrom ex (InArray ys # fs) (x @ CHR '','' # ?rest) =
        decodeFrom CommaOrEnd (InArray (ys @ [formArg ft v]) # fs) (CHR '','' # ?rest)"
      using decodesD [of ft v x "InArray ys # fs"] \<open>\<forall>ys. decodes ft v x (InArray ys # fs)\<close> endsNumber_comma Cons.prems(4) by simp
    also have "\<dots> = decodeFrom Value (InArray (ys @ [formArg ft v]) # fs) ?rest"
      using decodeFrom_token [OF nextToken_sign(5), of CommaOrEnd "InArray (ys @ [formArg ft v]) # fs"] by simp
    also have "\<dots> = resumeFrom (deliverValue (AnyList ((ys @ [formArg ft v]) @ map (formArg ft) vs)) fs) r"
      by (rule Cons.IH) (use Cons Cons.prems in auto)
    finally show ?thesis using w by (simp add: xs decodeFrom_space)
  qed
qed simp

text \<open>The entries of an object.\<close>

definition entryText :: "string \<times> string \<Rightarrow> string" where
  "entryText e = quoteString (fst e) @ '': '' @ snd e"

definition addEntry :: "(string \<times> any) list \<Rightarrow> string \<times> any \<Rightarrow> (string \<times> any) list" where
  "addEntry m e = insertKey (jsonString (fst e)) (snd e) m"

lemma decode_entries:
  assumes "list_all2 (\<lambda>e f. fst f = fst e \<and> (\<forall>m k. decodes ft (snd e) (snd f) (AtKey m k # fs))) es fes" "es \<noteq> []"
    and "blankEnd w" "blankEnd w'" "ex \<in> {Key, KeyOrEnd}"
  shows "decodeFrom ex (InObject m # fs) (w @ Join (map entryText fes) (CHR '','' # w) @ w' @ CHR 0x7D # r) =
    resumeFrom (deliverValue (AnyMap (foldl addEntry m (map (\<lambda>e. (fst e, formArg ft (snd e))) es))) fs) r"
  using assms
proof (induction es fes arbitrary: m ex rule: list_all2_induct)
  case (Cons e es f fes)
  have w: "list_all jsonSpace w" "list_all jsonSpace w'" using Cons.prems by (simp_all add: blankEnd_def)
  let ?k = "jsonString (fst e)" and ?m = "addEntry m (fst e, formArg ft (snd e))"
  have blank: "list_all jsonSpace '' ''" by (simp add: jsonSpace_def byte_def)
  have entry: "decodeFrom ex (InObject m # fs) (entryText f @ s) = decodeFrom CommaOrEnd (InObject ?m # fs) s" if "endsNumber s" for s
  proof -
    have "nextToken (entryText f @ s) = Some (Str ?k, '': '' @ snd f @ s)"
      using nextToken_string [of "fst e" "'': '' @ snd f @ s"] Cons.hyps(1) by (simp add: entryText_def)
    from decodeFrom_token [OF this, of ex "InObject m # fs"]
    have "decodeFrom ex (InObject m # fs) (entryText f @ s) = decodeFrom ColonSign (AtKey m ?k # fs) ('': '' @ snd f @ s)"
      using Cons.prems(4) by auto
    also have "\<dots> = decodeFrom Value (AtKey m ?k # fs) ('' '' @ snd f @ s)"
      using decodeFrom_token [OF nextToken_sign(6), of ColonSign "AtKey m ?k # fs"] by simp
    also have "\<dots> = decodeFrom CommaOrEnd (InObject ?m # fs) s"
      unfolding decodeFrom_space [OF blank]
      using decodesD [of ft "snd e" "snd f" "AtKey m ?k # fs" Value s] Cons.hyps(1) that by (simp add: addEntry_def)
    finally show ?thesis .
  qed
  show ?case
  proof (cases es)
    case Nil
    then have "fes = []" using Cons.hyps by simp
    moreover have "decodeFrom CommaOrEnd (InObject ?m # fs) (CHR 0x7D # r) = resumeFrom (deliverValue (AnyMap ?m) fs) r"
      by (rule decodeFrom_token [OF nextToken_sign(4)]) simp
    ultimately show ?thesis using w entry [OF blankEnd_ends [OF Cons.prems(3)]] by (simp add: Nil decodeFrom_space)
  next
    case (Cons e' es')
    then obtain f' fes' where fes: "fes = f' # fes'" using Cons.hyps by (auto simp: list_all2_Cons1)
    let ?rest = "w @ Join (map entryText fes) (CHR '','' # w) @ w' @ CHR 0x7D # r"
    have "decodeFrom ex (InObject m # fs) (entryText f @ CHR '','' # ?rest) = decodeFrom CommaOrEnd (InObject ?m # fs) (CHR '','' # ?rest)"
      by (rule entry [OF endsNumber_comma])
    also have "\<dots> = decodeFrom Key (InObject ?m # fs) ?rest"
      using decodeFrom_token [OF nextToken_sign(5), of CommaOrEnd "InObject ?m # fs"] by simp
    also have "\<dots> = resumeFrom (deliverValue (AnyMap (foldl addEntry ?m (map (\<lambda>e. (fst e, formArg ft (snd e))) es))) fs) r"
      by (rule Cons.IH) (use Cons Cons.prems in auto)
    finally show ?thesis using w by (simp add: fes decodeFrom_space)
  qed
qed simp

section \<open>The round trip\<close>

lemma sort_key_map: "sort_key f (map g xs) = map g (sort_key (\<lambda>x. f (g x)) xs)"
proof -
  have "insort_key f (g x) (map g ys) = map g (insort_key (\<lambda>x. f (g x)) x ys)" for x ys by (induction ys) simp_all
  then show ?thesis by (induction xs) simp_all
qed

lemma formArg_map:
  "formArg ft (AnyMap kvs) = AnyMap (foldl addEntry [] (map (\<lambda>e. (fst e, formArg ft (snd e))) (sort_key fst kvs)))"
proof -
  have "(\<lambda>(k :: string, v). (k, formArg ft v)) = (\<lambda>e. (fst e, formArg ft (snd e)))" by auto
  then have "sort_key fst (map (\<lambda>(k, v). (k, formArg ft v)) kvs) = map (\<lambda>e. (fst e, formArg ft (snd e))) (sort_key fst kvs)"
    using sort_key_map [of fst "\<lambda>e. (fst e, formArg ft (snd e))" kvs] by (simp only: fst_conv)
  moreover have "(\<lambda>m (k, w). insertKey (jsonString k) w m) = addEntry" by (auto simp: addEntry_def fun_eq_iff)
  ultimately show ?thesis by simp
qed

lemma encodeAny_map:
  "encodeAny ft eol d (AnyMap kvs) =
    bracketed eol d CHR 0x7B (map entryText (map (\<lambda>e. (fst e, encodeAny ft eol (Suc d) (snd e))) (sort_key fst kvs))) CHR 0x7D"
proof -
  have "(\<lambda>(k :: string, v). (k, encodeAny ft eol (Suc d) v)) = (\<lambda>e. (fst e, encodeAny ft eol (Suc d) (snd e)))" by auto
  then have "sort_key fst (map (\<lambda>(k, v). (k, encodeAny ft eol (Suc d) v)) kvs) =
      map (\<lambda>e. (fst e, encodeAny ft eol (Suc d) (snd e))) (sort_key fst kvs)"
    using sort_key_map [of fst "\<lambda>e. (fst e, encodeAny ft eol (Suc d) (snd e))" kvs] by (simp only: fst_conv)
  moreover have "(\<lambda>(k, text). quoteString k @ '': '' @ text) = entryText" by (auto simp: entryText_def fun_eq_iff)
  ultimately show ?thesis by simp
qed

definition endOfLine :: "string \<Rightarrow> bool" where
  "endOfLine eol \<longleftrightarrow> eol \<noteq> [] \<and> list_all jsonSpace eol"

lemma blankEnd_line: "endOfLine eol \<Longrightarrow> blankEnd (eol @ replicate n CHR '' '')"
  by (auto simp: endOfLine_def blankEnd_def list_all_iff jsonSpace_def byte_def)

lemma depth_element: "x \<in> set xs \<Longrightarrow> Suc (depthOf x) \<le> depthOf (AnyList xs)" "e \<in> set kvs \<Longrightarrow> Suc (depthOf (snd e)) \<le> depthOf (AnyMap kvs)"
  by (auto simp: split_beta intro!: Max_ge rev_image_eqI)

lemma decodes_encodeAny:
  assumes eol: "endOfLine eol"
  shows "encodable ft v \<Longrightarrow> length fs + depthOf v \<le> maxNestingDepth \<Longrightarrow> decodes ft v (encodeAny ft eol d v) fs"
proof (induction v arbitrary: d fs)
  case AnyNil
  show ?case unfolding decodes_def using decodeFrom_value [OF nextToken_word(1)] by auto
next
  case (AnyBool b)
  show ?case unfolding decodes_def using decodeFrom_value [OF nextToken_word(2)] decodeFrom_value [OF nextToken_word(3)] by auto
next
  case (AnyInt i)
  show ?case unfolding decodes_def using decodeFrom_value [OF nextToken_number [OF validNumber_Itoa]] by auto
next
  case (AnyFloat l)
  show ?case unfolding decodes_def using decodeFrom_value [OF nextToken_number] AnyFloat.prems by auto
next
  case (AnyNumber l)
  have "validNumber ''0''" by code_simp
  then have "validNumber (if l = [] then ''0'' else l)" using AnyNumber.prems by auto
  then show ?case unfolding decodes_def using decodeFrom_value [OF nextToken_number] by auto
next
  case (AnyString s)
  show ?case unfolding decodes_def using decodeFrom_value [OF nextToken_string] by auto
next
  case (AnyTime t)
  show ?case unfolding decodes_def using decodeFrom_value [OF nextToken_string] by auto
next
  case (AnyList xs)
  let ?line = "\<lambda>n. eol @ replicate (2 * n) CHR '' ''"
  show ?case unfolding decodes_def
  proof (intro allI impI, elim conjE)
    fix ex r assume ex: "ex \<in> {Value, ValueOrEnd}"
    have "length fs < maxNestingDepth" using AnyList.prems(2) by simp
    then have open': "decodeFrom ex fs (CHR ''['' # s) = decodeFrom ValueOrEnd (InArray [] # fs) s" for s
      using decodeFrom_value [OF nextToken_sign(1) _ ex, of fs] by (simp add: openToken_def)
    show "decodeFrom ex fs (encodeAny ft eol d (AnyList xs) @ r) = resumeFrom (deliverValue (formArg ft (AnyList xs)) fs) r"
    proof (cases "xs = []")
      case True
      then show ?thesis
        using open' [of "CHR '']'' # r"] decodeFrom_token [OF nextToken_sign(2), of ValueOrEnd "InArray [] # fs"]
        by (simp add: bracketed_def)
    next
      case False
      have "decodes ft x (encodeAny ft eol (Suc d) x) (InArray ys # fs)" if "x \<in> set xs" for x ys
        using AnyList.IH [OF that, of "InArray ys # fs"] AnyList.prems depth_element(1) [OF that] that by (simp add: list_all_iff)
      then have "list_all2 (\<lambda>v x. \<forall>ys. decodes ft v x (InArray ys # fs)) xs (map (encodeAny ft eol (Suc d)) xs)"
        by (simp add: list_all2_conv_all_nth)
      note decode_elements [OF this False blankEnd_line [OF eol] blankEnd_line [OF eol],
          where ex = ValueOrEnd and ys = "[]" and r = r]
      from this [of "2 * Suc d" "2 * d"] show ?thesis using False by (simp add: bracketed_def open' Let_def)
    qed
  qed
next
  case (AnyMap kvs)
  let ?line = "\<lambda>n. eol @ replicate (2 * n) CHR '' ''"
  show ?case unfolding decodes_def
  proof (intro allI impI, elim conjE)
    fix ex r assume ex: "ex \<in> {Value, ValueOrEnd}"
    have "length fs < maxNestingDepth" using AnyMap.prems(2) by simp
    then have open': "decodeFrom ex fs (CHR 0x7B # s) = decodeFrom KeyOrEnd (InObject [] # fs) s" for s
      using decodeFrom_value [OF nextToken_sign(3) _ ex, of fs] by (simp add: openToken_def)
    show "decodeFrom ex fs (encodeAny ft eol d (AnyMap kvs) @ r) = resumeFrom (deliverValue (formArg ft (AnyMap kvs)) fs) r"
    proof (cases "kvs = []")
      case True
      then show ?thesis
        using open' [of "CHR 0x7D # r"] decodeFrom_token [OF nextToken_sign(4), of KeyOrEnd "InObject [] # fs"]
        by (simp add: bracketed_def)
    next
      case False
      let ?es = "sort_key fst kvs"
      have "decodes ft (snd e) (encodeAny ft eol (Suc d) (snd e)) (AtKey m k # fs)" if "e \<in> set kvs" for e m k
        using AnyMap.IH [OF that, of "snd e" "AtKey m k # fs"] AnyMap.prems depth_element(2) [OF that] that
        by (auto simp: list_all_iff snds.simps split_beta)
      then have "list_all2 (\<lambda>e f. fst f = fst e \<and> (\<forall>m k. decodes ft (snd e) (snd f) (AtKey m k # fs))) ?es
          (map (\<lambda>e. (fst e, encodeAny ft eol (Suc d) (snd e))) ?es)"
        by (simp add: list_all2_conv_all_nth) (metis nth_mem set_sort length_sort)
      moreover have es: "?es \<noteq> []" using False by (metis length_0_conv length_sort)
      ultimately have "decodeFrom KeyOrEnd (InObject [] # fs) (?line (Suc d) @
          Join (map entryText (map (\<lambda>e. (fst e, encodeAny ft eol (Suc d) (snd e))) ?es)) (CHR '','' # ?line (Suc d)) @
          ?line d @ CHR 0x7D # r) = resumeFrom (deliverValue (formArg ft (AnyMap kvs)) fs) r"
        unfolding formArg_map by (rule decode_entries) (simp_all add: blankEnd_line [OF eol] del: replicate.simps mult_Suc_right)
      then show ?thesis unfolding encodeAny_map using es by (simp add: bracketed_def open' Let_def)
    qed
  qed
qed

section \<open>What the decoder yields\<close>

fun formValue :: "any \<Rightarrow> bool" where
  "formValue (AnyNumber l) = validNumber l"
| "formValue (AnyString s) = (jsonString s = s)"
| "formValue (AnyList xs) = list_all formValue xs"
| "formValue (AnyMap kvs) = (sorted_wrt (<) (map fst kvs) \<and> list_all (\<lambda>(k, v). jsonString k = k \<and> formValue v) kvs)"
| "formValue (AnyInt i) = False"
| "formValue (AnyFloat l) = False"
| "formValue (AnyTime t) = False"
| "formValue v = True"

lemma readDigits_exact:
  assumes "readDigits s = Some (ds, q)" "rest = [] \<or> \<not> isDigit (hd rest)"
  shows "readDigits (ds @ rest) = Some (ds, rest)"
proof -
  have ds: "ds = takeWhile isDigit s" "ds \<noteq> []" using assms(1) by (auto simp: readDigits_def Let_def split: if_splits)
  then have "list_all isDigit ds" by (auto simp: list_all_iff dest: set_takeWhileD)
  then have "takeWhile isDigit (ds @ rest) = ds \<and> dropWhile isDigit (ds @ rest) = rest"
    using assms(2) by (induction ds) (cases rest; auto)+
  then show ?thesis using ds(2) by (simp add: readDigits_def Let_def)
qed

lemma readInteger_exact:
  assumes "readInteger s = Some (i, q)" "rest = [] \<or> \<not> isDigit (hd rest)"
  shows "readInteger (i @ rest) = Some (i, rest)" "i \<noteq> []" "hd i \<noteq> CHR ''-''"
proof -
  consider "i = ''0''" | "readDigits s = Some (i, q)" "\<not> HasPrefix s ''0''"
    using assms(1) by (auto simp: readInteger_def split: if_splits)
  then have "readInteger (i @ rest) = Some (i, rest) \<and> i \<noteq> [] \<and> hd i \<noteq> CHR ''-''"
  proof cases
    case 1
    then show ?thesis by (simp add: readInteger_def HasPrefix_one)
  next
    case 2
    note e = readDigits_exact [OF 2(1) assms(2)]
    have i: "i = takeWhile isDigit s" "i \<noteq> []" using 2(1) by (auto simp: readDigits_def Let_def split: if_splits)
    then have "isDigit (hd i)" by (cases s) (auto split: if_splits)
    moreover have "hd i = hd s" "s \<noteq> []" using i by (cases s; auto split: if_splits)+
    ultimately show ?thesis using e i(2) 2(2) minus_not_digit by (auto simp: readInteger_def HasPrefix_one)
  qed
  then show "readInteger (i @ rest) = Some (i, rest)" "i \<noteq> []" "hd i \<noteq> CHR ''-''" by simp_all
qed

lemma readExponent_exact:
  assumes "readExponent s = Some (x, q)"
  shows "readExponent x = Some (x, [])"
proof (cases "x = []")
  case True
  then show ?thesis by (simp add: readExponent_def)
next
  case False
  then obtain e t ds where e: "s = e # t" "e \<in> set ''eE''" "x = e # takeWhile (\<lambda>c. c \<in> set ''+-'') (take 1 t) @ ds"
    and d: "readDigits (drop (length (takeWhile (\<lambda>c. c \<in> set ''+-'') (take 1 t))) t) = Some (ds, q)"
    using assms by (auto simp: readExponent_def Let_def split: list.splits if_splits)
  have ds: "readDigits ds = Some (ds, [])" using readDigits_exact [OF d, of "[]"] by simp
  then have "ds \<noteq> []" "isDigit (hd ds)" by (cases ds; auto simp: readDigits_def Let_def split: if_splits)+
  then have none: "takeWhile (\<lambda>c. c \<in> set ''+-'') (take 1 ds) = []" using minus_not_digit by (cases ds) auto
  have "takeWhile (\<lambda>c. c \<in> set ''+-'') (take 1 t) = [] \<or> (\<exists>c \<in> set ''+-''. takeWhile (\<lambda>c. c \<in> set ''+-'') (take 1 t) = [c])"
    by (cases t) auto
  then show ?thesis using e(2,3) ds none by (elim disjE bexE) (auto simp: readExponent_def Let_def)
qed

lemma readNumber_exact:
  assumes "readNumber s = Some (l, r)"
  shows "validNumber l"
proof -
  define sign where "sign = (if HasPrefix s ''-'' then ''-'' else [])"
  obtain a r1 b r2 x where p: "readInteger (drop (length sign) s) = Some (a, r1)" "readFraction r1 = Some (b, r2)"
    "readExponent r2 = Some (x, r)" "l = sign @ a @ b @ x"
    using assms by (auto simp: readNumber_def sign_def [symmetric] Let_def bind_eq_Some_conv)
  have x: "x = [] \<or> hd x \<in> set ''eE''" "readExponent x = Some (x, [])"
  proof -
    show "x = [] \<or> hd x \<in> set ''eE''" using p(3) by (auto simp: readExponent_def Let_def split: list.splits if_splits)
    show "readExponent x = Some (x, [])" by (rule readExponent_exact [OF p(3)])
  qed
  then have nd: "x = [] \<or> \<not> isDigit (hd x) \<and> hd x \<noteq> CHR ''.''" by (auto simp: isDigit_def byte_def)
  have b: "b = [] \<or> hd b = CHR ''.''" "readFraction (b @ x) = Some (b, x)"
    using p(2) nd readDigits_exact [of "drop 1 r1" _ r2 x]
    by (auto simp: readFraction_def HasPrefix_one split: if_splits)
  then have "b @ x = [] \<or> \<not> isDigit (hd (b @ x))" using nd by (auto simp: isDigit_def byte_def hd_append)
  note a = readInteger_exact [OF p(1) this]
  have "HasPrefix l ''-'' \<longleftrightarrow> HasPrefix s ''-''" using a(2,3) by (auto simp: p(4) sign_def HasPrefix_one)
  then show ?thesis
    using a(1) b(2) x(2) by (auto simp: validNumber_def readNumber_def p(4) sign_def Let_def split: if_splits)
qed

text \<open>Strings are valid UTF-8: what they consist of are runes.\<close>

lemma jsonString_head: "s \<noteq> [] \<Longrightarrow> runeLen s \<noteq> 0 \<Longrightarrow> jsonString s = take (runeLen s) s @ jsonString (drop (runeLen s) s)"
  by (subst jsonString.simps) (cases s; simp)

lemma jsonString_rune:
  assumes "0 < runeLen s"
  shows "jsonString (take (runeLen s) s @ t) = take (runeLen s) s @ jsonString t"
proof -
  let ?p = "take (runeLen s) s"
  note n = runeLen_prefix [OF assms, of t]
  have "length (take (runeLen s) s) = runeLen s" by (cases s rule: runeLen_cases) (use assms in auto)
  moreover have "take (runeLen s) s \<noteq> []" using assms by (cases s rule: runeLen_cases) auto
  moreover have "jsonString (?p @ t) = take (runeLen (?p @ t)) (?p @ t) @ jsonString (drop (runeLen (?p @ t)) (?p @ t))"
    if "?p \<noteq> []" by (rule jsonString_head) (use that n assms in auto)
  ultimately show ?thesis using n by simp
qed

lemma utf8_rune:
  assumes "n < 0x110000" "\<not> highSurrogate n" "\<not> lowSurrogate n"
  shows "runeLen (utf8 n) = length (utf8 n)" "0 < length (utf8 n)"
proof -
  have b: "k < 256 \<Longrightarrow> byte (char_of k) = k" for k :: nat by (simp add: byte_def)
  have s: "n < 0xD800 \<or> 0xE000 \<le> n" using assms(2,3) by (auto simp: highSurrogate_def lowSurrogate_def)
  consider "n < 0x80" | "0x80 \<le> n" "n < 0x800" | "0x800 \<le> n" "n < 0x10000" | "0x10000 \<le> n" by linarith
  then have "runeLen (utf8 n) = length (utf8 n)"
  proof cases
    case 1
    then show ?thesis using runeLen_lead(1) by (simp add: utf8_def b)
  next
    case 2
    then have "lead2 (char_of (0xC0 + n div 64)) (char_of (0x80 + n mod 64))"
      by (simp add: lead2_def cont_def b) linarith
    then show ?thesis using 2 runeLen_lead(2) by (simp add: utf8_def)
  next
    case 3
    have d: "n div 64 mod 64 = n div 64 - 64 * (n div 4096)" by (simp add: minus_mult_div_eq_mod [symmetric] div_mult2_eq [symmetric])
    have "lead3 (char_of (0xE0 + n div 4096)) (char_of (0x80 + n div 64 mod 64)) (char_of (0x80 + n mod 64))"
      using 3 s by (simp add: lead3_def cont_def b d) linarith
    then show ?thesis using 3 runeLen_lead(3) by (simp add: utf8_def)
  next
    case 4
    have d: "n div 4096 mod 64 = n div 4096 - 64 * (n div 262144)" by (simp add: minus_mult_div_eq_mod [symmetric] div_mult2_eq [symmetric])
    have "lead4 (char_of (0xF0 + n div 262144)) (char_of (0x80 + n div 4096 mod 64)) (char_of (0x80 + n div 64 mod 64)) (char_of (0x80 + n mod 64))"
      using 4 assms(1) by (simp add: lead4_def cont_def b d) linarith
    then show ?thesis using 4 runeLen_lead(4) by (simp add: utf8_def)
  qed
  then show "runeLen (utf8 n) = length (utf8 n)" "0 < length (utf8 n)" by (simp_all add: utf8_def)
qed

lemma jsonString_utf8:
  "n < 0x110000 \<Longrightarrow> \<not> highSurrogate n \<Longrightarrow> \<not> lowSurrogate n \<Longrightarrow> jsonString (utf8 n @ t) = utf8 n @ jsonString t"
  using jsonString_rune [of "utf8 n" t] utf8_rune [of n] by simp

lemma unhex_bound: "unhex c = Some n \<Longrightarrow> n < 16"
  by (auto simp: unhex_def isDigit_def split: if_splits)

lemma hex4_bound:
  assumes "hex4 s = Some n"
  shows "n < 0x10000"
proof -
  obtain a b c d w x y z where "unhex a = Some w" "unhex b = Some x" "unhex c = Some y" "unhex d = Some z"
    "n = ((w * 16 + x) * 16 + y) * 16 + z"
    using assms by (auto simp: hex4_def split: list.splits option.splits)
  then show ?thesis using unhex_bound [of a w] unhex_bound [of b x] unhex_bound [of c y] unhex_bound [of d z] by simp
qed

lemma jsonString_replacement: "jsonString (replacement @ t) = replacement @ jsonString t"
proof -
  have "runeLen replacement = 3" "take 3 replacement = replacement" by code_simp+
  then show ?thesis using jsonString_rune [of replacement t] by simp
qed

lemma jsonString_unescapeRune:
  assumes "hex4 s = Some n" "unescapeRune n rest = (r, k)"
  shows "jsonString (r @ t) = r @ jsonString t"
proof -
  consider "r = replacement" | "r = utf8 n" "\<not> highSurrogate n" "\<not> lowSurrogate n"
    | m where "r = utf8 (0x10000 + (n - 0xD800) * 1024 + (m - 0xDC00))" "highSurrogate n" "lowSurrogate m"
    using assms(2) by (auto simp: unescapeRune_def split: if_splits option.splits)
  then show ?thesis
  proof cases
    case 3
    have "\<not> highSurrogate (0x10000 + (n - 0xD800) * 1024 + (m - 0xDC00))" "\<not> lowSurrogate (0x10000 + (n - 0xD800) * 1024 + (m - 0xDC00))"
      by (simp_all add: highSurrogate_def lowSurrogate_def)
    moreover have "(n - 0xD800) * 1024 \<le> 1023 * 1024" "m - 0xDC00 < 1024"
      using 3(2,3) by (auto simp: highSurrogate_def lowSurrogate_def)
    then have "0x10000 + (n - 0xD800) * 1024 + (m - 0xDC00) < 0x110000" by linarith
    ultimately show ?thesis unfolding 3(1) by (intro jsonString_utf8)
  qed (use hex4_bound [OF assms(1)] jsonString_replacement jsonString_utf8 [of n t] in auto)
qed

lemma jsonString_byte: "byte c < 128 \<Longrightarrow> jsonString (c # t) = c # jsonString t"
  using jsonString_rune [of "[c]" t] runeLen_lead(1) [of c "[]"] by simp

lemma simpleEscape_byte: "simpleEscape c = Some q \<Longrightarrow> \<exists>b. q = [b] \<and> byte b < 128"
proof -
  have "byte c < 128" if "c \<in> {CHR 0x22, CHR 0x5C, CHR ''/''}" using that by (elim insertE emptyE) (simp_all add: byte_def)
  moreover have "byte (char_of k) < 128" if "k < 128" for k :: nat using that by (simp add: byte_def)
  ultimately show "simpleEscape c = Some q \<Longrightarrow> ?thesis"
    unfolding simpleEscape_def by (simp only: split: if_splits option.split) auto
qed

lemma readString_valid: "readString s = Some (t, r) \<Longrightarrow> jsonString t = t"
proof (induction s arbitrary: t r rule: readString.induct)
  case (2 c cs)
  show ?case
  proof (cases "c = CHR 0x22 \<or> byte c < 32")
    case True
    then show ?thesis using 2(5) by (auto simp: readString.simps(2) split: if_splits)
  next
    case out: False
    show ?thesis
    proof (cases "c = CHR 0x5C")
      case True
      note c = this
      show ?thesis
      proof (cases "HasPrefix cs ''u''")
        case True
        then obtain n q k u where "hex4 (drop 1 cs) = Some n" "unescapeRune n (drop 5 cs) = (q, k)"
          "readString (drop (5 + k) cs) = Some (u, r)" "t = q @ u"
          using 2(5) c out by (auto simp: readString.simps(2) split: option.splits prod.splits)
        then show ?thesis
          using 2(1) [of n q k u r] out c True jsonString_unescapeRune [of "drop 1 cs" n "drop 5 cs" q k u] by simp
      next
        case False
        then obtain e es q u where e: "cs = e # es" "simpleEscape e = Some q" "readString es = Some (u, r)" "t = q @ u"
          using 2(5) c out by (auto simp: readString.simps(2) split: option.splits list.splits)
        obtain b where "q = [b]" "byte b < 128" using simpleEscape_byte [OF e(2)] by blast
        then show ?thesis using 2(2) [of e es q u r] e out c False jsonString_byte [of b u] by simp
      qed
    next
      case False
      show ?thesis
      proof (cases "runeLen (c # cs) = 0")
        case True
        then obtain u where "readString cs = Some (u, r)" "t = replacement @ u"
          using 2(5) False out by (auto simp: readString.simps(2))
        then show ?thesis using 2(3) [of u r] out False True jsonString_replacement by simp
      next
        case rune: False
        then obtain u where "readString (drop (runeLen (c # cs)) (c # cs)) = Some (u, r)" "t = take (runeLen (c # cs)) (c # cs) @ u"
          using 2(5) False out by (auto simp: readString.simps(2))
        then show ?thesis using 2(4) [of u r] out False rune jsonString_rune [of "c # cs" u] by simp
      qed
    qed
  qed
qed simp

section \<open>The machine keeps to form values\<close>

lemma insertKey_mem: "e \<in> set (insertKey k v kvs) \<Longrightarrow> e = (k, v) \<or> e \<in> set kvs"
  by (induction kvs) (auto split: if_splits)

lemma insertKey_sorted: "sorted_wrt (<) (map fst kvs) \<Longrightarrow> sorted_wrt (<) (map fst (insertKey k v kvs))"
proof (induction kvs)
  case (Cons e kvs)
  obtain l w where e: "e = (l, w)" by (cases e)
  have above: "l < fst f" if "f \<in> set kvs" for f using Cons.prems that by (auto simp: e)
  consider "k = l" | "k < l" | "l < k" by (rule linorder_cases)
  then show ?case
  proof cases
    case 1
    then show ?thesis using Cons.prems by (simp add: e)
  next
    case 2
    then have "k < fst f" if "f \<in> set kvs" for f using above [OF that] by simp
    then show ?thesis using Cons.prems 2 by (simp add: e)
  next
    case 3
    then have "l < fst f" if "f \<in> set (insertKey k v kvs)" for f using insertKey_mem [OF that] above 3 by (elim disjE) simp_all
    moreover have "\<not> k < l" "k \<noteq> l" using 3 by auto
    ultimately show ?thesis using Cons by (simp add: e)
  qed
qed simp

lemma depthOf_bound:
  "(\<And>x. x \<in> set xs \<Longrightarrow> depthOf x \<le> m) \<Longrightarrow> depthOf (AnyList xs) \<le> Suc m"
  "(\<And>e. e \<in> set kvs \<Longrightarrow> depthOf (snd e) \<le> m) \<Longrightarrow> depthOf (AnyMap kvs) \<le> Suc m"
  by (auto simp: split_beta)

lemma insertKey_all: "P k v \<Longrightarrow> list_all (\<lambda>(k, v). P k v) kvs \<Longrightarrow> list_all (\<lambda>(k, v). P k v) (insertKey k v kvs)"
  by (induction kvs) auto

text \<open>A value within \<open>n\<close> open brackets.\<close>

definition soundValue :: "nat \<Rightarrow> any \<Rightarrow> bool" where
  "soundValue n v \<longleftrightarrow> formValue v \<and> n + depthOf v \<le> maxNestingDepth"

fun framesOk :: "frame list \<Rightarrow> bool" where
  "framesOk [] = True"
| "framesOk (f # fs) = (Suc (length fs) \<le> maxNestingDepth \<and> framesOk fs \<and>
     (case f of InArray xs \<Rightarrow> list_all (soundValue (Suc (length fs))) xs
      | InObject kvs \<Rightarrow> sorted_wrt (<) (map fst kvs) \<and> list_all (\<lambda>(k, v). jsonString k = k \<and> soundValue (Suc (length fs)) v) kvs
      | AtKey kvs k \<Rightarrow> jsonString k = k \<and> sorted_wrt (<) (map fst kvs) \<and>
          list_all (\<lambda>(k, v). jsonString k = k \<and> soundValue (Suc (length fs)) v) kvs))"

definition resultOk :: "any + expecting \<times> frame list \<Rightarrow> bool" where
  "resultOk res \<longleftrightarrow> (case res of Inl v \<Rightarrow> soundValue 0 v | Inr (ex, fs) \<Rightarrow> framesOk fs)"

lemma deliverValue_ok: "soundValue (length fs) v \<Longrightarrow> framesOk fs \<Longrightarrow> resultOk (deliverValue v fs)"
  by (cases "(v, fs)" rule: deliverValue.cases)
     (auto simp: resultOk_def insertKey_sorted intro: insertKey_all [of "\<lambda>k v. jsonString k = k \<and> soundValue _ v"])

lemma closeToken_ok:
  assumes "framesOk fs" "closeToken fs t = Some res"
  shows "resultOk res"
  using assms(2)
proof (cases "(fs, t)" rule: closeToken.cases)
  case (1 xs gs)
  then have "soundValue (length gs) (AnyList xs)"
    using assms(1) depthOf_bound(1) [of xs "maxNestingDepth - Suc (length gs)"]
    by (fastforce simp: soundValue_def list_all_iff simp del: depthOf.simps)
  then show ?thesis using 1 assms deliverValue_ok by auto
next
  case (2 kvs gs)
  then have "soundValue (length gs) (AnyMap kvs)"
    using assms(1) depthOf_bound(2) [of kvs "maxNestingDepth - Suc (length gs)"]
    by (fastforce simp: soundValue_def list_all_iff simp del: depthOf.simps)
  then show ?thesis using 2 assms deliverValue_ok by auto
qed (use assms in auto)

definition tokenOk :: "jtoken \<Rightarrow> bool" where
  "tokenOk t \<longleftrightarrow> (case t of Str s \<Rightarrow> jsonString s = s | Lit v \<Rightarrow> formValue v \<and> depthOf v = 0 | _ \<Rightarrow> True)"

lemma nextToken_ok: "nextToken s = Some (t, r) \<Longrightarrow> tokenOk t"
  using readString_valid readNumber_exact
  by (fastforce simp: nextToken_def literalToken_def tokenOk_def split: list.splits if_splits)

lemma jsonStep_ok:
  assumes "framesOk fs" "tokenOk t" "jsonStep ex fs t = Some res"
  shows "resultOk res"
proof -
  have len: "length fs \<le> maxNestingDepth" using assms(1) by (cases fs) auto
  have v: "valueToken fs t = Some res \<Longrightarrow> resultOk res"
    using assms(1,2) len deliverValue_ok [OF _ assms(1)]
    by (cases t) (auto simp: openToken_def tokenOk_def resultOk_def soundValue_def split: if_splits)
  have k: "keyToken fs t = Some res \<Longrightarrow> resultOk res"
    using assms(1,2) by (cases "(fs, t)" rule: keyToken.cases) (auto simp: tokenOk_def resultOk_def)
  show ?thesis
    using assms(3) v k closeToken_ok [OF assms(1), of t res] assms(1) by (cases ex) (auto simp: resultOk_def split: if_splits)
qed

lemma decodeFrom_ok: "framesOk fs \<Longrightarrow> decodeFrom ex fs s = Some (v, r) \<Longrightarrow> soundValue 0 v"
proof (induction ex fs s rule: decodeFrom.induct)
  case (1 ex fs s)
  obtain t r' where t: "nextToken s = Some (t, r')" using 1(3) by (subst (asm) decodeFrom.simps) (auto split: option.splits)
  obtain res where res: "jsonStep ex fs t = Some res" using 1(3) t by (subst (asm) decodeFrom.simps) (auto split: option.splits)
  have ok: "resultOk res" by (rule jsonStep_ok [OF 1(2) nextToken_ok [OF t] res])
  have "resumeFrom res r' = Some (v, r)" using 1(3) decodeFrom_token [OF t res] by simp
  then show ?case using 1(1) t res ok by (cases res) (auto simp: resultOk_def)
qed

section \<open>Form values come back as they are\<close>

lemma insertKey_last: "list_all (\<lambda>e. fst e < k) kvs \<Longrightarrow> insertKey k v kvs = kvs @ [(k, v)]"
  by (induction kvs) auto

lemma foldl_addEntry:
  assumes "sorted_wrt (<) (map fst (m @ es))" "list_all (\<lambda>e. jsonString (fst e) = fst e) es"
  shows "foldl addEntry m es = m @ es"
  using assms
proof (induction es arbitrary: m)
  case (Cons e es)
  have "list_all (\<lambda>f. fst f < fst e) m" using Cons.prems(1) by (auto simp: sorted_wrt_append list_all_iff)
  then have "addEntry m e = m @ [e]" using Cons.prems(2) by (simp add: addEntry_def insertKey_last)
  then show ?case using Cons.IH [of "m @ [e]"] Cons.prems by simp
qed simp

lemma sort_key_sorted: "sorted_wrt (<) (map fst kvs) \<Longrightarrow> sort_key fst kvs = (kvs :: (string \<times> 'a) list)"
proof (induction kvs)
  case (Cons e kvs)
  then have "\<forall>f \<in> set kvs. fst e \<le> fst f" by (auto intro: less_imp_le)
  then show ?case using Cons by (simp add: insort_is_Cons)
qed simp

lemma formValue_back: "formValue v \<Longrightarrow> formArg ft v = v \<and> encodable ft v"
proof (induction v)
  case (AnyNumber l)
  have "\<not> validNumber []" by code_simp
  then show ?case using AnyNumber by auto
next
  case (AnyList xs)
  then show ?case by (simp add: list_all_iff map_idI)
next
  case (AnyMap kvs)
  then have s: "sorted_wrt (<) (map fst kvs)" and k: "list_all (\<lambda>e. jsonString (fst e) = fst e) kvs"
    and v: "\<And>e. e \<in> set kvs \<Longrightarrow> formValue (snd e)" by (auto simp: list_all_iff)
  have same: "formArg ft (snd e) = snd e \<and> encodable ft (snd e)" if "e \<in> set kvs" for e
    using AnyMap.IH [OF that _ v [OF that]] by (auto simp: snds.simps)
  then have "map (\<lambda>e. (fst e, formArg ft (snd e))) kvs = kvs" by (intro map_idI) auto
  then show ?case
    using foldl_addEntry [of "[]" kvs] s k same
    by (auto simp: formArg_map sort_key_sorted list_all_iff simp del: formArg.simps(7))
qed simp_all

section \<open>The lines of a text area\<close>

definition oneLine :: "string \<Rightarrow> bool" where
  "oneLine s \<longleftrightarrow> list_all (\<lambda>c. 32 \<le> byte c) s"

lemma oneLine_simps [simp]: "oneLine []" "oneLine (s @ t) \<longleftrightarrow> oneLine s \<and> oneLine t" "oneLine (c # s) \<longleftrightarrow> 32 \<le> byte c \<and> oneLine s"
  by (auto simp: oneLine_def)

lemma oneLine_ends: "oneLine s \<Longrightarrow> formLineEnds s = s \<and> CHR 0x00 \<notin> set s"
  by (induction s) (auto simp: formLineEnds_def newline_def byte_def)

lemma oneLine_escapeByte: "oneLine (escapeByte c)"
proof -
  have "n < 16 \<Longrightarrow> 32 \<le> byte (hexLower n)" for n by (auto simp: hexLower_def byte_def)
  then have "32 \<le> byte (hexLower (byte c mod 16))" "32 \<le> byte (hexLower (byte c div 16))" using byte_less [of c] by simp_all
  then show ?thesis by (simp add: escapeByte_def) (simp add: byte_def)
qed

lemma oneLine_quote: "oneLine (quoteString s)"
proof -
  have "oneLine (escapeString s)"
  proof (induction s rule: escapeString.induct)
    case (1 s)
    show ?case
    proof (cases s)
      case Nil
      then show ?thesis by (simp add: escapeString.simps)
    next
      case (Cons c cs)
      have "oneLine (escapeRune (take (runeLen s) s))" if "0 < runeLen s"
        by (cases s rule: runeLen_cases)
           (use that lead_byte in \<open>auto simp: escapeRune_def oneLine_escapeByte cont_def lead2_def lead3_def lead4_def byte_def\<close>)
      then show ?thesis using 1 Cons by (subst escapeString.simps) (auto simp: byte_def)
    qed
  qed
  then show ?thesis by (simp add: quoteString_def byte_def)
qed

lemma oneLine_readNumber:
  assumes "readNumber n = Some (l, rest)"
  shows "oneLine l"
proof -
  have d: "readDigits s = Some (ds, r) \<Longrightarrow> oneLine ds" for s ds r
    by (auto simp: readDigits_def Let_def oneLine_def list_all_iff isDigit_def dest!: set_takeWhileD split: if_splits)
  have x: "oneLine x" if "readExponent s = Some (x, r)" for s x r
  proof (cases "x = []")
    case False
    note read = that
    from False obtain e t ds q where e: "e \<in> set ''eE''" "x = e # takeWhile (\<lambda>c. c \<in> set ''+-'') (take 1 t) @ ds" "readDigits q = Some (ds, r)"
      using read by (auto simp: readExponent_def Let_def split: list.splits if_splits)
    have "oneLine (takeWhile (\<lambda>c. c \<in> set ''+-'') u)" for u by (auto simp: oneLine_def list_all_iff byte_def dest!: set_takeWhileD)
    moreover have "32 \<le> byte e" using e(1) by (auto simp: byte_def)
    ultimately show ?thesis using d [OF e(3)] by (simp add: e(2))
  qed simp
  define sign where "sign = (if HasPrefix n ''-'' then ''-'' else [])"
  obtain a b y r1 r2 where p: "l = sign @ a @ b @ y"
    "readInteger (drop (length sign) n) = Some (a, r1)" "readFraction r1 = Some (b, r2)" "readExponent r2 = Some (y, rest)"
    using assms by (auto simp: readNumber_def sign_def [symmetric] Let_def bind_eq_Some_conv)
  have "readInteger s = Some (a, r) \<Longrightarrow> oneLine a" "readFraction s = Some (a, r) \<Longrightarrow> oneLine a" for s a r
    using d by (auto simp: readInteger_def readFraction_def byte_def split: if_splits)
  then have "oneLine a" "oneLine b" using p by blast+
  moreover have "oneLine sign" by (simp add: sign_def byte_def)
  ultimately show ?thesis using x [OF p(4)] by (simp add: p(1))
qed

lemma oneLine_number: "validNumber l \<Longrightarrow> oneLine l"
  using oneLine_readNumber validNumber_read [of l "[]"] by (auto simp: endsNumber_def)

lemma formLineEnds_Join: "formLineEnds (Join xs s) = Join (map formLineEnds xs) (formLineEnds s)"
  by (induction xs s rule: Join.induct) simp_all

lemma formLineEnds_bracketed:
  assumes "oneLine [a]" "oneLine [b]"
  shows "formLineEnds (bracketed [newline] d a parts b) = bracketed [carriageReturn, newline] d a (map formLineEnds parts) b"
proof -
  have "oneLine (replicate n CHR '' '')" for n by (simp add: oneLine_def list_all_iff byte_def)
  note r = oneLine_ends [OF this, THEN conjunct1]
  have c: "formLineEnds (c # s) = c # formLineEnds s" if "oneLine [c]" for c s
    using that by (auto simp: formLineEnds_def newline_def byte_def)
  show ?thesis using assms by (simp add: bracketed_def Let_def formLineEnds_Join r c byte_def del: replicate.simps)
qed

text \<open>A text area sends the same values with the other line ends.\<close>

lemma noNul_newline: "CHR 0x00 \<noteq> newline"
  by code_simp

lemma noNul_bracketed:
  "CHR 0x00 \<notin> {a, b} \<Longrightarrow> CHR 0x00 \<notin> set eol \<Longrightarrow> list_all (\<lambda>p. CHR 0x00 \<notin> set p) parts \<Longrightarrow>
    CHR 0x00 \<notin> set (bracketed eol d a parts b)"
proof -
  assume a: "CHR 0x00 \<notin> {a, b}" "CHR 0x00 \<notin> set eol" "list_all (\<lambda>p. CHR 0x00 \<notin> set p) parts"
  have "CHR 0x00 \<notin> set s \<Longrightarrow> CHR 0x00 \<notin> set (Join parts s)" for s
    using a(3) by (induction parts s rule: Join.induct) auto
  then show ?thesis using a by (auto simp: bracketed_def Let_def)
qed

lemma formLineEnds_encodeAny:
  "encodable ft v \<Longrightarrow> formLineEnds (encodeAny ft [newline] d v) = encodeAny ft [carriageReturn, newline] d v \<and>
    CHR 0x00 \<notin> set (encodeAny ft [newline] d v)"
proof (induction v arbitrary: d)
  case (AnyInt i)
  then show ?case using oneLine_ends [OF oneLine_number [OF validNumber_Itoa]] by simp
next
  case (AnyFloat l)
  then show ?case using oneLine_ends [OF oneLine_number] AnyFloat.prems by simp
next
  case (AnyNumber l)
  have "oneLine (if l = [] then ''0'' else l)" using AnyNumber oneLine_number by (auto simp: byte_def)
  from oneLine_ends [OF this] show ?case by simp
next
  case (AnyList xs)
  then have "CHR 0x00 \<notin> set (encodeAny ft [newline] d (AnyList xs))"
    by (simp add: noNul_bracketed list_all_iff noNul_newline)
  moreover have "map formLineEnds (map (encodeAny ft [newline] (Suc d)) xs) = map (encodeAny ft [carriageReturn, newline] (Suc d)) xs"
    using AnyList by (simp add: list_all_iff)
  ultimately show ?case using formLineEnds_bracketed [of "CHR ''[''" "CHR '']''"] by (simp add: byte_def del: map_map)
next
  case (AnyMap kvs)
  have e: "encodable ft (snd e)" if "e \<in> set kvs" for e using AnyMap.prems that by (auto simp: list_all_iff)
  have ends: "formLineEnds (encodeAny ft [newline] (Suc d) (snd e)) = encodeAny ft [carriageReturn, newline] (Suc d) (snd e) \<and>
      CHR 0x00 \<notin> set (encodeAny ft [newline] (Suc d) (snd e))" if "e \<in> set kvs" for e
    using AnyMap.IH [OF that _ e [OF that]] by (auto simp: snds.simps)
  have q: "formLineEnds (quoteString k) = quoteString k" "CHR 0x00 \<notin> set (quoteString k)" for k
    using oneLine_ends [OF oneLine_quote] by simp_all
  have "formLineEnds '': '' = '': ''" by code_simp
  then have "map formLineEnds (map entryText (map (\<lambda>e. (fst e, encodeAny ft [newline] (Suc d) (snd e))) (sort_key fst kvs))) =
      map entryText (map (\<lambda>e. (fst e, encodeAny ft [carriageReturn, newline] (Suc d) (snd e))) (sort_key fst kvs))"
    using ends q by (simp add: entryText_def formLineEnds_simps(2) del: append.simps)
  moreover have "list_all (\<lambda>p. CHR 0x00 \<notin> set p) (map entryText (map (\<lambda>e. (fst e, encodeAny ft [newline] (Suc d) (snd e))) (sort_key fst kvs)))"
    using ends q by (auto simp: entryText_def list_all_iff)
  ultimately show ?case
    unfolding encodeAny_map using formLineEnds_bracketed [of "CHR 0x7B" "CHR 0x7D"]
    by (simp add: noNul_bracketed noNul_newline byte_def del: map_map)
next
  case (AnyBool b)
  have "oneLine ''true''" "oneLine ''false''" by (simp_all add: byte_def)
  then show ?case using oneLine_ends by simp
next
  case AnyNil
  have "oneLine ''null''" by (simp add: byte_def)
  then show ?case using oneLine_ends by simp
qed (use oneLine_ends [OF oneLine_quote] in simp_all)

section \<open>Arguments\<close>

lemma decodeArgs_encodeAny:
  assumes "endOfLine eol" "encodable ft (AnyList vs)" "depthOf (AnyList vs) \<le> maxNestingDepth"
  shows "decodeArgs (encodeAny ft eol 0 (AnyList vs)) = Some (Some (map (formArg ft) vs), [])"
proof -
  have "decodeFrom Value [] (encodeAny ft eol 0 (AnyList vs) @ []) = resumeFrom (deliverValue (formArg ft (AnyList vs)) []) []"
    by (rule decodesD [OF decodes_encodeAny]) (use assms in \<open>simp_all add: endsNumber_def del: depthOf.simps\<close>)
  moreover obtain r where "encodeAny ft eol 0 (AnyList vs) = CHR ''['' # r" by (cases "vs = []") (simp_all add: bracketed_def Let_def)
  ultimately show ?thesis by (simp add: decodeArgs_def nextToken_sign del: encodeAny.simps)
qed

lemma TrimSpace_array: "TrimSpace (encodeAny ft eol d (AnyList vs)) = encodeAny ft eol d (AnyList vs)"
  by (rule TrimSpace_id) (simp add: bracketed_def Let_def printable_def byte_def)

text \<open>What is decoded can be written again.\<close>

lemma decodeArgs_sound:
  assumes "decodeArgs s = Some (Some vs, r)"
  shows "formValue (AnyList vs)" "depthOf (AnyList vs) \<le> maxNestingDepth"
proof -
  have "decodeFrom Value [] s = Some (AnyList vs, r)"
    using assms by (auto simp: decodeArgs_def split: option.splits jtoken.splits any.splits prod.splits)
  from decodeFrom_ok [OF _ this] have "soundValue 0 (AnyList vs)" by simp
  then show "formValue (AnyList vs)" "depthOf (AnyList vs) \<le> maxNestingDepth" by (simp_all add: soundValue_def del: depthOf.simps)
qed

section \<open>The text area of the arguments\<close>

text \<open>Arguments that \<open>json.Marshal\<close> writes and that are not nested too deeply; what the form makes of them.\<close>

definition writableArgs :: "(string \<Rightarrow> string) \<Rightarrow> any list option \<Rightarrow> bool" where
  "writableArgs floatText args \<longleftrightarrow> (case args of None \<Rightarrow> True
     | Some vs \<Rightarrow> encodable floatText (AnyList vs) \<and> depthOf (AnyList vs) \<le> maxNestingDepth)"

definition formArgs :: "(string \<Rightarrow> string) \<Rightarrow> any list option \<Rightarrow> any list" where
  "formArgs floatText args = map (formArg floatText) (case args of None \<Rightarrow> [] | Some vs \<Rightarrow> vs)"

lemma parseJSONArgs_jsonArgs:
  assumes "writableArgs (dc_Float dec) args"
  shows "parseJSONArgs (formLineEnds (visible (jsonArgs dec args))) = Inr (Some (formArgs (dc_Float dec) args))"
proof (cases "args \<in> {None, Some []}")
  case True
  have "visible ''[]'' = ''[]''" by simp
  moreover have "formLineEnds ''[]'' = ''[]''" by code_simp
  moreover have "parseJSONArgs ''[]'' = Inr (Some [])" by code_simp
  ultimately show ?thesis using True by (auto simp: jsonArgs_def formArgs_def)
next
  case False
  then obtain vs where vs: "args = Some vs" "vs \<noteq> []" by auto
  have enc: "encodable (dc_Float dec) (AnyList vs)" and deep: "depthOf (AnyList vs) \<le> maxNestingDepth"
    using assms vs by (simp_all add: writableArgs_def del: depthOf.simps encodable.simps)
  have lines: "[char_of (10::nat)] = [newline]" "endOfLine [carriageReturn, newline]"
    by (simp add: newline_def, code_simp)
  have written: "jsonArgs dec args = encodeAny (dc_Float dec) [newline] 0 (AnyList vs)"
    using vs enc lines(1) by (cases vs) (simp_all add: jsonArgs_def marshalIndent_def del: encodeAny.simps encodable.simps)
  have browser: "formLineEnds (visible (jsonArgs dec args)) = encodeAny (dc_Float dec) [carriageReturn, newline] 0 (AnyList vs)"
    using formLineEnds_encodeAny [of "dc_Float dec", OF enc, of 0] by (simp add: written del: encodeAny.simps)
  have "encodeAny (dc_Float dec) [carriageReturn, newline] 0 (AnyList vs) \<noteq> []" by (simp add: bracketed_def Let_def)
  then show ?thesis
    using decodeArgs_encodeAny [OF lines(2) enc deep]
    unfolding parseJSONArgs_def browser TrimSpace_array Let_def
    by (simp add: formArgs_def vs(1) del: encodeAny.simps)
qed

text \<open>What the form has accepted once comes back as it is.\<close>

lemma parsed_writable:
  assumes "parseJSONArgs raw = Inr args"
  shows "writableArgs floatText args" "formArgs floatText args = (case args of None \<Rightarrow> [] | Some vs \<Rightarrow> vs)"
proof -
  have "writableArgs floatText args \<and> formArgs floatText args = (case args of None \<Rightarrow> [] | Some vs \<Rightarrow> vs)"
  proof (cases args)
    case (Some vs)
    then obtain r where "decodeArgs (TrimSpace raw) = Some (Some vs, r)"
      using assms by (auto simp: parseJSONArgs_def Let_def split: if_splits option.splits)
    note sound = decodeArgs_sound [OF this]
    then show ?thesis
      using formValue_back [OF sound(1), of floatText] Some
      by (simp add: writableArgs_def formArgs_def del: depthOf.simps)
  qed (simp add: writableArgs_def formArgs_def)
  then show "writableArgs floatText args" "formArgs floatText args = (case args of None \<Rightarrow> [] | Some vs \<Rightarrow> vs)" by simp_all
qed

end
