(* ===== verification/PageProperties.thy ===== *)
theory PageProperties
  imports ServerProperties FormSubmit JsonRoundtrip
begin

text \<open>
  The properties of the pages as a browser sees them: nothing a job or a run contains adds a tag, every
  button does what it says to the job of its row, and what an untouched edit form makes of a job.
\<close>

section \<open>Reading the pages\<close>

text \<open>C27: every page reads as it was written: a browser finds the tags of the template and the spans of
  the labels, no script, no event handler, and every value as a text or in the attribute it was put
  in, whatever jobs, runs, errors and notices contain.\<close>

theorem pages_read_as_written:
  "readHtml (printHtml (pageBody loadLocation dec p)) = Some (viewHtml (pageBody loadLocation dec p)) \<and>
   list_all inertToken (viewHtml (pageBody loadLocation dec p))"
  by (rule listed_page [OF listed_pageBody])

section \<open>An environment to evaluate\<close>

text \<open>The same environment with visiting orders that can be evaluated; saving and listing do not use them.\<close>

definition demoEnv :: "(MemoryStore, string refEntries, string, unit) Env" where
  "demoEnv = engineEnv (memoryStore (\<lambda>_. []) (\<lambda>_. [])) Inr 1000 utcOnly sampleNetwork"

lemma demoEnv_env:
  "ev_cron memEnv = ev_cron demoEnv" "ev_loadLocation memEnv = ev_loadLocation demoEnv"
  "so_SaveSchedule (ev_store memEnv) = so_SaveSchedule (ev_store demoEnv)"
  "so_DeleteSchedule (ev_store memEnv) = so_DeleteSchedule (ev_store demoEnv)"
  by (simp_all add: memEnv_def demoEnv_def memoryStore_def)

lemma demoEnv_handlers:
  "Schedules memEnv = Schedules demoEnv"
  "apiSaveSchedule memEnv = apiSaveSchedule demoEnv" "editSchedule memEnv = editSchedule demoEnv"
proof -
  show l: "Schedules memEnv = Schedules demoEnv" by (intro ext) (unfold Schedules_def demoEnv_env, rule refl)
  have s: "SaveSchedule memEnv = SaveSchedule demoEnv"
    by (intro ext) (unfold SaveSchedule_def storeSchedule_def swapSchedule_def registerSchedule_def
        registerScheduleLocked_def removeScheduleLocked_def removeEntryLocked_def demoEnv_env, rule refl)
  show "apiSaveSchedule memEnv = apiSaveSchedule demoEnv"
    by (intro ext) (unfold apiSaveSchedule_def s, rule refl)
  show "editSchedule memEnv = editSchedule demoEnv"
    by (intro ext) (unfold editSchedule_def findSchedule_def l, rule refl)
qed

section \<open>Buttons\<close>

lemma route_no_page: "route q \<noteq> Inl (ReplyPage pg)"
  by (auto simp: route_def Let_def split: if_splits option.splits prod.splits)

lemma index_schedules:
  assumes "serve env dec now ord p e = (ReplyPage (PageIndex d), e')"
  shows "ip_Schedules d = Schedules env ord e"
  using assms route_no_page [of p]
  by (auto simp: serve_def handle_def handler_defs apiSaveSchedule_def apiClearRuns_def apiScheduleAction_def respondScheduleError_def
      jsonError_def writeJSON_def renderNewJobPicker_def renderScheduleForm_def Let_def
      split: sum.splits Route.splits option.splits prod.splits if_splits bool.splits)

lemma index_names:
  assumes "table env live e"
  shows "list_all (\<lambda>s. nameOk (sc_Name s)) (Schedules env ord e)"
  unfolding list_all_iff
proof
  fix x assume "x \<in> set (Schedules env ord e)"
  then obtain k s nr pr where s: "en_schedules e k = Some s" "x = s\<lparr>sc_NextRun := nr, sc_PreviousRun := pr\<rparr>"
    by (rule Schedules_mem)
  then show "nameOk (sc_Name x)" using tableD_valid [OF assms s(1)] by (auto simp: validEntry_iff scheduleOk_def)
qed

text \<open>C25: the forms of the index page are those of its jobs, in the order of the rows, and the one that
  clears the run log; posting the form of a job, unless its name is a single dot, reaches the handler
  of that job and of the action on the button.\<close>

theorem index_buttons_work:
  assumes "table env live e" "serve env dec now ord p e = (ReplyPage (PageIndex d), e)"
    and "readHtml (printHtml (indexBody loadLocation d)) = Some page"
    and "s \<in> set (ip_Schedules d)" "sc_Name s \<noteq> ''.''"
    and "hq_Method q = ''POST''" "(''post'', hq_EscapedPath q) \<in> set (jobPosts s)"
  shows "formActions page = concat (map jobPosts (ip_Schedules d)) @ [(''post'', ''/v1/runs/clear''), (''dialog'', [])] \<and>
    serve env dec now ord q e1 = apiScheduleAction env now q e1 \<and>
    (\<exists>action \<in> {''pause'', ''delete''} \<union> (if sc_Paused s then {} else {''run''}).
       scheduleActionFromPath (hq_Path q) = (sc_Name s, action, True))"
proof -
  have names: "list_all (\<lambda>s. nameOk (sc_Name s)) (ip_Schedules d)"
    using index_names [OF assms(1)] index_schedules [OF assms(2)] by simp
  have "page = viewHtml (indexBody loadLocation d)"
    using assms(3) listed_page [OF listed_indexBody [of loadLocation d]] by simp
  then have "formActions page = concat (map jobPosts (ip_Schedules d)) @ [(''post'', ''/v1/runs/clear''), (''dialog'', [])]"
    using indexBody_reads(1) [OF names] by simp
  moreover obtain action where a: "action \<in> {''pause'', ''delete''} \<union> (if sc_Paused s then {} else {''run''})"
    and path: "hq_EscapedPath q = ''/v1/schedules/'' @ PathEscape (sc_Name s) @ ''/'' @ action"
    using assms(7) by (auto simp: jobPosts_def split: if_splits)
  moreover have "nameOk (sc_Name s)" using names assms(4) by (simp add: list_all_iff)
  moreover have "action \<in> {''run'', ''delete'', ''pause''}" using a by (auto split: if_splits)
  ultimately show ?thesis using job_links [OF _ assms(5) _ assms(6) path] by blast
qed

lemma idle_index:
  obtains d where "serve memEnv sampleDecoders clock [''nightly''] (browse ''GET'' ''/'' []) idleEngine = (ReplyPage (PageIndex d), idleEngine)"
    "ip_Schedules d = Schedules demoEnv [''nightly''] idleEngine"
proof -
  have r: "route (browse ''GET'' ''/'' []) = Inr RouteIndex" by code_simp
  obtain runs where "Runs memEnv 100 idleEngine = Inr runs"
    by (simp add: Runs_def memEnv_def memoryStore_def ms_ListRuns_def)
  then obtain d where d: "serve memEnv sampleDecoders clock [''nightly''] (browse ''GET'' ''/'' []) idleEngine = (ReplyPage (PageIndex d), idleEngine)"
    by (simp add: serve_def handle_def r index_def Let_def)
  show thesis using that [OF d] index_schedules [OF d] by (simp add: demoEnv_handlers(1))
qed

definition pauseNightly :: HTTPRequest where
  "pauseNightly = browse ''POST'' ''/v1/schedules/nightly/pause'' []"

theorem index_buttons_work_witness:
  "\<exists>d page. serve memEnv sampleDecoders clock [''nightly''] (browse ''GET'' ''/'' []) idleEngine = (ReplyPage (PageIndex d), idleEngine) \<and>
     readHtml (printHtml (indexBody utcOnly d)) = Some page \<and>
     formActions page = [(''post'', ''/v1/schedules/nightly/pause''), (''post'', ''/v1/schedules/nightly/run''),
       (''post'', ''/v1/schedules/nightly/delete''), (''post'', ''/v1/runs/clear''), (''dialog'', [])] \<and>
     serve memEnv sampleDecoders clock [''nightly''] pauseNightly idleEngine =
       apiScheduleAction memEnv clock pauseNightly idleEngine"
proof -
  obtain d where d: "serve memEnv sampleDecoders clock [''nightly''] (browse ''GET'' ''/'' []) idleEngine = (ReplyPage (PageIndex d), idleEngine)"
    and s: "ip_Schedules d = Schedules demoEnv [''nightly''] idleEngine" by (rule idle_index)
  obtain page where page: "readHtml (printHtml (indexBody utcOnly d)) = Some page"
    using listed_page [OF listed_indexBody [of utcOnly d]] by blast
  define job where "job = hd (ip_Schedules d)"
  have posts: "concat (map jobPosts (Schedules demoEnv [''nightly''] idleEngine)) =
      [(''post'', ''/v1/schedules/nightly/pause''), (''post'', ''/v1/schedules/nightly/run''), (''post'', ''/v1/schedules/nightly/delete'')]"
    and job: "Schedules demoEnv [''nightly''] idleEngine \<noteq> []" "sc_Name (hd (Schedules demoEnv [''nightly''] idleEngine)) \<noteq> ''.''"
      "hq_Method pauseNightly = ''POST''"
      "List.member (jobPosts (hd (Schedules demoEnv [''nightly''] idleEngine))) (''post'', hq_EscapedPath pauseNightly)"
    by code_simp+
  have mem: "job \<in> set (ip_Schedules d)" "sc_Name job \<noteq> ''.''" "(''post'', hq_EscapedPath pauseNightly) \<in> set (jobPosts job)"
    using job by (simp_all add: job_def s List.member_iff)
  note w = index_buttons_work [OF idleEngine_ok(2) d page mem(1,2) job(3) mem(3)]
  show ?thesis using d page w posts by (auto simp: s)
qed

section \<open>Editing\<close>

lemma resaved_view [simp]:
  "resaved (s\<lparr>sc_NextRun := nr, sc_PreviousRun := pr\<rparr>) hs = resaved s hs"
  "formable dateInput (s\<lparr>sc_NextRun := nr, sc_PreviousRun := pr\<rparr>) = formable dateInput s"
  "resavedFaktory (s\<lparr>sc_NextRun := nr, sc_PreviousRun := pr\<rparr>) args = resavedFaktory s args"
  "faktoryFormable dateInput (s\<lparr>sc_NextRun := nr, sc_PreviousRun := pr\<rparr>) = faktoryFormable dateInput s"
  by (simp_all add: resaved_def formable_def resavedFaktory_def faktoryFormable_def)

lemma errorLocation_not_saved: "errorLocation q err \<noteq> ''/?notice=job+saved''"
proof
  assume loc: "errorLocation q err = ''/?notice=job+saved''"
  obtain pre where pre: "errorLocation q err = (pre @ ''error'') @ CHR ''='' # QueryEscape (Error err)"
    by (simp add: errorLocation_def Let_def)
  have "''/?notice'' @ CHR ''='' # ''job+saved'' = (pre @ ''error'') @ CHR ''='' # QueryEscape (Error err)"
    using loc pre by simp
  then have "''/?notice'' = pre @ ''error''" by (subst (asm) append_Cons_eq_iff) auto
  then have "last ''/?notice'' = last (pre @ ''error'')" by simp
  then show False by simp
qed

text \<open>The page of the edit form.\<close>

lemma edit_page:
  assumes "table env live e" "en_schedules e n = Some s" "editScheduleNameFromPath (hq_Path p) = (n, True)"
    and "editSchedule env ord p e = (ReplyPage (PageForm name d), e)"
  obtains nr pr where "fp_Schedule d = s\<lparr>sc_NextRun := nr, sc_PreviousRun := pr\<rparr>" "fp_OriginalName d = n" "sc_Name s = n"
    "fp_Timezones d = timezonesWithCurrent (sc_Timezone s)" "fp_FaktoryInstances d = engineInstances e"
    "name = (if tc_Type (sc_Target s) = ''faktory'' then ''faktory_form'' else ''schedule_form'')"
proof -
  obtain n' x where x: "editScheduleNameFromPath (hq_Path p) = (n', True)" "findSchedule env ord n' e = Some x"
    "PageForm name d = renderScheduleForm p ''Edit Job'' ''Save job'' n' x e"
    using editSchedule_page [OF assms(4)] by metis
  have n': "n' = n" using x(1) assms(3) by simp
  obtain nr pr where xs: "x = s\<lparr>sc_NextRun := nr, sc_PreviousRun := pr\<rparr>" "sc_Name s = n"
    using findSchedule_table [OF assms(1) x(2)] assms(2) n' by (metis option.inject)
  show thesis by (rule that [where nr = nr and pr = pr]) (use x(3) in \<open>simp_all add: renderScheduleForm_def n' xs\<close>)
qed

text \<open>An accepted form stores its schedule; one that is neither paused nor completed has a cron entry.\<close>

lemma accepted_form:
  assumes "engine_store st ok runs scheds normR normS cr live env"
    and "ok (en_store e)" "table env live e" "agree scheds normS e"
    and r: "scheduleFromRequest dec q = Inr (r, n)" "sc_Name r = n" "\<not> sc_Paused r"
    and "apiSaveSchedule env dec now q e = (ReplyRedirect ''/?notice=job+saved'' 303, e')"
  shows "\<exists>t. en_schedules e' = (en_schedules e)(n \<mapsto> (NormalizeSchedule r)\<lparr>sc_CompletedAt := t\<rparr>) \<and>
    agree scheds normS e' \<and> (t = None \<longrightarrow> en_entryIDs e' n \<noteq> None)"
proof -
  obtain err e1 where s: "SaveSchedule env now n r e = (err, e1)" by fastforce
  then have "err = None" "e1 = e'"
    using r(1) assms(8) errorLocation_not_saved
    by (auto simp: apiSaveSchedule_def respondScheduleError_def jsonError_def writeJSON_def split: option.splits if_splits)
  then have saved: "SaveSchedule env now n r e = (None, e')" using s by simp
  obtain t where t: "en_schedules e' = (en_schedules e)(n \<mapsto> (NormalizeSchedule r)\<lparr>sc_CompletedAt := t\<rparr>)"
    and a: "agree scheds normS e'"
    using engine_store.SaveSchedule_agree [OF assms(1-4) saved] r(2) by auto
  have "cron_table cr live env" using assms(1) by (simp add: engine_store_def)
  note table = cron_table.SaveSchedule_table [OF this assms(3) saved]
  have "activeSchedule ((NormalizeSchedule r)\<lparr>sc_CompletedAt := None\<rparr>)"
    using r(3) by (simp add: activeSchedule_def NormalizeSchedule_def Let_def)
  then have "t = None \<Longrightarrow> en_entryIDs e' n \<noteq> None" using tableD(4) [OF table, of n] t by auto
  then show ?thesis using t a by blast
qed



definition mailJob :: ScheduleConfig where
  "mailJob = NormalizeSchedule (zeroSchedule\<lparr>sc_Name := ''mail'', sc_ScheduleType := ''rate'',
     sc_StartsAt := ''2026-01-01T00:00'', sc_RateInterval := 5, sc_RateUnit := ''minutes'', sc_Timeout := 60 * Second,
     sc_Paused := True, sc_AllowConcurrent := True,
     sc_Target := zeroTarget\<lparr>tc_Type := ''faktory'', tc_Instance := ''main'', tc_JobType := ''mail'',
       tc_Args := Some [AnyInt 5, AnyString ''<b>'']\<rparr>\<rparr>)"

definition plainConfig :: Config where
  "plainConfig = ApplyDefaults zeroConfig"

definition mailConfig :: Config where
  "mailConfig = plainConfig\<lparr>cfg_Faktory := [\<lparr>fi_Name = ''main'', fi_URL = ''tcp://localhost:7419'', fi_PasswordEnv = []\<rparr>]\<rparr>"

definition holding :: "Config \<Rightarrow> ScheduleConfig \<Rightarrow> (MemoryStore, string refEntries) Engine" where
  "holding cfg s = (newEngine cfg \<lparr>ms_runs = Map.empty, ms_schedules = [sc_Name s \<mapsto> s]\<rparr> []) \<lparr>en_schedules := [sc_Name s \<mapsto> s]\<rparr>"

lemma holding_ok:
  assumes "validEntry memEnv cfg s" "sc_Paused s"
  shows "ms_inv (en_store (holding cfg s))" "table memEnv map_of (holding cfg s)"
    "agree ms_schedules NormalizeSchedule (holding cfg s)" "en_schedules (holding cfg s) (sc_Name s) = Some s"
proof -
  have fields: "en_schedules (holding cfg s) = [sc_Name s \<mapsto> s]" "en_entryIDs (holding cfg s) = Map.empty"
    "en_cron (holding cfg s) = []" "en_cfg (holding cfg s) = cfg"
    "en_store (holding cfg s) = \<lparr>ms_runs = Map.empty, ms_schedules = [sc_Name s \<mapsto> s]\<rparr>"
    by (simp_all add: holding_def newEngine_def)
  show "table memEnv map_of (holding cfg s)"
    by (rule tableI) (use assms in \<open>auto simp: fields activeSchedule_def split: if_splits\<close>)
  show "ms_inv (en_store (holding cfg s))"
    using validEntry_normalised [OF assms(1)] by (auto simp: fields ms_inv_def keyedRuns_def keyedSchedules_def)
  show "agree ms_schedules NormalizeSchedule (holding cfg s)" "en_schedules (holding cfg s) (sc_Name s) = Some s"
    using validEntry_normalised [OF assms(1)] by (auto simp: fields agree_def)
qed


lemma mailJob_valid:
  "validEntry memEnv mailConfig mailJob" "sc_Name mailJob = ''mail''" "sc_Paused mailJob"
  "sc_Timeout mailJob = 60 * Second" "faktoryFormable (\<lambda>s. s) mailJob"
proof -
  have "isOk (validateSchedule Inr utcOnly mailJob (cfg_Faktory mailConfig))" "normalised mailJob" by code_simp+
  then show "validEntry memEnv mailConfig mailJob" by (simp add: validEntry_def memEnv_def refCron_def)
  show "sc_Name mailJob = ''mail''" "sc_Paused mailJob" "sc_Timeout mailJob = 60 * Second"
    "faktoryFormable (\<lambda>s. s) mailJob" by code_simp+
qed

definition editLink :: "string \<Rightarrow> HTTPRequest" where
  "editLink name = browse ''GET'' (''/schedules/'' @ name @ ''/edit'') []"

definition editPage :: "Config \<Rightarrow> ScheduleConfig \<Rightarrow> FormPage" where
  "editPage cfg s = (case fst (editSchedule demoEnv [sc_Name s] (editLink (sc_Name s)) (holding cfg s)) of
     ReplyPage (PageForm _ d) \<Rightarrow> d)"

definition submission :: "Values \<Rightarrow> HTTPRequest" where
  "submission vs = \<lparr>hq_Method = ''POST'', hq_EscapedPath = ''/v1/schedules'', hq_RawQuery = [],
     hq_Header = (\<lambda>k. if k = ''Accept'' then ''text/html''
       else if k = ''Content-Type'' then ''application/x-www-form-urlencoded'' else []),
     hq_MediaType = (''application/x-www-form-urlencoded'', None),
     hq_Body = encodeForm vs\<rparr>"

lemma submission_isForm: "length (encodeForm vs) \<le> maxFormSize \<Longrightarrow> isForm (submission vs) vs"
  by (simp add: isForm_def submission_def)

lemma editSchedule_demo:
  assumes "fst (editSchedule demoEnv ord q e) = r"
  shows "editSchedule memEnv ord q e = (r, e)"
  using assms readers_keep [of RouteEdit memEnv sampleDecoders clock ord q e]
  by (simp add: handle_def demoEnv_handlers prod_eq_iff)


text \<open>C31: the guided edit form of a Faktory job, submitted untouched and accepted, keeps the timing, the
  instance, the queue, the job type and the arguments as the form writes them, but sets the timeout to
  five seconds, whatever it was, and resumes a paused job.  The arguments are any that can be written as
  JSON and are not nested deeper than the decoder allows; those the form itself has read are such, and they
  come back as they are (C32).  A browser does not submit the form at all when the hidden rate interval of
  the job is below one, as it is for a cron or one-time job that never had one.\<close>

theorem untouched_faktory_form:
  assumes "engine_store st ok runs scheds normR normS cr live env"
    and "ok (en_store e)" "table env live e" "agree scheds normS e"
    and "en_schedules e n = Some s" "faktoryFormable dateInput s"
    and "editScheduleNameFromPath (hq_Path p) = (n, True)" "editSchedule env ord p e = (ReplyPage (PageForm name d), e)"
    and "readHtml (printHtml (pageBody loadLocation dec (PageForm name d))) = Some page"
    and "isForm q (submitted dateInput page)"
    and "writableArgs (dc_Float dec) (tc_Args (sc_Target s))"
    and "apiSaveSchedule env dec now q e = (ReplyRedirect ''/?notice=job+saved'' 303, e')"
  shows "blocked (panelOff page) page = (sint (sc_RateInterval s) < 1) \<and>
    (\<exists>t. en_schedules e' = (en_schedules e)(n \<mapsto> (NormalizeSchedule (resavedFaktory s (Some (formArgs (dc_Float dec) (tc_Args (sc_Target s))))))\<lparr>sc_CompletedAt := t\<rparr>) \<and>
      agree scheds normS e' \<and> (t = None \<longrightarrow> en_entryIDs e' n \<noteq> None))"
proof -
  define args where "args = Some (formArgs (dc_Float dec) (tc_Args (sc_Target s)))"
  obtain nr pr where d: "fp_Schedule d = s\<lparr>sc_NextRun := nr, sc_PreviousRun := pr\<rparr>" "fp_OriginalName d = n" "sc_Name s = n"
    "fp_Timezones d = timezonesWithCurrent (sc_Timezone s)" "fp_FaktoryInstances d = engineInstances e"
    "name = (if tc_Type (sc_Target s) = ''faktory'' then ''faktory_form'' else ''schedule_form'')"
    by (rule edit_page [OF assms(3,5,7,8)])
  have f: "faktoryFormable dateInput (fp_Schedule d)" using assms(6) by (simp add: d)
  have fak: "tc_Type (sc_Target s) = ''faktory''" and z: "fp_Timezones d = timezonesWithCurrent (sc_Timezone (fp_Schedule d))"
    using assms(6) by (simp_all add: faktoryFormable_def d)
  have "scheduleOk (ev_loadLocation env) (fi_Name ` set (cfg_Faktory (en_cfg e))) s"
    using tableD_valid [OF assms(3,5)] by (simp add: validEntry_iff)
  then have t: "tc_JobType (sc_Target (fp_Schedule d)) \<noteq> []" "tc_Instance (sc_Target (fp_Schedule d)) \<noteq> []"
    "tc_Instance (sc_Target (fp_Schedule d)) \<in> set (fp_FaktoryInstances d)"
    using fak by (auto simp: d scheduleOk_def targetOk_def engineInstances_def FaktoryInstanceNames_def)
  have page: "page = viewHtml (faktoryFormBody dec d)"
    using assms(9) listed_page [OF listed_pageBody [of loadLocation dec "PageForm name d"]] by (simp add: pageBody_def d fak)
  have "fp_Timezones d \<noteq> []" "fp_FaktoryInstances d \<noteq> []"
    using timezonesWithCurrent_mem [of "sc_Timezone s"] f t(3) by (auto simp: faktoryFormable_def d)
  then have q: "isForm q (faktoryFormFields dec dateInput d)" using assms(10) submitted_faktoryForm page by simp
  have "inputText (fp_OriginalName d)" using assms(6) by (simp add: d faktoryFormable_def)
  have "targetJSONArgs dec (sc_Target (fp_Schedule d)) = jsonArgs dec (tc_Args (sc_Target s))"
    by (simp add: targetJSONArgs_def d fak)
  then have "parseJSONArgs (formLineEnds (visible (targetJSONArgs dec (sc_Target (fp_Schedule d))))) = Inr args"
    using parseJSONArgs_jsonArgs [OF assms(11)] by (simp add: args_def)
  from untouched_faktory [OF f \<open>inputText (fp_OriginalName d)\<close> z t(3) this]
  have "scheduleFromForm (faktoryFormFields dec dateInput d) = Inr (resavedFaktory s args, n)" by (simp add: d)
  then have "scheduleFromRequest dec q = Inr (resavedFaktory s args, n)"
    using form_scheduleFromRequest [OF q faktoryFormFields_keys] by (simp add: faktoryFormFields_def faktoryJobFields_def Let_def)
  moreover have "sc_Name (resavedFaktory s args) = n" "\<not> sc_Paused (resavedFaktory s args)"
    by (simp_all add: resavedFaktory_def zeroSchedule_def d)
  moreover have "blocked (panelOff page) page = (sint (sc_RateInterval s) < 1)"
    using blocked_faktoryForm [OF t, of page dec] by (simp add: d page)
  ultimately show ?thesis using accepted_form [OF assms(1-4) _ _ _ assms(12)] unfolding args_def by blast
qed

theorem untouched_faktory_form_witness:
  "\<exists>q e' t. apiSaveSchedule memEnv sampleDecoders clock q (holding mailConfig mailJob) = (ReplyRedirect ''/?notice=job+saved'' 303, e') \<and>
    en_schedules e' ''mail'' = Some t \<and> sc_Timeout mailJob = 60 * Second \<and> sc_Timeout t = 5 * Second \<and>
    tc_Args (sc_Target mailJob) = Some [AnyInt 5, AnyString ''<b>''] \<and>
    tc_Args (sc_Target t) = Some [AnyNumber ''5'', AnyString ''<b>'']"
proof -
  define d where "d = editPage mailConfig mailJob"
  define vs where "vs = faktoryFormFields sampleDecoders (\<lambda>s. s) d"
  define q where "q = submission vs"
  have page: "fst (editSchedule demoEnv [''mail''] (editLink ''mail'') (holding mailConfig mailJob)) = ReplyPage (PageForm ''faktory_form'' d)"
    and path: "editScheduleNameFromPath (hq_Path (editLink ''mail'')) = (''mail'', True)"
    and small: "length (encodeForm vs) \<le> maxFormSize"
    and saved: "fst (apiSaveSchedule demoEnv sampleDecoders clock q (holding mailConfig mailJob)) = ReplyRedirect ''/?notice=job+saved'' 303"
    and form: "fp_Timezones d \<noteq> []" "fp_FaktoryInstances d \<noteq> []"
    and args: "writableArgs (dc_Float sampleDecoders) (tc_Args (sc_Target mailJob))"
      "Some (formArgs (dc_Float sampleDecoders) (tc_Args (sc_Target mailJob))) =
        Some [AnyNumber ''5'', AnyString ''<b>'']"
    unfolding q_def vs_def d_def by code_simp+
  note read = listed_page [OF listed_pageBody [of utcOnly sampleDecoders "PageForm ''faktory_form'' d"], THEN conjunct1]
  have sent: "isForm q (submitted (\<lambda>s. s) (viewHtml (pageBody utcOnly sampleDecoders (PageForm ''faktory_form'' d))))"
    using submission_isForm [OF small] submitted_faktoryForm [OF form] by (simp add: pageBody_def q_def vs_def)
  obtain e' where s: "apiSaveSchedule memEnv sampleDecoders clock q (holding mailConfig mailJob) = (ReplyRedirect ''/?notice=job+saved'' 303, e')"
    using saved by (metis demoEnv_handlers(2) prod.collapse)
  note v = mailJob_valid
  obtain t where "en_schedules e' = (en_schedules (holding mailConfig mailJob))(''mail'' \<mapsto>
      (NormalizeSchedule (resavedFaktory mailJob (Some [AnyNumber ''5'', AnyString ''<b>''])))\<lparr>sc_CompletedAt := t\<rparr>)"
    using untouched_faktory_form [OF memEnv_engine holding_ok [OF v(1,3), unfolded v(2)] v(5) path editSchedule_demo [OF page] read sent args(1) s]
    unfolding args(2) by blast
  moreover have "tc_Args (sc_Target mailJob) = Some [AnyInt 5, AnyString ''<b>'']"
    "sc_Timeout (NormalizeSchedule (resavedFaktory mailJob (Some [AnyNumber ''5'', AnyString ''<b>'']))) = 5 * Second"
    "tc_Args (sc_Target (NormalizeSchedule (resavedFaktory mailJob (Some [AnyNumber ''5'', AnyString ''<b>''])))) =
      Some [AnyNumber ''5'', AnyString ''<b>'']"
    by code_simp+
  ultimately show ?thesis using s v(4) by (intro exI [of _ q]) simp
qed

section \<open>The arguments of a job\<close>

text \<open>C32: the arguments the form of a Faktory job has accepted come back from it as they are, value for
  value: whatever JSON was typed or pasted, with its nested arrays and objects, its escapes and its numbers
  of any size, the text the edit form shows for them, with the line ends a browser sends, is read as the
  same arguments; no arguments and \<open>null\<close> come back as an empty array.\<close>

theorem arguments_survive_the_form:
  assumes "parseJSONArgs raw = Inr args"
  shows "parseJSONArgs (formLineEnds (visible (jsonArgs dec args))) =
    Inr (Some (case args of None \<Rightarrow> [] | Some vs \<Rightarrow> vs))"
  using parseJSONArgs_jsonArgs [of dec args] parsed_writable [OF assms, of "dc_Float dec"] by simp

definition sampleArgs :: string where
  "sampleArgs =
     '' [12345678901234567890, -0.5e3, {\"b\": [], \"a\": [null, true]}, \"'' @ CHR 0x5C # ''u00e9 <tag>\"]''"

theorem arguments_survive_the_form_witness:
  "\<exists>vs. parseJSONArgs sampleArgs = Inr (Some vs) \<and> length vs = 4 \<and>
     parseJSONArgs (formLineEnds (visible (jsonArgs sampleDecoders (Some vs)))) = Inr (Some vs)"
proof -
  define vs where "vs = (case parseJSONArgs sampleArgs of Inr (Some vs) \<Rightarrow> vs)"
  have v: "parseJSONArgs sampleArgs = Inr (Some vs)" "length vs = 4"
    unfolding vs_def by code_simp+
  show ?thesis using v arguments_survive_the_form [OF v(1)] by auto
qed

end
