(* ===== verification/LoadTest.thy ===== *)
theory LoadTest
  imports StoreProperties
begin

text \<open>
  tools/run-retention-loadtest/main.go: filling a database with completed runs and its own pruning by
  scanning and sorting, the reference that the indexed pruning of the store is measured against.  The
  keys and the counter of the tool are copies of those of the store, and the model uses theirs.
\<close>

section \<open>Filling a database\<close>

definition ensureLoadTestBuckets :: "('b, blob) bolt_api \<Rightarrow> 'b tx \<Rightarrow> 'b tx result" where
  "ensureLoadTestBuckets api tx =
     bindE (CreateBucketIfNotExists api tx runsBucket) (\<lambda>tx.
     bindE (CreateBucketIfNotExists api tx runStatsBucket) (\<lambda>tx.
     bindE (CreateBucketIfNotExists api tx runsByStartedAtBucket) (\<lambda>tx.
       CreateBucketIfNotExists api tx runningRunsByScheduleBucket)))"

text \<open>The counter of the tool does not clip a negative count.\<close>

definition lt_setCompletedRunCount :: "('b, blob) bolt_api \<Rightarrow> 'b tx \<Rightarrow> int \<Rightarrow> 'b tx result" where
  "lt_setCompletedRunCount api tx n =
     txPut api tx runStatsBucket completedRunCountKey (Raw (PutUint64 (word_of_int n)))"

definition loadRun :: "go_time \<Rightarrow> nat \<Rightarrow> nat \<Rightarrow> Run" where
  "loadRun base payloadBytes n =
     (let startedAt = timeAdd base (of_nat n * Second); finishedAt = timeAdd startedAt Second in
      zeroRun\<lparr>r_ID := ''load-'' @ padded 12 n, r_ScheduleName := ''load-test'', r_TargetType := ''http'',
        r_TriggeredBy := ''scheduler'', r_Status := RunSucceeded, r_ScheduledAt := startedAt,
        r_StartedAt := startedAt, r_FinishedAt := Some finishedAt,
        r_StructuredOutput := Some [(''raw'', AnyString (replicate payloadBytes (CHR ''x'')))]\<rparr>)"

fun putLoadRuns :: "('b, blob) bolt_api \<Rightarrow> go_time \<Rightarrow> nat \<Rightarrow> nat list \<Rightarrow> 'b tx \<Rightarrow> 'b tx result" where
  "putLoadRuns api base payloadBytes [] tx = Inr tx"
| "putLoadRuns api base payloadBytes (n # ns) tx =
     (let r = loadRun base payloadBytes n in
      bindE (marshalRun r) (\<lambda>raw.
      bindE (txPut api tx runsBucket (r_ID r) raw) (\<lambda>tx.
      bindE (txPut api tx runsByStartedAtBucket (runStartedAtIndexKey r) (Raw (r_ID r))) (\<lambda>tx.
        putLoadRuns api base payloadBytes ns tx))))"

definition insertBatch :: "('b, blob) bolt_api \<Rightarrow> go_time \<Rightarrow> nat \<Rightarrow> nat \<Rightarrow> nat \<Rightarrow> 'b tx \<Rightarrow> unit result \<times> 'b tx" where
  "insertBatch api base payloadBytes first batchCount db =
     dbUpdate api (\<lambda>tx.
       bindE (ensureLoadTestBuckets api tx) (\<lambda>tx.
       bindE (putLoadRuns api base payloadBytes [first..<first + batchCount] tx) (\<lambda>tx.
       bindE (completedRunCount api tx) (\<lambda>n.
       bindE (lt_setCompletedRunCount api tx (n + int batchCount)) (\<lambda>tx. Inr ((), tx)))))) db"

definition batchSize :: nat where "batchSize = 10000"

function insertFrom :: "('b, blob) bolt_api \<Rightarrow> go_time \<Rightarrow> nat \<Rightarrow> nat \<Rightarrow> nat \<Rightarrow> nat \<Rightarrow> 'b tx \<Rightarrow> unit result \<times> 'b tx" where
  "insertFrom api base payloadBytes start amount inserted db =
     (if inserted < amount
      then (let batchCount = min batchSize (amount - inserted) in
        case insertBatch api base payloadBytes (start + inserted) batchCount db of
          (Inl e, db) \<Rightarrow> (Inl e, db)
        | (Inr _, db) \<Rightarrow> insertFrom api base payloadBytes start amount (inserted + batchCount) db)
      else (Inr (), db))"
  by pat_completeness auto
termination
  by (relation "measure (\<lambda>(api, base, p, start, amount, inserted, db). amount - inserted)")
     (auto simp: batchSize_def)

declare insertFrom.simps [simp del]

definition insertRuns :: "('b, blob) bolt_api \<Rightarrow> nat \<Rightarrow> nat \<Rightarrow> go_time \<Rightarrow> nat \<Rightarrow> 'b tx \<Rightarrow> unit result \<times> 'b tx" where
  "insertRuns api start amount base payloadBytes db = insertFrom api base payloadBytes start amount 0 db"

section \<open>Pruning by scanning and sorting\<close>

fun scanRuns :: "(string \<times> blob) list \<Rightarrow> storedRun list result" where
  "scanRuns [] = Inr []"
| "scanRuns ((k, v) # kvs) =
     bindE (unmarshalRun v) (\<lambda>r. bindE (scanRuns kvs) (\<lambda>rs. Inr ((k, r) # rs)))"

definition completedCount :: "storedRun list \<Rightarrow> string set \<Rightarrow> int" where
  "completedCount runs victims =
     int (length (filter (\<lambda>(rid, r). rid \<notin> victims \<and> r_Status r \<noteq> RunRunning) runs))"

fun deleteRuns :: "('b, blob) bolt_api \<Rightarrow> string list \<Rightarrow> 'b tx \<Rightarrow> 'b tx result" where
  "deleteRuns api [] tx = Inr tx"
| "deleteRuns api (rid # rids) tx = bindE (txDelete api tx runsBucket rid) (\<lambda>tx. deleteRuns api rids tx)"

definition scanVictims :: "storedRun list \<Rightarrow> RunRetentionConfig \<Rightarrow> go_time \<Rightarrow> string set" where
  "scanVictims runs retention now =
     (let victims = (if 0 < rr_MaxAgeDays retention
                     then expireLoop runs (addDays now (- rr_MaxAgeDays retention)) {} else {})
      in if 0 < rr_MaxRecords retention
         then excessLoop (rev runs) (rr_MaxRecords retention) (keptLoop runs victims 0) victims else victims)"

text \<open>
  \<open>arrange\<close> stands for what the unstable sort does to runs of the same instant before the stable sort
  of the model, \<open>visitOrder\<close> for the order in which Go visits the set of victims.
\<close>

definition scanSortPrune ::
    "('b, blob) bolt_api \<Rightarrow> (storedRun list \<Rightarrow> storedRun list) \<Rightarrow> (string set \<Rightarrow> string list) \<Rightarrow>
     RunRetentionConfig \<Rightarrow> go_time \<Rightarrow> 'b tx \<Rightarrow> RunRetentionResult result \<times> 'b tx" where
  "scanSortPrune api arrange visitOrder retention now db =
     dbUpdate api (\<lambda>tx.
       bindE (txBucket tx runsBucket) (\<lambda>b.
       bindE (scanRuns (bk_forward api b)) (\<lambda>scanned.
         let runs = sortStoredRunsNewestFirst (arrange scanned);
             victims = scanVictims runs retention now
         in bindE (deleteRuns api (visitOrder victims) tx) (\<lambda>tx.
              Inr (\<lparr>rt_Deleted = int (card victims), rt_Kept = completedCount runs victims\<rparr>, tx))))) db"

section \<open>The scan against the specification\<close>

definition arranges :: "(storedRun list \<Rightarrow> storedRun list) \<Rightarrow> bool" where
  "arranges f \<longleftrightarrow> (\<forall>rs. mset (f rs) = mset rs)"

definition listsSet :: "(string set \<Rightarrow> string list) \<Rightarrow> bool" where
  "listsSet f \<longleftrightarrow> (\<forall>V. finite V \<longrightarrow> set (f V) = V)"

lemma scanRuns_map:
  assumes "scanRuns kvs = Inr rs"
  shows "map fst rs = map fst kvs" "(k, r) \<in> set rs \<longleftrightarrow> (k, JSONRun r) \<in> set kvs"
  using assms
proof (induction kvs arbitrary: rs)
  case (Cons kv kvs)
  {
    case 1
    then show ?case using Cons.IH(1) by (cases kv) (auto simp: bindE_eq_Inr)
  next
    case 2
    then show ?case using Cons.IH(2)
      by (cases kv) (auto simp: bindE_eq_Inr unmarshalRun_def split: blob.splits)
  }
qed simp_all

lemma pruneRuns_scan:
  "pruneRuns runs0 ret now =
     (\<lparr>rt_Deleted = int (card (scanVictims (sortStoredRunsNewestFirst runs0) ret now)),
       rt_Kept = completedCount (sortStoredRunsNewestFirst runs0) (scanVictims (sortStoredRunsNewestFirst runs0) ret now)\<rparr>,
      scanVictims (sortStoredRunsNewestFirst runs0) ret now)"
  by (simp add: pruneRuns_def scanVictims_def completedCount_def retainedCompletedRunCount_def isCompletedRun_def Let_def)

context bolt_database
begin

lemma deleteRuns_look:
  "deleteRuns api rids tx = Inr tx' \<Longrightarrow>
    look api tx' runsBucket = look api tx runsBucket |` (- set rids) \<and>
    (m \<noteq> runsBucket \<longrightarrow> look api tx' m = look api tx m)"
proof (induction rids arbitrary: tx)
  case (Cons rid rids)
  then obtain tx1 where "txDelete api tx runsBucket rid = Inr tx1" "deleteRuns api rids tx1 = Inr tx'"
    by (auto simp: bindE_eq_Inr)
  then show ?case using Cons.IH txDelete_look by (auto simp: restrict_map_def fun_eq_iff)
qed (simp add: restrict_map_def)

lemma scanRuns_enumerates:
  assumes "db runsBucket = Some b" "scanRuns (bk_forward api b) = Inr rs"
  shows "enumerates (runsOf api db) rs"
proof -
  have "(k, r) \<in> set rs \<longleftrightarrow> runsOf api db k = Some r" for k r
    using scanRuns_map(2) [OF assms(2)] mem_forward assms(1)
    by (auto simp: runsOf_def look_def split: option.splits blob.splits)
  moreover have "distinct (map fst rs)" using scanRuns_map(1) [OF assms(2)] distinct_forward by simp
  ultimately show ?thesis by (auto simp: enumerates_def)
qed

lemma scanSortPrune_retained:
  assumes "arranges arrange" "listsSet visitOrder" "scanSortPrune api arrange visitOrder ret now db = (Inr res, db')"
  shows "retained ret now (runsOf api db) (runsOf api db')" "res = retentionResult (runsOf api db) (runsOf api db')"
    "m \<noteq> runsBucket \<Longrightarrow> look api db' m = look api db m"
proof -
  obtain b rs where b: "db runsBucket = Some b" and rs: "scanRuns (bk_forward api b) = Inr rs"
    and d: "deleteRuns api (visitOrder (scanVictims (sortStoredRunsNewestFirst (arrange rs)) ret now)) db = Inr db'"
    and res: "res = \<lparr>rt_Deleted = int (card (scanVictims (sortStoredRunsNewestFirst (arrange rs)) ret now)),
      rt_Kept = completedCount (sortStoredRunsNewestFirst (arrange rs)) (scanVictims (sortStoredRunsNewestFirst (arrange rs)) ret now)\<rparr>"
    using assms(3) unfolding scanSortPrune_def
    by (auto dest!: dbUpdate_ok simp: bindE_eq_Inr txBucket_def Let_def split: option.splits)
  have en: "enumerates (runsOf api db) (arrange rs)"
  proof -
    have p: "mset (arrange rs) = mset rs" using assms(1) by (simp add: arranges_def)
    then have "set (arrange rs) = set rs" "mset (map fst (arrange rs)) = mset (map fst rs)"
      by (auto dest: mset_eq_setD simp: mset_map)
    then show ?thesis
      using scanRuns_enumerates [where db = db, OF b rs] mset_eq_imp_distinct_iff unfolding enumerates_def by metis
  qed
  define V where "V = scanVictims (sortStoredRunsNewestFirst (arrange rs)) ret now"
  have pr: "pruneRuns (arrange rs) ret now = (res, V)"
    unfolding V_def by (simp add: pruneRuns_scan res)
  note keep = pruneRuns_retained [OF en pr]
  have "finite (dom (runsOf api db))"
  proof -
    have "dom (runsOf api db) = fst ` set (arrange rs)" using en by (auto simp: enumerates_def) force
    then show ?thesis by simp
  qed
  then have "finite V" using keep(2) finite_subset by blast
  then have V: "set (visitOrder V) = V" using assms(2) by (simp add: listsSet_def)
  have l: "look api db' runsBucket = look api db runsBucket |` (- V)"
    using deleteRuns_look [OF d] by (simp add: V_def [symmetric] V)
  have "runsOf api db' = runsOf api db |` (- V)"
    by (rule ext) (simp add: runsOf_def l restrict_map_def)
  then show "retained ret now (runsOf api db) (runsOf api db')" "res = retentionResult (runsOf api db) (runsOf api db')"
    using keep by simp_all
  show "m \<noteq> runsBucket \<Longrightarrow> look api db' m = look api db m"
    using deleteRuns_look [OF d, of m] by simp
qed

end

section \<open>The scan against the store\<close>

text \<open>The indexed pruning of the store deletes and keeps as many runs as the tool's scan of the whole
  database, and the same runs when no two completed runs started at the same instant.  The scan leaves
  the index by start time as it was, with entries for deleted runs.\<close>

lemma scan_sort_prunes_alike:
  assumes "bolt_database api" "boltInv api db" "arranges arrange" "listsSet visitOrder"
    and s: "scanSortPrune api arrange visitOrder ret now db = (Inr res, db1)"
    and b: "bs_PruneRuns api ret now db = (Inr res', db2)"
  shows "res' = res \<and>
    (inj_on (\<lambda>p. r_StartedAt (snd p)) (completedPairs (runsOf api db)) \<longrightarrow> runsOf api db1 = runsOf api db2) \<and>
    look api db1 runsByStartedAtBucket = look api db runsByStartedAtBucket"
proof -
  have f: "finite (dom (runsOf api db))"
    by (rule finite_subset [OF _ bbolt.finite_dom_look [OF bolt_database.axioms [OF assms(1)], of db runsBucket]])
       (auto simp: runsOf_def split: option.splits)
  note 1 = bolt_database.scanSortPrune_retained [OF assms(1,3,4) s]
  have 2: "retained ret now (runsOf api db) (runsOf api db2) \<and> res' = retentionResult (runsOf api db) (runsOf api db2)"
    using bolt_database.PruneRuns_inv [OF assms(1,2) b] by simp
  have "res' = res" using retained_same_result [OF f 1(1)] 1(2) 2 by metis
  moreover have "look api db1 runsByStartedAtBucket = look api db runsByStartedAtBucket" by (rule 1(3)) simp
  ultimately show ?thesis using retained_unique [OF f 1(1)] 2 by blast
qed

end
