(* ===== verification/LoadTestMain.thy ===== *)
theory LoadTestMain
  imports LoadTest
begin

text \<open>
  tools/run-retention-loadtest/main.go: the transactions of the filling loop, the state of a filled
  database, and the whole run of the tool, from an empty file to the counts it prints.
\<close>

section \<open>The transactions of the filling loop\<close>

fun runBatches :: "('b, blob) bolt_api \<Rightarrow> go_time \<Rightarrow> nat \<Rightarrow> (nat \<times> nat) list \<Rightarrow> 'b tx \<Rightarrow> unit result \<times> 'b tx" where
  "runBatches api base payloadBytes [] db = (Inr (), db)"
| "runBatches api base payloadBytes ((first, k) # bs) db =
     (case insertBatch api base payloadBytes first k db of
        (Inl e, db) \<Rightarrow> (Inl e, db)
      | (Inr _, db) \<Rightarrow> runBatches api base payloadBytes bs db)"

definition batches :: "nat \<Rightarrow> nat \<Rightarrow> (nat \<times> nat) list" where
  "batches start amount =
     map (\<lambda>i. (start + i * batchSize, min batchSize (amount - i * batchSize))) [0..<(amount + batchSize - 1) div batchSize]"

lemma batchSize_pos: "0 < batchSize"
  by (simp add: batchSize_def)

lemma batches_0: "batches start 0 = []"
  by (simp add: batches_def batchSize_def)

lemma batches_Cons:
  assumes "0 < amount"
  shows "batches start amount = (start, min batchSize amount) # batches (start + batchSize) (amount - batchSize)"
proof -
  let ?f = "\<lambda>start amount i. (start + i * batchSize, min batchSize (amount - i * batchSize))"
  have "(amount + batchSize - 1) div batchSize = Suc ((amount - batchSize + batchSize - 1) div batchSize)"
  proof (cases "batchSize \<le> amount")
    case True
    have "(amount + batchSize - 1) div batchSize = (amount - 1 + batchSize) div batchSize" using assms by simp
    also have "\<dots> = Suc ((amount - 1) div batchSize)" using batchSize_pos by (simp only: div_add_self2 [OF neq0_conv [THEN iffD2]] Suc_eq_plus1)
    finally show ?thesis using True by simp
  next
    case False
    then have "(amount - 1) div batchSize = 0" "(batchSize - 1) div batchSize = 0" using batchSize_pos by simp_all
    then show ?thesis using False assms batchSize_pos div_add_self2 [of batchSize "amount - 1"] by simp
  qed
  then have "batches start amount = map (?f start amount) [0..<Suc ((amount - batchSize + batchSize - 1) div batchSize)]"
    by (simp add: batches_def)
  also have "\<dots> = ?f start amount 0 # map (\<lambda>i. ?f start amount (Suc i)) [0..<(amount - batchSize + batchSize - 1) div batchSize]"
    by (simp only: map_upt_Suc)
  also have "map (\<lambda>i. ?f start amount (Suc i)) [0..<(amount - batchSize + batchSize - 1) div batchSize] =
      batches (start + batchSize) (amount - batchSize)"
    by (simp add: batches_def algebra_simps)
  finally show ?thesis by simp
qed

lemma insertFrom_batches:
  "inserted \<le> amount \<Longrightarrow> insertFrom api base payloadBytes start amount inserted db =
     runBatches api base payloadBytes (batches (start + inserted) (amount - inserted)) db"
proof (induction api base payloadBytes start amount inserted db rule: insertFrom.induct)
  case (1 api base payloadBytes start amount inserted db)
  show ?case
  proof (cases "inserted < amount")
    case False
    then show ?thesis by (subst insertFrom.simps) (simp add: batches_0)
  next
    case True
    have next_batches: "batches (start + inserted + batchSize) (amount - inserted - batchSize) =
        batches (start + (inserted + min batchSize (amount - inserted))) (amount - (inserted + min batchSize (amount - inserted)))"
      by (cases "batchSize \<le> amount - inserted") (simp_all add: add.assoc min_def batches_0)
    show ?thesis
      using True "1.IH" [OF True refl] batches_Cons [of "amount - inserted" "start + inserted"] next_batches
      by (subst insertFrom.simps) (auto simp: Let_def split: prod.splits sum.splits)
  qed
qed

lemma batches_cover: "concat (map (\<lambda>(first, k). [first..<first + k]) (batches start amount)) = [start..<start + amount]"
proof (induction amount arbitrary: start rule: less_induct)
  case (less amount)
  show ?case
  proof (cases "amount = 0")
    case False
    then have "amount - batchSize < amount" using batchSize_pos by simp
    note less.IH [OF this, of "start + batchSize"]
    moreover have "[start..<start + min batchSize amount] @ [start + batchSize..<start + batchSize + (amount - batchSize)] =
        [start..<start + amount]"
      using upt_add_eq_append [of start "start + batchSize" "amount - batchSize"] by (cases "batchSize \<le> amount") simp_all
    ultimately show ?thesis using False by (simp add: batches_Cons)
  qed (simp add: batches_0)
qed

section \<open>What a filled database holds\<close>

definition loadID :: "nat \<Rightarrow> string" where
  "loadID n = ''load-'' @ padded 12 n"

primrec loadRuns :: "go_time \<Rightarrow> nat \<Rightarrow> nat \<Rightarrow> (string \<rightharpoonup> Run)" where
  "loadRuns base payloadBytes 0 = Map.empty"
| "loadRuns base payloadBytes (Suc n) = (loadRuns base payloadBytes n)(loadID n \<mapsto> loadRun base payloadBytes n)"

lemma loadRun_fields [simp]:
  "r_ID (loadRun base p n) = loadID n" "r_ScheduleName (loadRun base p n) = ''load-test''"
  "r_Status (loadRun base p n) = RunSucceeded" "isCompletedRun (loadRun base p n)"
  by (simp_all add: loadRun_def Let_def isCompletedRun_def loadID_def)

text \<open>Up to \<open>2 ^ 33\<close> runs the identifiers differ and the instants do not wrap around.\<close>

lemma loadID_eq: "m < 2 ^ 33 \<Longrightarrow> n < 2 ^ 33 \<Longrightarrow> loadID m = loadID n \<longleftrightarrow> m = n"
  by (simp add: loadID_def padded_fixed fixedDigits_eq)

lemma loadRun_started:
  assumes "n < 2 ^ 33"
  shows "r_StartedAt (loadRun base p n) = base + 1000000000 * int n"
proof -
  have "of_nat n * Second = (word_of_int (1000000000 * int n) :: 64 word)"
    by (simp add: Second_def mult.commute)
  moreover have "sint (word_of_int (1000000000 * int n) :: 64 word) = 1000000000 * int n"
    using assms by (intro sint_word_of_int64) auto
  ultimately show ?thesis by (simp add: loadRun_def Let_def timeAdd_def)
qed

lemma loadRuns_mem:
  "n \<le> 2 ^ 33 \<Longrightarrow> loadRuns base p n k = Some r \<longleftrightarrow> (\<exists>i<n. k = loadID i \<and> r = loadRun base p i)"
proof (induction n)
  case (Suc n)
  then have n: "n < 2 ^ 33" by simp
  have "i = n" if "i < n" "loadID i = loadID n" for i using loadID_eq [of i n] that n by simp
  then have last: "(\<exists>i<Suc n. loadID n = loadID i \<and> r = loadRun base p i) \<longleftrightarrow> r = loadRun base p n"
    by (metis lessI less_antisym)
  show ?case
  proof (cases "k = loadID n")
    case True
    then show ?thesis using last by auto
  next
    case False
    then have "(\<exists>i<Suc n. k = loadID i \<and> r = loadRun base p i) \<longleftrightarrow> (\<exists>i<n. k = loadID i \<and> r = loadRun base p i)"
      by (metis less_Suc_eq)
    then show ?thesis using Suc False by simp
  qed
qed simp

lemma loadRuns_fresh: "n < 2 ^ 33 \<Longrightarrow> loadRuns base p n (loadID n) = None"
proof -
  assume n: "n < 2 ^ 33"
  have "loadRuns base p n (loadID n) \<noteq> Some r" for r
  proof
    assume "loadRuns base p n (loadID n) = Some r"
    then obtain i where "i < n" "loadID n = loadID i" using loadRuns_mem [of n base p "loadID n" r] n by auto
    then show False using loadID_eq [of n i] n by simp
  qed
  then show ?thesis by (cases "loadRuns base p n (loadID n)") auto
qed

lemma loadRuns_dom: "n \<le> 2 ^ 33 \<Longrightarrow> finite (dom (loadRuns base p n)) \<and> card (dom (loadRuns base p n)) = n"
proof (induction n)
  case (Suc n)
  then have "loadID n \<notin> dom (loadRuns base p n)" using loadRuns_fresh by (simp add: domIff)
  with Suc show ?case by (simp del: fun_upd_apply)
qed simp

lemma loadRuns_completed: "n \<le> 2 ^ 33 \<Longrightarrow> card (completedPairs (loadRuns base p n)) = n"
proof (induction n)
  case (Suc n)
  then have "int (card (completedPairs (loadRuns base p (Suc n)))) = int n + 1"
    using card_completed_insert [of "loadRuns base p n" "loadID n" "loadRun base p n"] loadRuns_dom loadRuns_fresh by simp
  then show ?case by linarith
qed (simp add: completedPairs_def)

lemma plainKey_loadID: "plainKey (loadID n)"
proof -
  have "list_all (\<lambda>c. 0 < byte c \<and> byte c < 128) (utoa n)"
    using utoa_all_digits [of n] by (auto simp: list_all_iff isDigit_def byte_def)
  then show ?thesis by (auto simp: plainKey_def loadID_def padded_def list_all_iff byte_def)
qed

lemma loadRun_storable: "storableRun (loadRun base p n)" "plainStatus (loadRun base p n)"
  by (simp_all add: storableRun_def plainKey_loadID plainStatus_def) (simp add: plainKey_def byte_def)

lemma jsonString_loadWords:
  "jsonString ''load-test'' = ''load-test''" "jsonString ''http'' = ''http''" "jsonString ''scheduler'' = ''scheduler''"
  "jsonString ''raw'' = ''raw''" "jsonString RunSucceeded = RunSucceeded"
  by (rule jsonString_ascii, simp add: byte_def RunSucceeded_def)+

lemma jsonRun_loadRun: "jsonRun (loadRun base p n) = loadRun base p n"
proof -
  have "jsonString (''load-'' @ padded 12 n) = ''load-'' @ padded 12 n"
    by (rule jsonString_plainKey [OF plainKey_loadID [unfolded loadID_def]])
  moreover have "jsonString (replicate p (CHR ''x'')) = replicate p (CHR ''x'')"
    by (rule jsonString_ascii) (simp add: list_all_iff byte_def)
  ultimately show ?thesis
    by (simp add: jsonRun_def jsonObject_def loadRun_def zeroRun_def Let_def jsonString_loadWords)
qed

section \<open>Filling keeps the indexes and the counter\<close>

definition filling :: "('b, blob) bolt_api \<Rightarrow> (string \<rightharpoonup> Run) \<Rightarrow> 'b tx \<Rightarrow> bool" where
  "filling api R tx \<longleftrightarrow>
     goodRuns R \<and> look api tx runsBucket = (\<lambda>k. map_option JSONRun (R k)) \<and> indexed api R tx \<and>
     look api tx schedulesBucket = Map.empty"

text \<open>Between two transactions the counter holds the number of runs, or is missing in an empty file.\<close>

definition filled :: "('b, blob) bolt_api \<Rightarrow> go_time \<Rightarrow> nat \<Rightarrow> nat \<Rightarrow> 'b tx \<Rightarrow> bool" where
  "filled api base p n tx \<longleftrightarrow> filling api (loadRuns base p n) tx \<and>
     (if look api tx runStatsBucket completedRunCountKey = None then n = 0 else counter api tx (int n))"

lemma filled_empty: "filled api base p 0 Map.empty"
  by (simp add: filled_def filling_def goodRuns_def indexed_def look_def)

context bolt_database
begin

lemma putLoadRuns_step:
  assumes "putLoadRuns api base p (n # ns) tx = Inr tx'" "filling api (loadRuns base p n) tx" "n < 2 ^ 33"
  obtains tx1 where "putLoadRuns api base p ns tx1 = Inr tx'" "filling api (loadRuns base p (Suc n)) tx1"
    "sameBut api {runsBucket, runsByStartedAtBucket} tx tx1"
proof -
  let ?r = "loadRun base p n"
  obtain raw tx1 tx2 where raw: "marshalRun ?r = Inr raw" and 1: "txPut api tx runsBucket (loadID n) raw = Inr tx1"
    and 2: "txPut api tx1 runsByStartedAtBucket (runStartedAtIndexKey ?r) (Raw (loadID n)) = Inr tx2"
    and rest: "putLoadRuns api base p ns tx2 = Inr tx'"
    using assms(1) by (auto simp: bindE_eq_Inr Let_def)
  have y: "yearOk (r_StartedAt ?r)" "raw = JSONRun ?r"
    using raw by (auto simp: marshalRun_def jsonRun_loadRun split: if_splits)
  have g: "goodRun ?r" using y loadRun_storable by (simp add: goodRun_def)
  have good: "goodRuns (loadRuns base p (Suc n))" using assms(2) g by (simp add: filling_def del: fun_upd_apply)
  note p1 = txPut_look [OF 1] and p2 = txPut_look [OF 2]
  have ix: "indexes startKey (loadRuns base p n) (look api tx runsByStartedAtBucket)"
    "indexes runKey (loadRuns base p n) (look api tx runningRunsByScheduleBucket)"
    using assms(2) by (simp_all add: filling_def indexed_def)
  note new = loadRuns_fresh [OF assms(3), of base p]
  have "indexed api (loadRuns base p (Suc n)) tx2"
    using index_add [OF ix(1) good [unfolded loadRuns.simps] injKey_startKey new]
      index_add [OF ix(2) good [unfolded loadRuns.simps] injKey_runKey new] p1 p2
    by (simp add: indexed_def startKey_def runKey_def)
  moreover have "look api tx2 runsBucket = (\<lambda>k. map_option JSONRun (loadRuns base p (Suc n) k))"
    using assms(2) p1 p2 y(2) by (auto simp: filling_def)
  moreover have "look api tx2 schedulesBucket = Map.empty" using assms(2) p1 p2 by (simp add: filling_def)
  ultimately have "filling api (loadRuns base p (Suc n)) tx2" using good by (simp add: filling_def del: loadRuns.simps)
  moreover have "sameBut api {runsBucket, runsByStartedAtBucket} tx tx2" using p1 p2 by (simp add: sameBut_def)
  ultimately show thesis using that rest by blast
qed

lemma putLoadRuns_filling:
  "putLoadRuns api base p [n..<n + k] tx = Inr tx' \<Longrightarrow> filling api (loadRuns base p n) tx \<Longrightarrow> n + k \<le> 2 ^ 33 \<Longrightarrow>
    filling api (loadRuns base p (n + k)) tx' \<and> sameBut api {runsBucket, runsByStartedAtBucket} tx tx'"
proof (induction k arbitrary: n tx)
  case (Suc k)
  have "[n..<n + Suc k] = n # [Suc n..<Suc n + k]" by (simp add: upt_conv_Cons)
  then obtain tx1 where "putLoadRuns api base p [Suc n..<Suc n + k] tx1 = Inr tx'"
    "filling api (loadRuns base p (Suc n)) tx1" "sameBut api {runsBucket, runsByStartedAtBucket} tx tx1"
    using putLoadRuns_step [of base p n "[Suc n..<Suc n + k]" tx tx'] Suc.prems by auto
  moreover from Suc.IH [OF this(1,2)] Suc.prems(3)
  have "filling api (loadRuns base p (n + Suc k)) tx'" "sameBut api {runsBucket, runsByStartedAtBucket} tx1 tx'"
    by (simp_all del: loadRuns.simps)
  ultimately have "filling api (loadRuns base p (n + Suc k)) tx'" "sameBut api {runsBucket, runsByStartedAtBucket} tx tx'"
    using sameBut_trans [of api "{runsBucket, runsByStartedAtBucket}" tx tx1 "{runsBucket, runsByStartedAtBucket}" tx']
    by (simp_all only: Un_absorb)
  then show ?case by blast
qed simp

lemma ensureLoadTestBuckets_look:
  assumes "ensureLoadTestBuckets api db = Inr tx"
  shows "look api tx = look api db" "runStatsBucket \<in> dom tx"
proof -
  obtain t1 t2 t3 where c: "CreateBucketIfNotExists api db runsBucket = Inr t1"
    "CreateBucketIfNotExists api t1 runStatsBucket = Inr t2"
    "CreateBucketIfNotExists api t2 runsByStartedAtBucket = Inr t3"
    "CreateBucketIfNotExists api t3 runningRunsByScheduleBucket = Inr tx"
    using assms by (auto simp: ensureLoadTestBuckets_def bindE_eq_Inr)
  note l = c [THEN createIfMissing_look(1)] c [THEN createIfMissing_look(2)]
  show "look api tx = look api db" "runStatsBucket \<in> dom tx" using l by simp_all
qed

lemma insertBatch_filled:
  assumes "insertBatch api base p n k db = (Inr u, db')" "filled api base p n db" "n + k \<le> 2 ^ 33"
  shows "filled api base p (n + k) db'"
proof -
  obtain tx1 tx2 c where 1: "ensureLoadTestBuckets api db = Inr tx1"
    and 2: "putLoadRuns api base p [n..<n + k] tx1 = Inr tx2" and c: "completedRunCount api tx2 = Inr c"
    and 3: "lt_setCompletedRunCount api tx2 (c + int k) = Inr db'"
    using dbUpdate_ok [OF assms(1) [unfolded insertBatch_def]] by (auto simp: bindE_eq_Inr)
  note l1 = ensureLoadTestBuckets_look [OF 1]
  then have f1: "filling api (loadRuns base p n) tx1" using assms(2) by (simp add: filled_def filling_def indexed_def)
  have f2: "filling api (loadRuns base p (n + k)) tx2" "sameBut api {runsBucket, runsByStartedAtBucket} tx1 tx2"
    using putLoadRuns_filling [OF 2 f1 assms(3)] by auto
  have stats: "look api tx2 runStatsBucket = look api db runStatsBucket" using sameBut_look [OF f2(2)] l1 by simp
  have "runStatsBucket \<in> dom tx2" using l1(2) sameBut_dom [OF f2(2)] by simp
  then have "c = int n"
    using assms(2,3) c stats completedRunCount_counter [of api tx2 "int n"]
    by (auto simp: filled_def counter_def completedRunCount_def txGet_look domIff split: if_splits)
  then have s3: "sameBut api {runStatsBucket} tx2 db'" "counter api db' (int (n + k))"
    using put_sameBut 3 by (auto simp: lt_setCompletedRunCount_def counter_def)
  have "filling api (loadRuns base p (n + k)) db'"
    using f2(1) sameBut_look [OF s3(1)] sameBut_indexed [OF s3(1)] by (simp add: filling_def indexBuckets_def)
  moreover have "look api db' runStatsBucket completedRunCountKey \<noteq> None" using s3(2) by (simp add: counter_def)
  ultimately show ?thesis using s3(2) by (simp only: filled_def if_False simp_thms)
qed

lemma insertFrom_filled:
  "insertFrom api base p start amount inserted db = (Inr u, db') \<Longrightarrow> filled api base p (start + inserted) db \<Longrightarrow>
    inserted \<le> amount \<Longrightarrow> start + amount \<le> 2 ^ 33 \<Longrightarrow> filled api base p (start + amount) db'"
proof (induction "amount - inserted" arbitrary: inserted db rule: less_induct)
  case less
  show ?case
  proof (cases "inserted < amount")
    case False
    then show ?thesis using less.prems by (simp add: insertFrom.simps)
  next
    case True
    define k where "k = min batchSize (amount - inserted)"
    have k: "inserted + k \<le> amount" "amount - (inserted + k) < amount - inserted"
      using True batchSize_pos by (simp_all add: k_def)
    obtain db1 where b: "insertBatch api base p (start + inserted) k db = (Inr (), db1)"
      and r: "insertFrom api base p start amount (inserted + k) db1 = (Inr u, db')"
      using less.prems(1) True by (subst (asm) insertFrom.simps) (auto simp: k_def Let_def split: prod.splits sum.splits)
    have "filled api base p (start + inserted + k) db1"
      by (rule insertBatch_filled [OF b less.prems(2)]) (use k less.prems(4) in simp)
    then show ?thesis using less.hyps [OF k(2) r _ k(1) less.prems(4)] by (simp add: add.assoc)
  qed
qed

end

section \<open>The run of the tool\<close>

text \<open>The flags, parsed; counts are not negative.  Timing, memory statistics and printing are left out.\<close>

record LoadFlags =
  lf_Mode :: string
  lf_Scenario :: string
  lf_Runs :: nat
  lf_Retain :: nat
  lf_SteadyInsert :: nat
  lf_PayloadBytes :: nat
  lf_MaxAgeDays :: int
  lf_Reset :: bool

definition retentionRecords :: "LoadFlags \<Rightarrow> nat" where
  "retentionRecords f = (if lf_Scenario f = ''steady'' then lf_Runs f else lf_Retain f)"

definition loadBase :: "go_time \<Rightarrow> LoadFlags \<Rightarrow> go_time" where
  "loadBase now f = timeAdd now (- of_nat (lf_Runs f + lf_SteadyInsert f) * Second)"

text \<open>
  \<open>opened i\<close> is the outcome of the i-th \<open>bolt.Open\<close>, \<open>removed\<close> that of \<open>os.Remove\<close> but for a missing
  file, \<open>closed\<close> that of \<open>store.Close\<close>.
\<close>

definition openAnd :: "unit result \<Rightarrow> ('b tx \<Rightarrow> 'a result \<times> 'b tx) \<Rightarrow> 'b tx \<Rightarrow> 'a result \<times> 'b tx" where
  "openAnd opened f db = (case opened of Inl e \<Rightarrow> (Inl e, db) | Inr _ \<Rightarrow> f db)"

definition populate ::
    "('b, blob) bolt_api \<Rightarrow> (nat \<Rightarrow> unit result) \<Rightarrow> go_time \<Rightarrow> LoadFlags \<Rightarrow> 'b tx \<Rightarrow> unit result \<times> 'b tx" where
  "populate api opened base f db =
     (case openAnd (opened 0) (insertRuns api 0 (lf_Runs f) base (lf_PayloadBytes f)) db of
        (Inl e, db) \<Rightarrow> (Inl e, db)
      | (Inr _, db) \<Rightarrow>
          if lf_Scenario f = ''steady''
          then openAnd (opened 1) (insertRuns api (lf_Runs f) (lf_SteadyInsert f) base (lf_PayloadBytes f)) db
          else (Inr (), db))"

definition prunePhase ::
    "('b, blob) bolt_api \<Rightarrow> (storedRun list \<Rightarrow> storedRun list) \<Rightarrow> (string set \<Rightarrow> string list) \<Rightarrow>
     unit result \<Rightarrow> unit result \<Rightarrow> go_time \<Rightarrow> LoadFlags \<Rightarrow> 'b tx \<Rightarrow> RunRetentionResult result \<times> 'b tx" where
  "prunePhase api arrange visitOrder opened closed now f db =
     (let retention = \<lparr>rr_MaxRecords = int (retentionRecords f), rr_MaxAgeDays = lf_MaxAgeDays f\<rparr> in
      if lf_Mode f = ''indexed'' then
        (case OpenBoltStore api (bindE opened (\<lambda>_. Inr db)) of
           Inl e \<Rightarrow> (Inl e, db)
         | Inr db \<Rightarrow> (case bs_PruneRuns api retention now db of
               (Inl e, db) \<Rightarrow> (Inl e, db) | (Inr res, db) \<Rightarrow> (bindE closed (\<lambda>_. Inr res), db)))
      else if lf_Mode f = ''scan-sort'' then openAnd opened (scanSortPrune api arrange visitOrder retention now) db
      else (Inl (External ''unsupported mode''), db))"

definition loadTest ::
    "('b, blob) bolt_api \<Rightarrow> (storedRun list \<Rightarrow> storedRun list) \<Rightarrow> (string set \<Rightarrow> string list) \<Rightarrow>
     unit result \<Rightarrow> (nat \<Rightarrow> unit result) \<Rightarrow> unit result \<Rightarrow> (nat \<Rightarrow> go_time) \<Rightarrow> LoadFlags \<Rightarrow> 'b tx \<Rightarrow>
     RunRetentionResult result \<times> 'b tx" where
  "loadTest api arrange visitOrder removed opened closed now f db =
     (case if lf_Reset f then removed else Inr () of
        Inl e \<Rightarrow> (Inl e, db)
      | Inr _ \<Rightarrow>
          (let db = (if lf_Reset f then Map.empty else db) in
           case populate api opened (loadBase (now 0) f) f db of
             (Inl e, db) \<Rightarrow> (Inl e, db)
           | (Inr _, db) \<Rightarrow> prunePhase api arrange visitOrder (opened 2) closed (now 1) f db))"

definition totalRuns :: "LoadFlags \<Rightarrow> nat" where
  "totalRuns f = (if lf_Scenario f = ''steady'' then lf_Runs f + lf_SteadyInsert f else lf_Runs f)"

section \<open>What the tool keeps\<close>

text \<open>The newest runs, by their numbers.\<close>

definition keptLoads :: "go_time \<Rightarrow> nat \<Rightarrow> nat \<Rightarrow> nat \<Rightarrow> (string \<rightharpoonup> Run)" where
  "keptLoads base p first amount = loadRuns base p amount |` (loadID ` {first..<amount})"

lemma keptLoads_mem:
  assumes "amount \<le> 2 ^ 33"
  shows "keptLoads base p first amount k = Some r \<longleftrightarrow>
    (\<exists>i. first \<le> i \<and> i < amount \<and> k = loadID i \<and> r = loadRun base p i)"
  using assms loadRuns_mem [OF assms, of base p k r] loadID_eq
  by (auto simp: keptLoads_def restrict_map_def split: if_splits)

lemma keptLoads_all: "amount \<le> 2 ^ 33 \<Longrightarrow> keptLoads base p 0 amount = loadRuns base p amount"
  using keptLoads_mem [of amount base p 0] loadRuns_mem [of amount base p] by (intro ext) (metis not_Some_eq zero_le)

lemma keptLoads_dom: "amount \<le> 2 ^ 33 \<Longrightarrow> dom (keptLoads base p first amount) = loadID ` {first..<amount}"
  using keptLoads_mem [of amount base p first] by (auto simp: dom_def)

lemma keptLoads_completed:
  "amount \<le> 2 ^ 33 \<Longrightarrow> completedPairs (keptLoads base p first amount) = (\<lambda>i. (loadID i, loadRun base p i)) ` {first..<amount}"
  using keptLoads_mem [of amount base p first] by (auto simp: completedPairs_def)

lemma inj_loadID: "amount \<le> 2 ^ 33 \<Longrightarrow> inj_on loadID {first..<amount}"
  using loadID_eq by (auto simp: inj_on_def)

lemma card_keptLoads: "amount \<le> 2 ^ 33 \<Longrightarrow> card (completedPairs (keptLoads base p first amount)) = amount - first"
  using inj_loadID [of amount first]
  by (simp add: keptLoads_completed card_image inj_on_def)

lemma keptLoads_retained:
  assumes "amount \<le> 2 ^ 33" "0 < limit" "rr_MaxRecords ret = int limit" "rr_MaxAgeDays ret \<le> 0"
  shows "retained ret now (loadRuns base p amount) (keptLoads base p (amount - limit) amount)"
    "retentionResult (loadRuns base p amount) (keptLoads base p (amount - limit) amount) =
      \<lparr>rt_Deleted = int (amount - limit), rt_Kept = int (min amount limit)\<rparr>"
proof -
  let ?m = "loadRuns base p amount" and ?k = "keptLoads base p (amount - limit) amount"
  have fresh: "freshPairs ret now ?m = completedPairs ?m"
    using assms(4) by (auto simp: freshPairs_def completedPairs_def tooOld_def)
  have all: "completedPairs ?m = (\<lambda>i. (loadID i, loadRun base p i)) ` {0..<amount}"
    using keptLoads_completed [OF assms(1), of base p 0] keptLoads_all [OF assms(1)] by simp
  note kept = keptLoads_completed [OF assms(1), of base p "amount - limit"]
  have le: "?k \<subseteq>\<^sub>m ?m" by (auto simp: keptLoads_def map_le_def restrict_map_def split: if_splits)
  have completed: "isCompletedRun r" if "?m k = Some r" for k r using that loadRuns_mem [OF assms(1)] by auto
  have sub: "completedPairs ?k \<subseteq> completedPairs ?m" unfolding kept all by auto
  have card: "card (completedPairs ?k) = min limit (card (completedPairs ?m))"
    using card_keptLoads [OF assms(1)] loadRuns_completed [OF assms(1)] by auto
  have older: "r_StartedAt r \<le> r_StartedAt r'"
    if new: "(k, r) \<in> completedPairs ?m" "(k, r) \<notin> completedPairs ?k" "(k', r') \<in> completedPairs ?k" for k r k' r'
  proof -
    obtain i j where i: "i < amount" "k = loadID i" "r = loadRun base p i"
      and j: "amount - limit \<le> j" "j < amount" "r' = loadRun base p j"
      using new(1,3) unfolding kept all by auto
    have "\<not> amount - limit \<le> i" using new(2) i unfolding kept by auto
    with i j show ?thesis using loadRun_started [of i base p] loadRun_started [of j base p] assms(1) by simp
  qed
  show "retained ret now ?m ?k"
    unfolding retained_def fresh using le completed sub card older assms(2,3) by auto
  have "dom ?m = loadID ` {0..<amount}" using keptLoads_dom [OF assms(1), of base p 0] keptLoads_all [OF assms(1)] by simp
  moreover have "dom ?k = loadID ` {amount - limit..<amount}" by (rule keptLoads_dom [OF assms(1)])
  moreover have "loadID ` {0..<amount} - loadID ` {amount - limit..<amount} = loadID ` {0..<amount - limit}"
  proof -
    have "{0..<amount} - {amount - limit..<amount} = {0..<amount - limit}" by auto
    moreover have "{amount - limit..<amount} \<subseteq> {0..<amount}" by auto
    ultimately show ?thesis
      using inj_on_image_set_diff [OF inj_loadID [OF assms(1), of 0], of "{0..<amount}" "{amount - limit..<amount}"] by simp
  qed
  moreover have "card (loadID ` {0..<amount - limit}) = amount - limit"
    using inj_loadID [of "amount - limit" 0] assms(1) by (simp add: card_image)
  ultimately show "retentionResult ?m ?k = \<lparr>rt_Deleted = int (amount - limit), rt_Kept = int (min amount limit)\<rparr>"
    using card_keptLoads [OF assms(1), of base p "amount - limit"] by (simp add: retentionResult_def min_def)
qed

lemma loadRuns_times_differ:
  assumes "amount \<le> 2 ^ 33"
  shows "inj_on (\<lambda>q. r_StartedAt (snd q)) (completedPairs (loadRuns base p amount))"
proof -
  have "completedPairs (loadRuns base p amount) = (\<lambda>i. (loadID i, loadRun base p i)) ` {0..<amount}"
    using keptLoads_completed [OF assms, of base p 0] keptLoads_all [OF assms] by simp
  then show ?thesis using loadRun_started [of _ base p] assms by (auto simp: inj_on_def)
qed

text \<open>A filled file opens as a store with the same runs.\<close>

context bolt_database
begin

lemma filled_runs: "filled api base p n db \<Longrightarrow> runsOf api db = loadRuns base p n"
  by (rule ext) (auto simp: filled_def filling_def runsOf_def split: option.splits)

lemma filled_upgradable:
  assumes "filled api base p n db" "n \<le> 2 ^ 33"
  shows "upgradable api db"
proof -
  have f: "goodRuns (loadRuns base p n)" "look api db runsBucket = (\<lambda>k. map_option JSONRun (loadRuns base p n k))"
    "indexed api (loadRuns base p n) db" "look api db schedulesBucket = Map.empty"
    using assms(1) by (simp_all add: filled_def filling_def)
  have c: "card (dom (loadRuns base p n)) < 2 ^ 48" using loadRuns_dom [OF assms(2), of base p] assms(2) by simp
  have r: "runsOf api db = loadRuns base p n" by (rule filled_runs [OF assms(1)])
  have "needsIndexRebuild api db \<or> laidOut api (runsOf api db) db"
  proof (cases "look api db runStatsBucket completedRunCountKey = None")
    case True
    then show ?thesis by (simp add: needsIndexRebuild_def)
  next
    case False
    then have "counter api db (int n)" using assms(1) by (simp add: filled_def)
    then show ?thesis using f c loadRuns_completed [OF assms(2), of base p] by (simp add: laidOut_def r schedulesOk_def)
  qed
  moreover have "runEntry (k, v)" if "look api db runsBucket k = Some v" for k v
    using that f(1,2) by (auto simp: runEntry_def goodRuns_def)
  ultimately show ?thesis using c by (simp add: upgradable_def f schedulesOk_def dom_stored)
qed

lemma populate_filled:
  assumes "populate api opened base f db = (Inr u, db')" "filled api base (lf_PayloadBytes f) 0 db"
    and "lf_Runs f + lf_SteadyInsert f \<le> 2 ^ 33"
  shows "filled api base (lf_PayloadBytes f) (totalRuns f) db'"
proof -
  obtain db1 where 1: "insertRuns api 0 (lf_Runs f) base (lf_PayloadBytes f) db = (Inr (), db1)"
    and 2: "if lf_Scenario f = ''steady''
      then insertRuns api (lf_Runs f) (lf_SteadyInsert f) base (lf_PayloadBytes f) db1 = (Inr u, db') else db' = db1"
    using assms(1) by (auto simp: populate_def openAnd_def split: prod.splits sum.splits if_splits)
  have "filled api base (lf_PayloadBytes f) (lf_Runs f) db1"
    using insertFrom_filled [OF 1 [unfolded insertRuns_def]] assms(2,3) by simp
  then show ?thesis
    using 2 insertFrom_filled [of base "lf_PayloadBytes f" "lf_Runs f" "lf_SteadyInsert f" 0 db1 u db'] assms(3)
    by (auto simp: totalRuns_def insertRuns_def split: if_splits)
qed

end

section \<open>Properties\<close>

text \<open>C34: the loop that fills a database ends after one transaction for every started ten thousand runs,
  whatever the database answers, and these write each number once, in order.\<close>

theorem insertRuns_ends:
  "insertRuns api start amount base payloadBytes db = runBatches api base payloadBytes (batches start amount) db \<and>
   length (batches start amount) = (amount + batchSize - 1) div batchSize \<and>
   concat (map (\<lambda>(first, k). [first..<first + k]) (batches start amount)) = [start..<start + amount]"
proof -
  have "length (batches start amount) = (amount + batchSize - 1) div batchSize" by (simp add: batches_def)
  then show ?thesis
    using insertFrom_batches [of 0 amount api base payloadBytes start db] batches_cover by (simp add: insertRuns_def)
qed

text \<open>C33: a load test that starts from a removed file and succeeds reports the same in both modes: it keeps
  the newest runs, as many as the scenario asks for, and has deleted exactly the others.\<close>

theorem load_test_keeps_newest:
  assumes "bolt_database api" "arranges arrange" "listsSet visitOrder" "lf_Reset f" "lf_MaxAgeDays f \<le> 0"
    and "0 < retentionRecords f" "lf_Runs f + lf_SteadyInsert f \<le> 2 ^ 33"
    and "loadTest api arrange visitOrder removed opened closed now f db = (Inr res, db')"
  shows "res = \<lparr>rt_Deleted = int (totalRuns f - retentionRecords f), rt_Kept = int (min (totalRuns f) (retentionRecords f))\<rparr> \<and>
    (runsOf api db' k = Some r \<longleftrightarrow> (\<exists>i. totalRuns f - retentionRecords f \<le> i \<and> i < totalRuns f \<and>
       k = loadID i \<and> r = loadRun (loadBase (now 0) f) (lf_PayloadBytes f) i))"
proof -
  let ?base = "loadBase (now 0) f" and ?p = "lf_PayloadBytes f"
  let ?ret = "\<lparr>rr_MaxRecords = int (retentionRecords f), rr_MaxAgeDays = lf_MaxAgeDays f\<rparr>"
  let ?m = "loadRuns ?base ?p (totalRuns f)" and ?k = "keptLoads ?base ?p (totalRuns f - retentionRecords f) (totalRuns f)"
  obtain db1 where 1: "populate api opened ?base f Map.empty = (Inr (), db1)"
    and 2: "prunePhase api arrange visitOrder (opened 2) closed (now 1) f db1 = (Inr res, db')"
    using assms(4,8) by (auto simp: loadTest_def Let_def split: prod.splits sum.splits)
  have small: "totalRuns f \<le> 2 ^ 33" using assms(7) by (simp add: totalRuns_def)
  note filled = bolt_database.populate_filled [OF assms(1) 1 filled_empty assms(7)]
  have runs: "runsOf api db1 = ?m" by (rule bolt_database.filled_runs [OF assms(1) filled])
  have "retained ?ret (now 1) ?m (runsOf api db') \<and> res = retentionResult ?m (runsOf api db')"
  proof (cases "lf_Mode f = ''indexed''")
    case True
    then obtain db2 where o: "OpenBoltStore api (Inr db1) = Inr db2" and b: "bs_PruneRuns api ?ret (now 1) db2 = (Inr res, db')"
      using 2 by (auto simp: prunePhase_def Let_def OpenBoltStore_def bindE_eq_Inr split: sum.splits prod.splits)
    have "boltInv api db2" "runsOf api db2 = ?m"
      using bolt_database.OpenBoltStore_inv [OF assms(1) o bolt_database.filled_upgradable [OF assms(1) filled small]] runs
      by simp_all
    then show ?thesis using bolt_database.PruneRuns_inv [OF assms(1) _ b] by simp
  next
    case False
    then have s: "scanSortPrune api arrange visitOrder ?ret (now 1) db1 = (Inr res, db')"
      using 2 by (auto simp: prunePhase_def Let_def openAnd_def split: sum.splits if_splits)
    from bolt_database.scanSortPrune_retained [OF assms(1-3) s] show ?thesis by (simp add: runs)
  qed
  moreover note kept = keptLoads_retained [OF small assms(6), where ret = ?ret and base = ?base and p = ?p]
  moreover have "runsOf api db' = ?k"
    by (rule retained_unique [OF conjunct1 [OF loadRuns_dom [OF small]] _ kept(1) [where now = "now 1"] loadRuns_times_differ [OF small]])
      (use calculation assms(5) in simp_all)
  ultimately show ?thesis using assms(5) keptLoads_mem [OF small] by simp
qed

text \<open>A steady test of two runs and one more, in either mode.\<close>

definition sampleLoad :: "string \<Rightarrow> LoadFlags" where
  "sampleLoad mode = \<lparr>lf_Mode = mode, lf_Scenario = ''steady'', lf_Runs = 2, lf_Retain = 9, lf_SteadyInsert = 1,
     lf_PayloadBytes = 1, lf_MaxAgeDays = 0, lf_Reset = True\<rparr>"

definition sampleLoadTest :: "string \<Rightarrow> RunRetentionResult result \<times> (string, blob) rbt tx" where
  "sampleLoadTest mode = loadTest refBolt rev sorted_list_of_set (Inr ()) (\<lambda>_. Inr ()) (Inr ()) (\<lambda>_. 2 * nsPerDay)
     (sampleLoad mode) legacyDB"

theorem load_test_keeps_newest_witness:
  "fst (sampleLoadTest ''indexed'') = Inr \<lparr>rt_Deleted = 1, rt_Kept = 2\<rparr> \<and>
   fst (sampleLoadTest ''scan-sort'') = Inr \<lparr>rt_Deleted = 1, rt_Kept = 2\<rparr> \<and>
   runsOf refBolt (snd (sampleLoadTest ''indexed'')) (loadID 0) = None \<and>
   runsOf refBolt (snd (sampleLoadTest ''scan-sort'')) (loadID 0) = None"
proof -
  have "isOk (fst (sampleLoadTest ''indexed''))" "isOk (fst (sampleLoadTest ''scan-sort''))" by code_simp+
  then obtain r1 db1 r2 db2 where s: "sampleLoadTest ''indexed'' = (Inr r1, db1)" "sampleLoadTest ''scan-sort'' = (Inr r2, db2)"
    unfolding isOk_iff by (metis prod.collapse)
  have a: "arranges rev" "listsSet sorted_list_of_set" by (simp_all add: arranges_def listsSet_def)
  have f: "lf_Reset (sampleLoad mode)" "lf_MaxAgeDays (sampleLoad mode) \<le> 0" "0 < retentionRecords (sampleLoad mode)"
    "lf_Runs (sampleLoad mode) + lf_SteadyInsert (sampleLoad mode) \<le> 2 ^ 33" "totalRuns (sampleLoad mode) = 3"
    "retentionRecords (sampleLoad mode) = 2" for mode
    by (simp_all add: sampleLoad_def retentionRecords_def totalRuns_def)
  note t = load_test_keeps_newest [OF db.bolt_database_axioms a f(1-4)]
  have "loadID i \<noteq> loadID 0" if "1 \<le> i" "i < 3" for i using loadID_eq [of i 0] that by simp
  then show ?thesis
    using t [OF s(1) [unfolded sampleLoadTest_def], of "loadID 0"] t [OF s(2) [unfolded sampleLoadTest_def], of "loadID 0"]
    by (auto simp: f s) (metis not_None_eq)+
qed

end
