(* ===== verification/Launch.thy ===== *)
theory Launch
  imports SystemProperties
begin

text \<open>
  cmd/clock-relay/main.go: the choice of the store and the start of the process up to the running
  scheduler.  Reading files, decoding YAML, making directories and opening the database file are
  arguments; flags come parsed.  The life of the process from there on is the matter of Lifecycle.
\<close>

section \<open>The store of a configuration\<close>

datatype 'b OpenedStore = Bolt "'b tx" | Memory MemoryStore

text \<open>\<open>mkdirParent\<close> is \<open>os.MkdirAll\<close> on the directory of the path, \<open>openFile\<close> is \<open>bolt.Open\<close>.\<close>

definition openStore ::
    "('b, blob) bolt_api \<Rightarrow> (string \<Rightarrow> unit result) \<Rightarrow> (string \<Rightarrow> 'b tx result) \<Rightarrow> Config \<Rightarrow> 'b OpenedStore result" where
  "openStore api mkdirParent openFile cfg =
     (if st_Type (cfg_Store cfg) = [] \<or> st_Type (cfg_Store cfg) = ''bbolt''
      then bindE (mkdirParent (st_Path (cfg_Store cfg))) (\<lambda>_.
           bindE (OpenBoltStore api (openFile (st_Path (cfg_Store cfg)))) (\<lambda>db. Inr (Bolt db)))
      else if st_Type (cfg_Store cfg) = ''memory'' then Inr (Memory NewMemoryStore)
      else Inl (ConfigError (''unsupported store type: '' @ st_Type (cfg_Store cfg))))"

section \<open>The start\<close>

text \<open>Where \<open>main\<close> stops: after the version, at an error (exit code 1), or with a running engine.\<close>

datatype ('b, 'q) Startup =
    VersionShown
  | LoadFailed go_error
  | OpenFailed go_error
  | CreateFailed go_error
  | RunsOnBolt "('b tx, 'q) Engine"
  | RunsInMemory "(MemoryStore, 'q) Engine"

record Flags =
  fl_Config :: string
  fl_Addr :: string
  fl_Version :: bool

definition overrideAddr :: "string \<Rightarrow> Config \<Rightarrow> Config" where
  "overrideAddr addr cfg =
     (if addr \<noteq> [] then cfg\<lparr>cfg_Server := (cfg_Server cfg)\<lparr>sv_Addr := addr\<rparr>\<rparr> else cfg)"

text \<open>
  The environment of the engine differs only in its store.  \<open>Start\<close> lets the cron library run, which
  is what the steps of the system are about.
\<close>

definition mainStart ::
    "('b, blob) bolt_api \<Rightarrow> (string \<Rightarrow> unit result) \<Rightarrow> (string \<Rightarrow> 'b tx result) \<Rightarrow>
     (string \<Rightarrow> string result) \<Rightarrow> (string \<Rightarrow> Config result) \<Rightarrow>
     ('b tx, 'q, 'c, 'k) Env \<Rightarrow> (MemoryStore, 'q, 'c, 'k) Env \<Rightarrow> (nat \<Rightarrow> go_time) \<Rightarrow> 'q \<Rightarrow> Flags \<Rightarrow> ('b, 'q) Startup" where
  "mainStart api mkdirParent openFile readFile unmarshalYAML boltEnv memoryEnv now cron0 flags =
     (if fl_Version flags then VersionShown
      else (case LoadConfig readFile unmarshalYAML (ev_loadLocation boltEnv) (fl_Config flags) of
          (_, Some err) \<Rightarrow> LoadFailed err
        | (cfg0, None) \<Rightarrow>
            (let cfg = overrideAddr (fl_Addr flags) cfg0 in
             case openStore api mkdirParent openFile cfg of
               Inl err \<Rightarrow> OpenFailed err
             | Inr (Bolt db) \<Rightarrow> (case NewEngine boltEnv now cfg db cron0 of
                   (Inl err, _) \<Rightarrow> CreateFailed err | (Inr e, _) \<Rightarrow> RunsOnBolt e)
             | Inr (Memory m) \<Rightarrow> (case NewEngine memoryEnv now cfg m cron0 of
                   (Inl err, _) \<Rightarrow> CreateFailed err | (Inr e, _) \<Rightarrow> RunsInMemory e))))"

section \<open>What a started process holds\<close>

lemma openStore_kind:
  "openStore api mkdirParent openFile cfg = Inr (Memory m) \<Longrightarrow> st_Type (cfg_Store cfg) = ''memory'' \<and> m = NewMemoryStore"
  "openStore api mkdirParent openFile cfg = Inr (Bolt db) \<Longrightarrow>
     st_Type (cfg_Store cfg) \<in> {[], ''bbolt''} \<and> OpenBoltStore api (openFile (st_Path (cfg_Store cfg))) = Inr db"
  by (auto simp: openStore_def bindE_eq_Inr split: if_splits)


lemma started_in_memory:
  assumes "mainStart api mkdirParent openFile readFile unmarshalYAML boltEnv memoryEnv now cron0 flags = RunsInMemory e"
    and "live cron0 = Map.empty" "engine_store st ms_inv ms_runs scheds normR normS cr live memoryEnv"
  shows "sysInv ms_inv live memoryEnv (e, {#})" "history ms_runs e"
proof -
  obtain cfg m store1 where o: "openStore api mkdirParent openFile cfg = Inr (Memory m)"
    and n: "NewEngine memoryEnv now cfg m cron0 = (Inr e, store1)"
    using assms(1)
    by (auto simp: mainStart_def Let_def split: if_splits prod.splits option.splits sum.splits OpenedStore.splits)
  have "ms_inv m" using openStore_kind(1) [OF o] ms_inv_init by simp
  from NewEngine_system [OF assms(3,2) this n]
  show "sysInv ms_inv live memoryEnv (e, {#})" "history ms_runs e" by blast+
qed

section \<open>From the flags to the running system\<close>






end
