(* ===== verification/Lifecycle.thy ===== *)
theory Lifecycle
  imports Launch
begin

text \<open>
  The life of the process: cmd/clock-relay/main.go from the start of the scheduler to the closing of the
  store, with \<open>Start\<close> and \<open>Stop\<close> of the engine.  A signal ends the context; \<open>Shutdown\<close> closes the
  listener and waits for the handlers, ten seconds at most; then, in the reverse order of the deferred
  calls, \<open>Stop\<close> stops the cron library and waits for its jobs, then for the goroutines of the runs, and
  the store is closed.
\<close>

section \<open>The process\<close>




fun triggeredBy :: "Thread \<Rightarrow> string" where
  "triggeredBy (Looked s by at) = by"
| "triggeredBy (Skipping s by at) = by"
| "triggeredBy (Starting s by at) = by"
| "triggeredBy (Started s r) = r_TriggeredBy r"

definition triggers :: "string \<Rightarrow> Thread multiset \<Rightarrow> nat" where
  "triggers by T = size (filter_mset (\<lambda>t. triggeredBy t = by) T)"




section \<open>The system under the process\<close>



section \<open>What every phase excludes\<close>


lemma triggers_simps [simp]:
  "triggers by {#} = 0"
  "triggers by (add_mset t T) = (if triggeredBy t = by then Suc (triggers by T) else triggers by T)"
  by (simp_all add: triggers_def)






section \<open>The way to the end\<close>












end
