(* ===== verification/FaktoryExample.thy ===== *)
theory FaktoryExample
  imports ServerProperties
begin

text \<open>
  examples/faktory/runner: a worker process that performs Faktory jobs and tells over HTTP which ones it
  has performed.  The worker library is not part of the repository: it fetches a job from one of the
  queues and calls the function registered for its type.  A delivery is such a call, with what
  the library and the clock supply; locked by a mutex, the calls of the recorder happen in some order.
\<close>

section \<open>The recorder\<close>

record processedJob =
  pj_JID :: string
  pj_JobType :: string
  pj_Args :: "any list"
  pj_ProcessedAt :: go_time

type_synonym recorder = "string \<rightharpoonup> processedJob"

definition newRecorder :: recorder where
  "newRecorder = Map.empty"

definition recordProcessed :: "processedJob \<Rightarrow> recorder \<Rightarrow> recorder" where
  "recordProcessed job r = r(pj_JID job \<mapsto> job)"

definition getProcessed :: "string \<Rightarrow> recorder \<Rightarrow> processedJob option" where
  "getProcessed jid r = r jid"

text \<open>\<open>ord\<close> is the order in which Go visits the map.\<close>

definition listProcessed :: "string list \<Rightarrow> recorder \<Rightarrow> processedJob list" where
  "listProcessed ord r = map snd (visit r ord)"

section \<open>The workers\<close>

record Delivery =
  dl_Jid :: string
  dl_JobType :: string
  dl_Args :: "any list"
  dl_Now :: go_time
  dl_Done :: "go_error option"

text \<open>\<open>dl_Done\<close> is the error of the context, if it ends before the ten seconds of a reminder.\<close>

definition recordJob :: "Delivery \<Rightarrow> recorder \<Rightarrow> unit result \<times> recorder" where
  "recordJob d r =
     (Inr (), recordProcessed \<lparr>pj_JID = dl_Jid d, pj_JobType = dl_JobType d, pj_Args = dl_Args d, pj_ProcessedAt = dl_Now d\<rparr> r)"

definition mealReminder :: "Delivery \<Rightarrow> recorder \<Rightarrow> unit result \<times> recorder" where
  "mealReminder d r =
     (case dl_Done d of
        Some err \<Rightarrow> (Inl err, r)
      | None \<Rightarrow> (Inr (), recordProcessed
          \<lparr>pj_JID = dl_Jid d, pj_JobType = dl_JobType d, pj_Args = dl_Args d, pj_ProcessedAt = dl_Now d\<rparr> r))"

definition registerDefaultJobs :: "(string \<times> (Delivery \<Rightarrow> recorder \<Rightarrow> unit result \<times> recorder)) list" where
  "registerDefaultJobs = [(''smoke_job'', recordJob), (''say_hello'', recordJob)]"

definition registerReminderJobs :: "(string \<times> (Delivery \<Rightarrow> recorder \<Rightarrow> unit result \<times> recorder)) list" where
  "registerReminderJobs = [(''meal_reminder'', mealReminder)]"

text \<open>The two managers by the queue each of them reads.\<close>

record Manager =
  mg_Queue :: string
  mg_Concurrency :: nat
  mg_ShutdownTimeout :: duration
  mg_Jobs :: "(string \<times> (Delivery \<Rightarrow> recorder \<Rightarrow> unit result \<times> recorder)) list"

definition managers :: "Manager list" where
  "managers =
     [\<lparr>mg_Queue = ''default'', mg_Concurrency = 2, mg_ShutdownTimeout = 10 * Second, mg_Jobs = registerDefaultJobs\<rparr>,
      \<lparr>mg_Queue = ''reminders'', mg_Concurrency = 1, mg_ShutdownTimeout = 15 * Second, mg_Jobs = registerReminderJobs\<rparr>]"

text \<open>The library fails a job whose type has no function, without calling the program.\<close>

definition handlerFor :: "string \<Rightarrow> string \<Rightarrow> (Delivery \<Rightarrow> recorder \<Rightarrow> unit result \<times> recorder) option" where
  "handlerFor queue jobType =
     (case find (\<lambda>m. mg_Queue m = queue) managers of None \<Rightarrow> None | Some m \<Rightarrow> map_of (mg_Jobs m) jobType)"

definition deliver :: "string \<Rightarrow> Delivery \<Rightarrow> recorder \<Rightarrow> recorder" where
  "deliver queue d r = (case handlerFor queue (dl_JobType d) of None \<Rightarrow> r | Some f \<Rightarrow> snd (f d r))"

definition deliverAll :: "(string \<times> Delivery) list \<Rightarrow> recorder \<Rightarrow> recorder" where
  "deliverAll ds r = fold (\<lambda>(queue, d). deliver queue d) ds r"

section \<open>The probe API\<close>

datatype ProbeBody = ProbeJobs "processedJob list" | ProbeJob processedJob | ProbeFields "(string \<times> string) list"

datatype ProbeReply =
    ProbeText string
  | ProbeJSON int ProbeBody
  | ProbeRedirect string int
  | ProbeNotFound
  | ProbeNotAllowed

definition probeHealthz :: ProbeReply where
  "probeHealthz = ProbeText (''ok'' @ [CHR 0x0A])"

definition probeList :: "string list \<Rightarrow> recorder \<Rightarrow> ProbeReply" where
  "probeList ord r = ProbeJSON 200 (ProbeJobs (listProcessed ord r))"

definition probeJob :: "HTTPRequest \<Rightarrow> recorder \<Rightarrow> ProbeReply" where
  "probeJob q r =
     (case getProcessed (TrimPrefix (hq_Path q) ''/processed/'') r of
        None \<Rightarrow> ProbeJSON 404 (ProbeFields [(''error'', ''not found'')])
      | Some job \<Rightarrow> ProbeJSON 200 (ProbeJob job))"

text \<open>
  The patterns \<open>GET /healthz\<close>, \<open>GET /processed\<close> and \<open>GET /processed/\<close>: the mux redirects to the clean
  path, answers HEAD as GET, and refuses another method on a path that has a pattern.
\<close>

definition probe :: "string list \<Rightarrow> HTTPRequest \<Rightarrow> recorder \<Rightarrow> ProbeReply" where
  "probe ord q r =
     (let path = cleanPath (hq_EscapedPath q); segs = pathSegments path;
          handler = (if segs = [''healthz''] then Some probeHealthz
                     else if segs = [''processed''] then Some (probeList ord r)
                     else if 1 < length segs \<and> hd segs = ''processed'' then Some (probeJob q r) else None)
      in if path \<noteq> hq_EscapedPath q then ProbeRedirect (locationOf path (hq_RawQuery q)) muxRedirect
         else (case handler of
             None \<Rightarrow> ProbeNotFound
           | Some reply \<Rightarrow> if hq_Method q \<in> {''GET'', ''HEAD''} then reply else ProbeNotAllowed))"

section \<open>What the probe says\<close>

text \<open>The reference: the last delivery of an identifier that was performed to its end.\<close>

definition performed :: "string \<times> Delivery \<Rightarrow> bool" where
  "performed = (\<lambda>(queue, d).
     (queue = ''default'' \<and> dl_JobType d \<in> {''smoke_job'', ''say_hello''}) \<or>
     (queue = ''reminders'' \<and> dl_JobType d = ''meal_reminder'' \<and> dl_Done d = None))"

definition lastPerformed :: "string \<Rightarrow> (string \<times> Delivery) list \<Rightarrow> processedJob option" where
  "lastPerformed jid ds =
     (case find (\<lambda>(queue, d). performed (queue, d) \<and> dl_Jid d = jid) (rev ds) of
        None \<Rightarrow> None
      | Some (_, d) \<Rightarrow> Some \<lparr>pj_JID = jid, pj_JobType = dl_JobType d, pj_Args = dl_Args d, pj_ProcessedAt = dl_Now d\<rparr>)"

lemma handlerFor_cases:
  "handlerFor queue jobType =
     (if queue = ''default'' \<and> jobType \<in> {''smoke_job'', ''say_hello''} then Some recordJob
      else if queue = ''reminders'' \<and> jobType = ''meal_reminder'' then Some mealReminder else None)"
  by (simp add: handlerFor_def managers_def registerDefaultJobs_def registerReminderJobs_def)

lemma deliver_performed:
  "deliver queue d r =
     (if performed (queue, d)
      then r(dl_Jid d \<mapsto> \<lparr>pj_JID = dl_Jid d, pj_JobType = dl_JobType d, pj_Args = dl_Args d, pj_ProcessedAt = dl_Now d\<rparr>)
      else r)"
  by (auto simp: deliver_def handlerFor_cases performed_def recordJob_def mealReminder_def recordProcessed_def split: option.splits)

lemma deliverAll_snoc: "deliverAll (ds @ [(queue, d)]) r = deliver queue d (deliverAll ds r)"
  by (simp add: deliverAll_def)

lemma deliverAll_lastPerformed: "deliverAll ds newRecorder jid = lastPerformed jid ds"
proof (induction ds rule: rev_induct)
  case (snoc x ds)
  obtain queue d where "x = (queue, d)" by (cases x)
  with snoc show ?case by (simp add: deliverAll_snoc deliver_performed lastPerformed_def)
qed (simp add: deliverAll_def newRecorder_def lastPerformed_def)

lemma lastPerformed_jid: "lastPerformed jid ds = Some job \<Longrightarrow> pj_JID job = jid"
  by (auto simp: lastPerformed_def split: option.splits)

lemma probe_path:
  assumes "nameOk jid" "jid \<noteq> ''.''" "hq_EscapedPath q = ''/processed/'' @ jid" "hq_Method q = ''GET''"
  shows "probe ord q r = probeJob q r" "TrimPrefix (hq_Path q) ''/processed/'' = jid"
proof -
  have j: "''/processed/'' @ jid = ''/'' @ Join [''processed'', jid] ''/''" by simp
  note plain = nameOk_segment [OF assms(1,2)]
  have "cleanPath (''/processed/'' @ jid) = ''/processed/'' @ jid"
    unfolding j by (rule cleanPath_segments) (use plain assms(2) in auto)
  moreover have "pathSegments (''/processed/'' @ jid) = [''processed'', jid]"
    unfolding j by (rule pathSegments_Join) (use plain in auto)
  ultimately show "probe ord q r = probeJob q r" using assms(3,4) by (simp add: probe_def)
  have "PathUnescape (''/processed/'' @ jid) = Inr (''/processed/'' @ jid)"
    by (rule PathUnescape_no_percent) (use plain in auto)
  then have "hq_Path q = ''/processed/'' @ jid" using assms(3) by (simp add: hq_Path_def)
  then show "TrimPrefix (hq_Path q) ''/processed/'' = jid" by (simp only: TrimPrefix_append)
qed

section \<open>Properties\<close>

text \<open>C37: the probe tells exactly what has been performed: the list holds every identifier once with its last
  job, and the page of an identifier shows that job, or is not found; a reminder cut off by the end of
  the process and a job of an unknown type or on the wrong queue leave no trace.\<close>

theorem probe_tells_performed:
  assumes "iterates (deliverAll ds newRecorder) ord" "hq_Method q = ''GET''" "hq_Method p = ''GET''"
    and "hq_EscapedPath q = ''/processed''" "nameOk jid" "jid \<noteq> ''.''" "hq_EscapedPath p = ''/processed/'' @ jid"
  shows "(\<exists>jobs. probe ord q (deliverAll ds newRecorder) = ProbeJSON 200 (ProbeJobs jobs) \<and>
      distinct (map pj_JID jobs) \<and> set jobs = {job. lastPerformed (pj_JID job) ds = Some job}) \<and>
    probe ord p (deliverAll ds newRecorder) =
      (case lastPerformed jid ds of
         None \<Rightarrow> ProbeJSON 404 (ProbeFields [(''error'', ''not found'')])
       | Some job \<Rightarrow> ProbeJSON 200 (ProbeJob job))"
proof -
  let ?r = "deliverAll ds newRecorder"
  have "cleanPath ''/processed'' = ''/processed''" "pathSegments ''/processed'' = [''processed'']" by code_simp+
  then have "probe ord q ?r = ProbeJSON 200 (ProbeJobs (listProcessed ord ?r))"
    using assms(2,4) by (simp add: probe_def probeList_def)
  moreover have key: "?r k = Some v \<Longrightarrow> pj_JID v = k" for k v
    using lastPerformed_jid by (simp add: deliverAll_lastPerformed)
  have "map pj_JID (listProcessed ord ?r) = ord" "set (listProcessed ord ?r) = ran ?r"
    using values_visit [OF assms(1), of pj_JID] key by (simp_all add: listProcessed_def)
  moreover have "ran ?r = {job. lastPerformed (pj_JID job) ds = Some job}"
    using lastPerformed_jid by (fastforce simp: ran_def deliverAll_lastPerformed)
  moreover have "distinct ord" using assms(1) by (simp add: iterates_def)
  moreover have "probe ord p ?r = (case lastPerformed jid ds of
         None \<Rightarrow> ProbeJSON 404 (ProbeFields [(''error'', ''not found'')])
       | Some job \<Rightarrow> ProbeJSON 200 (ProbeJob job))"
    using probe_path [OF assms(5,6,7,3)] by (simp add: probeJob_def getProcessed_def deliverAll_lastPerformed)
  ultimately show ?thesis by simp
qed

definition sampleDeliveries :: "(string \<times> Delivery) list" where
  "sampleDeliveries =
     [(''default'', \<lparr>dl_Jid = ''a1'', dl_JobType = ''say_hello'', dl_Args = [], dl_Now = 1, dl_Done = None\<rparr>),
      (''reminders'', \<lparr>dl_Jid = ''b2'', dl_JobType = ''meal_reminder'', dl_Args = [], dl_Now = 2,
         dl_Done = Some (External ''context canceled'')\<rparr>),
      (''default'', \<lparr>dl_Jid = ''a1'', dl_JobType = ''say_hello'', dl_Args = [], dl_Now = 3, dl_Done = None\<rparr>)]"

theorem probe_tells_performed_witness:
  "probe [''a1''] (browse ''GET'' ''/processed/b2'' []) (deliverAll sampleDeliveries newRecorder) =
     ProbeJSON 404 (ProbeFields [(''error'', ''not found'')]) \<and>
   (\<exists>jobs. probe [''a1''] (browse ''GET'' ''/processed'' []) (deliverAll sampleDeliveries newRecorder) = ProbeJSON 200 (ProbeJobs jobs) \<and>
     map pj_ProcessedAt jobs = [3])"
proof -
  let ?r = "deliverAll sampleDeliveries newRecorder"
  define job where "job = \<lparr>pj_JID = ''a1'', pj_JobType = ''say_hello'', pj_Args = [], pj_ProcessedAt = 3\<rparr>"
  have last: "lastPerformed k sampleDeliveries = (if k = ''a1'' then Some job else None)" for k
    by (simp add: lastPerformed_def sampleDeliveries_def performed_def job_def)
  have "dom ?r = {''a1''}" by (auto simp: dom_def deliverAll_lastPerformed last)
  then have i: "iterates ?r [''a1'']" by (simp add: iterates_def)
  have n: "nameOk ''b2''" "''b2'' \<noteq> ''.''" by code_simp+
  have b: "hq_Method (browse ''GET'' s []) = ''GET''" "hq_EscapedPath (browse ''GET'' s []) = s" for s
    by (simp_all add: browse_def)
  have s: "hq_EscapedPath (browse ''GET'' ''/processed/b2'' []) = ''/processed/'' @ ''b2''" by (simp add: b(2))
  note t = probe_tells_performed [OF i b(1) b(1) b(2) n s]
  obtain jobs where jobs: "probe [''a1''] (browse ''GET'' ''/processed'' []) ?r = ProbeJSON 200 (ProbeJobs jobs)"
    "distinct (map pj_JID jobs)" "set jobs = {job. lastPerformed (pj_JID job) sampleDeliveries = Some job}" using conjunct1 [OF t] by (elim exE conjE)
  have "pj_JID job = ''a1''" by (simp add: job_def)
  then have "lastPerformed (pj_JID j) sampleDeliveries = Some j \<longleftrightarrow> j = job" for j by (auto simp: last)
  then have "set jobs = {job}" using jobs(3) by simp
  moreover have "distinct jobs" using jobs(2) by (simp add: distinct_map)
  ultimately have "jobs = [job]" by (cases jobs; cases "tl jobs") auto
  moreover have "lastPerformed ''b2'' sampleDeliveries = None" by (simp add: last)
  ultimately show ?thesis using conjunct2 [OF t] jobs(1) by (simp add: job_def)
qed

end
