(* ===== verification/Wizard.thy ===== *)
theory Wizard
  imports ServerProperties FormPages FormText
begin

text \<open>
  internal/server/http.go, the script of the template \<open>faktory_form\<close>: the guided form as a state machine over
  the values of its controls.  A state holds the names of the steps, the number of the step that is
  shown, the values by the identifiers of the controls, which timing fields are shown, and the rows of
  the review; an event is a click or an input of the user.  Strings are the bytes of their UTF-8.
\<close>

section \<open>Strings in the browser\<close>

text \<open>\<open>String.trim\<close>: the byte order mark is a blank, the control character NEL is none.\<close>

definition jsBlanks :: "string list" where
  "jsBlanks = bytesOf [0xEF, 0xBB, 0xBF] # filter (\<lambda>p. p \<noteq> bytesOf [0xC2, 0x85]) spaceRunes"

definition jsTrim :: "string \<Rightarrow> string" where
  "jsTrim s = rev (trimWith (map rev jsBlanks) (rev (trimWith jsBlanks s)))"

definition escHtmlChar :: "char \<Rightarrow> string" where
  "escHtmlChar c = (if c = CHR ''&'' then ''&amp;'' else if c = CHR ''<'' then ''&lt;'' else if c = CHR ''>'' then ''&gt;'' else [c])"

text \<open>\<open>escHtml\<close> sets the text of an element and takes its \<open>innerHTML\<close>.\<close>

fun escHtml :: "string \<Rightarrow> string" where
  "escHtml [] = []"
| "escHtml [c] = escHtmlChar c"
| "escHtml (c # d # s) = (if [c, d] = bytesOf [0xC2, 0xA0] then ''&nbsp;'' @ escHtml s else escHtmlChar c @ escHtml (d # s))"

text \<open>\<open>encodeURIComponent\<close> leaves an apostrophe, which the parser of addresses then encodes.\<close>

definition encodeURIComponent :: "string \<Rightarrow> string" where
  "encodeURIComponent s = concat (map (\<lambda>c. if unreserved c \<or> c \<in> set ''!*()'' then [c] else percent c) s)"

definition orElse :: "string \<Rightarrow> string \<Rightarrow> string" where
  "orElse v d = (if v = [] then d else v)"

section \<open>The state\<close>

record Wizard =
  wz_Steps :: "string list"
  wz_Cur :: nat
  wz_IsNew :: bool
  wz_Value :: "string \<Rightarrow> string"
  wz_Panel :: string
  wz_Review :: "(string \<times> string) list"

definition wizardSteps :: "FormPage \<Rightarrow> string list" where
  "wizardSteps d = (if 1 < length (fp_FaktoryInstances d) then [''instance''] else []) @
     [''job'', ''schedule-type'', ''schedule-detail'', ''review'']"

text \<open>
  The values as the page holds them: an input drops line ends, a select without a selected option shows
  its first, \<open>dateInput\<close> is what an input of type \<open>datetime-local\<close> makes of its value.
\<close>

definition pageValue :: "Decoders \<Rightarrow> (string \<Rightarrow> string) \<Rightarrow> FormPage \<Rightarrow> string \<Rightarrow> string" where
  "pageValue dec dateInput d ident =
     (let s = fp_Schedule d; t = sc_Target s; insts = fp_FaktoryInstances d in
      if ident = ''wiz-instance'' then
        (if 1 < length insts then (if tc_Instance t \<in> set insts then visible (tc_Instance t) else []) else visible (hd insts))
      else if ident = ''original_name'' then visible (fp_OriginalName d)
      else if ident = ''wiz-name'' then visible (sc_Name s)
      else if ident = ''wiz-job-type'' then textInput (tc_JobType t)
      else if ident = ''wiz-queue'' then textInput (tc_Queue t)
      else if ident = ''wiz-desc'' then textInput (sc_Description s)
      else if ident = ''wiz-args'' then visible (targetJSONArgs dec t)
      else if ident = ''wiz-schedule-type'' then visible (sc_ScheduleType s)
      else if ident = ''wiz-tz'' then selectInput (fp_Timezones d) (sc_Timezone s)
      else if ident = ''wiz-allow-concurrent'' then (if AllowsConcurrentRuns s then ''true'' else ''false'')
      else if ident = ''wiz-rate-interval'' then Itoa (sint (sc_RateInterval s))
      else if ident = ''wiz-rate-unit'' then selectInput unitOptions (sc_RateUnit s)
      else if ident = ''wiz-starts-at'' then dateInput (visible (sc_StartsAt s))
      else if ident = ''wiz-run-at'' then dateInput (visible (sc_RunAt s))
      else if ident = ''wiz-cron'' then textInput (sc_Cron s) else [])"

section \<open>Labels and the review\<close>

text \<open>\<open>localeText\<close> is \<open>toLocaleString\<close> of the instant a value stands for, or nothing where it throws.\<close>

definition scheduleLabel :: "(string \<Rightarrow> string option) \<Rightarrow> (string \<Rightarrow> string) \<Rightarrow> string" where
  "scheduleLabel localeText v =
     (let st = v ''wiz-schedule-type''; n = orElse (v ''wiz-rate-interval'') ''?''; u = orElse (v ''wiz-rate-unit'') ''minutes'' in
      if st = ''rate'' then ''every '' @ n @ '' '' @ (if n = ''1'' \<and> last u = CHR ''s'' then butlast u else u)
      else if st = ''once'' then
        (if v ''wiz-run-at'' = [] then ''once''
         else (case localeText (v ''wiz-run-at'') of None \<Rightarrow> ''once'' | Some t \<Rightarrow> ''once at '' @ t))
      else if st = ''cron'' then (if v ''wiz-cron'' = [] then ''on a cron schedule'' else ''on cron '' @ v ''wiz-cron'')
      else [])"

text \<open>Identifier, visibility and text of the fragments of the narrative.\<close>

definition updateNarrative :: "(string \<Rightarrow> string option) \<Rightarrow> Wizard \<Rightarrow> (string \<times> bool \<times> string) list" where
  "updateNarrative localeText w =
     (let v = wz_Value w; at = (\<lambda>n. length (takeWhile (\<lambda>s. s \<noteq> n) (wz_Steps w)));
          pastInstance = (if ''instance'' \<in> set (wz_Steps w) then at ''instance'' < wz_Cur w else 0 < wz_Cur w);
          pastJob = at ''job'' < wz_Cur w; jt = v ''wiz-job-type''; desc = v ''wiz-desc''
      in [(''nf-instance'', pastInstance \<and> v ''wiz-instance'' \<noteq> [], v ''wiz-instance''),
          (''nf-job'', pastJob \<and> jt \<noteq> [], jt), (''nf-queue'', pastJob \<and> jt \<noteq> [], orElse (v ''wiz-queue'') ''default''),
          (''nf-desc'', pastJob \<and> desc \<noteq> [], desc),
          (''nf-sched'', at ''schedule-type'' < wz_Cur w, scheduleLabel localeText v)])"

text \<open>The rows of the review: a label that is set as text, a value that is set as HTML.\<close>

definition buildReview :: "(string \<Rightarrow> string option) \<Rightarrow> (string \<Rightarrow> string) \<Rightarrow> (string \<times> string) list" where
  "buildReview localeText v =
     (let args = orElse (jsTrim (v ''wiz-args'')) ''[]'' in
      [(''Instance'', v ''wiz-instance''), (''Job type'', ''<code>'' @ escHtml (v ''wiz-job-type'') @ ''</code>''),
       (''Queue'', orElse (v ''wiz-queue'') ''default'')] @
      (if v ''wiz-desc'' = [] then [] else [(''Description'', escHtml (v ''wiz-desc''))]) @
      [(''Schedule'', scheduleLabel localeText v), (''Timezone'', orElse (v ''wiz-tz'') ''UTC''),
       (''Concurrent runs'', if v ''wiz-allow-concurrent'' = ''true'' then ''Allowed'' else ''Not allowed'')] @
      (if args = ''[]'' then [] else [(''Args'', ''<code>'' @ escHtml args @ ''</code>'')]))"

section \<open>Handlers\<close>

definition validateStep :: "string \<Rightarrow> (string \<Rightarrow> string) \<Rightarrow> bool" where
  "validateStep name v =
     (if name = ''instance'' then v ''wiz-instance'' \<noteq> []
      else if name = ''job'' then jsTrim (v ''wiz-job-type'') \<noteq> []
      else if name = ''schedule-type'' then v ''wiz-schedule-type'' \<noteq> []
      else if name = ''schedule-detail'' then
        (let st = v ''wiz-schedule-type'' in
         if st = ''rate'' then v ''wiz-rate-interval'' \<noteq> [] else if st = ''once'' then v ''wiz-run-at'' \<noteq> []
         else if st = ''cron'' then v ''wiz-cron'' \<noteq> [] else True)
      else True)"

definition derivedName :: "string \<Rightarrow> string" where
  "derivedName jobType = map (\<lambda>c. if c = CHR ''_'' then CHR ''-'' else c) jobType"

definition syncName :: "Wizard \<Rightarrow> Wizard" where
  "syncName w = (if wz_IsNew w
     then w\<lparr>wz_Value := (wz_Value w)(''wiz-name'' := derivedName (wz_Value w ''wiz-job-type''))\<rparr> else w)"

definition syncScheduleFields :: "Wizard \<Rightarrow> Wizard" where
  "syncScheduleFields w = w\<lparr>wz_Panel := wz_Value w ''wiz-schedule-type''\<rparr>"

definition showStep :: "(string \<Rightarrow> string option) \<Rightarrow> nat \<Rightarrow> Wizard \<Rightarrow> Wizard" where
  "showStep localeText idx w0 =
     (let w1 = w0\<lparr>wz_Cur := idx\<rparr>;
          w2 = (if wz_Steps w1 ! idx = ''schedule-detail'' then syncScheduleFields w1 else w1)
      in if wz_Steps w2 ! idx = ''review'' then w2\<lparr>wz_Review := buildReview localeText (wz_Value w2)\<rparr> else w2)"

text \<open>What a user can do: the two buttons, a card of the schedule types, an input of a visible control.\<close>

datatype WizardEvent = NextClick | BackClick | CardClick string | InputEvent string string

definition stepControls :: "string \<Rightarrow> string list" where
  "stepControls name =
     (if name = ''instance'' then [''wiz-instance'']
      else if name = ''job'' then [''wiz-job-type'', ''wiz-queue'', ''wiz-desc'', ''wiz-args'']
      else if name = ''schedule-detail'' then
        [''wiz-tz'', ''wiz-allow-concurrent'', ''wiz-rate-interval'', ''wiz-rate-unit'', ''wiz-starts-at'', ''wiz-run-at'', ''wiz-cron'']
      else [])"

definition wizardEvent :: "(string \<Rightarrow> string option) \<Rightarrow> WizardEvent \<Rightarrow> Wizard \<Rightarrow> Wizard" where
  "wizardEvent localeText ev w =
     (let name = wz_Steps w ! wz_Cur w in
      case ev of
        NextClick \<Rightarrow>
          (if name = ''review'' \<or> \<not> validateStep name (wz_Value w) then w
           else (let w1 = syncName w; w2 = (if name = ''schedule-type'' then syncScheduleFields w1 else w1)
                 in if wz_Cur w < length (wz_Steps w) - 1 then showStep localeText (wz_Cur w + 1) w2 else w2))
      | BackClick \<Rightarrow> (if 0 < wz_Cur w then showStep localeText (wz_Cur w - 1) w else w)
      | CardClick stype \<Rightarrow>
          (if name = ''schedule-type'' \<and> stype \<in> {''rate'', ''once'', ''cron''}
           then w\<lparr>wz_Value := (wz_Value w)(''wiz-schedule-type'' := stype)\<rparr> else w)
      | InputEvent ident value' \<Rightarrow>
          (if ident \<in> set (stepControls name) then w\<lparr>wz_Value := (wz_Value w)(ident := value')\<rparr> else w))"

text \<open>
  The start: a new job gets the preferred time zone and, where the fields are empty, now and in five
  minutes (\<open>now'\<close> and \<open>later\<close>, as \<open>localDateTime\<close> prints them).
\<close>

definition openWizard ::
    "(string \<Rightarrow> string option) \<Rightarrow> Decoders \<Rightarrow> (string \<Rightarrow> string) \<Rightarrow> string \<Rightarrow> string \<Rightarrow> string \<Rightarrow> FormPage \<Rightarrow> Wizard" where
  "openWizard localeText dec dateInput preferred now' later d =
     (let v = pageValue dec dateInput d; isNew = (v ''original_name'' = []);
          v' = (if isNew then v(''wiz-tz'' := orElse preferred (v ''wiz-tz''),
                  ''wiz-starts-at'' := orElse (v ''wiz-starts-at'') now', ''wiz-run-at'' := orElse (v ''wiz-run-at'') later) else v)
      in showStep localeText 0
           \<lparr>wz_Steps = wizardSteps d, wz_Cur = 0, wz_IsNew = isNew, wz_Value = v', wz_Panel = [], wz_Review = []\<rparr>)"

definition useWizard :: "(string \<Rightarrow> string option) \<Rightarrow> WizardEvent list \<Rightarrow> Wizard \<Rightarrow> Wizard" where
  "useWizard localeText evs w = fold (wizardEvent localeText) evs w"

text \<open>What the form sends, its controls in the order of the page.\<close>

definition wizardFields :: "Wizard \<Rightarrow> Values" where
  "wizardFields w = (let v = wz_Value w in
     [(''original_name'', v ''original_name''), (''target_type'', ''faktory''), (''timeout'', ''5s''), (''name'', v ''wiz-name''),
      (''target_faktory_instance'', v ''wiz-instance''), (''target_faktory_job_type'', v ''wiz-job-type''),
      (''target_faktory_queue'', v ''wiz-queue''), (''description'', v ''wiz-desc''),
      (''target_faktory_args'', formLineEnds (v ''wiz-args'')), (''schedule_type'', v ''wiz-schedule-type''),
      (''timezone'', v ''wiz-tz''), (''allow_concurrent_runs'', v ''wiz-allow-concurrent''),
      (''rate_interval'', v ''wiz-rate-interval''), (''rate_unit'', v ''wiz-rate-unit''), (''starts_at'', v ''wiz-starts-at''),
      (''run_at'', v ''wiz-run-at''), (''cron'', v ''wiz-cron'')])"

text \<open>The query of the request for the queues of an instance.\<close>

definition queuesQuery :: "string \<Rightarrow> string" where
  "queuesQuery inst = ''instance='' @ encodeURIComponent inst"

section \<open>What the state keeps\<close>

text \<open>The controls a step checks, and those a user can change while it is shown.\<close>

definition checkedBy :: "string \<Rightarrow> string list" where
  "checkedBy name =
     (if name = ''instance'' then [''wiz-instance''] else if name = ''job'' then [''wiz-job-type'']
      else if name = ''schedule-type'' then [''wiz-schedule-type'']
      else if name = ''schedule-detail'' then [''wiz-schedule-type'', ''wiz-rate-interval'', ''wiz-run-at'', ''wiz-cron''] else [])"

definition changedIn :: "string \<Rightarrow> string list" where
  "changedIn name = (if name = ''schedule-type'' then [''wiz-schedule-type''] else stepControls name)"

lemma validateStep_cong:
  assumes "\<And>k. k \<in> set (checkedBy name) \<Longrightarrow> v k = u k"
  shows "validateStep name v = validateStep name u"
proof -
  consider "name = ''instance''" | "name = ''job''" | "name = ''schedule-type''" | "name = ''schedule-detail''"
    | "name \<notin> {''instance'', ''job'', ''schedule-type'', ''schedule-detail''}" by blast
  then show ?thesis by cases (use assms in \<open>simp_all add: validateStep_def checkedBy_def Let_def\<close>)
qed

lemma validateStep_update: "k \<notin> set (checkedBy name) \<Longrightarrow> validateStep name (v(k := x)) = validateStep name v"
  by (rule validateStep_cong) auto

lemma checkedBy_name: "''wiz-name'' \<notin> set (checkedBy name)"
  by (simp add: checkedBy_def)

lemma syncName_simps [simp]:
  "wz_Steps (syncName w) = wz_Steps w" "wz_Cur (syncName w) = wz_Cur w" "wz_IsNew (syncName w) = wz_IsNew w"
  "validateStep name (wz_Value (syncName w)) = validateStep name (wz_Value w)"
  "wz_IsNew w \<Longrightarrow> wz_Value (syncName w) ''wiz-name'' = derivedName (wz_Value (syncName w) ''wiz-job-type'')"
  "k \<noteq> ''wiz-name'' \<Longrightarrow> wz_Value (syncName w) k = wz_Value w k"
  "\<not> wz_IsNew w \<Longrightarrow> syncName w = w"
  by (simp_all add: syncName_def validateStep_update checkedBy_name)

lemma syncScheduleFields_simps [simp]:
  "wz_Steps (syncScheduleFields w) = wz_Steps w" "wz_Cur (syncScheduleFields w) = wz_Cur w"
  "wz_IsNew (syncScheduleFields w) = wz_IsNew w" "wz_Value (syncScheduleFields w) = wz_Value w"
  "wz_Review (syncScheduleFields w) = wz_Review w"
  by (simp_all add: syncScheduleFields_def)

lemma showStep_simps [simp]:
  "wz_Steps (showStep localeText i w) = wz_Steps w" "wz_Cur (showStep localeText i w) = i"
  "wz_IsNew (showStep localeText i w) = wz_IsNew w" "wz_Value (showStep localeText i w) = wz_Value w"
  "wz_Steps w ! i = ''review'' \<Longrightarrow> wz_Review (showStep localeText i w) = buildReview localeText (wz_Value w)"
  by (simp_all add: showStep_def Let_def)

text \<open>
  Every step before the shown one is complete, the name of a new job is derived from its type once the
  step of the job is behind, and the review shows the values.
\<close>

definition stepLists :: "string list list" where
  "stepLists = [[''instance'', ''job'', ''schedule-type'', ''schedule-detail'', ''review''],
     [''job'', ''schedule-type'', ''schedule-detail'', ''review'']]"

definition wizardOk :: "(string \<Rightarrow> string option) \<Rightarrow> Wizard \<Rightarrow> bool" where
  "wizardOk localeText w \<longleftrightarrow>
     wz_Steps w \<in> set stepLists \<and> wz_Cur w < length (wz_Steps w) \<and>
     list_all (\<lambda>s. validateStep s (wz_Value w)) (take (wz_Cur w) (wz_Steps w)) \<and>
     (wz_IsNew w \<and> ''job'' \<in> set (take (wz_Cur w) (wz_Steps w)) \<longrightarrow>
        wz_Value w ''wiz-name'' = derivedName (wz_Value w ''wiz-job-type'')) \<and>
     (wz_Steps w ! wz_Cur w = ''review'' \<longrightarrow> wz_Review w = buildReview localeText (wz_Value w))"

lemma showStep_ok:
  assumes "wz_Steps w \<in> set stepLists" "i < length (wz_Steps w)" "list_all (\<lambda>s. validateStep s (wz_Value w)) (take i (wz_Steps w))"
    and "wz_IsNew w \<and> ''job'' \<in> set (take i (wz_Steps w)) \<Longrightarrow> wz_Value w ''wiz-name'' = derivedName (wz_Value w ''wiz-job-type'')"
  shows "wizardOk localeText (showStep localeText i w)"
  using assms by (simp add: wizardOk_def)

text \<open>A change of a control of the shown step touches nothing that an earlier step checks.\<close>

lemma earlier_steps:
  assumes "steps \<in> set stepLists" "i < length steps" "k \<in> set (changedIn (steps ! i))" "name \<in> set (take i steps)"
  shows "k \<notin> set (checkedBy name)" "k \<noteq> ''wiz-name''"
proof -
  have "list_all (\<lambda>steps. list_all (\<lambda>i. list_all (\<lambda>k. k \<noteq> ''wiz-name'' \<and> list_all (\<lambda>name. k \<notin> set (checkedBy name)) (take i steps))
    (changedIn (steps ! i))) [0..<length steps]) stepLists" by code_simp
  then show "k \<notin> set (checkedBy name)" "k \<noteq> ''wiz-name''" using assms by (auto simp: list_all_iff)
qed

lemma change_ok:
  assumes ok: "wizardOk localeText w" and k: "k \<in> set (changedIn (wz_Steps w ! wz_Cur w))"
  shows "wizardOk localeText (w\<lparr>wz_Value := (wz_Value w)(k := x)\<rparr>)"
proof -
  let ?v = "(wz_Value w)(k := x)"
  have s: "wz_Steps w \<in> set stepLists" "wz_Cur w < length (wz_Steps w)" using ok by (simp_all add: wizardOk_def)
  note e = earlier_steps [OF s k]
  have "validateStep name ?v = validateStep name (wz_Value w)" if "name \<in> set (take (wz_Cur w) (wz_Steps w))" for name
    using e(1) [OF that] by (rule validateStep_update)
  moreover have "?v ''wiz-name'' = wz_Value w ''wiz-name''" "?v ''wiz-job-type'' = wz_Value w ''wiz-job-type''"
    if "''job'' \<in> set (take (wz_Cur w) (wz_Steps w))"
    using e [OF that] by (auto simp: checkedBy_def)
  moreover have "wz_Steps w ! wz_Cur w \<noteq> ''review''" using k by (auto simp: changedIn_def stepControls_def)
  ultimately show ?thesis using ok by (simp add: wizardOk_def list_all_iff)
qed

text \<open>\<open>Continue\<close> either does nothing or shows the next step.\<close>

lemma step_passed:
  "wizardOk localeText w \<Longrightarrow> wz_Steps w ! wz_Cur w \<noteq> ''review'' \<Longrightarrow> wz_Cur w + 1 < length (wz_Steps w)"
  by (cases "wz_Cur w + 1 = length (wz_Steps w)") (auto simp: wizardOk_def stepLists_def)

definition passed :: "Wizard \<Rightarrow> Wizard" where
  "passed w = (if wz_Steps w ! wz_Cur w = ''schedule-type'' then syncScheduleFields (syncName w) else syncName w)"

lemma passed_simps [simp]:
  "wz_Steps (passed w) = wz_Steps w" "wz_Cur (passed w) = wz_Cur w" "wz_IsNew (passed w) = wz_IsNew w"
  "validateStep name (wz_Value (passed w)) = validateStep name (wz_Value w)"
  "wz_IsNew w \<Longrightarrow> wz_Value (passed w) ''wiz-name'' = derivedName (wz_Value (passed w) ''wiz-job-type'')"
  "k \<noteq> ''wiz-name'' \<Longrightarrow> wz_Value (passed w) k = wz_Value w k"
  by (simp_all add: passed_def)

lemma NextClick_eq:
  assumes "wizardOk localeText w"
  shows "wizardEvent localeText NextClick w =
    (if wz_Steps w ! wz_Cur w \<noteq> ''review'' \<and> validateStep (wz_Steps w ! wz_Cur w) (wz_Value w)
     then showStep localeText (wz_Cur w + 1) (passed w) else w)"
  using step_passed [OF assms] by (auto simp: wizardEvent_def passed_def Let_def)

lemma NextClick_ok:
  assumes "wizardOk localeText w"
  shows "wizardOk localeText (wizardEvent localeText NextClick w)"
proof (cases "wz_Steps w ! wz_Cur w \<noteq> ''review'' \<and> validateStep (wz_Steps w ! wz_Cur w) (wz_Value w)")
  case True
  have "list_all (\<lambda>s. validateStep s (wz_Value w)) (take (wz_Cur w + 1) (wz_Steps w))"
    using assms True by (simp add: wizardOk_def take_Suc_conv_app_nth)
  then have "wizardOk localeText (showStep localeText (wz_Cur w + 1) (passed w))"
    using assms True step_passed [OF assms] by (intro showStep_ok) (simp_all add: wizardOk_def [of _ w])
  then show ?thesis using NextClick_eq [OF assms] True by simp
qed (use NextClick_eq [OF assms] assms in auto)

lemma BackClick_ok:
  assumes "wizardOk localeText w"
  shows "wizardOk localeText (wizardEvent localeText BackClick w)"
proof -
  have "set (take (wz_Cur w - 1) (wz_Steps w)) \<subseteq> set (take (wz_Cur w) (wz_Steps w))" by (rule set_take_subset_set_take) simp
  then have "wizardOk localeText (showStep localeText (wz_Cur w - 1) w)"
    using assms by (intro showStep_ok) (auto simp: wizardOk_def [of _ w] list_all_iff)
  then show ?thesis using assms by (simp add: wizardEvent_def Let_def)
qed

lemma wizardEvent_ok:
  assumes "wizardOk localeText w"
  shows "wizardOk localeText (wizardEvent localeText ev w)"
proof (cases ev)
  case (CardClick stype)
  then show ?thesis using assms change_ok [OF assms, of "''wiz-schedule-type''" stype]
    by (simp add: wizardEvent_def Let_def changedIn_def)
next
  case (InputEvent ident x)
  have "ident \<in> set (stepControls n) \<Longrightarrow> ident \<in> set (changedIn n)" for n by (simp add: changedIn_def stepControls_def split: if_splits)
  then show ?thesis using assms change_ok [OF assms, of ident x] by (simp add: InputEvent wizardEvent_def Let_def)
qed (simp_all add: assms NextClick_ok BackClick_ok)

lemma useWizard_ok: "wizardOk localeText w \<Longrightarrow> wizardOk localeText (useWizard localeText evs w)"
  unfolding useWizard_def by (induction evs arbitrary: w) (simp_all add: wizardEvent_ok)

lemma wizardSteps_lists: "wizardSteps d \<in> set stepLists"
  by (simp add: wizardSteps_def stepLists_def)

lemma openWizard_ok: "wizardOk localeText (openWizard localeText dec dateInput preferred now' later d)"
  unfolding openWizard_def Let_def
  by (rule showStep_ok) (simp_all add: wizardSteps_lists, simp add: wizardSteps_def)

text \<open>What no event changes, and the name of a job that is not new.\<close>

lemma stepControls_other: "''original_name'' \<notin> set (stepControls n)" "''wiz-name'' \<notin> set (stepControls n)"
  by (simp_all add: stepControls_def)

lemma wizardEvent_same:
  "wz_Steps (wizardEvent localeText ev w) = wz_Steps w" "wz_IsNew (wizardEvent localeText ev w) = wz_IsNew w"
  "wz_Value (wizardEvent localeText ev w) ''original_name'' = wz_Value w ''original_name''"
  "\<not> wz_IsNew w \<Longrightarrow> wz_Value (wizardEvent localeText ev w) ''wiz-name'' = wz_Value w ''wiz-name''"
  using stepControls_other by (cases ev; auto simp: wizardEvent_def Let_def)+

lemma useWizard_same:
  "wz_Steps (useWizard localeText evs w) = wz_Steps w" "wz_IsNew (useWizard localeText evs w) = wz_IsNew w"
  "wz_Value (useWizard localeText evs w) ''original_name'' = wz_Value w ''original_name''"
  "\<not> wz_IsNew w \<Longrightarrow> wz_Value (useWizard localeText evs w) ''wiz-name'' = wz_Value w ''wiz-name''"
  unfolding useWizard_def by (induction evs arbitrary: w) (simp_all add: wizardEvent_same)

lemma openWizard_same:
  "wz_Steps (openWizard localeText dec dateInput preferred now' later d) = wizardSteps d"
  "wz_IsNew (openWizard localeText dec dateInput preferred now' later d) = (visible (fp_OriginalName d) = [])"
  "wz_Value (openWizard localeText dec dateInput preferred now' later d) ''original_name'' = visible (fp_OriginalName d)"
  "wz_Value (openWizard localeText dec dateInput preferred now' later d) ''wiz-name'' = visible (sc_Name (fp_Schedule d))"
  by (simp_all add: openWizard_def pageValue_def Let_def)

lemma jsTrim_Nil: "jsTrim [] = []"
  by code_simp

section \<open>Reaching the review\<close>

lemma review_past_job:
  "wizardOk localeText w \<Longrightarrow> wz_Steps w ! wz_Cur w = ''review'' \<Longrightarrow> ''job'' \<in> set (take (wz_Cur w) (wz_Steps w))"
  by (auto simp: wizardOk_def stepLists_def less_Suc_eq)

lemma continues_reach_review:
  assumes "wizardOk localeText w" "list_all (\<lambda>s. validateStep s (wz_Value w)) (wz_Steps w)"
    and "u = useWizard localeText (replicate (length (wz_Steps w) - 1 - wz_Cur w) NextClick) w"
  shows "wz_Steps u = wz_Steps w \<and> wz_Cur u = length (wz_Steps w) - 1 \<and> (\<forall>k. k \<noteq> ''wiz-name'' \<longrightarrow> wz_Value u k = wz_Value w k)"
  using assms
proof (induction "length (wz_Steps w) - 1 - wz_Cur w" arbitrary: w)
  case 0
  then show ?case by (auto simp: useWizard_def wizardOk_def)
next
  case (Suc n)
  let ?w = "showStep localeText (wz_Cur w + 1) (passed w)"
  have "wz_Steps w ! wz_Cur w \<noteq> ''review''" using Suc.hyps(2) Suc.prems(1) by (auto simp: wizardOk_def stepLists_def less_Suc_eq)
  moreover have "validateStep (wz_Steps w ! wz_Cur w) (wz_Value w)" using Suc.prems by (simp add: wizardOk_def list_all_iff)
  ultimately have e: "wizardEvent localeText NextClick w = ?w" using NextClick_eq [OF Suc.prems(1)] by simp
  have n: "n = length (wz_Steps ?w) - 1 - wz_Cur ?w" using Suc.hyps(2) by simp
  have "u = useWizard localeText (replicate n NextClick) ?w"
    unfolding Suc.prems(3) Suc.hyps(2) [symmetric] by (simp add: useWizard_def e funpow_swap1)
  from Suc.hyps(1) [OF n _ _ this [unfolded n]] wizardEvent_ok [OF Suc.prems(1), of NextClick] Suc.prems(2)
  show ?case by (simp add: e)
qed

section \<open>What the review shows\<close>

lemma decodeText_escHtmlChar: "decodeText (escHtmlChar c @ r) = c # decodeText r"
proof -
  have "(''amp;'', ''&'') \<in> set references" "(''lt;'', ''<'') \<in> set references" "(''gt;'', ''>'') \<in> set references"
    by (simp_all add: references_def)
  note f = this [THEN references_find]
  show ?thesis using f by (simp add: escHtmlChar_def decodeText.simps(2))
qed

lemma decodeText_escHtml: "decodeText (escHtml s @ r) = s @ decodeText r"
proof (induction s rule: escHtml.induct)
  case (3 c d s)
  have "(''nbsp;'', bytesOf [0xC2, 0xA0]) \<in> set references" by (simp add: references_def)
  from references_find [OF this, of "escHtml s @ r"] 3 show ?case
    by (auto simp: decodeText_escHtmlChar decodeText.simps(2) bytesOf_def)
qed (simp_all add: decodeText_escHtmlChar)

lemma escHtml_inert: "CHR ''<'' \<notin> set (escHtml s)" "s \<noteq> [] \<Longrightarrow> escHtml s \<noteq> []"
  by (induction s rule: escHtml.induct) (auto simp: escHtmlChar_def)

text \<open>Text that went through \<open>escHtml\<close> is read as that text, within the \<open>code\<close> around it.\<close>

lemma codeCell_reads:
  assumes "s \<noteq> []"
  shows "readHtml (''<code>'' @ escHtml s @ ''</code>'') = Some [Open ''code'' [], Chars s, Close ''code'']"
proof -
  have w: "nameWord ''code''" by code_simp
  have "readHtml (printEnd ''code'' @ []) = Some [Close ''code'']" using readHtml_end [OF w, of "[]"] by simp
  moreover have "startsTag (printEnd ''code'' @ [])" by (simp add: startsTag_def printEnd_def)
  ultimately have "readHtml (escHtml s @ ''</code>'') = Some [Chars s, Close ''code'']"
    using readHtml_text [OF escHtml_inert(1) escHtml_inert(2) [OF assms], of "''</code>''"] decodeText_escHtml [of s "[]"]
    by (simp add: printEnd_def)
  then show ?thesis using readHtml_open [OF w, of "[]" "escHtml s @ ''</code>''"] by simp
qed

lemma textCell_reads: "s \<noteq> [] \<Longrightarrow> readHtml (escHtml s) = Some [Chars s]"
  using readHtml_text [OF escHtml_inert, of s "[]"] decodeText_escHtml [of s "[]"] by (simp add: startsTag_def)

section \<open>What the form sends\<close>

lemma wizardFields_keys: "list_all (\<lambda>(k, v). list_all unreserved k) (wizardFields w)"
proof -
  have "list_all (list_all unreserved) [''original_name'', ''target_type'', ''timeout'', ''name'', ''target_faktory_instance'',
      ''target_faktory_job_type'', ''target_faktory_queue'', ''description'', ''target_faktory_args'', ''schedule_type'',
      ''timezone'', ''allow_concurrent_runs'', ''rate_interval'', ''rate_unit'', ''starts_at'', ''run_at'', ''cron'']" by code_simp
  then show ?thesis by (simp only: wizardFields_def Let_def list.pred_inject prod.case)
qed

text \<open>Until an event, the form of a job that is not new sends what the page alone sends.\<close>

lemma wizardFields_untouched:
  assumes "visible (fp_OriginalName d) \<noteq> []"
  shows "wizardFields (openWizard localeText dec dateInput preferred now' later d) = faktoryFormFields dec dateInput d"
proof -
  have "wz_Value (openWizard localeText dec dateInput preferred now' later d) = pageValue dec dateInput d"
    using assms by (simp add: openWizard_def Let_def pageValue_def)
  moreover have "visible [] = []" by (simp add: visible_def)
  ultimately show ?thesis
    by (simp add: wizardFields_def pageValue_def faktoryFormFields_def faktoryJobFields_def faktoryTimingFields_def selectInput_def Let_def)
qed

lemma encodeURIComponent_unescape: "QueryUnescape (encodeURIComponent s) = Inr s"
proof (induction s)
  case (Cons c s)
  have "unescape True ((if unreserved c \<or> c \<in> set ''!*()'' then [c] else percent c) @ encodeURIComponent s) =
      bindE (unescape True (encodeURIComponent s)) (\<lambda>r. Inr (c # r))"
    using unreserved_plain [of c] by (auto simp: unescape_percent)
  then show ?case using Cons by (simp add: QueryUnescape_def encodeURIComponent_def)
qed (simp add: QueryUnescape_def encodeURIComponent_def)

lemma percent_separators: "set (percent c) \<inter> set ''&=;#?/'' = {}"
proof -
  have "hexChar (byte c div 16) \<notin> set ''&=;#?%/''" "hexChar (byte c mod 16) \<notin> set ''&=;#?%/''"
    by (rule hexChar_separators; use byte_less [of c] in simp)+
  then show ?thesis by (simp add: percent_def)
qed

lemma encodeURIComponent_separators: "x \<in> set ''&=;#?/'' \<Longrightarrow> x \<notin> set (encodeURIComponent s)"
  using percent_separators unreserved_separators by (fastforce simp: encodeURIComponent_def split: if_splits)

text \<open>A query of one parameter, however its value is encoded.\<close>

lemma ParseQuery_oneValue:
  assumes "QueryUnescape enc = Inr v" "set enc \<inter> set ''&;'' = {}" "list_all isAlnum k" "k \<noteq> []"
  shows "fst (ParseQuery (k @ ''='' @ enc)) = [(k, v)]"
proof -
  have k: "x \<notin> set k" if "x \<in> set ''&=;%+''" for x
    using assms(3) that by (auto simp: list_all_iff isAlnum_def isDigit_def byte_def)
  then have "Cut (k @ CHR ''='' # enc) CHR ''='' = (k, enc, True)" by (intro Cut_first) simp
  moreover have "QueryUnescape k = Inr k" using unescape_plain [of k True] assms(3) by (simp add: QueryUnescape_def unreserved_def list_all_iff)
  ultimately have "parsePiece (k @ ''='' @ enc) = Inr (k, v)"
    using assms(1,2) k by (auto simp: parsePiece_def)
  moreover have "CHR ''&'' \<notin> set (k @ ''='' @ enc)" using assms(2) k by auto
  ultimately show ?thesis using assms(4) by (simp add: ParseQuery_def Split_absent)
qed

text \<open>The server reads the very instance the script asks for.\<close>

lemma queuesQuery_reads: "queryGet (queuesQuery inst) ''instance'' = inst"
  using ParseQuery_oneValue [of "encodeURIComponent inst" inst "''instance''"] encodeURIComponent_separators encodeURIComponent_unescape
  by (auto simp: queuesQuery_def isAlnum_def byte_def queryGet_def valuesGet_def)

text \<open>The server trims the name, printable characters stay.\<close>

lemma spaceRunes_bytes: "p \<in> set spaceRunes \<Longrightarrow> c \<in> set p \<Longrightarrow> \<not> printable c"
  by (auto simp: spaceRunes_def printable_def byte_def)

lemma trimWith_keeps:
  "(\<And>p. p \<in> set ps \<Longrightarrow> c \<notin> set p) \<Longrightarrow> c \<in> set s \<Longrightarrow> c \<in> set (trimWith ps s)"
proof (induction ps s rule: trimWith.induct)
  case (1 ps s)
  show ?case
  proof (cases "find (\<lambda>p. p \<noteq> [] \<and> HasPrefix s p) ps")
    case (Some p)
    then have p: "p \<in> set ps" "HasPrefix s p" by (auto dest: find_SomeD)
    then obtain r where r: "s = p @ r" by (auto simp: HasPrefix_iff)
    then have "c \<in> set (drop (length p) s)" using 1 p(1) by auto
    then have "c \<in> set (trimWith ps (drop (length p) s))" using 1 Some by blast
    then show ?thesis by (simp only: trimWith.simps [of ps s] Some option.case)
  qed (use 1 in \<open>simp add: trimWith.simps [of ps s]\<close>)
qed

lemma TrimSpace_keeps: "c \<in> set s \<Longrightarrow> printable c \<Longrightarrow> c \<in> set (TrimSpace s)"
  unfolding TrimSpace_def TrimRightSpace_def TrimLeftSpace_def
  by (simp, rule trimWith_keeps, use spaceRunes_bytes in force, simp, rule trimWith_keeps, use spaceRunes_bytes in blast)

lemma derivedName_keeps: "c \<in> set s \<Longrightarrow> \<not> nameChar c \<Longrightarrow> c \<in> set (derivedName s)"
  by (force simp: derivedName_def nameChar_def)

lemma SaveSchedule_bad_name:
  assumes "\<not> nameOk (sc_Name s)"
  obtains err where "SaveSchedule env now o' s e = (Some err, e)"
proof -
  let ?V = "validateSchedule (ca_Parse (ev_cron env)) (ev_loadLocation env) (NormalizeSchedule s) (cfg_Faktory (en_cfg e))"
  have "\<not> isOk ?V"
    using validEntry_validate [of env "NormalizeSchedule s" "en_cfg e"] assms
    by (auto simp: validEntry_iff scheduleOk_def NormalizeSchedule_fields)
  then obtain err where "?V = Inl err" by (cases ?V) (auto simp: isOk_def)
  then show thesis using that by (simp add: SaveSchedule_def Let_def)
qed

end
