(* ===== verification/WizardProperties.thy ===== *)
theory WizardProperties
  imports Wizard PageProperties
begin

text \<open>
  The properties of the guided form: what the review stands for, and which jobs it cannot make.
\<close>

text \<open>C38: in the guided form every step before the shown one is complete.  At the review the rows are
  those of the values the form sends, the name of a new job is its type with hyphens for underscores,
  that of an edited job stays, a browser reads the type as text, and the queue is put in as HTML as it
  is.  When every step is complete, as many clicks on Continue as there are steps left reach the review with the values as they are.\<close>

theorem wizard_review:
  assumes "w = useWizard localeText evs (openWizard localeText dec dateInput preferred now' later d)"
  shows "list_all (\<lambda>s. validateStep s (wz_Value w)) (take (wz_Cur w) (wz_Steps w)) \<and>
    (wz_Steps w ! wz_Cur w = ''review'' \<longrightarrow>
       wz_Review w = buildReview localeText (wz_Value w) \<and>
       valuesGet (wizardFields w) ''name'' =
         (if visible (fp_OriginalName d) = [] then derivedName (valuesGet (wizardFields w) ''target_faktory_job_type'')
          else visible (sc_Name (fp_Schedule d))) \<and>
       (''Queue'', orElse (valuesGet (wizardFields w) ''target_faktory_queue'') ''default'') \<in> set (wz_Review w) \<and>
       (\<exists>cell. (''Job type'', cell) \<in> set (wz_Review w) \<and>
          readHtml cell = Some [Open ''code'' [], Chars (valuesGet (wizardFields w) ''target_faktory_job_type''), Close ''code''])) \<and>
    (list_all (\<lambda>s. validateStep s (wz_Value w)) (wz_Steps w) \<longrightarrow>
       (let u = useWizard localeText (replicate (length (wz_Steps w) - 1 - wz_Cur w) NextClick) w
        in wz_Steps u ! wz_Cur u = ''review'' \<and> (\<forall>k. k \<noteq> ''wiz-name'' \<longrightarrow> wz_Value u k = wz_Value w k)))"
proof (intro conjI impI)
  let ?o = "openWizard localeText dec dateInput preferred now' later d"
  have ok: "wizardOk localeText w" unfolding assms by (rule useWizard_ok, rule openWizard_ok)
  then show done_steps: "list_all (\<lambda>s. validateStep s (wz_Value w)) (take (wz_Cur w) (wz_Steps w))" by (simp add: wizardOk_def)
  have last: "wz_Steps w ! (length (wz_Steps w) - 1) = ''review''" using ok by (auto simp: wizardOk_def stepLists_def)
  {
    assume r: "wz_Steps w ! wz_Cur w = ''review''"
    show rows: "wz_Review w = buildReview localeText (wz_Value w)" using ok r by (simp add: wizardOk_def)
    have j: "''job'' \<in> set (take (wz_Cur w) (wz_Steps w))" using ok r by (rule review_past_job)
    show "valuesGet (wizardFields w) ''name'' =
         (if visible (fp_OriginalName d) = [] then derivedName (valuesGet (wizardFields w) ''target_faktory_job_type'')
          else visible (sc_Name (fp_Schedule d)))"
      using ok j useWizard_same [where w = ?o and evs = evs and localeText = localeText] openWizard_same [of localeText dec dateInput preferred now' later d]
      by (simp add: wizardFields_def Let_def valuesGet_simps wizardOk_def assms [symmetric])
    show "(''Queue'', orElse (valuesGet (wizardFields w) ''target_faktory_queue'') ''default'') \<in> set (wz_Review w)"
      by (simp add: rows buildReview_def Let_def wizardFields_def valuesGet_simps)
    have "validateStep ''job'' (wz_Value w)" using done_steps j by (simp add: list_all_iff)
    then have "wz_Value w ''wiz-job-type'' \<noteq> []" by (auto simp: validateStep_def jsTrim_Nil)
    then show "\<exists>cell. (''Job type'', cell) \<in> set (wz_Review w) \<and>
          readHtml cell = Some [Open ''code'' [], Chars (valuesGet (wizardFields w) ''target_faktory_job_type''), Close ''code'']"
      using codeCell_reads [of "wz_Value w ''wiz-job-type''"]
      by (intro exI [of _ "''<code>'' @ escHtml (wz_Value w ''wiz-job-type'') @ ''</code>''"])
        (simp add: rows buildReview_def Let_def wizardFields_def valuesGet_simps)
  next
    assume v: "list_all (\<lambda>s. validateStep s (wz_Value w)) (wz_Steps w)"
    show "let u = useWizard localeText (replicate (length (wz_Steps w) - 1 - wz_Cur w) NextClick) w
        in wz_Steps u ! wz_Cur u = ''review'' \<and> (\<forall>k. k \<noteq> ''wiz-name'' \<longrightarrow> wz_Value u k = wz_Value w k)"
      using continues_reach_review [OF ok v refl] last by (simp add: Let_def)
  }
qed

text \<open>A guided form filled in for the jobs of one Faktory instance.\<close>

definition newPage :: FormPage where
  "newPage = (case fst (newSchedule newFaktoryRequest (holding mailConfig mailJob)) of ReplyPage (PageForm _ d) \<Rightarrow> d)"

definition filledIn :: "string \<Rightarrow> string \<Rightarrow> WizardEvent list" where
  "filledIn jobType queue =
     [NextClick, InputEvent ''wiz-job-type'' jobType, InputEvent ''wiz-queue'' queue, NextClick, CardClick ''rate'',
      NextClick, InputEvent ''wiz-rate-interval'' ''10'', BackClick, NextClick, NextClick]"

definition filledWizard :: "string \<Rightarrow> string \<Rightarrow> Wizard" where
  "filledWizard jobType queue =
     useWizard (\<lambda>_. None) (filledIn jobType queue) (openWizard (\<lambda>_. None) sampleDecoders (\<lambda>s. s) ''UTC'' ''2026-01-01T00:00'' ''2026-01-01T00:05'' newPage)"

theorem wizard_review_witness:
  "\<exists>q as. (''Queue'', q) \<in> set (wz_Review (filledWizard ''night_sync'' ''<img src=\"x\" onerror=\"alert(1)\">'')) \<and>
     readHtml q = Some [Open ''img'' as] \<and> map fst as = [''src'', ''onerror''] \<and>
     valuesGet (wizardFields (filledWizard ''night_sync'' ''<img src=\"x\" onerror=\"alert(1)\">'')) ''name'' = ''night-sync''"
proof -
  let ?w = "filledWizard ''night_sync'' ''<img src=\"x\" onerror=\"alert(1)\">''"
  have v: "wz_Steps ?w ! wz_Cur ?w = ''review''" "visible (fp_OriginalName newPage) = []"
    "orElse (valuesGet (wizardFields ?w) ''target_faktory_queue'') ''default'' = ''<img src=\"x\" onerror=\"alert(1)\">''"
    "derivedName (valuesGet (wizardFields ?w) ''target_faktory_job_type'') = ''night-sync''"
    "readHtml ''<img src=\"x\" onerror=\"alert(1)\">'' = Some [Open ''img'' [(''src'', Some ''x''), (''onerror'', Some ''alert(1)'')]]"
    by code_simp+
  show ?thesis using wizard_review [OF filledWizard_def [of "''night_sync''" "''<img src=\"x\" onerror=\"alert(1)\">''"]] v by auto
qed

section \<open>Jobs that the form cannot make\<close>

lemma refused_request:
  assumes "isForm q vs" "list_all (\<lambda>(k, v). list_all unreserved k) vs" "vs \<noteq> []" "\<not> nameOk (formField vs ''name'')"
  shows "\<exists>err. apiSaveSchedule env dec now q e = (respondScheduleError q err, e)"
proof (cases "scheduleFromRequest dec q")
  case (Inl err)
  then show ?thesis by (auto simp: apiSaveSchedule_def)
next
  case (Inr r)
  obtain s o' where r: "r = (s, o')" by (cases r)
  have "scheduleFromForm vs = Inr (s, o')" using form_scheduleFromRequest [OF assms(1-3)] Inr r by simp
  then have "sc_Name s = formField vs ''name''" by (auto simp: scheduleFromForm_def bindE_def split: sum.splits)
  then obtain err where "SaveSchedule env now o' s e = (Some err, e)" using SaveSchedule_bad_name assms(4) by metis
  then show ?thesis using Inr r by (auto simp: apiSaveSchedule_def)
qed

text \<open>C40: the guided form refuses every new job whose type has a printable character other than letters,
  digits, dot, hyphen and underscore, as in a type with a namespace: the hidden name is derived from the
  type, and whatever the user does before the review, the request is answered with an error and changes
  nothing.\<close>

theorem namespaced_type_refused:
  assumes "w = useWizard localeText evs (openWizard localeText dec dateInput preferred now' later d)"
    and "fp_OriginalName d = []" "wz_Steps w ! wz_Cur w = ''review''"
    and "c \<in> set (wz_Value w ''wiz-job-type'')" "printable c" "\<not> nameChar c"
    and "isForm q (wizardFields w)"
  shows "\<exists>err. apiSaveSchedule env dec now q e = (respondScheduleError q err, e)"
proof -
  let ?o = "openWizard localeText dec dateInput preferred now' later d"
  have ok: "wizardOk localeText w" unfolding assms(1) by (rule useWizard_ok, rule openWizard_ok)
  have "visible [] = []" by (simp add: visible_def)
  then have "wz_IsNew w"
    using useWizard_same(2) [of localeText evs ?o] openWizard_same(2) assms(1,2) by simp
  then have "wz_Value w ''wiz-name'' = derivedName (wz_Value w ''wiz-job-type'')"
    using ok review_past_job [OF ok assms(3)] by (simp add: wizardOk_def)
  then have "c \<in> set (formField (wizardFields w) ''name'')"
    using TrimSpace_keeps [OF derivedName_keeps] assms(4-6) by (simp add: formField_def wizardFields_def Let_def valuesGet_simps)
  then have "\<not> nameOk (formField (wizardFields w) ''name'')" using assms(6) by (auto simp: nameOk_def list_all_iff)
  moreover have "wizardFields w \<noteq> []" by (simp add: wizardFields_def Let_def)
  ultimately show ?thesis using refused_request [OF assms(7) wizardFields_keys] by blast
qed

theorem namespaced_type_refused_witness:
  "\<exists>q err. isForm q (wizardFields (filledWizard ''Billing::Sync'' [])) \<and>
     apiSaveSchedule memEnv sampleDecoders clock q (holding mailConfig mailJob) = (respondScheduleError q err, holding mailConfig mailJob)"
proof -
  let ?w = "filledWizard ''Billing::Sync'' []"
  let ?q = "submission (wizardFields ?w)"
  have v: "fp_OriginalName newPage = []" "wz_Steps ?w ! wz_Cur ?w = ''review''"
    "CHR '':'' \<in> set (wz_Value ?w ''wiz-job-type'')" "printable CHR '':''" "\<not> nameChar CHR '':''"
    "length (encodeForm (wizardFields ?w)) \<le> maxFormSize"
    by code_simp+
  note sent = submission_isForm [OF v(6)]
  show ?thesis
    using namespaced_type_refused [OF filledWizard_def [of "''Billing::Sync''" "[]"] v(1-5) sent,
        where env = memEnv and now = clock and e = "holding mailConfig mailJob"] sent
    by blast
qed

end
