(* ===== verification/TimeHelpers.thy ===== *)
theory TimeHelpers
  imports Wizard PageReading
begin

text \<open>
  internal/server/http.go, the script \<open>time_helpers\<close>: the settings that a browser keeps, how the instants of a
  page are printed for its reader, and what the forms of new jobs start with.  What a browser prints in
  its own language is a record of functions; \<open>localStorage\<close> is one that can be read and written.
\<close>

section \<open>The settings of the reader\<close>

text \<open>\<open>localStorage\<close>; \<open>None\<close> is a missing key.\<close>

type_synonym Storage = "string \<Rightarrow> string option"

definition timezoneKey :: string where "timezoneKey = ''clock-relay-work-timezone''"
definition formatKey :: string where "formatKey = ''clock-relay-time-format''"
definition legacyTimezoneKey :: string where "legacyTimezoneKey = ''rg-display-tz''"
definition legacyFormatKey :: string where "legacyFormatKey = ''rg-time-format''"

text \<open>\<open>stored(key) || ...\<close>: a missing and an empty value fall through.\<close>

definition storedOr :: "Storage \<Rightarrow> string \<Rightarrow> string \<Rightarrow> string" where
  "storedOr st key other = (case st key of None \<Rightarrow> other | Some v \<Rightarrow> orElse v other)"

definition workTimezone :: "string \<Rightarrow> Storage \<Rightarrow> string" where
  "workTimezone browserTimezone st = storedOr st timezoneKey (storedOr st legacyTimezoneKey browserTimezone)"

definition setWorkTimezone :: "string \<Rightarrow> Storage \<Rightarrow> Storage" where
  "setWorkTimezone tz st = st(timezoneKey \<mapsto> orElse tz ''UTC'')"

definition timeFormat :: "Storage \<Rightarrow> string" where
  "timeFormat st = storedOr st formatKey (storedOr st legacyFormatKey ''auto'')"

definition setTimeFormat :: "string \<Rightarrow> Storage \<Rightarrow> Storage" where
  "setTimeFormat fmt st = st(formatKey \<mapsto> orElse fmt ''auto'')"

definition hour12Option :: "Storage \<Rightarrow> bool option" where
  "hour12Option st = (if timeFormat st = ''12h'' then Some True else if timeFormat st = ''24h'' then Some False else None)"

text \<open>\<open>ensureOption\<close> and \<open>selectTimezone\<close> on the options of a select: the options and the chosen one.\<close>

definition ensureOption :: "string list \<Rightarrow> string \<Rightarrow> string list" where
  "ensureOption options value' = (if value' = [] \<or> value' \<in> set options then options else value' # options)"

definition selectTimezone :: "string list \<Rightarrow> string \<Rightarrow> string \<Rightarrow> string list \<times> string" where
  "selectTimezone options current timezone =
     (if timezone = [] then (options, current) else (ensureOption options timezone, timezone))"

section \<open>Printing instants\<close>

record DateOptions =
  do_TimeOnly :: bool
  do_TimeZone :: string
  do_Hour12 :: "bool option"

definition dateTimeOptions :: "string \<Rightarrow> Storage \<Rightarrow> bool \<Rightarrow> DateOptions" where
  "dateTimeOptions browserTimezone st timeOnly =
     \<lparr>do_TimeOnly = timeOnly, do_TimeZone = workTimezone browserTimezone st, do_Hour12 = hour12Option st\<rparr>"

text \<open>
  What the browser prints in its language, \<open>None\<close> where it throws: an instant, the short name of a time
  zone at an instant, a time of the day from the texts of its hour and minute.
\<close>

record Browser =
  br_Timezone :: string
  br_DateTime :: "string \<Rightarrow> DateOptions \<Rightarrow> string option"
  br_ZoneName :: "string \<Rightarrow> string \<Rightarrow> string option"
  br_Time :: "string \<Rightarrow> string \<Rightarrow> bool option \<Rightarrow> string option"

definition shortTimezoneName :: "Browser \<Rightarrow> Storage \<Rightarrow> string \<Rightarrow> string" where
  "shortTimezoneName br st date =
     (let tz = workTimezone (br_Timezone br) st in case br_ZoneName br date tz of None \<Rightarrow> tz | Some n \<Rightarrow> n)"

definition localTimeText :: "Browser \<Rightarrow> Storage \<Rightarrow> attrs \<Rightarrow> string" where
  "localTimeText br st as =
     (let date = attrValue as ''data-time''; timeOnly = (attrValue as ''data-format'' = ''time'') in
      case br_DateTime br date (dateTimeOptions (br_Timezone br) st timeOnly) of
        None \<Rightarrow> date
      | Some t \<Rightarrow> if timeOnly then t else t @ '' '' @ shortTimezoneName br st date)"

definition padStart2 :: "string \<Rightarrow> string" where
  "padStart2 s = replicate (2 - length s) CHR ''0'' @ s"

definition wallTimeText :: "Browser \<Rightarrow> Storage \<Rightarrow> attrs \<Rightarrow> string" where
  "wallTimeText br st as =
     (let hour = attrValue as ''data-hour''; minute = attrValue as ''data-minute'' in
      case br_Time br hour minute (hour12Option st) of None \<Rightarrow> hour @ '':'' @ padStart2 minute | Some t \<Rightarrow> t)"

definition hasClass :: "string \<Rightarrow> attrs \<Rightarrow> bool" where
  "hasClass c as \<longleftrightarrow> c \<in> set (Split (attrValue as ''class'') CHR '' '')"

definition hasAttr :: "attrs \<Rightarrow> string \<Rightarrow> bool" where
  "hasAttr as n \<longleftrightarrow> n \<in> fst ` set as"

definition sourceTimezone :: "attrs \<Rightarrow> string" where
  "sourceTimezone as = orElse (attrValue as ''data-source-tz'') ''UTC''"

text \<open>
  \<open>formatPage\<close> on one element: its attributes afterwards and its text, if it gets one.  No element of a
  page has two of the three classes.
\<close>

definition formatElement :: "Browser \<Rightarrow> Storage \<Rightarrow> attrs \<Rightarrow> (attrs \<times> string) option" where
  "formatElement br st as =
     (if hasClass ''local-time'' as \<and> hasAttr as ''data-time'' then Some (as, localTimeText br st as)
      else if hasClass ''wall-time'' as \<and> hasAttr as ''data-hour'' \<and> hasAttr as ''data-minute'' then Some (as, wallTimeText br st as)
      else if hasClass ''timezone-context'' as \<and> hasAttr as ''data-source-tz''
      then (let same = (sourceTimezone as = workTimezone (br_Timezone br) st); as' = filter (\<lambda>a. fst a \<noteq> ''hidden'') as in
            Some (if same then as' @ [(''hidden'', Some [])] else as',
              if same then [] else bytesOf [0x20, 0xC2, 0xB7, 0x20] @ ''Configured in '' @ sourceTimezone as))
      else None)"

text \<open>The element's texts, which are all its contents, are replaced.\<close>

function formatPage :: "Browser \<Rightarrow> Storage \<Rightarrow> token list \<Rightarrow> token list" where
  "formatPage br st [] = []"
| "formatPage br st (Open n as # ts) =
     (case formatElement br st as of
        None \<Rightarrow> Open n as # formatPage br st ts
      | Some (as', s) \<Rightarrow> Open n as' # (if s = [] then [] else [Chars s]) @ formatPage br st (dropWhile (\<lambda>t. t \<noteq> Close n) ts))"
| "formatPage br st (Close n # ts) = Close n # formatPage br st ts"
| "formatPage br st (Chars s # ts) = Chars s # formatPage br st ts"
  by pat_completeness auto
termination
  by (relation "measure (\<lambda>(br, st, ts). length ts)") (auto simp: less_Suc_eq_le length_dropWhile_le)

section \<open>New jobs\<close>

text \<open>
  The parts of an instant in a time zone, by their types, \<open>None\<close> where the browser throws; the year, the
  month from 0, the day, the hour and the minute on the wall clock of the browser.
\<close>

record Calendar =
  cl_Parts :: "go_time \<Rightarrow> string \<Rightarrow> (string \<Rightarrow> string) option"
  cl_Local :: "go_time \<Rightarrow> int \<times> int \<times> int \<times> int \<times> int"

definition zonedDateTime :: "(string \<Rightarrow> string) \<Rightarrow> string option" where
  "zonedDateTime part =
     (if list_all (\<lambda>p. part p \<noteq> []) [''year'', ''month'', ''day'', ''hour'', ''minute'']
      then Some (part ''year'' @ ''-'' @ part ''month'' @ ''-'' @ part ''day'' @ ''T'' @ part ''hour'' @ '':'' @ part ''minute'')
      else None)"

definition localDateTime :: "Calendar \<Rightarrow> string \<Rightarrow> Storage \<Rightarrow> go_time \<Rightarrow> string \<Rightarrow> string" where
  "localDateTime cal browserTimezone st date timezone =
     (case Option.bind (cl_Parts cal date (orElse timezone (workTimezone browserTimezone st))) zonedDateTime of
        Some s \<Rightarrow> s
      | None \<Rightarrow> (case cl_Local cal date of (year, month, day, hour, minute) \<Rightarrow>
          Itoa year @ ''-'' @ padStart2 (Itoa (month + 1)) @ ''-'' @ padStart2 (Itoa day) @ ''T'' @
          padStart2 (Itoa hour) @ '':'' @ padStart2 (Itoa minute)))"

definition preferredScheduleTimezone :: "string \<Rightarrow> Storage \<Rightarrow> string" where
  "preferredScheduleTimezone browserTimezone st = workTimezone browserTimezone st"

text \<open>
  \<open>hydrateNewScheduleTimes\<close> of \<open>schedule_form\<close>, on the page whose controls show these values: the select of
  the time zones and the inputs \<open>starts_at\<close> and \<open>run_at\<close> of a new job.
\<close>

definition hydrateNewScheduleTimes :: "Calendar \<Rightarrow> string \<Rightarrow> Storage \<Rightarrow> go_time \<Rightarrow> FormPage \<Rightarrow> FormPage" where
  "hydrateNewScheduleTimes cal browserTimezone st now d =
     (if \<not> fp_IsNew d then d
      else (let preferred = preferredScheduleTimezone browserTimezone st;
                (options, zone) = selectTimezone (fp_Timezones d) (sc_Timezone (fp_Schedule d)) preferred;
                later = now + 5 * 60 * 1000000000
            in d\<lparr>fp_Timezones := options, fp_Schedule := (fp_Schedule d)\<lparr>sc_Timezone := zone,
                 sc_StartsAt := localDateTime cal browserTimezone st now preferred,
                 sc_RunAt := localDateTime cal browserTimezone st later preferred\<rparr>\<rparr>))"

text \<open>\<open>syncTimezoneLabels\<close>: the text of every label, from the chosen option.\<close>

definition timezoneLabel :: "FormPage \<Rightarrow> string" where
  "timezoneLabel d = orElse (selectInput (fp_Timezones d) (sc_Timezone (fp_Schedule d))) ''UTC''"

text \<open>The guided form as it opens in a browser.\<close>

definition openWizardAt ::
    "(string \<Rightarrow> string option) \<Rightarrow> Decoders \<Rightarrow> (string \<Rightarrow> string) \<Rightarrow> Calendar \<Rightarrow> string \<Rightarrow> Storage \<Rightarrow> go_time \<Rightarrow> FormPage \<Rightarrow> Wizard" where
  "openWizardAt localeText dec dateInput cal browserTimezone st now d =
     (let preferred = preferredScheduleTimezone browserTimezone st in
      openWizard localeText dec dateInput preferred (localDateTime cal browserTimezone st now preferred)
        (localDateTime cal browserTimezone st (now + 5 * 60 * 1000000000) preferred) d)"

section \<open>Formatting again\<close>

text \<open>Formatting once more, under other settings, gives what formatting under these gives.\<close>

lemma map_of_without: "n \<noteq> k \<Longrightarrow> map_of (filter (\<lambda>a. fst a \<noteq> k) as) n = map_of as n"
  by (induction as) auto

lemma attrs_unhidden:
  assumes "set extra \<subseteq> {(''hidden'', Some [])}" "n \<noteq> ''hidden''"
  shows "attrValue (filter (\<lambda>a. fst a \<noteq> ''hidden'') as @ extra) n = attrValue as n"
    "hasAttr (filter (\<lambda>a. fst a \<noteq> ''hidden'') as @ extra) n = hasAttr as n"
    "filter (\<lambda>a. fst a \<noteq> ''hidden'') (filter (\<lambda>a. fst a \<noteq> ''hidden'') as @ extra) = filter (\<lambda>a. fst a \<noteq> ''hidden'') as"
proof -
  have "map_of extra n = None" using assms by (auto simp: map_of_eq_None_iff)
  then show "attrValue (filter (\<lambda>a. fst a \<noteq> ''hidden'') as @ extra) n = attrValue as n"
    using assms(2) by (simp add: attrValue_def map_add_def map_of_without split: option.split)
  show "hasAttr (filter (\<lambda>a. fst a \<noteq> ''hidden'') as @ extra) n = hasAttr as n"
    using assms by (fastforce simp: hasAttr_def)
  have "filter (\<lambda>a. fst a \<noteq> ''hidden'') extra = []" using assms by (fastforce simp: filter_empty_conv)
  then show "filter (\<lambda>a. fst a \<noteq> ''hidden'') (filter (\<lambda>a. fst a \<noteq> ''hidden'') as @ extra) = filter (\<lambda>a. fst a \<noteq> ''hidden'') as"
    by simp
qed

lemma formatElement_context:
  assumes "\<not> (hasClass ''local-time'' as \<and> hasAttr as ''data-time'')"
    "\<not> (hasClass ''wall-time'' as \<and> hasAttr as ''data-hour'' \<and> hasAttr as ''data-minute'')"
  shows "formatElement br st as =
    (if hasClass ''timezone-context'' as \<and> hasAttr as ''data-source-tz''
     then (let same = (sourceTimezone as = workTimezone (br_Timezone br) st); as' = filter (\<lambda>a. fst a \<noteq> ''hidden'') as in
            Some (if same then as' @ [(''hidden'', Some [])] else as',
              if same then [] else bytesOf [0x20, 0xC2, 0xB7, 0x20] @ ''Configured in '' @ sourceTimezone as))
     else None)"
  using assms by (simp only: formatElement_def if_False)

lemma formatElement_again:
  assumes "formatElement br st as = Some (as', s)"
  shows "formatElement br st' as' = formatElement br st' as"
proof -
  consider "as' = as" | "as' = filter (\<lambda>a. fst a \<noteq> ''hidden'') as @
      (if sourceTimezone as = workTimezone (br_Timezone br) st then [(''hidden'', Some [])] else [])"
      "\<not> (hasClass ''local-time'' as \<and> hasAttr as ''data-time'')"
      "\<not> (hasClass ''wall-time'' as \<and> hasAttr as ''data-hour'' \<and> hasAttr as ''data-minute'')"
    using assms by (auto simp: formatElement_def Let_def split: if_splits)
  then show ?thesis
  proof cases
    case 2
    have "set (if sourceTimezone as = workTimezone (br_Timezone br) st then [(''hidden'', Some [])] else []) \<subseteq> {(''hidden'', Some [])}"
      by auto
    note same = attrs_unhidden [OF this, of _ as, folded 2(1)]
    then have "filter (\<lambda>a. fst a \<noteq> ''hidden'') as' = filter (\<lambda>a. fst a \<noteq> ''hidden'') as" by blast
    moreover have c: "hasClass c as' = hasClass c as" for c by (simp add: hasClass_def same(1))
    moreover have "\<not> (hasClass ''local-time'' as' \<and> hasAttr as' ''data-time'')"
      "\<not> (hasClass ''wall-time'' as' \<and> hasAttr as' ''data-hour'' \<and> hasAttr as' ''data-minute'')"
      using 2(2,3) by (simp_all add: c same(2))
    moreover have "sourceTimezone as' = sourceTimezone as" by (simp add: sourceTimezone_def same(1))
    ultimately show ?thesis
      by (simp add: formatElement_context 2(2,3) same(2) Let_def split del: if_split cong: if_cong)
  qed simp
qed

lemma formatElement_None: "formatElement br st as = None \<longleftrightarrow> formatElement br st' as = None"
  by (simp add: formatElement_def Let_def)

lemma dropWhile_tail: "dropWhile P xs = [] \<or> \<not> P (hd (dropWhile P xs))"
  using hd_dropWhile by blast

lemma formatPage_again: "formatPage br st' (formatPage br st ts) = formatPage br st' ts"
proof (induction br st ts rule: formatPage.induct)
  case (2 br st n as ts)
  let ?rest = "dropWhile (\<lambda>t. t \<noteq> Close n) ts"
  show ?case
  proof (cases "formatElement br st as")
    case None
    then have "formatElement br st' as = None" using formatElement_None by blast
    then show ?thesis using 2 None by simp
  next
    case (Some p)
    obtain as' s where p: "p = (as', s)" by (cases p)
    have "?rest = [] \<or> (\<exists>us. ?rest = Close n # us)"
      using dropWhile_tail [of "\<lambda>t. t \<noteq> Close n" ts] by (cases ?rest) simp_all
    then have "formatPage br st ?rest = [] \<or> (\<exists>us. formatPage br st ?rest = Close n # us)"
      by (elim disjE exE) (simp_all del: dropWhile_eq_Nil_conv)
    then have "dropWhile (\<lambda>t. t \<noteq> Close n) (formatPage br st ?rest) = formatPage br st ?rest" by auto
    then show ?thesis
      using 2(2) [OF Some p [symmetric]] formatElement_again [OF Some [unfolded p], of st'] formatElement_None [of br st as st'] Some p
      by (auto split: option.splits)
  qed
qed simp_all

section \<open>Settings\<close>

text \<open>What the reader picks is what is used from then on, whatever an older release had stored.\<close>

lemma setWorkTimezone_used:
  "tz \<noteq> [] \<Longrightarrow> workTimezone browserTimezone (setWorkTimezone tz st) = tz"
  "workTimezone browserTimezone (setTimeFormat fmt st) = workTimezone browserTimezone st"
  by (simp_all add: workTimezone_def setWorkTimezone_def setTimeFormat_def storedOr_def orElse_def timezoneKey_def formatKey_def
      legacyTimezoneKey_def)

lemma setTimeFormat_used:
  "fmt \<noteq> [] \<Longrightarrow> timeFormat (setTimeFormat fmt st) = fmt"
  "timeFormat (setWorkTimezone tz st) = timeFormat st"
  by (simp_all add: timeFormat_def setWorkTimezone_def setTimeFormat_def storedOr_def orElse_def timezoneKey_def formatKey_def
      legacyFormatKey_def)

text \<open>The preferred zone is chosen even when the page does not list it.\<close>

lemma hydrated_zone:
  assumes "fp_IsNew d" "preferredScheduleTimezone browserTimezone st = tz" "tz \<noteq> []"
  shows "sc_Timezone (fp_Schedule (hydrateNewScheduleTimes cal browserTimezone st now d)) = tz"
    "tz \<in> set (fp_Timezones (hydrateNewScheduleTimes cal browserTimezone st now d))"
    "timezoneLabel (hydrateNewScheduleTimes cal browserTimezone st now d) = orElse (visible tz) ''UTC''"
  using assms by (simp_all add: hydrateNewScheduleTimes_def selectTimezone_def ensureOption_def Let_def timezoneLabel_def selectInput_def)

end
