(* ===== verification/IndexScript.thy ===== *)
theory IndexScript
  imports PageReading TimeHelpers
begin

text \<open>
  internal/server/http.go, the script of the index page: the clicks, the filter of the runs, the choices of
  the toolbar, and the refresh that replaces the sections of jobs and runs every three seconds.  A
  document is the list of its tags and texts.  Whatever the reader does, the sections show the page that
  the server last answered, printed under the settings of the moment.
\<close>

section \<open>The state of the page\<close>


section \<open>The filter\<close>

text \<open>\<open>searchParams.set\<close> and \<open>delete\<close>.\<close>

fun paramsSet :: "string \<Rightarrow> string \<Rightarrow> Values \<Rightarrow> Values" where
  "paramsSet k v [] = [(k, v)]"
| "paramsSet k v (p # ps) = (if fst p = k then (k, v) # filter (\<lambda>q. fst q \<noteq> k) ps else p # paramsSet k v ps)"

definition paramsDelete :: "string \<Rightarrow> Values \<Rightarrow> Values" where
  "paramsDelete k ps = filter (\<lambda>q. fst q \<noteq> k) ps"

text \<open>The address that the browser loads when the reader picks a job, or all.\<close>

definition filterRuns :: "string \<Rightarrow> Values \<Rightarrow> Values" where
  "filterRuns job ps = (if job \<noteq> [] then paramsSet ''job'' job ps else paramsDelete ''job'' ps)"




section \<open>Clicks\<close>



section \<open>The refresh\<close>










section \<open>The page and the server\<close>








section \<open>Formatting by parts\<close>

text \<open>Where an element that is formatted is closed, formatting goes part by part.\<close>

definition quietAttrs :: "attrs \<Rightarrow> bool" where
  "quietAttrs as \<longleftrightarrow> fst ` set as \<inter> {''data-time'', ''data-hour'', ''data-source-tz'', ''data-live-section''} = {}"











section \<open>The parts of the page\<close>






lemma quietAttrs_view [simp]: "quietAttrs (map viewAttr as) = quietAttrs as"
  by (simp add: quietAttrs_def viewAttr_def image_image)

lemma quietAttrs_simps [simp]:
  "quietAttrs []"
  "quietAttrs (a # as) \<longleftrightarrow>
    fst a \<notin> {''data-time'', ''data-hour'', ''data-source-tz'', ''data-live-section''} \<and> quietAttrs as"
  by (auto simp: quietAttrs_def)











section \<open>The live sections\<close>








lemma viewHtml_Nil [simp]: "viewHtml [] = []"
  by (simp add: viewHtml_def)








section \<open>What the server answers to a poll\<close>





section \<open>The open page\<close>







end
