(* ===== verification/Spec2Isabelle.thy ===== *)
theory Spec2Isabelle
  imports StoreProperties EngineProperties SystemProperties ConfigProperties PageProperties LoadTestMain Lifecycle FaktoryExample WizardProperties IndexScript
begin

text \<open>
  Clock Relay: a verification library.

  The program.  Clock Relay is a job scheduler in one Go process.  \<open>main\<close> (src/cmd/clock-relay) loads a YAML
  configuration, opens a store, creates the engine and serves a web interface.  The engine keeps the
  table of schedules, registers each active one with a cron library, and turns every firing or manual
  trigger into a run: a record written to the store, a request to an HTTP or Faktory target in a
  goroutine of its own, and the outcome written back.  The store keeps schedules and runs, in memory or
  in a bbolt database with two indexes and a counter, and prunes old runs.  The web server shows jobs
  and runs and turns forms into calls of the engine.  Two more programs stand beside it: a load test of
  the pruning (src/tools/run-retention-loadtest) and a Faktory worker as an example (src/examples/faktory).

  Which theory models what.
   \<^item> Prelude, GoStrings, GoTime, GoDuration, TimeFormat, Urls: what the program uses of Go and its standard library:
     errors as the left side of a sum, byte strings, int64 durations with their wrap-around, instants as
     integers, the layouts of \<open>time.Format\<close>, net/url; Json: encoding/json for values of type \<open>any\<close>, decoder
     and printer; JsonRoundtrip: what is printed is decoded as it was.  No definition there stands for a
     line of the program.
   \<^item> Config: internal/config/config.go.  RunModel: internal/model/model.go and the specification of retention.
   \<^item> StoreContract: the interface \<open>store.Store\<close> as a record of functions and its contract as a locale;
     MemoryStore, BoltStore: the two implementations in internal/store/store.go, over the bucket interface
     of BoltApi; RunCodec: what is written as JSON.  BoltInvariant, BoltWrites, BoltPrune, BoltContract: the
     index invariant, operation by operation, up to the interpretation of the contract.
   \<^item> Scheduling: when rate, once and cron schedules fire; RunIdentity: \<open>runID\<close>, with SHA-1; Target:
     internal/target; Engine: internal/engine/engine.go, state and handlers, over the cron library of CronApi.
     EngineTable, EngineRuns, EngineHistory: the invariants of schedules and cron entries, of running runs and
     of the size of the history, for any store and any cron library with their contracts; EngineInstances:
     the interpretations on both stores.
   \<^item> EngineSystem: the engine with its callers at work at the same time, as a step relation.  Handlers under
     the engine's lock are one step, \<open>Trigger\<close> is four, because it releases the lock in between.
   \<^item> Requests, Labels, Server: internal/server/http.go, reading requests, the labels, the handlers and the mux.
     Html, Pages, FormPages: the templates as lists of tags and texts, printed with html/template's escaping;
     PageReading, FormFields, FormSubmit: what a browser reads from a page and submits from a form.
     Wizard: the script of the guided form as a state machine over the values of its controls.
     TimeHelpers: the settings of the reader and the printing of instants; IndexScript: the script of the
     index page, with its polls of the server, as a state machine over the tokens of the document.
     ServerSystem: the server as a caller of the engine.
   \<^item> Launch, Lifecycle: src/cmd/clock-relay, with \<open>Start\<close> and \<open>Stop\<close> of the engine; LoadTest,
     LoadTestMain: src/tools/run-retention-loadtest; FaktoryExample: src/examples/faktory/runner.
  A struct is a record with the source's fields, a method a function from the receiver's state to a result and
  the new state, named after the method (\<open>ms_\<close> and \<open>bs_\<close> tell the stores' methods apart); an error return is
  \<open>Inl\<close>, so every early return is a branch of the model.  Go visits a map in any order: functions that range
  over a map take the order as an argument, and the theorems hold for every order.

  What is shown.
   \<^item> StoreProperties: saving keeps the indexes and the counter exact, pruning meets the retention
     specification in both stores, both stores prune and list alike, \<open>HasRunningRun\<close> is exact, an older
     database is upgraded without a change to its runs.
   \<^item> EngineProperties: what a trigger, a run, saving, deleting and pausing do on success and on every error.
   \<^item> SystemProperties: in every interleaving the cron table follows the schedules, the history stays bounded
     at every moment; and what goes wrong: two overlapping triggers of an exclusive job, a run that a killed
     process left running, a start that fails half way.
   \<^item> ConfigProperties: validation is exact, rate schedules fire at the least instant after the given one,
     validated schedules convert, HTTP targets are classified exactly, index keys order as instants.
   \<^item> ServerProperties, PageProperties: every request is a sequence of engine steps, only POST changes anything,
     headers, arguments and errors survive their way through a form or an address, every page reads in a browser as
     the template wrote it, every button reaches its job, and what saving an untouched form makes of a job.
   \<^item> WizardProperties: the guided form never passes an incomplete step and its review shows what it sends,
     but it can make no job whose type is not a job name once underscores are hyphens.
   \<^item> IndexScript: an open index page shows, in its live sections, what the server last answered.
   \<^item> Launch, Lifecycle, LoadTestMain, FaktoryExample: the invariants hold from the start of the process on, a
     process can always be brought to its end, and in time leaves no run behind as running, the load test
     keeps the newest runs in both modes and its loop ends, the probe of the example tells what was performed.

  Bounds and termination.  There is no fuel: every loop of the program is a recursion whose termination is
  proved, by the length of what is left to read (\<open>readHtml\<close>, \<open>readAttrs\<close>, \<open>formData\<close>, \<open>jsonString\<close>,
  \<open>readString\<close>, \<open>decodeFrom\<close>), by the distance
  to a limit (\<open>insertFrom\<close>) or by structure.  A bucket holds less than \<open>2 ^ 48\<close> entries, which is what bbolt can
  map, so its counter never wraps; the load test is bounded to \<open>2 ^ 33\<close> runs, where the instants of its runs
  would leave the range of a duration.  The history holds at most the configured number of runs and 99 more,
  one less than the pruning interval.

  Outside the model, as arguments with their documented behaviour as named hypotheses: the time zone
  database, the YAML decoder, the decoder of a save posted as JSON, the text strconv prints for a float64,
  the parser of cron expressions and the cron
  library, bbolt, the HTTP client, the Faktory client and worker libraries, files and environment.

  Not modelled: a number beyond the range of a float64 in the values the bbolt store writes; the style
  sheets of the pages; how a browser prints instants in its language and what
  it knows of time zones (arguments of Wizard and TimeHelpers); a browser that refuses to keep settings; the
  heads of the documents; the sockets of the HTTP listener and its timeouts; the shutdown of the example;
  CONNECT requests; limits of the number of query parameters; parsing of command-line flags, timing and printing of the load test; concurrency of the
  workers of the example, whose calls of the recorder are taken in some order.
\<close>

end
